(* ===== verification/Errorx.thy ===== *)
theory Errorx
  imports Prelude
begin

text \<open>
  The component internal/errorx: the typed error, its kinds with their names and HTTP
  statuses, and the chain operations \<open>Wrap\<close>, \<open>KindOf\<close> and \<open>IsKind\<close>. A Go \<open>error\<close> that is not
  an \<open>errorx.Error\<close> (a driver error, a standard-library error, the result of
  \<open>fmt.Errorf\<close> with \<open>%w\<close>) is \<open>Foreign\<close>, with its message and what it wraps. A nil error is the
  absence of a value: \<open>None\<close> here, the \<open>Inr\<close> side of a result everywhere else.
  The second half is the error-and-state monad in which the services are written.
\<close>

section \<open>Kinds\<close>

datatype kind =
    KindUnknown | KindInternal | KindCanceled | KindInvalidArgument | KindDeadlineExceeded
  | KindNotFound | KindAlreadyExists | KindPermissionDenied | KindResourceExhausted
  | KindFailedPrecondition | KindAborted | KindOutOfRange | KindUnimplemented
  | KindUnavailable | KindDataLoss | KindUnauthenticated | KindRevisionConflict

fun kind_string :: "kind \<Rightarrow> string" where
  "kind_string KindCanceled = ''canceled''"
| "kind_string KindInvalidArgument = ''invalid_argument''"
| "kind_string KindDeadlineExceeded = ''deadline_exceeded''"
| "kind_string KindNotFound = ''not_found''"
| "kind_string KindAlreadyExists = ''already_exists''"
| "kind_string KindPermissionDenied = ''permission_denied''"
| "kind_string KindResourceExhausted = ''resource_exhausted''"
| "kind_string KindFailedPrecondition = ''failed_precondition''"
| "kind_string KindAborted = ''aborted''"
| "kind_string KindOutOfRange = ''out_of_range''"
| "kind_string KindUnimplemented = ''unimplemented''"
| "kind_string KindInternal = ''internal''"
| "kind_string KindUnavailable = ''unavailable''"
| "kind_string KindDataLoss = ''data_loss''"
| "kind_string KindUnauthenticated = ''unauthenticated''"
| "kind_string KindRevisionConflict = ''revision_conflict''"
| "kind_string KindUnknown = ''unknown''"

fun kind_status :: "kind \<Rightarrow> nat" where
  "kind_status KindCanceled = 499"
| "kind_status KindInvalidArgument = 400"
| "kind_status KindDeadlineExceeded = 504"
| "kind_status KindNotFound = 404"
| "kind_status KindAlreadyExists = 409"
| "kind_status KindPermissionDenied = 403"
| "kind_status KindResourceExhausted = 429"
| "kind_status KindFailedPrecondition = 412"
| "kind_status KindAborted = 409"
| "kind_status KindOutOfRange = 400"
| "kind_status KindUnimplemented = 501"
| "kind_status KindInternal = 500"
| "kind_status KindUnavailable = 503"
| "kind_status KindDataLoss = 500"
| "kind_status KindUnauthenticated = 401"
| "kind_status KindRevisionConflict = 409"
| "kind_status KindUnknown = 500"

section \<open>Errors and their chains\<close>

datatype gerror =
    Errx (err_kind: kind) (err_msg: string) (err_cause: "gerror option")
  | Foreign (err_msg: string) (err_cause: "gerror option")

text \<open>\<open>Error()\<close>: "outer: inner" along the chain. The text of a foreign error is its own.\<close>

fun error_text :: "gerror \<Rightarrow> string" where
  "error_text (Errx k m None) = m"
| "error_text (Errx k m (Some c)) = m @ '': '' @ error_text c"
| "error_text (Foreign m c) = m"

definition New :: "kind \<Rightarrow> string \<Rightarrow> gerror" where
  "New k m = Errx k m None"

definition Unwrap :: "gerror \<Rightarrow> gerror option" where
  "Unwrap e = err_cause e"

text \<open>\<open>errors.AsType[errorx.Error]\<close>: the first \<open>errorx.Error\<close> of the chain.\<close>

fun as_errorx :: "gerror \<Rightarrow> gerror option" where
  "as_errorx (Errx k m c) = Some (Errx k m c)"
| "as_errorx (Foreign m None) = None"
| "as_errorx (Foreign m (Some c)) = as_errorx c"

text \<open>\<open>Wrap(err, message, kind...)\<close>; \<open>Wrap(nil, ...)\<close> is nil.\<close>

definition Wrap :: "gerror option \<Rightarrow> string \<Rightarrow> kind list \<Rightarrow> gerror option" where
  "Wrap err m ks =
     (case err of
        None \<Rightarrow> None
      | Some e \<Rightarrow>
          (let k0 = (case as_errorx e of Some de \<Rightarrow> err_kind de | None \<Rightarrow> KindUnknown);
               k = (case ks of [] \<Rightarrow> k0 | k1 # _ \<Rightarrow> k1)
           in Some (Errx k m (Some e))))"

text \<open>\<open>KindOf\<close> loops over the chain with \<open>Unwrap\<close>, asking \<open>AsType\<close> at every link.\<close>

fun KindOf_err :: "gerror \<Rightarrow> kind" where
  "KindOf_err (Errx k m c) = k"
| "KindOf_err (Foreign m None) = KindUnknown"
| "KindOf_err (Foreign m (Some c)) =
     (case as_errorx (Foreign m (Some c)) of
        Some de \<Rightarrow> err_kind de
      | None \<Rightarrow> KindOf_err c)"

definition KindOf :: "gerror option \<Rightarrow> kind" where
  "KindOf err = (case err of None \<Rightarrow> KindUnknown | Some e \<Rightarrow> KindOf_err e)"

definition IsKind :: "gerror option \<Rightarrow> kind \<Rightarrow> bool" where
  "IsKind err k \<longleftrightarrow> KindOf err = k"

text \<open>The form in which call sites wrap an error known to be non-nil.\<close>

definition wrap_with :: "kind list \<Rightarrow> string \<Rightarrow> gerror \<Rightarrow> gerror" where
  "wrap_with ks m e = the (Wrap (Some e) m ks)"

lemma as_errorx_KindOf:
  "KindOf_err e = (case as_errorx e of Some de \<Rightarrow> err_kind de | None \<Rightarrow> KindUnknown)"
  by (induction e rule: as_errorx.induct) (auto split: option.splits)

lemma wrap_with_eq:
  "wrap_with ks m e = Errx (case ks of [] \<Rightarrow> KindOf_err e | k # _ \<Rightarrow> k) m (Some e)"
  by (auto simp: wrap_with_def Wrap_def as_errorx_KindOf split: list.splits option.splits)

lemma KindOf_wrap_with [simp]:
  "KindOf_err (wrap_with ks m e) = (case ks of [] \<Rightarrow> KindOf_err e | k # _ \<Rightarrow> k)"
  by (simp add: wrap_with_eq)

lemma KindOf_New [simp]: "KindOf_err (New k m) = k"
  by (simp add: New_def)

section \<open>The error-and-state monad\<close>

type_synonym ('w, 'a) M = "'w \<Rightarrow> (gerror + 'a) \<times> 'w"

definition retM :: "'a \<Rightarrow> ('w, 'a) M" where
  "retM x = (\<lambda>w. (Inr x, w))"

definition failM :: "gerror \<Rightarrow> ('w, 'a) M" where
  "failM e = (\<lambda>w. (Inl e, w))"

definition bindM :: "('w, 'a) M \<Rightarrow> ('a \<Rightarrow> ('w, 'b) M) \<Rightarrow> ('w, 'b) M" where
  "bindM m f = (\<lambda>w. case m w of (Inl e, w1) \<Rightarrow> (Inl e, w1) | (Inr x, w1) \<Rightarrow> f x w1)"

definition seqM :: "('w, 'a) M \<Rightarrow> ('w, 'b) M \<Rightarrow> ('w, 'b) M" where
  "seqM m k = bindM m (\<lambda>_. k)"

text \<open>\<open>if err != nil { return errorx.Wrap(err, msg, ks...) }\<close>.\<close>

definition wrapM :: "kind list \<Rightarrow> string \<Rightarrow> ('w, 'a) M \<Rightarrow> ('w, 'a) M" where
  "wrapM ks msg m = (\<lambda>w. case m w of (Inl e, w1) \<Rightarrow> (Inl (wrap_with ks msg e), w1) | r \<Rightarrow> r)"

text \<open>The general \<open>if err != nil { ... }\<close>: run \<open>m\<close>, then continue on either outcome.\<close>

definition tryM :: "('w, 'a) M \<Rightarrow> (gerror \<Rightarrow> ('w, 'b) M) \<Rightarrow> ('a \<Rightarrow> ('w, 'b) M) \<Rightarrow> ('w, 'b) M" where
  "tryM m h f = (\<lambda>w. case m w of (Inl e, w1) \<Rightarrow> h e w1 | (Inr x, w1) \<Rightarrow> f x w1)"

text \<open>A pure fallible computation.\<close>

definition liftM :: "gerror + 'a \<Rightarrow> ('w, 'a) M" where
  "liftM r = (\<lambda>w. (r, w))"

definition ensureM :: "bool \<Rightarrow> gerror \<Rightarrow> ('w, unit) M" where
  "ensureM b e = (if b then retM () else failM e)"

text \<open>A \<open>for\<close> loop over a slice with an accumulator, left at the first error.\<close>

fun foldM :: "('a \<Rightarrow> 'b \<Rightarrow> ('w, 'b) M) \<Rightarrow> 'a list \<Rightarrow> 'b \<Rightarrow> ('w, 'b) M" where
  "foldM f [] acc = retM acc"
| "foldM f (x # xs) acc = bindM (f x acc) (\<lambda>acc'. foldM f xs acc')"

lemma retM_apply [simp]: "retM x w = (Inr x, w)"
  by (simp add: retM_def)

lemma failM_apply [simp]: "failM e w = (Inl e, w)"
  by (simp add: failM_def)

lemma liftM_apply [simp]: "liftM r w = (r, w)"
  by (simp add: liftM_def)

lemma ensureM_apply [simp]: "ensureM b e w = (if b then Inr () else Inl e, w)"
  by (simp add: ensureM_def)

lemma bindM_Inr_iff [monad_simps]:
  "bindM m f w = (Inr y, w') \<longleftrightarrow> (\<exists>x w1. m w = (Inr x, w1) \<and> f x w1 = (Inr y, w'))"
  by (auto simp: bindM_def split: prod.splits sum.splits)

lemma bindM_Inl_iff [monad_simps]:
  "bindM m f w = (Inl e, w') \<longleftrightarrow>
     m w = (Inl e, w') \<or> (\<exists>x w1. m w = (Inr x, w1) \<and> f x w1 = (Inl e, w'))"
  by (auto simp: bindM_def split: prod.splits sum.splits)

lemma seqM_Inr_iff [monad_simps]:
  "seqM m k w = (Inr y, w') \<longleftrightarrow> (\<exists>x w1. m w = (Inr x, w1) \<and> k w1 = (Inr y, w'))"
  by (simp add: seqM_def bindM_Inr_iff)

lemma seqM_Inl_iff [monad_simps]:
  "seqM m k w = (Inl e, w') \<longleftrightarrow>
     m w = (Inl e, w') \<or> (\<exists>x w1. m w = (Inr x, w1) \<and> k w1 = (Inl e, w'))"
  by (simp add: seqM_def bindM_Inl_iff)

lemma wrapM_Inr_iff [monad_simps]: "wrapM ks s m w = (Inr y, w') \<longleftrightarrow> m w = (Inr y, w')"
  by (auto simp: wrapM_def split: prod.splits sum.splits)

lemma wrapM_Inl_iff [monad_simps]:
  "wrapM ks s m w = (Inl e, w') \<longleftrightarrow> (\<exists>e0. m w = (Inl e0, w') \<and> e = wrap_with ks s e0)"
  by (auto simp: wrapM_def split: prod.splits sum.splits)

lemma tryM_iff [monad_simps]:
  "tryM m h f w = (r, w') \<longleftrightarrow>
     (\<exists>e w1. m w = (Inl e, w1) \<and> h e w1 = (r, w')) \<or>
     (\<exists>x w1. m w = (Inr x, w1) \<and> f x w1 = (r, w'))"
  by (auto simp: tryM_def split: prod.splits sum.splits)

lemma bindM_run_Inr [simp]: "m w = (Inr x, w1) \<Longrightarrow> bindM m f w = f x w1"
  by (simp add: bindM_def)

lemma bindM_run_Inl [simp]: "m w = (Inl e, w1) \<Longrightarrow> bindM m f w = (Inl e, w1)"
  by (simp add: bindM_def)

lemma seqM_run_Inr [simp]: "m w = (Inr x, w1) \<Longrightarrow> seqM m k w = k w1"
  by (simp add: seqM_def)

lemma seqM_run_Inl [simp]: "m w = (Inl e, w1) \<Longrightarrow> seqM m k w = (Inl e, w1)"
  by (simp add: seqM_def)

lemma wrapM_run_Inr [simp]: "m w = (Inr x, w1) \<Longrightarrow> wrapM ks s m w = (Inr x, w1)"
  by (simp add: wrapM_def)

lemma wrapM_run_Inl [simp]:
  "m w = (Inl e, w1) \<Longrightarrow> wrapM ks s m w = (Inl (wrap_with ks s e), w1)"
  by (simp add: wrapM_def)

lemma tryM_run_Inr [simp]: "m w = (Inr x, w1) \<Longrightarrow> tryM m h f w = f x w1"
  by (simp add: tryM_def)

lemma tryM_run_Inl [simp]: "m w = (Inl e, w1) \<Longrightarrow> tryM m h f w = h e w1"
  by (simp add: tryM_def)

lemma bindM_cong [fundef_cong]:
  "m w = m' w' \<Longrightarrow> w = w' \<Longrightarrow> (\<And>x w1. m' w' = (Inr x, w1) \<Longrightarrow> f x w1 = f' x w1) \<Longrightarrow>
   bindM m f w = bindM m' f' w'"
  by (auto simp: bindM_def split: prod.splits sum.splits)

end
