(* ===== verification/GoJson.thy ===== *)
theory GoJson
  imports Prelude
begin

text \<open>
  What the sources use of encoding/json and unicode/utf8: the bytes \<open>json.Marshal\<close> writes for
  strings, numbers, arrays and objects (HTML escaping on, as \<open>Marshal\<close> has it), and the
  reading of a whole JSON text back into a value. Strings are byte lists; bytes that are
  not valid UTF-8 are replaced by U+FFFD in both directions. A number is kept as its
  literal. The locale \<open>codec\<close> at the end is the interface every payload codec of the
  repository offers.
\<close>

section \<open>UTF-8\<close>

definition byte_in :: "nat \<Rightarrow> nat \<Rightarrow> char \<Rightarrow> bool" where
  "byte_in lo hi c \<longleftrightarrow> lo \<le> (of_char c :: nat) \<and> (of_char c :: nat) \<le> hi"

text \<open>The length of the UTF-8 sequence at the head of a byte string, 0 if there is none.\<close>

fun utf8_len :: "string \<Rightarrow> nat" where
  "utf8_len [] = 0"
| "utf8_len (a # s) =
     (if byte_in 0 0x7F a then 1
      else if byte_in 0xC2 0xDF a then
        (case s of b # _ \<Rightarrow> if byte_in 0x80 0xBF b then 2 else 0 | [] \<Rightarrow> 0)
      else if byte_in 0xE0 0xEF a then
        (case s of b # c # _ \<Rightarrow>
            if byte_in (if a = CHR 0xE0 then 0xA0 else 0x80) (if a = CHR 0xED then 0x9F else 0xBF) b
               \<and> byte_in 0x80 0xBF c then 3 else 0
         | _ \<Rightarrow> 0)
      else if byte_in 0xF0 0xF4 a then
        (case s of b # c # d # _ \<Rightarrow>
            if byte_in (if a = CHR 0xF0 then 0x90 else 0x80) (if a = CHR 0xF4 then 0x8F else 0xBF) b
               \<and> byte_in 0x80 0xBF c \<and> byte_in 0x80 0xBF d then 4 else 0
         | _ \<Rightarrow> 0)
      else 0)"

definition rune_error :: string where
  "rune_error = [CHR 0xEF, CHR 0xBF, CHR 0xBD]"

function to_valid :: "string \<Rightarrow> string" where
  "to_valid [] = []"
| "to_valid (a # s) =
     (let n = utf8_len (a # s) in
      if n = 0 then rune_error @ to_valid s
      else take n (a # s) @ to_valid (drop (n - 1) s))"
  by pat_completeness auto
termination
  by (relation "measure length") auto

function valid_utf8 :: "string \<Rightarrow> bool" where
  "valid_utf8 [] \<longleftrightarrow> True"
| "valid_utf8 (a # s) \<longleftrightarrow>
     (let n = utf8_len (a # s) in n \<noteq> 0 \<and> valid_utf8 (drop (n - 1) s))"
  by pat_completeness auto
termination
  by (relation "measure length") auto

declare to_valid.simps(2) [simp del] valid_utf8.simps(2) [simp del]
declare utf8_len.simps(2) [simp del]

definition ascii :: "string \<Rightarrow> bool" where
  "ascii s \<longleftrightarrow> list_all (byte_in 0 0x7F) s"

lemma ascii_simps [simp]: "ascii []" "ascii (c # s) \<longleftrightarrow> byte_in 0 0x7F c \<and> ascii s"
  by (simp_all add: ascii_def)

lemma utf8_len_ascii [simp]: "byte_in 0 0x7F a \<Longrightarrow> utf8_len (a # s) = 1"
  by (simp add: utf8_len.simps)

lemma ascii_valid: "ascii s \<Longrightarrow> valid_utf8 s"
  by (induction s) (auto simp: valid_utf8.simps(2))

lemma valid_utf8_to_valid: "valid_utf8 s \<Longrightarrow> to_valid s = s"
proof (induction s rule: valid_utf8.induct)
  case 1
  show ?case by simp
next
  case (2 a s)
  let ?n = "utf8_len (a # s)"
  from "2.prems" have n: "?n \<noteq> 0" and v: "valid_utf8 (drop (?n - 1) s)"
    by (simp_all add: valid_utf8.simps(2) Let_def)
  have ih: "to_valid (drop (?n - 1) s) = drop (?n - 1) s"
    using "2.IH" [OF refl v] by simp
  have "take ?n (a # s) @ drop (?n - 1) s = a # s"
    using n by (cases ?n) auto
  then show ?case using n ih by (simp add: to_valid.simps(2) Let_def)
qed

text \<open>A decoded sequence decodes again whatever bytes follow it.\<close>

lemma utf8_len_take:
  "utf8_len (a # s) = n \<Longrightarrow> n \<noteq> 0 \<Longrightarrow> utf8_len (take n (a # s) @ r) = n"
  by (auto simp: utf8_len.simps split: if_splits list.splits)

lemma utf8_len_le: "utf8_len s \<le> length s"
  by (cases s) (auto simp: utf8_len.simps split: list.splits)

section \<open>String literals\<close>

definition hex_digit :: "nat \<Rightarrow> char" where
  "hex_digit d = (if d < 10 then char_of (48 + d) else char_of (87 + d))"

text \<open>\<open>appendString\<close> on one ASCII byte: letters as they are, the escapes, \<open>\<backslash>u00XX\<close> for the rest
  and for the three HTML characters.\<close>

definition esc_ascii :: "char \<Rightarrow> string" where
  "esc_ascii c =
     (if c = CHR 0x5C \<or> c = CHR 0x22 then [CHR 0x5C, c]
      else if c = CHR 0x08 then [CHR 0x5C, CHR ''b'']
      else if c = CHR 0x0C then [CHR 0x5C, CHR ''f'']
      else if c = CHR 0x0A then [CHR 0x5C, CHR ''n'']
      else if c = CHR 0x0D then [CHR 0x5C, CHR ''r'']
      else if c = CHR 0x09 then [CHR 0x5C, CHR ''t'']
      else if byte_in 0 0x1F c \<or> c = CHR ''<'' \<or> c = CHR ''>'' \<or> c = CHR ''&'' then
        [CHR 0x5C, CHR ''u'', CHR ''0'', CHR ''0'',
         hex_digit (of_char c div 16), hex_digit (of_char c mod 16)]
      else [c])"

function json_esc :: "string \<Rightarrow> string" where
  "json_esc [] = []"
| "json_esc (a # s) =
     (if byte_in 0 0x7F a then esc_ascii a @ json_esc s
      else
        (let n = utf8_len (a # s) in
         if n = 0 then [CHR 0x5C, CHR ''u'', CHR ''f'', CHR ''f'', CHR ''f'', CHR ''d''] @ json_esc s
         else
           (let q = take n (a # s); rest = json_esc (drop (n - 1) s) in
            if q = [CHR 0xE2, CHR 0x80, CHR 0xA8] then
              [CHR 0x5C, CHR ''u'', CHR ''2'', CHR ''0'', CHR ''2'', CHR ''8''] @ rest
            else if q = [CHR 0xE2, CHR 0x80, CHR 0xA9] then
              [CHR 0x5C, CHR ''u'', CHR ''2'', CHR ''0'', CHR ''2'', CHR ''9''] @ rest
            else q @ rest)))"
  by pat_completeness auto
termination
  by (relation "measure length") auto

declare json_esc.simps(2) [simp del]

definition json_quote :: "string \<Rightarrow> string" where
  "json_quote s = CHR 0x22 # json_esc s @ [CHR 0x22]"

definition hex_val :: "char \<Rightarrow> nat option" where
  "hex_val c =
     (if byte_in 48 57 c then Some (of_char c - 48)
      else if byte_in 97 102 c then Some (of_char c - 87)
      else if byte_in 65 70 c then Some (of_char c - 55)
      else None)"

definition getu4 :: "string \<Rightarrow> nat option" where
  "getu4 s =
     (case s of a # b # c # d # _ \<Rightarrow>
        (case (hex_val a, hex_val b, hex_val c, hex_val d) of
           (Some w, Some x, Some y, Some z) \<Rightarrow> Some (((w * 16 + x) * 16 + y) * 16 + z)
         | _ \<Rightarrow> None)
      | _ \<Rightarrow> None)"

text \<open>\<open>utf8.AppendRune\<close>: surrogates and out-of-range values become U+FFFD.\<close>

definition encode_rune :: "nat \<Rightarrow> string" where
  "encode_rune r =
     (if r < 0x80 then [char_of r]
      else if r < 0x800 then [char_of (0xC0 + r div 64), char_of (0x80 + r mod 64)]
      else if 0xD800 \<le> r \<and> r \<le> 0xDFFF \<or> 0x10FFFF < r then rune_error
      else if r < 0x10000 then
        [char_of (0xE0 + r div 4096), char_of (0x80 + r div 64 mod 64), char_of (0x80 + r mod 64)]
      else
        [char_of (0xF0 + r div 262144), char_of (0x80 + r div 4096 mod 64),
         char_of (0x80 + r div 64 mod 64), char_of (0x80 + r mod 64)])"

definition high_surrogate :: "nat \<Rightarrow> bool" where
  "high_surrogate r \<longleftrightarrow> 0xD800 \<le> r \<and> r < 0xDC00"

definition low_surrogate :: "nat \<Rightarrow> bool" where
  "low_surrogate r \<longleftrightarrow> 0xDC00 \<le> r \<and> r < 0xE000"

definition map_fst_opt :: "('a \<Rightarrow> 'b) \<Rightarrow> ('a \<times> 'c) option \<Rightarrow> ('b \<times> 'c) option" where
  "map_fst_opt f r = (case r of None \<Rightarrow> None | Some (x, y) \<Rightarrow> Some (f x, y))"

lemma map_fst_opt_simps [simp]:
  "map_fst_opt f None = None" "map_fst_opt f (Some (x, y)) = Some (f x, y)"
  by (simp_all add: map_fst_opt_def)

lemma map_fst_opt_single: "map_fst_opt ((@) [c]) r = map_fst_opt ((#) c) r"
  by (cases r) auto

text \<open>The second half of a surrogate pair, when the input goes on with one.\<close>

definition pair_low :: "nat \<Rightarrow> string \<Rightarrow> nat option" where
  "pair_low r s =
     (if high_surrogate r then
        (case s of b # u # t \<Rightarrow>
           if b = CHR 0x5C \<and> u = CHR ''u'' then
             (case getu4 t of Some r1 \<Rightarrow> if low_surrogate r1 then Some r1 else None | None \<Rightarrow> None)
           else None
         | _ \<Rightarrow> None)
      else None)"

definition esc_char :: "char \<Rightarrow> char option" where
  "esc_char c =
     (if c = CHR 0x22 \<or> c = CHR 0x5C \<or> c = CHR ''/'' then Some c
      else if c = CHR ''b'' then Some (CHR 0x08)
      else if c = CHR ''f'' then Some (CHR 0x0C)
      else if c = CHR ''n'' then Some (CHR 0x0A)
      else if c = CHR ''r'' then Some (CHR 0x0D)
      else if c = CHR ''t'' then Some (CHR 0x09)
      else None)"

text \<open>\<open>unquote\<close>, from after the opening quote to the closing one: the decoded bytes and what
  follows the literal.\<close>

function json_unq :: "string \<Rightarrow> (string \<times> string) option" where
  "json_unq [] = None"
| "json_unq (a # s) =
     (if a = CHR 0x22 then Some ([], s)
      else if a = CHR 0x5C then
        (case s of
           [] \<Rightarrow> None
         | e # t \<Rightarrow>
             if e = CHR ''u'' then
               (case getu4 t of
                  None \<Rightarrow> None
                | Some r \<Rightarrow>
                    (case pair_low r (drop 4 t) of
                       Some r1 \<Rightarrow>
                         map_fst_opt (\<lambda>x. encode_rune (0x10000 + (r - 0xD800) * 1024 + (r1 - 0xDC00)) @ x)
                           (json_unq (drop 10 t))
                     | None \<Rightarrow> map_fst_opt (\<lambda>x. encode_rune r @ x) (json_unq (drop 4 t))))
             else
               (case esc_char e of
                  None \<Rightarrow> None
                | Some c \<Rightarrow> map_fst_opt (\<lambda>x. c # x) (json_unq t)))
      else if byte_in 0 0x1F a then None
      else
        (let n = utf8_len (a # s) in
         if n = 0 then map_fst_opt (\<lambda>x. rune_error @ x) (json_unq s)
         else map_fst_opt (\<lambda>x. take n (a # s) @ x) (json_unq (drop (n - 1) s))))"
  by pat_completeness auto
termination
  by (relation "measure length") auto

declare json_unq.simps(2) [simp del]

subsection \<open>Quoting round trip\<close>

lemma hex_val_hex_digit [simp]: "d < 16 \<Longrightarrow> hex_val (hex_digit d) = Some d"
  by (auto simp: hex_val_def hex_digit_def byte_in_def)

lemma encode_rune_ascii: "byte_in 0 0x7F c \<Longrightarrow> encode_rune (of_char c) = [c]"
  by (auto simp: encode_rune_def byte_in_def)

lemma getu4_control:
  assumes "byte_in 0 0x7F c"
  shows "getu4 (CHR ''0'' # CHR ''0'' # hex_digit (of_char c div 16) # hex_digit (of_char c mod 16) # t)
         = Some (of_char c)"
proof -
  have "(of_char c :: nat) div 16 < 16" using assms by (auto simp: byte_in_def)
  moreover have "hex_val (CHR ''0'') = Some 0" by (simp add: hex_val_def byte_in_def)
  ultimately show ?thesis by (simp add: getu4_def)
qed

lemma json_unq_plain:
  assumes "byte_in 0x20 0x7F c" "c \<noteq> CHR 0x22" "c \<noteq> CHR 0x5C"
  shows "json_unq (c # t) = map_fst_opt (\<lambda>x. c # x) (json_unq t)"
proof -
  have "byte_in 0 0x7F c" "\<not> byte_in 0 0x1F c" using assms(1) by (auto simp: byte_in_def)
  then show ?thesis using assms(2,3) by (simp add: json_unq.simps(2) map_fst_opt_single)
qed

lemma json_unq_u:
  "getu4 t = Some r \<Longrightarrow> \<not> high_surrogate r \<Longrightarrow>
   json_unq (CHR 0x5C # CHR ''u'' # t) = map_fst_opt (\<lambda>x. encode_rune r @ x) (json_unq (drop 4 t))"
  by (simp add: json_unq.simps(2) pair_low_def)

lemma json_unq_esc:
  "esc_char e = Some c \<Longrightarrow> e \<noteq> CHR ''u'' \<Longrightarrow>
   json_unq (CHR 0x5C # e # t) = map_fst_opt (\<lambda>x. c # x) (json_unq t)"
  by (simp add: json_unq.simps(2))

lemma json_unq_esc_ascii:
  assumes a: "byte_in 0 0x7F c"
  shows "json_unq (esc_ascii c @ t) = map_fst_opt (\<lambda>x. c # x) (json_unq t)"
proof -
  have lt: "(of_char c :: nat) < 128" using a by (simp add: byte_in_def)
  let ?u = "CHR 0x5C # CHR ''u'' # CHR ''0'' # CHR ''0''
              # hex_digit (of_char c div 16) # hex_digit (of_char c mod 16) # t"
  have u: "json_unq ?u = map_fst_opt (\<lambda>x. c # x) (json_unq t)"
    using json_unq_u [OF getu4_control [OF a]] lt
    by (simp add: high_surrogate_def encode_rune_ascii [OF a])
  have p: "byte_in 0x20 0x7F c" if "\<not> byte_in 0 0x1F c"
    using that a by (auto simp: byte_in_def)
  show ?thesis
    using u p by (auto simp: esc_ascii_def esc_char_def json_unq_esc json_unq_plain)
qed

lemma utf8_len_multi:
  "\<not> byte_in 0 0x7F a \<Longrightarrow> utf8_len (a # s) \<noteq> 0 \<Longrightarrow>
   a \<noteq> CHR 0x22 \<and> a \<noteq> CHR 0x5C \<and> \<not> byte_in 0 0x1F a"
  by (auto simp: byte_in_def)

lemma json_unq_multi:
  assumes "\<not> byte_in 0 0x7F a" "utf8_len (a # s) = n" "n \<noteq> 0"
  shows "json_unq (take n (a # s) @ r) = map_fst_opt (\<lambda>x. take n (a # s) @ x) (json_unq r)"
proof -
  obtain k where k: "n = Suc k" using assms(3) by (cases n) auto
  have len: "n \<le> length (a # s)" using utf8_len_le [of "a # s"] assms(2) by simp
  have l: "utf8_len (a # (take k s @ r)) = n"
    using utf8_len_take [OF assms(2,3), of r] k by simp
  have m: "min (length s) k = k" using len k by simp
  show ?thesis
    using utf8_len_multi [OF assms(1), of s] assms(2,3) l m k
    by (cases "json_unq r") (auto simp: json_unq.simps(2) Let_def)
qed

lemma getu4_literals [simp]:
  "getu4 (CHR ''f'' # CHR ''f'' # CHR ''f'' # CHR ''d'' # t) = Some 0xFFFD"
  "getu4 (CHR ''2'' # CHR ''0'' # CHR ''2'' # CHR ''8'' # t) = Some 0x2028"
  "getu4 (CHR ''2'' # CHR ''0'' # CHR ''2'' # CHR ''9'' # t) = Some 0x2029"
  by (simp_all add: getu4_def hex_val_def byte_in_def)

lemma encode_rune_literals [simp]:
  "encode_rune 0xFFFD = rune_error"
  "encode_rune 0x2028 = [CHR 0xE2, CHR 0x80, CHR 0xA8]"
  "encode_rune 0x2029 = [CHR 0xE2, CHR 0x80, CHR 0xA9]"
  by (simp_all add: encode_rune_def rune_error_def char_of_def bit_Suc_0_iff)

lemma json_unq_u_literal:
  "getu4 t = Some r \<Longrightarrow> r < 0xD800 \<or> 0xDC00 \<le> r \<Longrightarrow>
   json_unq (CHR 0x5C # CHR ''u'' # t) = map_fst_opt (\<lambda>x. encode_rune r @ x) (json_unq (drop 4 t))"
  by (rule json_unq_u) (auto simp: high_surrogate_def)

lemma json_unq_esc_append:
  "json_unq (json_esc s @ r) = map_fst_opt (\<lambda>x. to_valid s @ x) (json_unq r)"
proof (induction s rule: json_esc.induct)
  case 1
  show ?case by (cases "json_unq r") auto
next
  case (2 a s)
  let ?n = "utf8_len (a # s)"
  have comp: "map_fst_opt f (map_fst_opt g y) = map_fst_opt (\<lambda>x. f (g x)) y"
    for f g :: "string \<Rightarrow> string" and y :: "(string \<times> string) option" by (cases y) auto
  consider (ascii) "byte_in 0 0x7F a" | (bad) "\<not> byte_in 0 0x7F a" "?n = 0"
    | (multi) "\<not> byte_in 0 0x7F a" "?n \<noteq> 0" by blast
  then show ?case
  proof cases
    case ascii
    then show ?thesis using "2.IH"(1)
      by (simp add: json_esc.simps(2) to_valid.simps(2) json_unq_esc_ascii comp)
  next
    case bad
    then show ?thesis using "2.IH"(2) [OF bad(1) refl]
      by (simp add: json_esc.simps(2) to_valid.simps(2) json_unq_u_literal comp)
  next
    case multi
    have e: "to_valid (a # s) = take ?n (a # s) @ to_valid (drop (?n - 1) s)"
      using multi by (simp add: to_valid.simps(2) Let_def)
    have ih: "json_unq (json_esc (drop (?n - 1) s) @ r)
              = map_fst_opt (\<lambda>x. to_valid (drop (?n - 1) s) @ x) (json_unq r)"
      using "2.IH"(3) [OF multi(1) refl multi(2)] by blast
    show ?thesis
    proof (cases "take ?n (a # s) \<in> {[CHR 0xE2, CHR 0x80, CHR 0xA8], [CHR 0xE2, CHR 0x80, CHR 0xA9]}")
      case True
      then show ?thesis using multi ih e
        by (auto simp: json_esc.simps(2) Let_def json_unq_u_literal comp)
    next
      case False
      then have j: "json_esc (a # s) = take ?n (a # s) @ json_esc (drop (?n - 1) s)"
        using multi by (simp add: json_esc.simps(2) Let_def)
      show ?thesis
        unfolding j e append_assoc json_unq_multi [OF multi(1) refl multi(2)] ih comp
        by (cases "json_unq r") auto
    qed
  qed
qed

lemma json_unq_quote: "json_unq (json_esc s @ CHR 0x22 # r) = Some (to_valid s, r)"
  by (simp add: json_unq_esc_append json_unq.simps(2))

section \<open>Values\<close>

datatype json =
    JNull
  | JBool bool
  | JNum string
  | JStr string
  | JArr "json list"
  | JObj "(string \<times> json) list"

fun json_print :: "json \<Rightarrow> string"
  and json_elems :: "json list \<Rightarrow> string"
  and json_members :: "(string \<times> json) list \<Rightarrow> string" where
  "json_print JNull = ''null''"
| "json_print (JBool b) = fmt_bool b"
| "json_print (JNum l) = l"
| "json_print (JStr s) = json_quote s"
| "json_print (JArr vs) = CHR ''['' # json_elems vs @ [CHR '']'']"
| "json_print (JObj ms) = CHR 0x7B # json_members ms @ [CHR 0x7D]"
| "json_elems [] = []"
| "json_elems [v] = json_print v"
| "json_elems (v # v' # vs) = json_print v @ CHR '','' # json_elems (v' # vs)"
| "json_members [] = []"
| "json_members [(k, v)] = json_quote k @ CHR '':'' # json_print v"
| "json_members ((k, v) # m # ms) =
     json_quote k @ CHR '':'' # json_print v @ CHR '','' # json_members (m # ms)"

definition skip_ws :: "string \<Rightarrow> string" where
  "skip_ws s = dropWhile (\<lambda>c. c \<in> {CHR '' '', CHR 0x09, CHR 0x0A, CHR 0x0D}) s"

definition is_digit :: "char \<Rightarrow> bool" where
  "is_digit c \<longleftrightarrow> byte_in 48 57 c"

text \<open>The number grammar: optional sign, integer part, fraction, exponent.\<close>

definition scan_digits1 :: "string \<Rightarrow> (string \<times> string) option" where
  "scan_digits1 s =
     (let d = takeWhile is_digit s in if d = [] then None else Some (d, dropWhile is_digit s))"

definition scan_int :: "string \<Rightarrow> (string \<times> string) option" where
  "scan_int s =
     (case s of
        [] \<Rightarrow> None
      | c # t \<Rightarrow> if c = CHR ''0'' then Some ([c], t) else scan_digits1 s)"

definition scan_frac :: "string \<Rightarrow> (string \<times> string) option" where
  "scan_frac s =
     (case s of
        [] \<Rightarrow> Some ([], [])
      | c # t \<Rightarrow> if c = CHR ''.'' then map_fst_opt (\<lambda>d. c # d) (scan_digits1 t) else Some ([], s))"

definition scan_exp :: "string \<Rightarrow> (string \<times> string) option" where
  "scan_exp s =
     (case s of
        [] \<Rightarrow> Some ([], [])
      | c # t \<Rightarrow>
          if c = CHR ''e'' \<or> c = CHR ''E'' then
            (case t of
               [] \<Rightarrow> None
             | d # u \<Rightarrow>
                 if d = CHR ''+'' \<or> d = CHR ''-'' then map_fst_opt (\<lambda>x. c # d # x) (scan_digits1 u)
                 else map_fst_opt (\<lambda>x. c # x) (scan_digits1 t))
          else Some ([], s))"

definition scan_unsigned :: "string \<Rightarrow> (string \<times> string) option" where
  "scan_unsigned s =
     (case scan_int s of None \<Rightarrow> None | Some (i, r) \<Rightarrow>
       (case scan_frac r of None \<Rightarrow> None | Some (f, r2) \<Rightarrow>
         map_fst_opt (\<lambda>e. i @ f @ e) (scan_exp r2)))"

definition scan_num :: "string \<Rightarrow> (string \<times> string) option" where
  "scan_num s =
     (case s of
        [] \<Rightarrow> None
      | c # t \<Rightarrow> if c = CHR ''-'' then map_fst_opt (\<lambda>x. c # x) (scan_unsigned t) else scan_unsigned s)"

text \<open>
  The parser. Every two nested calls consume at least one byte, so the fuel
  \<open>2 * length s + 2\<close> that \<open>json_parse\<close> gives is never used up.
\<close>

fun pvalue :: "nat \<Rightarrow> string \<Rightarrow> (json \<times> string) option"
  and pelems :: "nat \<Rightarrow> string \<Rightarrow> (json list \<times> string) option"
  and pmembers :: "nat \<Rightarrow> string \<Rightarrow> ((string \<times> json) list \<times> string) option" where
  "pvalue 0 s = None"
| "pvalue (Suc n) s =
     (case skip_ws s of
        [] \<Rightarrow> None
      | c # t \<Rightarrow>
          if c = CHR 0x22 then map_fst_opt JStr (json_unq t)
          else if c = CHR 0x7B then
            (case skip_ws t of
               [] \<Rightarrow> None
             | d # u \<Rightarrow> if d = CHR 0x7D then Some (JObj [], u) else map_fst_opt JObj (pmembers n (d # u)))
          else if c = CHR ''['' then
            (case skip_ws t of
               [] \<Rightarrow> None
             | d # u \<Rightarrow> if d = CHR '']'' then Some (JArr [], u) else map_fst_opt JArr (pelems n (d # u)))
          else if has_prefix (c # t) ''null'' then Some (JNull, drop 3 t)
          else if has_prefix (c # t) ''true'' then Some (JBool True, drop 3 t)
          else if has_prefix (c # t) ''false'' then Some (JBool False, drop 4 t)
          else map_fst_opt JNum (scan_num (c # t)))"
| "pelems 0 s = None"
| "pelems (Suc n) s =
     (case pvalue n s of
        None \<Rightarrow> None
      | Some (v, r) \<Rightarrow>
          (case skip_ws r of
             [] \<Rightarrow> None
           | c # u \<Rightarrow>
               if c = CHR '']'' then Some ([v], u)
               else if c = CHR '','' then map_fst_opt (\<lambda>vs. v # vs) (pelems n u)
               else None))"
| "pmembers 0 s = None"
| "pmembers (Suc n) s =
     (case skip_ws s of
        [] \<Rightarrow> None
      | c # t \<Rightarrow>
          if c \<noteq> CHR 0x22 then None
          else
            (case json_unq t of
               None \<Rightarrow> None
             | Some (k, r) \<Rightarrow>
                 (case skip_ws r of
                    [] \<Rightarrow> None
                  | d # u \<Rightarrow>
                      if d \<noteq> CHR '':'' then None
                      else
                        (case pvalue n u of
                           None \<Rightarrow> None
                         | Some (v, r2) \<Rightarrow>
                             (case skip_ws r2 of
                                [] \<Rightarrow> None
                              | e # u2 \<Rightarrow>
                                  if e = CHR 0x7D then Some ([(k, v)], u2)
                                  else if e = CHR '','' then map_fst_opt (\<lambda>ms. (k, v) # ms) (pmembers n u2)
                                  else None)))))"

definition json_parse :: "string \<Rightarrow> json option" where
  "json_parse s =
     (case pvalue (2 * length s + 2) s of
        None \<Rightarrow> None
      | Some (v, r) \<Rightarrow> if skip_ws r = [] then Some v else None)"

subsection \<open>Parsing back what was printed\<close>

definition delim :: "string \<Rightarrow> bool" where
  "delim r \<longleftrightarrow> (case r of [] \<Rightarrow> True | c # _ \<Rightarrow> c \<in> {CHR '','', CHR '']'', CHR 0x7D})"

text \<open>Numbers are decimal naturals; strings come back with invalid UTF-8 replaced.\<close>

fun num_ok :: "json \<Rightarrow> bool" where
  "num_ok (JNum l) \<longleftrightarrow> (\<exists>n. l = dec_nat n)"
| "num_ok (JArr vs) \<longleftrightarrow> (\<forall>v\<in>set vs. num_ok v)"
| "num_ok (JObj ms) \<longleftrightarrow> (\<forall>m\<in>set ms. num_ok (snd m))"
| "num_ok _ \<longleftrightarrow> True"

fun json_norm :: "json \<Rightarrow> json" where
  "json_norm (JStr s) = JStr (to_valid s)"
| "json_norm (JArr vs) = JArr (map json_norm vs)"
| "json_norm (JObj ms) = JObj (map (\<lambda>(k, v). (to_valid k, json_norm v)) ms)"
| "json_norm v = v"

lemma digit_char_byte: "d < 10 \<Longrightarrow> of_char (digit_char d) = (48 + d :: nat)"
  by (simp add: digit_char_def)

lemma is_digit_digit_char: "d < 10 \<Longrightarrow> is_digit (digit_char d)"
  by (simp add: is_digit_def byte_in_def digit_char_byte)

lemma dec_nat_digits: "\<forall>c\<in>set (dec_nat n). is_digit c"
proof (induction n rule: dec_nat.induct)
  case (1 n)
  then show ?case
    by (subst dec_nat.simps) (auto simp: is_digit_digit_char)
qed

lemma digit_char_inj: "d < 10 \<Longrightarrow> e < 10 \<Longrightarrow> digit_char d = digit_char e \<longleftrightarrow> d = e"
  using digit_char_byte [of d] digit_char_byte [of e] by (metis add_left_cancel)

lemma dec_nat_head:
  "dec_nat n = CHR ''0'' # t \<Longrightarrow> t = []"
proof (induction n arbitrary: t rule: dec_nat.induct)
  case (1 n)
  have z: "CHR ''0'' = digit_char 0" by (simp add: digit_char_def char_of_def bit_iff_odd)
  show ?case
  proof (cases "n < 10")
    case True
    then show ?thesis using "1.prems" by (simp add: dec_nat.simps [of n])
  next
    case False
    then have eq: "dec_nat (n div 10) @ [digit_char (n mod 10)] = CHR ''0'' # t"
      using "1.prems" by (simp add: dec_nat.simps [of n])
    have ne: "dec_nat (n div 10) \<noteq> []" by (subst dec_nat.simps) simp
    then obtain u where u: "dec_nat (n div 10) = CHR ''0'' # u"
      using eq by (cases "dec_nat (n div 10)") auto
    with "1.IH" [OF False] have "dec_nat (n div 10) = [digit_char 0]" using z by simp
    then have "n div 10 = 0"
    proof -
      assume a: "dec_nat (n div 10) = [digit_char 0]"
      have "n div 10 < 10"
      proof (rule ccontr)
        assume "\<not> n div 10 < 10"
        with a have "dec_nat (n div 10 div 10) = []" by (simp add: dec_nat.simps [of "n div 10"])
        then show False by (subst (asm) dec_nat.simps) (auto split: if_splits)
      qed
      with a show ?thesis by (simp add: dec_nat.simps [of "n div 10"] digit_char_inj)
    qed
    with False show ?thesis by simp
  qed
qed

lemma dec_nat_nonempty: "dec_nat n \<noteq> []"
  by (subst dec_nat.simps) simp

lemma delim_not_num: "delim r \<Longrightarrow> takeWhile is_digit r = [] \<and> dropWhile is_digit r = r"
  by (cases r) (auto simp: delim_def is_digit_def byte_in_def)

lemma scan_num_dec:
  assumes "delim r"
  shows "scan_num (dec_nat n @ r) = Some (dec_nat n, r)"
proof -
  obtain c t where ct: "dec_nat n = c # t" using dec_nat_nonempty by (cases "dec_nat n") auto
  have c: "is_digit c" using dec_nat_digits [of n] ct by simp
  have tw: "takeWhile is_digit (dec_nat n @ r) = dec_nat n" "dropWhile is_digit (dec_nat n @ r) = r"
    using dec_nat_digits [of n] delim_not_num [OF assms]
    by (auto simp: takeWhile_append dropWhile_append)
  have i: "scan_int (dec_nat n @ r) = Some (dec_nat n, r)"
    using tw ct dec_nat_head [of n t] by (auto simp: scan_int_def scan_digits1_def)
  have f: "scan_frac r = Some ([], r)" "scan_exp r = Some ([], r)"
    using assms by (auto simp: scan_frac_def scan_exp_def delim_def split: list.splits)
  have "c \<noteq> CHR ''-''" using c by (auto simp: is_digit_def byte_in_def)
  then show ?thesis using i f ct by (simp add: scan_num_def scan_unsigned_def)
qed

lemma skip_ws_simps [simp]:
  "skip_ws [] = []"
  "c \<notin> {CHR '' '', CHR 0x09, CHR 0x0A, CHR 0x0D} \<Longrightarrow> skip_ws (c # s) = c # s"
  by (auto simp: skip_ws_def)

lemma digit_not_special:
  assumes "is_digit c"
  shows "c \<notin> {CHR '' '', CHR 0x09, CHR 0x0A, CHR 0x0D}" "c \<noteq> CHR 0x22" "c \<noteq> CHR 0x7B"
    "c \<noteq> CHR ''[''" "c \<noteq> CHR ''n''" "c \<noteq> CHR ''t''" "c \<noteq> CHR ''f''" "c \<noteq> CHR '']''" "c \<noteq> CHR 0x7D"
  using assms by (auto simp: is_digit_def byte_in_def)

lemma pvalue_dec:
  assumes "delim r" "0 < m"
  shows "pvalue m (dec_nat n @ r) = Some (JNum (dec_nat n), r)"
proof -
  obtain k where k: "m = Suc k" using assms(2) by (cases m) auto
  obtain c t where ct: "dec_nat n = c # t" using dec_nat_nonempty by (cases "dec_nat n") auto
  have c: "is_digit c" using dec_nat_digits [of n] ct by simp
  show ?thesis using scan_num_dec [OF assms(1), of n] digit_not_special [OF c] k ct
    by (simp add: has_prefix_def)
qed

lemma pvalue_quote: "0 < m \<Longrightarrow> pvalue m (json_quote s @ r) = Some (JStr (to_valid s), r)"
  by (cases m) (auto simp: json_quote_def json_unq_quote)

text \<open>What a printed value starts with.\<close>

lemma json_print_head:
  assumes "num_ok v"
  obtains c t where "json_print v = c # t" "skip_ws (c # t @ r) = c # t @ r" "c \<noteq> CHR '']''" "c \<noteq> CHR 0x7D"
proof -
  have "\<exists>c t. json_print v = c # t \<and> c \<notin> {CHR '' '', CHR 0x09, CHR 0x0A, CHR 0x0D} \<and>
          c \<noteq> CHR '']'' \<and> c \<noteq> CHR 0x7D"
  proof (cases v)
    case (JNum l)
    then obtain n where l: "l = dec_nat n" using assms by auto
    obtain c t where ct: "dec_nat n = c # t" using dec_nat_nonempty by (cases "dec_nat n") auto
    have "is_digit c" using dec_nat_digits [of n] ct by simp
    then show ?thesis using JNum l ct digit_not_special [of c] by auto
  qed (auto simp: fmt_bool_def json_quote_def)
  then show thesis using that by auto
qed

lemma json_elems_head:
  assumes "vs \<noteq> []" "\<forall>v\<in>set vs. num_ok v"
  obtains c t where "json_elems vs = c # t" "skip_ws (c # t @ r) = c # t @ r" "c \<noteq> CHR '']''"
proof -
  obtain v us where v: "vs = v # us" using assms(1) by (cases vs) auto
  then have ok: "num_ok v" using assms(2) by simp
  have "\<exists>x. json_elems vs = json_print v @ x" using v by (cases us) auto
  then show thesis using json_print_head [OF ok] that
    by (metis append_Cons append_assoc)
qed

lemma json_members_head:
  assumes "ms \<noteq> []"
  obtains t where "json_members ms = CHR 0x22 # t"
  using assms by (cases ms rule: json_members.cases) (auto simp: json_quote_def)

abbreviation parses_value :: "json \<Rightarrow> bool" where
  "parses_value v \<equiv> \<forall>m r. num_ok v \<longrightarrow> delim r \<longrightarrow> 2 * length (json_print v) \<le> m \<longrightarrow>
     pvalue m (json_print v @ r) = Some (json_norm v, r)"

abbreviation parses_elems :: "json list \<Rightarrow> bool" where
  "parses_elems vs \<equiv> \<forall>m r. vs \<noteq> [] \<longrightarrow> (\<forall>v\<in>set vs. num_ok v) \<longrightarrow>
     2 * length (json_elems vs) + 1 \<le> m \<longrightarrow>
     pelems m (json_elems vs @ CHR '']'' # r) = Some (map json_norm vs, r)"

abbreviation parses_members :: "(string \<times> json) list \<Rightarrow> bool" where
  "parses_members ms \<equiv> \<forall>m r. ms \<noteq> [] \<longrightarrow> (\<forall>x\<in>set ms. num_ok (snd x)) \<longrightarrow>
     2 * length (json_members ms) + 1 \<le> m \<longrightarrow>
     pmembers m (json_members ms @ CHR 0x7D # r)
       = Some (map (\<lambda>(k, v). (to_valid k, json_norm v)) ms, r)"

lemma delim_simps [simp]:
  "delim (CHR '','' # r)" "delim (CHR '']'' # r)" "delim (CHR 0x7D # r)" "delim []"
  by (simp_all add: delim_def)

lemma parses_arr:
  assumes "vs \<noteq> [] \<longrightarrow> parses_elems vs"
  shows "parses_value (JArr vs)"
proof (intro allI impI)
  fix m r
  assume ok: "num_ok (JArr vs)" and m: "2 * length (json_print (JArr vs)) \<le> m"
  then obtain k where k: "m = Suc k" "2 * length (json_elems vs) + 1 \<le> k"
    by (cases m) auto
  show "pvalue m (json_print (JArr vs) @ r) = Some (json_norm (JArr vs), r)"
  proof (cases "vs = []")
    case True
    then show ?thesis using k by simp
  next
    case False
    then have all: "\<forall>v\<in>set vs. num_ok v" using ok by simp
    from json_elems_head [OF False all, of "CHR '']'' # r"] obtain c t where
      h: "json_elems vs = c # t" "skip_ws (c # t @ CHR '']'' # r) = c # t @ CHR '']'' # r" "c \<noteq> CHR '']''" .
    have "pelems k (json_elems vs @ CHR '']'' # r) = Some (map json_norm vs, r)"
      using assms False all k(2) by blast
    then show ?thesis using h k by simp
  qed
qed

lemma parses_obj:
  assumes "ms \<noteq> [] \<longrightarrow> parses_members ms"
  shows "parses_value (JObj ms)"
proof (intro allI impI)
  fix m r
  assume ok: "num_ok (JObj ms)" and m: "2 * length (json_print (JObj ms)) \<le> m"
  then obtain k where k: "m = Suc k" "2 * length (json_members ms) + 1 \<le> k"
    by (cases m) auto
  show "pvalue m (json_print (JObj ms) @ r) = Some (json_norm (JObj ms), r)"
  proof (cases "ms = []")
    case True
    then show ?thesis using k by simp
  next
    case False
    obtain t where t: "json_members ms = CHR 0x22 # t" using json_members_head [OF False] .
    have "pmembers k (json_members ms @ CHR 0x7D # r)
            = Some (map (\<lambda>(k, v). (to_valid k, json_norm v)) ms, r)"
      using assms False ok k(2) by simp
    then show ?thesis using t k by simp
  qed
qed

lemma pmembers_one:
  assumes v: "parses_value v" "num_ok v" and m: "2 * length (json_print v) \<le> m" and d: "delim r"
  shows "pmembers (Suc m) (json_quote k @ CHR '':'' # json_print v @ r) =
     (case skip_ws r of
        [] \<Rightarrow> None
      | e # u2 \<Rightarrow>
          if e = CHR 0x7D then Some ([(to_valid k, json_norm v)], u2)
          else if e = CHR '','' then map_fst_opt (\<lambda>ms. (to_valid k, json_norm v) # ms) (pmembers m u2)
          else None)"
proof -
  have "pvalue m (json_print v @ r) = Some (json_norm v, r)" using v m d by blast
  then show ?thesis by (simp add: json_quote_def json_unq_quote)
qed

lemma parses_atoms: "parses_value JNull" "parses_value (JBool b)" "parses_value (JNum l)" "parses_value (JStr s)"
proof -
  have m: "\<exists>k. m = Suc k" if "2 * length (json_print v) \<le> m" "json_print v \<noteq> []" for m v
    using that by (cases m) auto
  show "parses_value JNull"
    using m [of JNull] by (fastforce simp: has_prefix_def)
  have "fmt_bool b \<noteq> []" by (simp add: fmt_bool_def)
  then show "parses_value (JBool b)"
    using m [of "JBool b"] by (fastforce simp: has_prefix_def fmt_bool_def split: if_splits)
  show "parses_value (JNum l)"
  proof (intro allI impI)
    fix m r assume n: "num_ok (JNum l)" and d: "delim r" and k: "2 * length (json_print (JNum l)) \<le> m"
    from n obtain n where l: "l = dec_nat n" by auto
    then have "0 < m" using k dec_nat_nonempty [of n] by (cases m) auto
    then show "pvalue m (json_print (JNum l) @ r) = Some (json_norm (JNum l), r)"
      using pvalue_dec [OF d] l by simp
  qed
  have "0 < m" if "2 * length (json_print (JStr s)) \<le> m" for m
    using that by (cases m) (auto simp: json_quote_def)
  then show "parses_value (JStr s)" by (auto intro: pvalue_quote)
qed

lemma parses_elems_one:
  assumes "parses_value v"
  shows "parses_elems [v]"
proof (intro allI impI)
  fix m r assume ok: "\<forall>v\<in>set [v]. num_ok v" and m: "2 * length (json_elems [v]) + 1 \<le> m"
  then obtain k where k: "m = Suc k" "2 * length (json_print v) \<le> k" by (cases m) auto
  have "pvalue k (json_print v @ CHR '']'' # r) = Some (json_norm v, CHR '']'' # r)" using assms ok k(2) by simp
  then show "pelems m (json_elems [v] @ CHR '']'' # r) = Some (map json_norm [v], r)" using k by simp
qed

lemma parses_elems_more:
  assumes "parses_value v" "parses_elems (v' # vs)"
  shows "parses_elems (v # v' # vs)"
proof (intro allI impI)
  fix m r assume ok: "\<forall>x\<in>set (v # v' # vs). num_ok x" and m: "2 * length (json_elems (v # v' # vs)) + 1 \<le> m"
  then obtain k where k: "m = Suc k" "2 * length (json_print v) \<le> k" "2 * length (json_elems (v' # vs)) + 1 \<le> k"
    by (cases m) auto
  let ?rest = "CHR '','' # json_elems (v' # vs) @ CHR '']'' # r"
  have a: "pvalue k (json_print v @ ?rest) = Some (json_norm v, ?rest)" using assms(1) ok k(2) by simp
  have b: "pelems k (json_elems (v' # vs) @ CHR '']'' # r) = Some (map json_norm (v' # vs), r)" using assms(2) ok k(3) by simp
  show "pelems m (json_elems (v # v' # vs) @ CHR '']'' # r) = Some (map json_norm (v # v' # vs), r)"
    using a b k by simp
qed

lemma parses_members_one:
  assumes "parses_value v"
  shows "parses_members [(k, v)]"
proof (intro allI impI)
  fix m r assume ok: "\<forall>x\<in>set [(k, v)]. num_ok (snd x)" and m: "2 * length (json_members [(k, v)]) + 1 \<le> m"
  then obtain j where j: "m = Suc j" "2 * length (json_print v) \<le> j" by (cases m) auto
  show "pmembers m (json_members [(k, v)] @ CHR 0x7D # r) = Some (map (\<lambda>(k, v). (to_valid k, json_norm v)) [(k, v)], r)"
    using pmembers_one [OF assms _ j(2), of "CHR 0x7D # r" k] ok j(1) by (simp del: pmembers.simps)
qed

lemma parses_members_more:
  assumes "parses_value v" "parses_members (x # ms)"
  shows "parses_members ((k, v) # x # ms)"
proof (intro allI impI)
  fix m r assume ok: "\<forall>y\<in>set ((k, v) # x # ms). num_ok (snd y)"
    and m: "2 * length (json_members ((k, v) # x # ms)) + 1 \<le> m"
  then obtain j where j: "m = Suc j" "2 * length (json_print v) \<le> j"
    "2 * length (json_members (x # ms)) + 1 \<le> j" by (cases m) auto
  have b: "pmembers j (json_members (x # ms) @ CHR 0x7D # r) = Some (map (\<lambda>(k, v). (to_valid k, json_norm v)) (x # ms), r)"
    using assms(2) ok j(3) by simp
  show "pmembers m (json_members ((k, v) # x # ms) @ CHR 0x7D # r)
          = Some (map (\<lambda>(k, v). (to_valid k, json_norm v)) ((k, v) # x # ms), r)"
    using pmembers_one [OF assms(1) _ j(2), of "CHR '','' # json_members (x # ms) @ CHR 0x7D # r" k] ok j(1) b
    by (simp del: pmembers.simps)
qed

lemma json_parses_back:
  "parses_value v" "parses_elems vs" "parses_members ms"
proof (induction v and vs and ms rule: json_print_json_elems_json_members.induct)
  case (5 vs)
  then show ?case by (intro parses_arr) simp
next
  case (6 ms)
  then show ?case by (intro parses_obj) simp
next
  case 7
  show ?case by simp
next
  case (8 v)
  then show ?case by (rule parses_elems_one)
next
  case (9 v v' vs)
  then show ?case by (rule parses_elems_more)
next
  case 10
  show ?case by simp
next
  case (11 k v)
  then show ?case by (rule parses_members_one)
next
  case (12 k v x ms)
  then show ?case by (rule parses_members_more)
qed (rule parses_atoms)+

text \<open>Marshal then Unmarshal, at the level of values.\<close>

lemma json_parse_print: "num_ok v \<Longrightarrow> json_parse (json_print v) = Some (json_norm v)"
proof -
  assume "num_ok v"
  then have "pvalue (2 * length (json_print v) + 2) (json_print v @ []) = Some (json_norm v, [])"
    using json_parses_back(1) [of v] by (metis delim_simps(4) le_add1)
  then show ?thesis by (simp add: json_parse_def del: pvalue.simps)
qed

declare json_print.simps [simp del] json_elems.simps [simp del] json_members.simps [simp del]
declare pvalue.simps [simp del] pelems.simps [simp del] pmembers.simps [simp del]

section \<open>Reading struct fields\<close>

text \<open>\<open>foldName\<close>: the case folding under which a key matches a field tag (ASCII letters, and
  the two other characters that fold to k and s).\<close>

fun fold_name :: "string \<Rightarrow> string" where
  "fold_name (a # b # c # s) =
     (if a = CHR 0xE2 \<and> b = CHR 0x84 \<and> c = CHR 0xAA then CHR ''k'' # fold_name s
      else if a = CHR 0xC5 \<and> b = CHR 0xBF then CHR ''s'' # fold_name (c # s)
      else (if byte_in 65 90 a then char_of (of_char a + 32 :: nat) else a) # fold_name (b # c # s))"
| "fold_name [a, b] =
     (if a = CHR 0xC5 \<and> b = CHR 0xBF then [CHR ''s'']
      else (if byte_in 65 90 a then char_of (of_char a + 32 :: nat) else a) # fold_name [b])"
| "fold_name [a] = [if byte_in 65 90 a then char_of (of_char a + 32 :: nat) else a]"
| "fold_name [] = []"

text \<open>A string field: the last matching member wins, null leaves the field as it is, any
  other value is an \<open>UnmarshalTypeError\<close>.\<close>

fun str_field :: "string \<Rightarrow> string \<Rightarrow> (string \<times> json) list \<Rightarrow> string option" where
  "str_field f acc [] = Some acc"
| "str_field f acc ((k, v) # ms) =
     (if fold_name k = f then
        (case v of
           JStr x \<Rightarrow> str_field f x ms
         | JNull \<Rightarrow> str_field f acc ms
         | _ \<Rightarrow> None)
      else str_field f acc ms)"

text \<open>An unsigned 8-bit field: \<open>strconv.ParseUint\<close> on the literal, then the overflow check.\<close>

definition parse_uint :: "string \<Rightarrow> nat option" where
  "parse_uint l =
     (if l \<noteq> [] \<and> list_all is_digit l
      then Some (foldl (\<lambda>n c. 10 * n + (of_char c - 48)) 0 l) else None)"

fun uint8_field :: "string \<Rightarrow> 8 word \<Rightarrow> (string \<times> json) list \<Rightarrow> 8 word option" where
  "uint8_field f acc [] = Some acc"
| "uint8_field f acc ((k, v) # ms) =
     (if fold_name k = f then
        (case v of
           JNum l \<Rightarrow>
             (case parse_uint l of
                Some n \<Rightarrow> if n < 256 then uint8_field f (of_nat n) ms else None
              | None \<Rightarrow> None)
         | JNull \<Rightarrow> uint8_field f acc ms
         | _ \<Rightarrow> None)
      else uint8_field f acc ms)"

lemma parse_uint_dec: "parse_uint (dec_nat n) = Some n"
proof -
  have "foldl (\<lambda>n c. 10 * n + (of_char c - 48)) 0 (dec_nat n) = n"
  proof (induction n rule: dec_nat.induct)
    case (1 n)
    show ?case
    proof (cases "n < 10")
      case True
      then show ?thesis by (simp add: dec_nat.simps [of n] digit_char_byte)
    next
      case False
      with 1 show ?thesis by (simp add: dec_nat.simps [of n] digit_char_byte)
    qed
  qed
  then show ?thesis using dec_nat_digits [of n] dec_nat_nonempty [of n]
    by (simp add: parse_uint_def list_all_iff)
qed

section \<open>The codec interface\<close>

text \<open>Every payload type of the repository is written with \<open>Marshal\<close> and read with
  \<open>Unmarshal\<close>. What the node code relies on is that reading gives back what was written,
  for the payloads that the encoding represents exactly.\<close>

locale codec =
  fixes enc :: "'a \<Rightarrow> string"
    and dec :: "string \<Rightarrow> 'a option"
    and exact :: "'a \<Rightarrow> bool"
  assumes dec_enc: "exact x \<Longrightarrow> dec (enc x) = Some x"
begin

lemma enc_inj: "exact x \<Longrightarrow> exact y \<Longrightarrow> enc x = enc y \<longleftrightarrow> x = y"
  using dec_enc by (metis option.inject)

lemma dec_enc_option: "exact x \<Longrightarrow> map_option f (dec (enc x)) = Some (f x)"
  by (simp add: dec_enc)

lemma enc_readable: "exact x \<Longrightarrow> dec (enc x) \<noteq> None"
  by (simp add: dec_enc)

end

end
