(* ===== verification/NodeTypes.thy ===== *)
theory NodeTypes
  imports Errorx GoJson
begin

unbundle bit_operations_syntax

text \<open>
  The data of package internal/core/node: kinds, flags, revisions, the \<open>Node\<close> struct, the
  directory listing and the other payloads, and the JSON codec of each payload. What the
  model takes from outside the repository (UUID texts and draws, ULID draws, the clock,
  faults of the database and of the network) is the record \<open>env\<close>; \<open>uuid_codec\<close> states the
  documented behaviour of google/uuid that the payload codecs rely on.
\<close>

section \<open>The environment\<close>

text \<open>
  \<open>uuid_text\<close>, \<open>uuid_parse\<close>: \<open>UUID.String\<close> and \<open>uuid.Parse\<close>. \<open>uuid_gen\<close>, \<open>ulid_gen\<close>, \<open>clock\<close>: what
  \<open>uuid.New\<close>, \<open>ulid.Make\<close> and \<open>time.Now\<close> return at the n-th draw of a run. \<open>fault\<close>: the error a
  database or network call made at the n-th draw fails with, if it fails. \<open>time_text\<close>,
  \<open>time_parse\<close>: the RFC 3339 text in which an instant is marshaled. \<open>rand_read\<close>: the
  bytes \<open>rand.Reader\<close> gives at the n-th draw for a length. \<open>gcm_seal\<close>, \<open>gcm_open\<close>: AES-GCM for a
  key and a nonce.
\<close>

record env =
  uuid_text :: "uuid \<Rightarrow> string"
  uuid_parse :: "string \<Rightarrow> uuid option"
  uuid_gen :: "nat \<Rightarrow> uuid"
  ulid_gen :: "nat \<Rightarrow> string"
  clock :: "nat \<Rightarrow> time"
  fault :: "nat \<Rightarrow> string option"
  time_text :: "time \<Rightarrow> string"
  time_parse :: "string \<Rightarrow> time option"
  rand_read :: "nat \<Rightarrow> nat \<Rightarrow> string option"
  gcm_seal :: "string \<Rightarrow> string \<Rightarrow> string \<Rightarrow> string"
  gcm_open :: "string \<Rightarrow> string \<Rightarrow> string \<Rightarrow> string option"

definition uuid_codec :: "env \<Rightarrow> bool" where
  "uuid_codec E \<longleftrightarrow> (\<forall>u. uuid_parse E (uuid_text E u) = Some u \<and> ascii (uuid_text E u))"

definition no_faults :: "env \<Rightarrow> bool" where
  "no_faults E \<longleftrightarrow> (\<forall>n. fault E n = None)"

definition gcm_ok :: "env \<Rightarrow> bool" where
  "gcm_ok E \<longleftrightarrow> (\<forall>k n p. gcm_open E k n (gcm_seal E k n p) = Some p)"

definition rand_ok :: "env \<Rightarrow> bool" where
  "rand_ok E \<longleftrightarrow> (\<forall>t n b. rand_read E t n = Some b \<longrightarrow> length b = n)"

definition ulids_ok :: "env \<Rightarrow> bool" where
  "ulids_ok E \<longleftrightarrow> (\<forall>n. length (ulid_gen E n) \<le> 26)"

section \<open>Kinds\<close>

type_synonym node_kind = "8 word"

abbreviation NodeKindFile :: node_kind where "NodeKindFile \<equiv> 0"
abbreviation NodeKindDirectory :: node_kind where "NodeKindDirectory \<equiv> 1"
abbreviation NodeKindSymlink :: node_kind where "NodeKindSymlink \<equiv> 2"
abbreviation NodeKindObject :: node_kind where "NodeKindObject \<equiv> 3"
abbreviation NodeKindMount :: node_kind where "NodeKindMount \<equiv> 4"

definition node_kind_string :: "node_kind \<Rightarrow> string" where
  "node_kind_string k =
     (if k = NodeKindFile then ''file''
      else if k = NodeKindDirectory then ''directory''
      else if k = NodeKindSymlink then ''symlink''
      else if k = NodeKindObject then ''object''
      else if k = NodeKindMount then ''mount''
      else ''unknown'')"

text \<open>Go's conversion \<open>string(k)\<close> of an integer: the UTF-8 bytes of that code point, not its
  decimal digits and not the kind's name.\<close>

definition kind_as_rune :: "node_kind \<Rightarrow> string" where
  "kind_as_rune k = encode_rune (unat k)"

section \<open>Flags\<close>

type_synonym flags = "32 word"

abbreviation FlagSecureDeletion :: flags where "FlagSecureDeletion \<equiv> 0x00000001"
abbreviation FlagUndelete :: flags where "FlagUndelete \<equiv> 0x00000002"
abbreviation FlagCompress :: flags where "FlagCompress \<equiv> 0x00000004"
abbreviation FlagSynchronous :: flags where "FlagSynchronous \<equiv> 0x00000008"
abbreviation FlagImmutable :: flags where "FlagImmutable \<equiv> 0x00000010"
abbreviation FlagAppendOnly :: flags where "FlagAppendOnly \<equiv> 0x00000020"
abbreviation FlagNoDump :: flags where "FlagNoDump \<equiv> 0x00000040"
abbreviation FlagNoAtime :: flags where "FlagNoAtime \<equiv> 0x00000080"

definition flags_set :: "flags \<Rightarrow> flags \<Rightarrow> flags" where
  "flags_set f flag = f OR flag"

definition flags_clear :: "flags \<Rightarrow> flags \<Rightarrow> flags" where
  "flags_clear f flag = f AND NOT flag"

definition flags_has :: "flags \<Rightarrow> flags \<Rightarrow> bool" where
  "flags_has f flag \<longleftrightarrow> f AND flag \<noteq> 0"

text \<open>\<open>fmt.Sprintf("%v")\<close> of a string slice: the elements between brackets, blanks between.\<close>

definition flag_names :: "(flags \<times> string) list" where
  "flag_names =
     [(FlagSecureDeletion, ''secure_deletion''), (FlagUndelete, ''undelete''),
      (FlagCompress, ''compress''), (FlagSynchronous, ''synchronous''),
      (FlagImmutable, ''immutable''), (FlagAppendOnly, ''append_only''),
      (FlagNoDump, ''no_dump''), (FlagNoAtime, ''no_atime'')]"

definition flags_string :: "flags \<Rightarrow> string" where
  "flags_string f =
     (let ns = map snd (filter (\<lambda>(b, n). flags_has f b) flag_names) in
      if ns = [] then ''none'' else ''['' @ join_char (CHR '' '') ns @ '']'')"

lemma flags_has_set: "flag \<noteq> 0 \<Longrightarrow> flags_has (flags_set f flag) flag"
  by (simp add: flags_has_def flags_set_def bit.conj_disj_distrib2)

lemma flags_has_clear: "\<not> flags_has (flags_clear f flag) flag"
  by (simp add: flags_has_def flags_clear_def and.assoc)

lemma flags_other:
  assumes "g AND flag = 0"
  shows "flags_has (flags_set f flag) g = flags_has f g"
    and "flags_has (flags_clear f flag) g = flags_has f g"
proof -
  have "g AND (f OR flag) = g AND f"
    using assms by (simp add: bit.conj_disj_distrib)
  then show "flags_has (flags_set f flag) g = flags_has f g"
    by (simp add: flags_has_def flags_set_def and.commute)
  have "bit g n \<longrightarrow> \<not> bit flag n" for n
    using assms by (metis bit_and_iff bit_0_eq bot_apply bot_bool_def)
  then have "(f AND NOT flag) AND g = f AND g"
    by (intro bit_word_eqI) (auto simp: bit_simps)
  then show "flags_has (flags_clear f flag) g = flags_has f g"
    by (simp add: flags_has_def flags_clear_def)
qed

section \<open>Nodes\<close>

type_synonym revision = string

definition MaxContentSize :: nat where
  "MaxContentSize = 4096"

text \<open>\<open>n_content\<close> is \<open>None\<close> where the Go slice is nil.\<close>

record node =
  n_id :: uuid
  n_kind :: node_kind
  n_size :: int
  n_nlink :: "32 word"
  n_content :: "string option"
  n_atime :: time
  n_mtime :: time
  n_ctime :: time
  n_crtime :: time
  n_flags :: flags
  n_rev :: revision
  n_stale :: revision

definition rev_is_empty :: "revision \<Rightarrow> bool" where
  "rev_is_empty r \<longleftrightarrow> r = []"

definition inc_nlink :: "node \<Rightarrow> node" where
  "inc_nlink n = n\<lparr>n_nlink := n_nlink n + 1\<rparr>"

definition set_stale_rev :: "revision \<Rightarrow> node \<Rightarrow> node" where
  "set_stale_rev r n = n\<lparr>n_stale := r\<rparr>"

text \<open>A deep copy: values are immutable here, so the copy is the value.\<close>

definition clone_node :: "node \<Rightarrow> node" where
  "clone_node n = n"

definition is_dir :: "node \<Rightarrow> bool" where "is_dir n \<longleftrightarrow> n_kind n = NodeKindDirectory"
definition is_file :: "node \<Rightarrow> bool" where "is_file n \<longleftrightarrow> n_kind n = NodeKindFile"
definition is_symlink :: "node \<Rightarrow> bool" where "is_symlink n \<longleftrightarrow> n_kind n = NodeKindSymlink"
definition is_object :: "node \<Rightarrow> bool" where "is_object n \<longleftrightarrow> n_kind n = NodeKindObject"
definition is_mount :: "node \<Rightarrow> bool" where "is_mount n \<longleftrightarrow> n_kind n = NodeKindMount"

lemmas kind_tests = is_dir_def is_file_def is_symlink_def is_object_def is_mount_def

text \<open>\<open>Node.read\<close>.\<close>

definition node_read :: "node \<Rightarrow> gerror + string" where
  "node_read n =
     (case n_content n of
        None \<Rightarrow> Inl (New KindNotFound ''node: no content'')
      | Some c \<Rightarrow> Inr c)"

text \<open>The error \<open>json.Unmarshal\<close> reports; its text is the library's.\<close>

definition json_error :: gerror where
  "json_error = Foreign ''json: cannot unmarshal'' None"

text \<open>The shape every \<open>ReadX\<close> method has: read, unmarshal, wrapped errors.\<close>

definition read_payload :: "(string \<Rightarrow> 'a option) \<Rightarrow> string \<Rightarrow> node \<Rightarrow> gerror + 'a" where
  "read_payload dec what n =
     (case node_read n of
        Inl e \<Rightarrow> Inl (wrap_with [] (''node: read '' @ what @ '' content'') e)
      | Inr c \<Rightarrow>
          (case dec c of
             None \<Rightarrow> Inl (wrap_with [] (''node: unmarshal '' @ what @ '' content'') json_error)
           | Some x \<Rightarrow> Inr x))"

section \<open>Files\<close>

definition file_marshal :: "string \<Rightarrow> string" where
  "file_marshal raw = json_print (JStr raw)"

definition file_unmarshal :: "string \<Rightarrow> string option" where
  "file_unmarshal s =
     (case json_parse s of
        Some (JStr x) \<Rightarrow> Some x
      | Some JNull \<Rightarrow> Some []
      | _ \<Rightarrow> None)"

definition read_file :: "node \<Rightarrow> gerror + string" where
  "read_file n = read_payload file_unmarshal ''file'' n"

text \<open>What comes back is the text with invalid UTF-8 replaced.\<close>

lemma file_unmarshal_marshal: "file_unmarshal (file_marshal raw) = Some (to_valid raw)"
  by (simp add: file_unmarshal_def file_marshal_def json_parse_print)

interpretation file_codec: codec file_marshal file_unmarshal valid_utf8
  by unfold_locales (simp add: file_unmarshal_marshal valid_utf8_to_valid)

section \<open>Symbolic links and mounts\<close>

definition symlink_marshal :: "string \<Rightarrow> string" where
  "symlink_marshal target = json_print (JObj [(''target'', JStr target)])"

definition one_string_unmarshal :: "string \<Rightarrow> string \<Rightarrow> string option" where
  "one_string_unmarshal f s =
     (case json_parse s of
        Some (JObj ms) \<Rightarrow> str_field f [] ms
      | Some JNull \<Rightarrow> Some []
      | _ \<Rightarrow> None)"

definition mount_marshal :: "string \<Rightarrow> string" where
  "mount_marshal src = json_print (JObj [(''src'', JStr src)])"

definition readlink :: "node \<Rightarrow> gerror + string" where
  "readlink n =
     (if n_kind n \<noteq> NodeKindSymlink
      then Inl (New KindInvalidArgument ''node: invalid type for readlink'')
      else read_payload (one_string_unmarshal ''target'') ''symlink'' n)"

definition read_mount :: "node \<Rightarrow> gerror + string" where
  "read_mount n = read_payload (one_string_unmarshal ''src'') ''mount'' n"

lemma ascii_keys:
  "to_valid ''target'' = ''target''" "to_valid ''src'' = ''src''" "to_valid ''items'' = ''items''"
  "to_valid ''ino'' = ''ino''" "to_valid ''name'' = ''name''" "to_valid ''kind'' = ''kind''"
  "to_valid ''bucket'' = ''bucket''" "to_valid ''key'' = ''key''" "to_valid ''mime'' = ''mime''"
  "to_valid ''sum'' = ''sum''"
  by (auto intro!: valid_utf8_to_valid ascii_valid simp: byte_in_def)

lemma symlink_unmarshal_marshal:
  "one_string_unmarshal ''target'' (symlink_marshal t) = Some (to_valid t)"
  by (simp add: one_string_unmarshal_def symlink_marshal_def json_parse_print ascii_keys byte_in_def)

lemma mount_unmarshal_marshal:
  "one_string_unmarshal ''src'' (mount_marshal t) = Some (to_valid t)"
  by (simp add: one_string_unmarshal_def mount_marshal_def json_parse_print ascii_keys byte_in_def)

interpretation symlink_codec: codec symlink_marshal "one_string_unmarshal ''target''" valid_utf8
  by unfold_locales (simp add: symlink_unmarshal_marshal valid_utf8_to_valid)

interpretation mount_codec: codec mount_marshal "one_string_unmarshal ''src''" valid_utf8
  by unfold_locales (simp add: mount_unmarshal_marshal valid_utf8_to_valid)

section \<open>Objects\<close>

record object_content =
  o_bucket :: string
  o_key :: string
  o_mime :: string
  o_checksum :: string

definition object_marshal :: "object_content \<Rightarrow> string" where
  "object_marshal c = json_print (JObj
     ([(''bucket'', JStr (o_bucket c)), (''key'', JStr (o_key c)), (''mime'', JStr (o_mime c))]
      @ (if o_checksum c = [] then [] else [(''sum'', JStr (o_checksum c))])))"

definition object_fields :: "(string \<times> json) list \<Rightarrow> object_content option" where
  "object_fields ms =
     (case (str_field ''bucket'' [] ms, str_field ''key'' [] ms, str_field ''mime'' [] ms, str_field ''sum'' [] ms) of
        (Some b, Some k, Some m, Some c) \<Rightarrow>
          Some \<lparr>o_bucket = b, o_key = k, o_mime = m, o_checksum = c\<rparr>
      | _ \<Rightarrow> None)"

definition object_unmarshal :: "string \<Rightarrow> object_content option" where
  "object_unmarshal s =
     (case json_parse s of
        Some (JObj ms) \<Rightarrow> object_fields ms
      | Some JNull \<Rightarrow> object_fields []
      | _ \<Rightarrow> None)"

definition object_exact :: "object_content \<Rightarrow> bool" where
  "object_exact c \<longleftrightarrow> valid_utf8 (o_bucket c) \<and> valid_utf8 (o_key c) \<and>
     valid_utf8 (o_mime c) \<and> valid_utf8 (o_checksum c)"

definition read_object :: "node \<Rightarrow> gerror + object_content" where
  "read_object n = read_payload object_unmarshal ''object'' n"

interpretation object_codec: codec object_marshal object_unmarshal object_exact
  by unfold_locales
    (auto simp: object_exact_def object_unmarshal_def object_marshal_def json_parse_print
      object_fields_def ascii_keys byte_in_def valid_utf8_to_valid)

section \<open>Directories\<close>

record dir_entry =
  de_ino :: uuid
  de_name :: string
  de_kind :: node_kind

text \<open>\<open>DirContent\<close>: its one field is a slice, \<open>None\<close> where it is nil. \<open>entries\<close> is what ranging
  over it visits.\<close>

type_synonym dir_content = "dir_entry list option"

definition entries :: "dir_content \<Rightarrow> dir_entry list" where
  "entries dc = (case dc of None \<Rightarrow> [] | Some es \<Rightarrow> es)"

lemma entries_simps [simp]: "entries None = []" "entries (Some es) = es"
  by (simp_all add: entries_def)

definition entry_json :: "env \<Rightarrow> dir_entry \<Rightarrow> json" where
  "entry_json E e = JObj
     [(''ino'', JStr (uuid_text E (de_ino e))), (''name'', JStr (de_name e)),
      (''kind'', JNum (dec_nat (unat (de_kind e))))]"

definition dir_marshal :: "env \<Rightarrow> dir_content \<Rightarrow> string" where
  "dir_marshal E dc = json_print (JObj [(''items'',
     (case dc of None \<Rightarrow> JNull | Some es \<Rightarrow> JArr (map (entry_json E) es)))])"

fun uuid_field :: "env \<Rightarrow> string \<Rightarrow> uuid \<Rightarrow> (string \<times> json) list \<Rightarrow> uuid option" where
  "uuid_field E f acc [] = Some acc"
| "uuid_field E f acc ((k, v) # ms) =
     (if fold_name k = f then
        (case v of
           JStr x \<Rightarrow> (case uuid_parse E x of Some u \<Rightarrow> uuid_field E f u ms | None \<Rightarrow> None)
         | JNull \<Rightarrow> uuid_field E f acc ms
         | _ \<Rightarrow> None)
      else uuid_field E f acc ms)"

definition entry_fields :: "env \<Rightarrow> (string \<times> json) list \<Rightarrow> dir_entry option" where
  "entry_fields E ms =
     (case (uuid_field E ''ino'' uuid_Nil ms, str_field ''name'' [] ms, uint8_field ''kind'' 0 ms) of
        (Some u, Some x, Some k) \<Rightarrow> Some \<lparr>de_ino = u, de_name = x, de_kind = k\<rparr>
      | _ \<Rightarrow> None)"

definition entry_decode :: "env \<Rightarrow> json \<Rightarrow> dir_entry option" where
  "entry_decode E v =
     (case v of
        JObj ms \<Rightarrow> entry_fields E ms
      | JNull \<Rightarrow> entry_fields E []
      | _ \<Rightarrow> None)"

fun items_field :: "env \<Rightarrow> dir_content \<Rightarrow> (string \<times> json) list \<Rightarrow> dir_content option" where
  "items_field E acc [] = Some acc"
| "items_field E acc ((k, v) # ms) =
     (if fold_name k = ''items'' then
        (case v of
           JArr vs \<Rightarrow>
             (case those (map (entry_decode E) vs) of
                Some es \<Rightarrow> items_field E (Some es) ms
              | None \<Rightarrow> None)
         | JNull \<Rightarrow> items_field E None ms
         | _ \<Rightarrow> None)
      else items_field E acc ms)"

definition dir_unmarshal :: "env \<Rightarrow> string \<Rightarrow> dir_content option" where
  "dir_unmarshal E s =
     (case json_parse s of
        Some (JObj ms) \<Rightarrow> items_field E None ms
      | Some JNull \<Rightarrow> Some None
      | _ \<Rightarrow> None)"

definition names_ok :: "dir_entry list \<Rightarrow> bool" where
  "names_ok es \<longleftrightarrow> (\<forall>e\<in>set es. valid_utf8 (de_name e))"

definition dir_exact :: "env \<Rightarrow> dir_content \<Rightarrow> bool" where
  "dir_exact E dc \<longleftrightarrow> uuid_codec E \<and> names_ok (entries dc)"

lemma names_ok_simps [simp]:
  "names_ok []" "names_ok (e # es) \<longleftrightarrow> valid_utf8 (de_name e) \<and> names_ok es"
  "names_ok (es @ fs) \<longleftrightarrow> names_ok es \<and> names_ok fs"
  by (auto simp: names_ok_def)

lemma names_ok_filter: "names_ok es \<Longrightarrow> names_ok (filter P es)"
  by (auto simp: names_ok_def)

lemma entry_decode_json:
  "uuid_codec E \<Longrightarrow> valid_utf8 (de_name e) \<Longrightarrow> entry_decode E (json_norm (entry_json E e)) = Some e"
proof -
  assume u: "uuid_codec E" and n: "valid_utf8 (de_name e)"
  have "unat (de_kind e) < 256" by (rule order_less_le_trans [OF unsigned_less]) simp
  moreover have "to_valid (uuid_text E (de_ino e)) = uuid_text E (de_ino e)"
    using u by (simp add: uuid_codec_def ascii_valid valid_utf8_to_valid)
  ultimately show ?thesis using u n
    by (simp add: entry_decode_def entry_json_def entry_fields_def ascii_keys byte_in_def
        parse_uint_dec uuid_codec_def valid_utf8_to_valid)
qed

lemma those_entries:
  "uuid_codec E \<Longrightarrow> names_ok es \<Longrightarrow>
   those (map (entry_decode E) (map json_norm (map (entry_json E) es))) = Some es"
  by (induction es) (auto simp: entry_decode_json)

lemma num_ok_dir: "num_ok (JArr (map (entry_json E) es))"
  by (auto simp: entry_json_def)

lemma dir_unmarshal_marshal:
  assumes "dir_exact E dc"
  shows "dir_unmarshal E (dir_marshal E dc) = Some dc"
proof (cases dc)
  case None
  then show ?thesis
    by (simp add: dir_unmarshal_def dir_marshal_def json_parse_print ascii_keys byte_in_def)
next
  case (Some es)
  have t: "those (map (entry_decode E) (map json_norm (map (entry_json E) es))) = Some es"
    using assms Some by (intro those_entries) (auto simp: dir_exact_def)
  have p: "json_parse (dir_marshal E (Some es))
        = Some (JObj [(''items'', JArr (map json_norm (map (entry_json E) es)))])"
    using num_ok_dir [of E es] by (simp add: dir_marshal_def json_parse_print ascii_keys)
  show ?thesis using t p Some by (simp add: dir_unmarshal_def byte_in_def)
qed

interpretation dir_codec: codec "dir_marshal E" "dir_unmarshal E" "dir_exact E" for E
  by unfold_locales (rule dir_unmarshal_marshal)

definition read_dir :: "env \<Rightarrow> node \<Rightarrow> gerror + dir_content" where
  "read_dir E n = read_payload (dir_unmarshal E) ''directory'' n"

text \<open>\<open>DirContent.findEntry\<close>: the first entry of that name.\<close>

definition find_entry :: "dir_content \<Rightarrow> string \<Rightarrow> dir_entry option" where
  "find_entry dc name = find (\<lambda>e. de_name e = name) (entries dc)"

definition lookup :: "env \<Rightarrow> node \<Rightarrow> string \<Rightarrow> gerror + dir_entry option" where
  "lookup E n name =
     (if n_kind n \<noteq> NodeKindDirectory then Inl (New KindInvalidArgument ''node: not a directory'')
      else (case read_dir E n of
              Inl e \<Rightarrow> Inl e
            | Inr dc \<Rightarrow> Inr (find_entry dc name)))"

section \<open>Directories as lists of entries\<close>

text \<open>A node that holds exactly the listing \<open>dc\<close>.\<close>

definition holds_dir :: "env \<Rightarrow> node \<Rightarrow> dir_content \<Rightarrow> bool" where
  "holds_dir E n dc \<longleftrightarrow> n_kind n = NodeKindDirectory \<and> n_content n = Some (dir_marshal E dc) \<and> dir_exact E dc"

lemma read_payload_Some:
  "n_content n = Some c \<Longrightarrow> dec c = Some x \<Longrightarrow> read_payload dec what n = Inr x"
  by (simp add: read_payload_def node_read_def)

lemma read_payload_Inr_iff:
  "read_payload dec what n = Inr x \<longleftrightarrow> (\<exists>c. n_content n = Some c \<and> dec c = Some x)"
  by (auto simp: read_payload_def node_read_def split: option.splits)

lemma holds_dir_read: "holds_dir E n dc \<Longrightarrow> read_dir E n = Inr dc"
  by (simp add: holds_dir_def read_dir_def read_payload_Some dir_codec.dec_enc)

lemma holds_dir_lookup: "holds_dir E n dc \<Longrightarrow> lookup E n name = Inr (find_entry dc name)"
  by (simp add: lookup_def holds_dir_read) (simp add: holds_dir_def)

end
