(* ===== verification/World.thy ===== *)
theory World
  imports NodeTypes
begin

text \<open>
  The state the services share: the tables of ent/schema (one record per row type), the
  database with the transaction in progress (package internal/entx), the caches and the
  external stores, as one record that the monad threads. Then the transaction manager and
  three properties of operations, closed under the monad's combinators: \<open>quiet\<close> (writes no
  store), \<open>tx_safe\<close> (inside a transaction, writes only to it) and \<open>atomic\<close> (leaves the
  database unchanged when it fails). The locale \<open>tx_manager\<close> is the interface \<open>TxManager\<close>.
\<close>

section \<open>Rows\<close>

text \<open>
  The columns for instants are of type \<open>timestamptz\<close> (internal/app/migrations), which keeps microseconds: PostgreSQL
  rounds the nanoseconds it is sent to the nearest one, a half to the even one.
\<close>

definition timestamptz :: "time \<Rightarrow> time" where
  "timestamptz t =
     (let q = t div 1000; r = t mod 1000 in 1000 * (if r < 500 \<or> (r = 500 \<and> even q) then q else q + 1))"

lemma timestamptz_bounds: "timestamptz t mod 1000 = 0 \<and> \<bar>timestamptz t - t\<bar> \<le> 500"
proof -
  obtain q r where t: "t = 1000 * q + r" "t div 1000 = q" "t mod 1000 = r" "0 \<le> r" "r < 1000"
    by (rule that [of "t div 1000" "t mod 1000"]) simp_all
  then show ?thesis by (cases "r < 500 \<or> (r = 500 \<and> even q)") (auto simp: timestamptz_def Let_def abs_if)
qed

lemma timestamptz_exact: "t mod 1000 = 0 \<Longrightarrow> timestamptz t = t"
  by (auto simp: timestamptz_def Let_def)

lemma timestamptz_idem [simp]: "timestamptz (timestamptz t) = timestamptz t"
  using timestamptz_bounds by (blast intro: timestamptz_exact)

lemma timestamptz_0 [simp]: "timestamptz 0 = 0"
  by (rule timestamptz_exact) simp

text \<open>\<open>en_content\<close> is \<open>None\<close> for SQL NULL.\<close>

record ent_node =
  en_id :: uuid
  en_kind :: string
  en_size :: int
  en_nlink :: "32 word"
  en_content :: "string option"
  en_atime :: time
  en_mtime :: time
  en_ctime :: time
  en_crtime :: time
  en_flags :: "32 word"
  en_revision :: string

record ent_drive =
  ed_id :: string
  ed_public_id :: string
  ed_name :: string
  ed_description :: "string option"
  ed_provider :: string
  ed_owner_id :: string
  ed_root_node_id :: "uuid option"
  ed_deleted_at :: "time option"
  ed_create_time :: time
  ed_update_time :: time

record ent_storage =
  es_drive_id :: string
  es_bucket :: string
  es_endpoint :: "string option"
  es_region :: string
  es_access_key :: string
  es_secret_key :: string
  es_use_path_style :: bool

record ent_user =
  eu_id :: string
  eu_public_id :: string
  eu_name :: string
  eu_email :: "string option"
  eu_provider :: string
  eu_provider_id :: string
  eu_create_time :: time
  eu_update_time :: time

record ent_tomb =
  et_id :: nat
  et_bucket :: string
  et_key :: string
  et_retries :: nat
  et_create_time :: time

text \<open>The validators ent runs before a create or an update (\<open>MaxLen\<close> counts bytes).\<close>

definition valid_node_row :: "ent_node \<Rightarrow> bool" where
  "valid_node_row r \<longleftrightarrow>
     en_kind r \<in> {''file'', ''directory'', ''symlink'', ''object'', ''mount''} \<and>
     length (case en_content r of None \<Rightarrow> [] | Some c \<Rightarrow> c) \<le> 4096 \<and>
     length (en_revision r) \<le> 26"

definition valid_drive_row :: "ent_drive \<Rightarrow> bool" where
  "valid_drive_row r \<longleftrightarrow>
     length (ed_id r) \<le> 32 \<and> length (ed_public_id r) \<le> 32 \<and> length (ed_name r) \<le> 64 \<and>
     length (case ed_description r of None \<Rightarrow> [] | Some d \<Rightarrow> d) \<le> 255 \<and>
     ed_provider r \<in> {''s3'', ''minio''} \<and> length (ed_owner_id r) \<le> 32"

definition valid_storage_row :: "ent_storage \<Rightarrow> bool" where
  "valid_storage_row r \<longleftrightarrow>
     length (es_drive_id r) \<le> 32 \<and> length (es_bucket r) \<le> 128 \<and>
     length (case es_endpoint r of None \<Rightarrow> [] | Some e \<Rightarrow> e) \<le> 255 \<and>
     length (es_region r) \<le> 32 \<and> length (es_access_key r) \<le> 255 \<and> length (es_secret_key r) \<le> 255"

definition valid_user_row :: "ent_user \<Rightarrow> bool" where
  "valid_user_row r \<longleftrightarrow>
     length (eu_id r) \<le> 32 \<and> length (eu_public_id r) \<le> 32 \<and> length (eu_name r) \<le> 255 \<and>
     length (case eu_email r of None \<Rightarrow> [] | Some e \<Rightarrow> e) \<le> 255 \<and>
     length (eu_provider r) \<le> 32 \<and> length (eu_provider_id r) \<le> 255"

definition valid_tomb_row :: "ent_tomb \<Rightarrow> bool" where
  "valid_tomb_row r \<longleftrightarrow> length (et_bucket r) \<le> 128 \<and> length (et_key r) \<le> 512"

record db =
  t_nodes :: "uuid \<rightharpoonup> ent_node"
  t_drives :: "ent_drive list"
  t_storages :: "ent_storage list"
  t_users :: "ent_user list"
  t_tombs :: "ent_tomb list"

definition empty_db :: db where
  "empty_db = \<lparr>t_nodes = Map.empty, t_drives = [], t_storages = [], t_users = [], t_tombs = []\<rparr>"

section \<open>Upload tokens\<close>

record presign_meta =
  pm_upload_id :: string
  pm_drive_id :: string
  pm_user_id :: string
  pm_path :: string
  pm_bucket :: string
  pm_key :: string
  pm_content_type :: "string option"
  pm_size :: "int option"
  pm_expires_at :: time

section \<open>The world\<close>

text \<open>
  \<open>w_db\<close> is the committed database, \<open>w_tx\<close> the snapshot an open transaction works on (the
  transaction a Go context carries), \<open>w_tick\<close> the number of draws made so far, \<open>w_cache\<close> the
  node cache of the path resolver in use, \<open>w_kv\<close> the Valkey keys with their expiry, \<open>w_mem\<close>
  the in-memory upload registry, \<open>w_objs\<close> the S3 objects, \<open>w_fga\<close>
  the relationship tuples of the OpenFGA store.
\<close>

record world =
  w_db :: db
  w_tx :: "db option"
  w_tick :: nat
  w_cache :: "uuid \<rightharpoonup> node"
  w_kv :: "string \<rightharpoonup> string \<times> time"
  w_mem :: "string \<rightharpoonup> presign_meta \<times> time"
  w_objs :: "(string \<times> string) set"
  w_fga :: "(string \<times> string \<times> string) list"

definition world_of :: "db \<Rightarrow> world" where
  "world_of d = \<lparr>w_db = d, w_tx = None, w_tick = 0, w_cache = Map.empty, w_kv = Map.empty,
                 w_mem = Map.empty, w_objs = {}, w_fga = []\<rparr>"

type_synonym 'a W = "(world, 'a) M"

definition draw :: "(nat \<Rightarrow> 'a) \<Rightarrow> 'a W" where
  "draw g = (\<lambda>w. (Inr (g (w_tick w)), w\<lparr>w_tick := Suc (w_tick w)\<rparr>))"

definition time_Now :: "env \<Rightarrow> time W" where
  "time_Now E = draw (clock E)"

definition uuid_New :: "env \<Rightarrow> uuid W" where
  "uuid_New E = draw (uuid_gen E)"

definition ulid_Make :: "env \<Rightarrow> string W" where
  "ulid_Make E = draw (ulid_gen E)"

text \<open>A call to the database or over the network, which may fail.\<close>

definition io :: "env \<Rightarrow> unit W" where
  "io E = (\<lambda>w. (case fault E (w_tick w) of
                  None \<Rightarrow> Inr ()
                | Some m \<Rightarrow> Inl (Foreign m None), w\<lparr>w_tick := Suc (w_tick w)\<rparr>))"

text \<open>\<open>entx.FromContext\<close>: the tables a statement sees, the transaction's if there is one.\<close>

definition client :: "world \<Rightarrow> db" where
  "client w = (case w_tx w of Some d \<Rightarrow> d | None \<Rightarrow> w_db w)"

definition get_client :: "db W" where
  "get_client = (\<lambda>w. (Inr (client w), w))"

definition get_committed :: "db W" where
  "get_committed = (\<lambda>w. (Inr (w_db w), w))"

definition put_client :: "db \<Rightarrow> unit W" where
  "put_client d = (\<lambda>w. (Inr (), case w_tx w of Some _ \<Rightarrow> w\<lparr>w_tx := Some d\<rparr> | None \<Rightarrow> w\<lparr>w_db := d\<rparr>))"

lemma io_no_faults: "no_faults E \<Longrightarrow> io E w = (Inr (), w\<lparr>w_tick := Suc (w_tick w)\<rparr>)"
  by (simp add: io_def no_faults_def)

lemma client_put [simp]:
  "client (snd (put_client d w)) = d"
  by (simp add: put_client_def client_def split: option.splits)

section \<open>Transactions\<close>

text \<open>
  \<open>txManager.WithTx\<close>. A nested call just runs the body. Otherwise: begin, run, roll back and
  return the body's error (or the rollback's own), or commit. A failed commit publishes
  nothing.
\<close>

definition with_tx :: "env \<Rightarrow> 'a W \<Rightarrow> 'a W" where
  "with_tx E m = (\<lambda>w.
     case w_tx w of
       Some _ \<Rightarrow> m w
     | None \<Rightarrow>
         (case io E w of
            (Inl e, w1) \<Rightarrow> (Inl e, w1)
          | (Inr _, w1) \<Rightarrow>
              (case m (w1\<lparr>w_tx := Some (w_db w1)\<rparr>) of
                 (Inl e, w2) \<Rightarrow>
                   (case io E (w2\<lparr>w_tx := None\<rparr>) of
                      (Inl re, w3) \<Rightarrow> (Inl re, w3)
                    | (Inr _, w3) \<Rightarrow> (Inl e, w3))
               | (Inr x, w2) \<Rightarrow>
                   (case io E w2 of
                      (Inl ce, w3) \<Rightarrow> (Inl ce, w3\<lparr>w_tx := None\<rparr>)
                    | (Inr _, w3) \<Rightarrow> (Inr x, w3\<lparr>w_db := client w3, w_tx := None\<rparr>)))))"

section \<open>Classes of operations\<close>

definition same_store :: "world \<Rightarrow> world \<Rightarrow> bool" where
  "same_store v w \<longleftrightarrow> w_db v = w_db w \<and> w_tx v = w_tx w \<and> w_kv v = w_kv w \<and>
     w_mem v = w_mem w \<and> w_objs v = w_objs w \<and> w_fga v = w_fga w"

definition quiet :: "'a W \<Rightarrow> bool" where
  "quiet m \<longleftrightarrow> (\<forall>w. same_store (snd (m w)) w)"

definition tx_safe :: "'a W \<Rightarrow> bool" where
  "tx_safe m \<longleftrightarrow> (\<forall>w. w_tx w \<noteq> None \<longrightarrow>
     w_db (snd (m w)) = w_db w \<and> w_tx (snd (m w)) \<noteq> None)"

definition atomic :: "'a W \<Rightarrow> bool" where
  "atomic m \<longleftrightarrow> (\<forall>w. w_tx w = None \<longrightarrow>
     w_tx (snd (m w)) = None \<and> (\<forall>e w'. m w = (Inl e, w') \<longrightarrow> w_db w' = w_db w))"

lemma quietD: "quiet m \<Longrightarrow> m w = (r, w') \<Longrightarrow> same_store w' w"
  by (metis quiet_def snd_conv)

lemma quiet_db: "quiet m \<Longrightarrow> m w = (r, w') \<Longrightarrow> w_db w' = w_db w \<and> w_tx w' = w_tx w"
  by (auto dest: quietD simp: same_store_def)

lemma quiet_client: "quiet m \<Longrightarrow> m w = (r, w') \<Longrightarrow> client w' = client w"
  using quiet_db [of m w r w'] by (cases "w_tx w") (simp_all add: client_def)

lemma atomicD: "atomic m \<Longrightarrow> w_tx w = None \<Longrightarrow> m w = (Inl e, w') \<Longrightarrow> w_db w' = w_db w \<and> w_tx w' = None"
  by (metis atomic_def snd_conv)

text \<open>Run in \<open>w\<close>, an error leaves the database as it was and no transaction open.\<close>

definition rolls_back :: "'a W \<Rightarrow> world \<Rightarrow> bool" where
  "rolls_back m w \<longleftrightarrow>
     (case m w of (Inl e, w') \<Rightarrow> w_db w' = w_db w \<and> w_tx w' = None | (Inr x, w') \<Rightarrow> True)"

lemma atomic_rolls_back: "atomic m \<Longrightarrow> w_tx w = None \<Longrightarrow> rolls_back m w"
  by (auto simp: rolls_back_def dest: atomicD split: prod.splits sum.splits)

lemma same_store_simps [simp]:
  fixes w :: world
  shows "same_store w w" "same_store (w\<lparr>w_tick := k\<rparr>) w" "same_store (w\<lparr>w_cache := c\<rparr>) w"
  by (simp_all add: same_store_def)

lemma same_store_trans: "same_store u v \<Longrightarrow> same_store v w \<Longrightarrow> same_store u w"
  by (simp add: same_store_def)

lemma quiet_basic [quiet_intros]:
  "quiet (retM x)" "quiet (failM e)" "quiet (liftM r)" "quiet (ensureM b e)" "quiet (draw g)"
  "quiet (time_Now E)" "quiet (uuid_New E)" "quiet (ulid_Make E)" "quiet (io E)"
  "quiet get_client" "quiet get_committed"
  by (auto simp: quiet_def draw_def time_Now_def uuid_New_def ulid_Make_def io_def get_client_def get_committed_def)

lemma quiet_tryM [quiet_intros]:
  assumes "quiet m" and "\<And>e. quiet (h e)" and "\<And>x. quiet (f x)"
  shows "quiet (tryM m h f)"
  unfolding quiet_def
proof
  fix w :: world
  obtain r w1 where m: "m w = (r, w1)" by (cases "m w")
  then have "same_store w1 w" using quietD [OF assms(1)] by blast
  moreover have "same_store (snd (h e w1)) w1" "same_store (snd (f x w1)) w1" for e x
    using assms(2,3) unfolding quiet_def by blast+
  ultimately show "same_store (snd (tryM m h f w)) w"
    using m by (cases r) (auto intro: same_store_trans)
qed

lemma bindM_tryM: "bindM m f = tryM m failM f"
  by (auto simp: bindM_def tryM_def fun_eq_iff split: prod.splits sum.splits)

lemma wrapM_tryM: "wrapM ks s m = tryM m (\<lambda>e. failM (wrap_with ks s e)) retM"
  by (auto simp: wrapM_def tryM_def fun_eq_iff split: prod.splits sum.splits)

lemma quiet_bindM [quiet_intros]:
  assumes "quiet m" and "\<And>x. quiet (f x)"
  shows "quiet (bindM m f)"
  unfolding bindM_tryM by (intro quiet_tryM assms quiet_basic)

lemma quiet_seqM [quiet_intros]: "quiet m \<Longrightarrow> quiet k \<Longrightarrow> quiet (seqM m k)"
  unfolding seqM_def by (intro quiet_bindM)

lemma quiet_wrapM [quiet_intros]: "quiet m \<Longrightarrow> quiet (wrapM ks s m)"
  unfolding wrapM_tryM by (intro quiet_tryM quiet_basic)

lemma quiet_cases [quiet_intros]:
  "(b \<Longrightarrow> quiet m) \<Longrightarrow> (\<not> b \<Longrightarrow> quiet k) \<Longrightarrow> quiet (if b then m else k)"
  "(x = None \<Longrightarrow> quiet m) \<Longrightarrow> (\<And>y. x = Some y \<Longrightarrow> quiet (f y)) \<Longrightarrow> quiet (case x of None \<Rightarrow> m | Some y \<Rightarrow> f y)"
  "(\<And>e. s = Inl e \<Longrightarrow> quiet (g e)) \<Longrightarrow> (\<And>y. s = Inr y \<Longrightarrow> quiet (h y)) \<Longrightarrow>
     quiet (case s of Inl e \<Rightarrow> g e | Inr y \<Rightarrow> h y)"
  "(\<And>a c. p = (a, c) \<Longrightarrow> quiet (q a c)) \<Longrightarrow> quiet (case p of (a, c) \<Rightarrow> q a c)"
  "quiet (l z) \<Longrightarrow> quiet (Let z l)"
  by (auto split: option.splits sum.splits prod.splits)

lemma quiet_foldM [quiet_intros]: "(\<And>x a. quiet (f x a)) \<Longrightarrow> quiet (foldM f xs acc)"
  by (induction xs arbitrary: acc) (auto intro!: quiet_intros)

lemma tx_safe_quiet: "quiet m \<Longrightarrow> tx_safe m"
  by (auto simp: quiet_def tx_safe_def same_store_def)

lemma tx_safe_put_client [txsafe_intros]: "tx_safe (put_client d)"
  by (auto simp: tx_safe_def put_client_def)

lemma tx_safe_basic [txsafe_intros]:
  "tx_safe (retM x)" "tx_safe (failM e)" "tx_safe (liftM r)" "tx_safe (ensureM b e)" "tx_safe (draw g)"
  "tx_safe (time_Now E)" "tx_safe (uuid_New E)" "tx_safe (ulid_Make E)" "tx_safe (io E)"
  "tx_safe get_client" "tx_safe get_committed"
  by (auto intro: tx_safe_quiet quiet_intros)

lemma tx_safe_tryM [txsafe_intros]:
  assumes "tx_safe m" and "\<And>e. tx_safe (h e)" and "\<And>x. tx_safe (f x)"
  shows "tx_safe (tryM m h f)"
  unfolding tx_safe_def
proof (intro allI impI)
  fix w :: world assume w: "w_tx w \<noteq> None"
  obtain r w1 where m: "m w = (r, w1)" by (cases "m w")
  have "w_db (snd (m w)) = w_db w \<and> w_tx (snd (m w)) \<noteq> None"
    using assms(1) w unfolding tx_safe_def by blast
  then have w1: "w_db w1 = w_db w" "w_tx w1 \<noteq> None" using m by simp_all
  show "w_db (snd (tryM m h f w)) = w_db w \<and> w_tx (snd (tryM m h f w)) \<noteq> None"
  proof (cases r)
    case (Inl e)
    then show ?thesis using m w1 assms(2) [of e] unfolding tx_safe_def by simp
  next
    case (Inr x)
    then show ?thesis using m w1 assms(3) [of x] unfolding tx_safe_def by simp
  qed
qed

lemma tx_safe_bindM [txsafe_intros]:
  assumes "tx_safe m" and "\<And>x. tx_safe (f x)"
  shows "tx_safe (bindM m f)"
  unfolding bindM_tryM by (intro tx_safe_tryM assms tx_safe_basic)

lemma tx_safe_seqM [txsafe_intros]: "tx_safe m \<Longrightarrow> tx_safe k \<Longrightarrow> tx_safe (seqM m k)"
  unfolding seqM_def by (intro tx_safe_bindM)

lemma tx_safe_wrapM [txsafe_intros]: "tx_safe m \<Longrightarrow> tx_safe (wrapM ks s m)"
  unfolding wrapM_tryM by (intro tx_safe_tryM tx_safe_basic)

lemma tx_safe_cases [txsafe_intros]:
  "(b \<Longrightarrow> tx_safe m) \<Longrightarrow> (\<not> b \<Longrightarrow> tx_safe k) \<Longrightarrow> tx_safe (if b then m else k)"
  "(x = None \<Longrightarrow> tx_safe m) \<Longrightarrow> (\<And>y. x = Some y \<Longrightarrow> tx_safe (f y)) \<Longrightarrow> tx_safe (case x of None \<Rightarrow> m | Some y \<Rightarrow> f y)"
  "(\<And>e. s = Inl e \<Longrightarrow> tx_safe (g e)) \<Longrightarrow> (\<And>y. s = Inr y \<Longrightarrow> tx_safe (h y)) \<Longrightarrow>
     tx_safe (case s of Inl e \<Rightarrow> g e | Inr y \<Rightarrow> h y)"
  "(\<And>a c. p = (a, c) \<Longrightarrow> tx_safe (q a c)) \<Longrightarrow> tx_safe (case p of (a, c) \<Rightarrow> q a c)"
  "tx_safe (l z) \<Longrightarrow> tx_safe (Let z l)"
  by (auto split: option.splits sum.splits prod.splits)

lemma tx_safe_foldM [txsafe_intros]: "(\<And>x a. tx_safe (f x a)) \<Longrightarrow> tx_safe (foldM f xs acc)"
  by (induction xs arbitrary: acc) (auto intro!: txsafe_intros)

lemma atomic_quiet:
  assumes "quiet m"
  shows "atomic m"
  unfolding atomic_def
proof (intro allI impI conjI)
  fix w :: world assume w: "w_tx w = None"
  show "w_tx (snd (m w)) = None" using quiet_db [OF assms prod.collapse [symmetric]] w by simp
  fix e w' assume "m w = (Inl e, w')"
  then show "w_db w' = w_db w" using quiet_db [OF assms] by blast
qed

lemma atomic_basic [atomic_intros]:
  "atomic (retM x)" "atomic (failM e)" "atomic (liftM r)" "atomic (ensureM b e)"
  by (auto intro: atomic_quiet quiet_intros)

lemma atomic_tryM [atomic_intros]:
  assumes "quiet m" and "\<And>e. atomic (h e)" and "\<And>x. atomic (f x)"
  shows "atomic (tryM m h f)"
  unfolding atomic_def
proof (intro allI impI conjI)
  fix w :: world assume w: "w_tx w = None"
  obtain r w1 where m: "m w = (r, w1)" by (cases "m w")
  have w1: "w_db w1 = w_db w" "w_tx w1 = None" using quiet_db [OF assms(1) m] w by simp_all
  show "w_tx (snd (tryM m h f w)) = None"
    using m w1 assms(2,3) unfolding atomic_def by (cases r) auto
  fix e w' assume e: "tryM m h f w = (Inl e, w')"
  show "w_db w' = w_db w"
  proof (cases r)
    case (Inl e0)
    then have "h e0 w1 = (Inl e, w')" using m e by simp
    then show ?thesis using atomicD [OF assms(2) w1(2)] w1(1) by metis
  next
    case (Inr x)
    then have "f x w1 = (Inl e, w')" using m e by simp
    then show ?thesis using atomicD [OF assms(3) w1(2)] w1(1) by metis
  qed
qed

lemma atomic_quiet_bindM [atomic_intros]:
  assumes "quiet m" and "\<And>x. atomic (f x)"
  shows "atomic (bindM m f)"
  unfolding bindM_tryM by (intro atomic_tryM assms atomic_basic)

lemma atomic_quiet_seqM [atomic_intros]: "quiet m \<Longrightarrow> atomic k \<Longrightarrow> atomic (seqM m k)"
  unfolding seqM_def by (intro atomic_quiet_bindM)

text \<open>What follows a write must not write when it fails.\<close>

lemma atomic_then:
  assumes "atomic m" and "\<And>e. quiet (h e)" and "\<And>x. quiet (f x)" and "\<And>x v. \<exists>y. fst (f x v) = Inr y"
  shows "atomic (tryM m h f)"
  unfolding atomic_def
proof (intro allI impI conjI)
  fix w :: world assume w: "w_tx w = None"
  obtain r w1 where m: "m w = (r, w1)" by (cases "m w")
  then have w1: "w_tx w1 = None" using assms(1) w unfolding atomic_def by (metis snd_conv)
  have hf: "w_tx (snd (h e w1)) = None \<and> w_tx (snd (f x w1)) = None" for e x
    using quiet_db [OF assms(2) prod.collapse [symmetric]] quiet_db [OF assms(3) prod.collapse [symmetric]] w1
    by simp
  then show "w_tx (snd (tryM m h f w)) = None" using m by (cases r) auto
  fix e w' assume e: "tryM m h f w = (Inl e, w')"
  show "w_db w' = w_db w"
  proof (cases r)
    case (Inl e0)
    have "w_db w1 = w_db w" using atomicD [OF assms(1) w] m Inl by metis
    moreover have "h e0 w1 = (Inl e, w')" using m e Inl by simp
    ultimately show ?thesis using quiet_db [OF assms(2)] by metis
  next
    case (Inr x)
    then have "f x w1 = (Inl e, w')" using m e by simp
    then show ?thesis using assms(4) [of x w1] by simp
  qed
qed

lemma atomic_then_ret: "atomic m \<Longrightarrow> atomic (bindM m (\<lambda>x. retM (f x)))"
  unfolding bindM_tryM by (rule atomic_then) (simp_all add: quiet_basic)

lemma atomic_wrapM [atomic_intros]: "atomic m \<Longrightarrow> atomic (wrapM ks s m)"
  unfolding wrapM_def atomic_def
proof (intro allI impI conjI)
  fix w :: world
  assume a: "\<forall>w. w_tx w = None \<longrightarrow> w_tx (snd (m w)) = None \<and> (\<forall>e w'. m w = (Inl e, w') \<longrightarrow> w_db w' = w_db w)"
    and w: "w_tx w = None"
  obtain r w1 where m: "m w = (r, w1)" by (cases "m w")
  have "w_tx (snd (m w)) = None" using a w by blast
  then have w1: "w_tx w1 = None" using m by simp
  have d: "r = Inl e \<Longrightarrow> w_db w1 = w_db w" for e using a w m by blast
  show "w_tx (snd (case m w of (Inl e, w1) \<Rightarrow> (Inl (wrap_with ks s e), w1) | (Inr b, x) \<Rightarrow> (Inr b, x))) = None"
    using w1 m by (cases r) auto
  fix e w'
  assume "(case m w of (Inl e, w1) \<Rightarrow> (Inl (wrap_with ks s e), w1) | (Inr b, x) \<Rightarrow> (Inr b, x)) = (Inl e, w')"
  then show "w_db w' = w_db w" using d m by (cases r) simp_all
qed

lemma atomic_cases [atomic_intros]:
  "(b \<Longrightarrow> atomic m) \<Longrightarrow> (\<not> b \<Longrightarrow> atomic k) \<Longrightarrow> atomic (if b then m else k)"
  "(x = None \<Longrightarrow> atomic m) \<Longrightarrow> (\<And>y. x = Some y \<Longrightarrow> atomic (f y)) \<Longrightarrow> atomic (case x of None \<Rightarrow> m | Some y \<Rightarrow> f y)"
  "(\<And>a c. p = (a, c) \<Longrightarrow> atomic (q a c)) \<Longrightarrow> atomic (case p of (a, c) \<Rightarrow> q a c)"
  "atomic (l z) \<Longrightarrow> atomic (Let z l)"
  by (auto split: option.splits sum.splits prod.splits)

section \<open>The interface TxManager\<close>

text \<open>
  What the services rely on: a nested call joins the open transaction; a failing body
  leaves no trace; a successful one publishes exactly the tables it ended with.
\<close>

locale tx_manager =
  fixes run :: "'a W \<Rightarrow> 'a W"
  assumes run_nested: "w_tx w \<noteq> None \<Longrightarrow> run m w = m w"
    and run_closes: "tx_safe m \<Longrightarrow> w_tx w = None \<Longrightarrow> w_tx (snd (run m w)) = None"
    and run_rollback: "tx_safe m \<Longrightarrow> w_tx w = None \<Longrightarrow> run m w = (Inl e, w') \<Longrightarrow> w_db w' = w_db w"
    and run_publish: "tx_safe m \<Longrightarrow> w_tx w = None \<Longrightarrow> run m w = (Inr x, w') \<Longrightarrow>
      \<exists>k w1 k'. m (w\<lparr>w_tx := Some (w_db w), w_tick := k\<rparr>) = (Inr x, w1) \<and> w_tx w1 \<noteq> None \<and>
        w' = w1\<lparr>w_db := client w1, w_tx := None, w_tick := k'\<rparr>"
begin

lemma run_atomic: "tx_safe m \<Longrightarrow> atomic (run m)"
  unfolding atomic_def by (metis run_closes run_rollback)

lemma run_tx_safe: "tx_safe m \<Longrightarrow> tx_safe (run m)"
  unfolding tx_safe_def by (simp add: run_nested)

lemma run_committed:
  assumes "tx_safe m" "w_tx w = None" "run m w = (Inr x, w')"
  obtains k w1 where "m (w\<lparr>w_tx := Some (w_db w), w_tick := k\<rparr>) = (Inr x, w1)"
    "w_tx w1 \<noteq> None" "w_db w' = client w1" "w_tx w' = None"
  using run_publish [OF assms] that by auto

end

lemma io_cases:
  obtains e where "io E w = (Inl e, w\<lparr>w_tick := Suc (w_tick w)\<rparr>)"
  | "io E w = (Inr (), w\<lparr>w_tick := Suc (w_tick w)\<rparr>)"
  by (cases "fault E (w_tick w)") (auto simp: io_def)

lemma tx_safe_begin:
  fixes w :: world
  assumes "tx_safe m" "m (w\<lparr>w_tx := Some d, w_tick := k\<rparr>) = (r, w')"
  shows "w_db w' = w_db w" "w_tx w' \<noteq> None"
proof -
  let ?b = "w\<lparr>w_tx := Some d, w_tick := k\<rparr>"
  have "w_tx ?b \<noteq> None" by simp
  then have "w_db (snd (m ?b)) = w_db ?b \<and> w_tx (snd (m ?b)) \<noteq> None"
    using assms(1) unfolding tx_safe_def by blast
  then show "w_db w' = w_db w" "w_tx w' \<noteq> None" using assms(2) by simp_all
qed

lemma client_tick [simp]: "client ((w::world)\<lparr>w_tick := k\<rparr>) = client w"
  by (cases "w_tx w") (simp_all add: client_def)

lemma with_tx_fresh:
  fixes w :: world
  assumes "w_tx w = None"
  shows "with_tx E m w =
    (case fault E (w_tick w) of
       Some f \<Rightarrow> (Inl (Foreign f None), w\<lparr>w_tick := Suc (w_tick w)\<rparr>)
     | None \<Rightarrow>
        (case m (w\<lparr>w_tx := Some (w_db w), w_tick := Suc (w_tick w)\<rparr>) of
           (Inl e, w2) \<Rightarrow>
             (Inl (case fault E (w_tick w2) of None \<Rightarrow> e | Some f \<Rightarrow> Foreign f None),
              w2\<lparr>w_tx := None, w_tick := Suc (w_tick w2)\<rparr>)
         | (Inr x, w2) \<Rightarrow>
             (case fault E (w_tick w2) of
                Some f \<Rightarrow> (Inl (Foreign f None), w2\<lparr>w_tx := None, w_tick := Suc (w_tick w2)\<rparr>)
              | None \<Rightarrow> (Inr x, w2\<lparr>w_db := client w2, w_tx := None, w_tick := Suc (w_tick w2)\<rparr>))))"
proof -
  obtain r w2 where b: "m (w\<lparr>w_tx := Some (w_db w), w_tick := Suc (w_tick w)\<rparr>) = (r, w2)" by fastforce
  moreover have "m (w\<lparr>w_tick := Suc (w_tick w), w_tx := Some (w_db w)\<rparr>) = (r, w2)"
    by (subst b [symmetric]) (rule arg_cong [of _ _ m], simp)
  ultimately show ?thesis using assms
    by (cases "fault E (w_tick w)"; cases r; cases "fault E (w_tick w2)") (simp_all add: with_tx_def io_def)
qed

interpretation tx: tx_manager "with_tx E" for E
proof unfold_locales
  show "w_tx w \<noteq> None \<Longrightarrow> with_tx E m w = m w" for w :: world and m :: "'a W"
    by (auto simp: with_tx_def)
next
  fix w :: world and m :: "'a W"
  assume "tx_safe m" "w_tx w = None"
  then show "w_tx (snd (with_tx E m w)) = None"
    by (simp add: with_tx_fresh split: option.splits prod.splits sum.splits)
next
  fix w w' :: world and e and m :: "'a W"
  assume m: "tx_safe m" "w_tx w = None" "with_tx E m w = (Inl e, w')"
  obtain r w2 where b: "m (w\<lparr>w_tx := Some (w_db w), w_tick := Suc (w_tick w)\<rparr>) = (r, w2)" by fastforce
  then have "w_db w2 = w_db w" using tx_safe_begin(1) [OF m(1)] by simp
  then show "w_db w' = w_db w"
    using m(3) b with_tx_fresh [OF m(2), of E m]
    by (cases "fault E (w_tick w)"; cases r; cases "fault E (w_tick w2)") auto
next
  fix w w' :: world and x and m :: "'a W"
  assume m: "tx_safe m" "w_tx w = None" "with_tx E m w = (Inr x, w')"
  obtain r w2 where b: "m (w\<lparr>w_tx := Some (w_db w), w_tick := Suc (w_tick w)\<rparr>) = (r, w2)" by fastforce
  have "w_tx w2 \<noteq> None" using tx_safe_begin(2) [OF m(1) b] .
  moreover have "r = Inr x" "w' = w2\<lparr>w_db := client w2, w_tx := None, w_tick := Suc (w_tick w2)\<rparr>"
    using m(3) b with_tx_fresh [OF m(2), of E m]
    by (cases "fault E (w_tick w)"; cases r; cases "fault E (w_tick w2)"; auto)+
  ultimately show "\<exists>k w1 k'. m (w\<lparr>w_tx := Some (w_db w), w_tick := k\<rparr>) = (Inr x, w1) \<and> w_tx w1 \<noteq> None \<and>
        w' = w1\<lparr>w_db := client w1, w_tx := None, w_tick := k'\<rparr>"
    using b by blast
qed

lemmas with_tx_atomic [atomic_intros] = tx.run_atomic
lemmas with_tx_tx_safe [txsafe_intros] = tx.run_tx_safe

end
