(* ===== verification/Demo.thy ===== *)
theory Demo
  imports World
begin

text \<open>
  A concrete environment, for evaluating the model on concrete inputs: UUIDs are written in
  decimal, the n-th draw of the clock is instant n + 1, of a UUID the number 100 + n mod 900, of a
  revision the decimal text of n (cut at 26 bytes), and no call faults. It satisfies \<open>uuid_codec\<close> \<open>ulids_ok\<close> and
  \<open>no_faults\<close>, the hypotheses on the environment that properties use.
\<close>

definition demo :: env where
  "demo = \<lparr>uuid_text = (\<lambda>u. dec_nat (unat u)), uuid_parse = (\<lambda>s. map_option of_nat (parse_uint s)),
     uuid_gen = (\<lambda>n. of_nat (100 + n mod 900)), ulid_gen = (\<lambda>n. take 26 (dec_nat n)), clock = (\<lambda>n. int (Suc n)),
     fault = (\<lambda>n. None), time_text = (\<lambda>t. itoa_int t), time_parse = (\<lambda>s. map_option int (parse_uint s)),
     rand_read = (\<lambda>t n. Some (replicate n (CHR ''x''))), gcm_seal = (\<lambda>k n p. p), gcm_open = (\<lambda>k n c. Some c)\<rparr>"

lemma demo_simps [simp]:
  "uuid_text demo u = dec_nat (unat u)" "uuid_gen demo n = of_nat (100 + n mod 900)" "ulid_gen demo n = take 26 (dec_nat n)"
  "clock demo n = int (Suc n)" "fault demo n = None"
  by (simp_all add: demo_def)

lemma demo_uuid_codec [simp]: "uuid_codec demo"
proof -
  have "ascii (dec_nat n)" for n
    using dec_nat_digits [of n] by (auto simp: ascii_def list_all_iff is_digit_def byte_in_def)
  then show ?thesis by (simp add: uuid_codec_def demo_def parse_uint_dec)
qed

lemma demo_no_faults [simp]: "no_faults demo"
  by (simp add: no_faults_def)

lemma demo_gcm [simp]: "gcm_ok demo" "rand_ok demo"
  by (auto simp: gcm_ok_def rand_ok_def demo_def)

lemma demo_ulids [simp]: "ulids_ok demo"
  by (simp add: ulids_ok_def)

lemma dec_nat_digit: "n < 10 \<Longrightarrow> dec_nat n = [digit_char n]"
  by (simp add: dec_nat.simps [of n])

lemma dec_nat_two: "\<not> n < 10 \<Longrightarrow> dec_nat n = dec_nat (n div 10) @ [digit_char (n mod 10)]"
  by (simp add: dec_nat.simps [of n])

text \<open>The evaluation rules of the encoders.\<close>

lemmas encode_eval = file_marshal_def symlink_marshal_def mount_marshal_def object_marshal_def
  dir_marshal_def entry_json_def json_quote_def byte_in_def dec_nat_digit dec_nat_two digit_char_def esc_ascii_def
  MaxContentSize_def json_print.simps json_elems.simps json_members.simps json_esc.simps(2) char_of_eq_iff

end
