(* ===== verification/Inode.thy ===== *)
theory Inode
  imports Demo
begin

text \<open>
  The in-memory operations of package internal/core/node: the constructors and the write
  methods of each node type (node.go, inline_node.go, file.go, dir.go, symlink.go, object.go,
  mount.go). A method that mutates its receiver returns the receiver as it leaves it; on an
  error none of them has written to it. The clock and the revision source are draws.
\<close>

section \<open>Nodes\<close>

text \<open>\<open>newNode\<close>.\<close>

definition newNode :: "env \<Rightarrow> node_kind \<Rightarrow> node W" where
  "newNode E kind =
     bindM (time_Now E) (\<lambda>now. bindM (uuid_New E) (\<lambda>id. bindM (ulid_Make E) (\<lambda>rev.
       retM \<lparr>n_id = id, n_kind = kind, n_size = 0, n_nlink = 0, n_content = None,
             n_atime = now, n_mtime = now, n_ctime = now, n_crtime = now, n_flags = 0,
             n_rev = rev, n_stale = []\<rparr>)))"

definition NewRootNode :: "env \<Rightarrow> node W" where
  "NewRootNode E = newNode E NodeKindDirectory"

definition too_big :: gerror where
  "too_big = New KindInvalidArgument ''node: content exceeds maximum size''"

text \<open>\<open>Node.write\<close>.\<close>

definition node_write :: "env \<Rightarrow> string \<Rightarrow> int \<Rightarrow> node \<Rightarrow> node W" where
  "node_write E content sz n =
     (if length content > MaxContentSize then failM too_big
      else bindM (time_Now E) (\<lambda>now. bindM (ulid_Make E) (\<lambda>rev.
        retM (n\<lparr>n_content := Some content, n_size := sz, n_mtime := now, n_ctime := now,
                n_rev := rev\<rparr>))))"

text \<open>\<open>newInlineNode\<close>, given the marshaled payload.\<close>

definition newInlineNode :: "env \<Rightarrow> node_kind \<Rightarrow> string \<Rightarrow> int \<Rightarrow> node W" where
  "newInlineNode E kind data sz =
     (if length data > MaxContentSize then failM too_big
      else bindM (newNode E kind) (\<lambda>n. node_write E data sz n))"

section \<open>Files, links, objects, mounts\<close>

definition NewFile :: "env \<Rightarrow> string \<Rightarrow> node W" where
  "NewFile E raw = newInlineNode E NodeKindFile (file_marshal raw) (int (length raw))"

definition WriteFile :: "env \<Rightarrow> string \<Rightarrow> node \<Rightarrow> node W" where
  "WriteFile E raw n =
     (let data = file_marshal raw in
      if length data > MaxContentSize
      then failM (New KindOutOfRange ''node: content exceeds maximum size'')
      else node_write E data (int (length raw)) n)"

definition NewSymlink :: "env \<Rightarrow> string \<Rightarrow> node W" where
  "NewSymlink E target =
     (if target = [] then failM (New KindInvalidArgument ''node: invalid name'')
      else newInlineNode E NodeKindSymlink (symlink_marshal target) (int (length target)))"

definition WriteSymlink :: "env \<Rightarrow> string \<Rightarrow> node \<Rightarrow> node W" where
  "WriteSymlink E target n =
     (if target = [] then failM (New KindInvalidArgument ''node: invalid name'')
      else if n_kind n \<noteq> NodeKindSymlink
      then failM (New KindInvalidArgument ''node: invalid type for operation'')
      else let data = symlink_marshal target in
        if length data > MaxContentSize then failM too_big
        else node_write E data (int (length target)) n)"

definition NewObject :: "env \<Rightarrow> object_content \<Rightarrow> int \<Rightarrow> node W" where
  "NewObject E content sz =
     (if o_bucket content = [] \<or> o_key content = []
      then failM (New KindInvalidArgument ''node: invalid object reference'')
      else if sz < 0 then failM (New KindInvalidArgument ''node: invalid size'')
      else newInlineNode E NodeKindObject (object_marshal content) sz)"

definition WriteObject :: "env \<Rightarrow> object_content \<Rightarrow> int \<Rightarrow> node \<Rightarrow> node W" where
  "WriteObject E content sz n =
     (if n_kind n \<noteq> NodeKindObject
      then failM (New KindInvalidArgument ''node: invalid type for operation'')
      else if o_bucket content = [] \<or> o_key content = []
      then failM (New KindInvalidArgument ''node: invalid object reference'')
      else if sz < 0 then failM (New KindInvalidArgument ''node: invalid size'')
      else let data = object_marshal content in
        if length data > MaxContentSize then failM too_big
        else node_write E data sz n)"

definition NewMount :: "env \<Rightarrow> string \<Rightarrow> node W" where
  "NewMount E src =
     (if src = [] then failM (New KindInvalidArgument ''node: mount source drive id is required'')
      else newInlineNode E NodeKindMount (mount_marshal src) 0)"

section \<open>Directories\<close>

definition not_a_directory :: gerror where
  "not_a_directory = New KindInvalidArgument ''node: not a directory''"

definition entry_exists :: gerror where
  "entry_exists = New KindAlreadyExists ''node: entry already exists''"

definition entry_missing :: gerror where
  "entry_missing = New KindNotFound ''node: entry not found''"

definition NewDirectory :: "env \<Rightarrow> node W" where
  "NewDirectory E = bindM (newNode E NodeKindDirectory) (\<lambda>n. node_write E (dir_marshal E None) 0 n)"

definition WriteDir :: "env \<Rightarrow> dir_content \<Rightarrow> node \<Rightarrow> node W" where
  "WriteDir E dc n =
     (if n_kind n \<noteq> NodeKindDirectory then failM not_a_directory
      else let data = dir_marshal E dc in
        if length data > MaxContentSize then failM too_big
        else node_write E data (int (length data)) n)"

definition entry_of :: "string \<Rightarrow> node \<Rightarrow> dir_entry" where
  "entry_of name child = \<lparr>de_ino = n_id child, de_name = name, de_kind = n_kind child\<rparr>"

definition AddEntry :: "env \<Rightarrow> string \<Rightarrow> node \<Rightarrow> node \<Rightarrow> node W" where
  "AddEntry E name child n =
     (if n_kind n \<noteq> NodeKindDirectory then failM not_a_directory
      else if name = [] then failM (New KindInvalidArgument ''node: invalid name'')
      else bindM (liftM (read_dir E n)) (\<lambda>dc.
        if find_entry dc name \<noteq> None then failM entry_exists
        else WriteDir E (Some (entries dc @ [entry_of name child])) n))"

text \<open>The loop of \<open>AddEntries\<close>, over the map in the order Go happens to visit it.\<close>

fun add_entries :: "string set \<Rightarrow> (string \<times> node option) list \<Rightarrow> dir_content \<Rightarrow> gerror + dir_content" where
  "add_entries existing [] dc = Inr dc"
| "add_entries existing ((name, child) # es) dc =
     (if name = [] then Inl (New KindInvalidArgument ''node: invalid name'')
      else (case child of
              None \<Rightarrow> Inl (New KindInvalidArgument (''node: add entries: nil child for '' @ name))
            | Some c \<Rightarrow>
                if name \<in> existing then Inl entry_exists
                else add_entries existing es (Some (entries dc @ [entry_of name c]))))"

definition AddEntries :: "env \<Rightarrow> (string \<times> node option) list \<Rightarrow> node \<Rightarrow> node W" where
  "AddEntries E es n =
     (if n_kind n \<noteq> NodeKindDirectory then failM not_a_directory
      else if es = [] then retM n
      else bindM (liftM (read_dir E n)) (\<lambda>dc.
        bindM (liftM (add_entries (set (map de_name (entries dc))) es dc)) (\<lambda>dc'.
          WriteDir E dc' n)))"

text \<open>Drop the first entry of that name.\<close>

fun remove_first :: "string \<Rightarrow> dir_entry list \<Rightarrow> dir_entry list option" where
  "remove_first name [] = None"
| "remove_first name (e # es) =
     (if de_name e = name then Some es
      else (case remove_first name es of None \<Rightarrow> None | Some r \<Rightarrow> Some (e # r)))"

definition RemoveEntry :: "env \<Rightarrow> string \<Rightarrow> node \<Rightarrow> node W" where
  "RemoveEntry E name n =
     (if n_kind n \<noteq> NodeKindDirectory then failM not_a_directory
      else bindM (liftM (read_dir E n)) (\<lambda>dc.
        (case remove_first name (entries dc) of
           None \<Rightarrow> failM entry_missing
         | Some es \<Rightarrow> WriteDir E (Some es) n)))"

definition RemoveEntries :: "env \<Rightarrow> string list \<Rightarrow> node \<Rightarrow> node W" where
  "RemoveEntries E names n =
     (if n_kind n \<noteq> NodeKindDirectory then failM not_a_directory
      else if names = [] then retM n
      else bindM (liftM (read_dir E n)) (\<lambda>dc.
        let out = filter (\<lambda>e. de_name e \<notin> set names) (entries dc) in
        if length out = length (entries dc) then retM n
        else WriteDir E (Some out) n))"

section \<open>What a write does\<close>

text \<open>
  \<open>rewritten n c sz n'\<close>: \<open>n'\<close> is \<open>n\<close> with that content and size, new mtime, ctime and revision,
  and everything else as it was.
\<close>

definition rewritten :: "node \<Rightarrow> string \<Rightarrow> int \<Rightarrow> node \<Rightarrow> bool" where
  "rewritten n c sz n' \<longleftrightarrow> length c \<le> MaxContentSize \<and>
     n' = n\<lparr>n_content := Some c, n_size := sz, n_mtime := n_mtime n', n_ctime := n_mtime n', n_rev := n_rev n'\<rparr>"

definition content_ok :: "node \<Rightarrow> bool" where
  "content_ok n \<longleftrightarrow> (case n_content n of None \<Rightarrow> True | Some c \<Rightarrow> length c \<le> MaxContentSize)"

lemma rewrittenD:
  assumes "rewritten n c sz n'"
  shows "n_content n' = Some c" "n_size n' = sz" "n_id n' = n_id n" "n_kind n' = n_kind n"
    "n_nlink n' = n_nlink n" "n_stale n' = n_stale n" "n_crtime n' = n_crtime n"
    "n_flags n' = n_flags n" "n_atime n' = n_atime n" "content_ok n'"
proof -
  obtain t r where "n' = n\<lparr>n_content := Some c, n_size := sz, n_mtime := t, n_ctime := t, n_rev := r\<rparr>"
    and "length c \<le> MaxContentSize"
    using assms unfolding rewritten_def by blast
  then show "n_content n' = Some c" "n_size n' = sz" "n_id n' = n_id n" "n_kind n' = n_kind n"
    "n_nlink n' = n_nlink n" "n_stale n' = n_stale n" "n_crtime n' = n_crtime n"
    "n_flags n' = n_flags n" "n_atime n' = n_atime n" "content_ok n'"
    by (simp_all add: content_ok_def)
qed

lemma draw_run [simp]: "draw g w = (Inr (g (w_tick w)), w\<lparr>w_tick := Suc (w_tick w)\<rparr>)"
  by (simp add: draw_def)

lemma draws [simp]:
  "time_Now E w = (Inr (clock E (w_tick w)), w\<lparr>w_tick := Suc (w_tick w)\<rparr>)"
  "uuid_New E w = (Inr (uuid_gen E (w_tick w)), w\<lparr>w_tick := Suc (w_tick w)\<rparr>)"
  "ulid_Make E w = (Inr (ulid_gen E (w_tick w)), w\<lparr>w_tick := Suc (w_tick w)\<rparr>)"
  by (simp_all add: time_Now_def uuid_New_def ulid_Make_def)

lemma node_write_run:
  "node_write E c sz n w =
     (if length c > MaxContentSize then (Inl too_big, w)
      else (Inr (n\<lparr>n_content := Some c, n_size := sz, n_mtime := clock E (w_tick w),
                   n_ctime := clock E (w_tick w), n_rev := ulid_gen E (Suc (w_tick w))\<rparr>),
            w\<lparr>w_tick := Suc (Suc (w_tick w))\<rparr>))"
  by (simp add: node_write_def)

lemma node_write_cases:
  obtains "length c > MaxContentSize" "node_write E c sz n w = (Inl too_big, w)"
  | n' where "length c \<le> MaxContentSize" "rewritten n c sz n'"
      "node_write E c sz n w = (Inr n', w\<lparr>w_tick := Suc (Suc (w_tick w))\<rparr>)"
      "n_rev n' = ulid_gen E (Suc (w_tick w))"
proof (cases "length c > MaxContentSize")
  case True
  then show ?thesis using that(1) by (simp add: node_write_run)
next
  case False
  let ?n = "n\<lparr>n_content := Some c, n_size := sz, n_mtime := clock E (w_tick w),
    n_ctime := clock E (w_tick w), n_rev := ulid_gen E (Suc (w_tick w))\<rparr>"
  show ?thesis using False by (intro that(2) [of ?n]) (simp_all add: node_write_run rewritten_def)
qed

lemma node_write_Inr: "node_write E c sz n w = (Inr n', w') \<Longrightarrow> rewritten n c sz n'"
  by (rule node_write_cases [of c E sz n w]) auto

lemma newNode_run:
  "newNode E k w =
    (Inr \<lparr>n_id = uuid_gen E (Suc (w_tick w)), n_kind = k, n_size = 0, n_nlink = 0, n_content = None,
          n_atime = clock E (w_tick w), n_mtime = clock E (w_tick w), n_ctime = clock E (w_tick w),
          n_crtime = clock E (w_tick w), n_flags = 0, n_rev = ulid_gen E (Suc (Suc (w_tick w))),
          n_stale = []\<rparr>, w\<lparr>w_tick := Suc (Suc (Suc (w_tick w)))\<rparr>)"
  by (simp add: newNode_def)

text \<open>A node as a constructor leaves it: no links yet, never saved.\<close>

definition fresh_node :: "node_kind \<Rightarrow> string \<Rightarrow> int \<Rightarrow> node \<Rightarrow> bool" where
  "fresh_node k c sz n \<longleftrightarrow> n_kind n = k \<and> n_content n = Some c \<and> n_size n = sz \<and> n_nlink n = 0 \<and>
     n_flags n = 0 \<and> n_stale n = [] \<and> length c \<le> MaxContentSize"

lemma new_then_write_Inr:
  "bindM (newNode E k) (\<lambda>n. node_write E c sz n) w = (Inr n, w') \<Longrightarrow> fresh_node k c sz n"
  by (auto simp: newNode_run node_write_run fresh_node_def split: if_splits)

lemma newInlineNode_Inr: "newInlineNode E k c sz w = (Inr n, w') \<Longrightarrow> fresh_node k c sz n"
  unfolding newInlineNode_def by (auto split: if_splits dest: new_then_write_Inr)

lemma newInlineNode_fits:
  "length c \<le> MaxContentSize \<Longrightarrow> \<exists>n w'. newInlineNode E k c sz w = (Inr n, w')"
  by (simp add: newInlineNode_def newNode_run node_write_run)

lemma fresh_node_content_ok: "fresh_node k c sz n \<Longrightarrow> content_ok n"
  by (simp add: fresh_node_def content_ok_def)

section \<open>No operation of this theory touches a store\<close>

lemma quiet_newNode [quiet_intros]: "quiet (newNode E k)"
  unfolding newNode_def by (intro quiet_intros)

lemma quiet_node_write [quiet_intros]: "quiet (node_write E c sz n)"
  unfolding node_write_def by (intro quiet_intros)

lemma quiet_newInlineNode [quiet_intros]: "quiet (newInlineNode E k c sz)"
  unfolding newInlineNode_def by (intro quiet_intros)

lemma quiet_WriteDir [quiet_intros]: "quiet (WriteDir E dc n)"
  unfolding WriteDir_def by (intro quiet_intros)

lemma quiet_constructors [quiet_intros]:
  "quiet (NewRootNode E)" "quiet (NewFile E raw)" "quiet (NewSymlink E t)" "quiet (NewObject E oc sz)"
  "quiet (NewMount E src)" "quiet (NewDirectory E)"
  unfolding NewRootNode_def NewFile_def NewSymlink_def NewObject_def NewMount_def NewDirectory_def
  by (intro quiet_intros)+

lemma quiet_writes [quiet_intros]:
  "quiet (WriteFile E raw n)" "quiet (WriteSymlink E t n)" "quiet (WriteObject E oc sz n)"
  unfolding WriteFile_def WriteSymlink_def WriteObject_def by (intro quiet_intros)+

lemma quiet_entry_ops [quiet_intros]:
  "quiet (AddEntry E name c n)" "quiet (AddEntries E es n)" "quiet (RemoveEntry E name n)"
  "quiet (RemoveEntries E names n)"
  unfolding AddEntry_def AddEntries_def RemoveEntry_def RemoveEntries_def by (intro quiet_intros)+

section \<open>Directories as lists of entries\<close>

text \<open>A directory node with its listing, the names non-empty and pairwise distinct.\<close>

definition names_distinct :: "dir_content \<Rightarrow> bool" where
  "names_distinct dc \<longleftrightarrow> distinct (map de_name (entries dc)) \<and> (\<forall>e\<in>set (entries dc). de_name e \<noteq> [])"

definition dir_ok :: "env \<Rightarrow> node \<Rightarrow> bool" where
  "dir_ok E n \<longleftrightarrow> (\<exists>dc. holds_dir E n dc \<and> names_distinct dc)"

text \<open>The directory write: fails, leaving the world alone, exactly when the listing is too long.\<close>

lemma WriteDir_run:
  assumes "n_kind n = NodeKindDirectory"
  shows "WriteDir E dc n w =
    (if length (dir_marshal E dc) > MaxContentSize then (Inl too_big, w)
     else node_write E (dir_marshal E dc) (int (length (dir_marshal E dc))) n w)"
  using assms by (simp add: WriteDir_def Let_def)

lemma WriteDir_Inr:
  assumes "WriteDir E dc n w = (Inr n', w')"
  shows "rewritten n (dir_marshal E dc) (int (length (dir_marshal E dc))) n'"
    and "n_kind n = NodeKindDirectory"
  using assms by (auto simp: WriteDir_def Let_def split: if_splits dest: node_write_Inr)

lemma WriteDir_holds:
  assumes "WriteDir E dc n w = (Inr n', w')" "dir_exact E dc"
  shows "holds_dir E n' dc" "n_id n' = n_id n" "n_stale n' = n_stale n" "n_nlink n' = n_nlink n"
  using WriteDir_Inr [OF assms(1)] assms(2) rewrittenD [of n]
  by (auto simp: holds_dir_def)

lemma WriteDir_fits:
  assumes "n_kind n = NodeKindDirectory" "length (dir_marshal E dc) \<le> MaxContentSize"
  shows "\<exists>n' w'. WriteDir E dc n w = (Inr n', w')"
  using assms by (simp add: WriteDir_run node_write_run)

lemma find_entry_None_iff: "find_entry dc name = None \<longleftrightarrow> name \<notin> set (map de_name (entries dc))"
  by (auto simp: find_entry_def find_None_iff)

lemma find_entry_SomeD:
  "find_entry dc name = Some e \<Longrightarrow> e \<in> set (entries dc) \<and> de_name e = name"
  unfolding find_entry_def by (drule find_Some_set) simp

lemma find_entry_snoc:
  "find_entry (Some (entries dc @ [e])) name =
     (case find_entry dc name of Some x \<Rightarrow> Some x | None \<Rightarrow> if de_name e = name then Some e else None)"
  by (cases "find_entry dc name") (simp_all add: find_entry_def find_append)

lemma entry_of_simps [simp]:
  "de_name (entry_of name c) = name" "de_ino (entry_of name c) = n_id c" "de_kind (entry_of name c) = n_kind c"
  by (simp_all add: entry_of_def)

lemma AddEntry_Inr_iff:
  assumes "holds_dir E n dc"
  shows "AddEntry E name c n w = (Inr n', w') \<longleftrightarrow>
    name \<noteq> [] \<and> find_entry dc name = None \<and> WriteDir E (Some (entries dc @ [entry_of name c])) n w = (Inr n', w')"
  using assms by (auto simp: AddEntry_def holds_dir_read monad_simps) (simp_all add: holds_dir_def)

lemma AddEntry_existing:
  assumes "holds_dir E n dc" "find_entry dc name = Some e" "name \<noteq> []"
  shows "AddEntry E name c n w = (Inl entry_exists, w)"
  using assms by (simp add: AddEntry_def holds_dir_read) (simp add: holds_dir_def)

lemma dir_exact_snoc:
  "dir_exact E dc \<Longrightarrow> valid_utf8 (de_name e) \<Longrightarrow> dir_exact E (Some (entries dc @ [e]))"
  by (simp add: dir_exact_def)

lemma AddEntry_holds:
  assumes "holds_dir E n dc" "valid_utf8 name" "AddEntry E name c n w = (Inr n', w')"
  shows "holds_dir E n' (Some (entries dc @ [entry_of name c]))"
    and "n_id n' = n_id n" "n_stale n' = n_stale n" "n_nlink n' = n_nlink n"
proof -
  have "dir_exact E (Some (entries dc @ [entry_of name c]))"
    using assms by (intro dir_exact_snoc) (auto simp: holds_dir_def)
  moreover have "WriteDir E (Some (entries dc @ [entry_of name c])) n w = (Inr n', w')"
    using assms AddEntry_Inr_iff [OF assms(1)] by blast
  ultimately show "holds_dir E n' (Some (entries dc @ [entry_of name c]))"
    and "n_id n' = n_id n" "n_stale n' = n_stale n" "n_nlink n' = n_nlink n"
    by (simp_all add: WriteDir_holds)
qed

text \<open>\<open>remove_first\<close> takes out one occurrence, and with distinct names it is a filter.\<close>

lemma remove_first_None_iff: "remove_first name es = None \<longleftrightarrow> name \<notin> set (map de_name es)"
  by (induction es) (auto split: option.splits)

lemma remove_first_filter:
  "distinct (map de_name es) \<Longrightarrow> remove_first name es = Some r \<Longrightarrow> r = filter (\<lambda>e. de_name e \<noteq> name) es"
proof (induction es arbitrary: r)
  case Nil
  then show ?case by simp
next
  case (Cons e es)
  show ?case
  proof (cases "de_name e = name")
    case True
    with Cons.prems have "r = es" "name \<notin> set (map de_name es)" by auto
    then have "filter (\<lambda>e. de_name e \<noteq> name) es = es" by (auto intro!: filter_True)
    then show ?thesis using True \<open>r = es\<close> by simp
  next
    case False
    then obtain q where "remove_first name es = Some q" "r = e # q"
      using Cons.prems by (auto split: option.splits)
    then show ?thesis using Cons.IH [of q] Cons.prems False by simp
  qed
qed

lemma remove_first_subseq: "remove_first name es = Some r \<Longrightarrow> set r \<subseteq> set es"
  by (induction es arbitrary: r) (auto split: if_splits option.splits)

lemma RemoveEntry_holds:
  assumes "holds_dir E n dc" "RemoveEntry E name n w = (Inr n', w')"
  obtains r where "remove_first name (entries dc) = Some r" "holds_dir E n' (Some r)"
    "n_id n' = n_id n" "n_stale n' = n_stale n" "n_nlink n' = n_nlink n"
proof -
  have k: "n_kind n = NodeKindDirectory" "dir_exact E dc" using assms(1) by (auto simp: holds_dir_def)
  obtain r where r: "remove_first name (entries dc) = Some r" "WriteDir E (Some r) n w = (Inr n', w')"
    using assms(2) k by (auto simp: RemoveEntry_def holds_dir_read [OF assms(1)] monad_simps split: option.splits)
  have "dir_exact E (Some r)"
    using k(2) remove_first_subseq [OF r(1)] by (auto simp: dir_exact_def names_ok_def)
  then show thesis using that [OF r(1)] WriteDir_holds [OF r(2)] by blast
qed

lemma names_distinct_filter: "names_distinct dc \<Longrightarrow> names_distinct (Some (filter P (entries dc)))"
  by (auto simp: names_distinct_def distinct_map_filter_neq)

section \<open>The abstract directory\<close>

text \<open>A directory is a finite map from names to inode references.\<close>

definition dir_map :: "dir_content \<Rightarrow> string \<rightharpoonup> uuid \<times> node_kind" where
  "dir_map dc name = map_option (\<lambda>e. (de_ino e, de_kind e)) (find_entry dc name)"

lemma dir_map_None_iff: "dir_map dc name = None \<longleftrightarrow> find_entry dc name = None"
  by (simp add: dir_map_def)

lemma dir_map_snoc:
  "find_entry dc (de_name e) = None \<Longrightarrow>
   dir_map (Some (entries dc @ [e])) = (dir_map dc)(de_name e \<mapsto> (de_ino e, de_kind e))"
  by (rule ext) (auto simp: dir_map_def find_entry_snoc split: option.splits)

lemma find_entry_filter:
  "find_entry (Some (filter (\<lambda>e. de_name e \<notin> N) (entries dc))) name =
     (if name \<in> N then None else find_entry dc name)"
proof (cases "name \<in> N")
  case True
  then show ?thesis by (auto simp: find_entry_def find_None_iff)
next
  case False
  then show ?thesis unfolding find_entry_def by (simp, intro find_filter_keep) auto
qed

lemma dir_map_filter:
  "dir_map (Some (filter (\<lambda>e. de_name e \<notin> N) (entries dc))) = dir_map dc |` (- N)"
  by (rule ext) (simp add: dir_map_def find_entry_filter restrict_map_def)

lemma names_distinct_snoc:
  "names_distinct dc \<Longrightarrow> find_entry dc (de_name e) = None \<Longrightarrow> de_name e \<noteq> [] \<Longrightarrow>
   names_distinct (Some (entries dc @ [e]))"
  by (auto simp: names_distinct_def find_entry_None_iff)

lemma AddEntry_refines:
  assumes "holds_dir E n dc" "names_distinct dc" "valid_utf8 name" "AddEntry E name c n w = (Inr n', w')"
  shows "\<exists>dc'. holds_dir E n' dc' \<and> names_distinct dc' \<and> dir_map dc name = None \<and>
    dir_map dc' = (dir_map dc)(name \<mapsto> (n_id c, n_kind c))"
proof -
  have f: "name \<noteq> []" "find_entry dc name = None" using assms AddEntry_Inr_iff by blast+
  let ?e = "entry_of name c"
  have "names_distinct (Some (entries dc @ [?e]))"
    using names_distinct_snoc [OF assms(2), of ?e] f by simp
  moreover have "dir_map (Some (entries dc @ [?e])) = (dir_map dc)(name \<mapsto> (n_id c, n_kind c))"
    using dir_map_snoc [of dc ?e] f by simp
  ultimately show ?thesis
    using AddEntry_holds(1) [OF assms(1,3,4)] f(2) by (auto simp: dir_map_None_iff)
qed

lemma remove_first_map:
  assumes "names_distinct dc" "remove_first name (entries dc) = Some r"
  shows "names_distinct (Some r)" "dir_map (Some r) = (dir_map dc)(name := None)" "dir_map dc name \<noteq> None"
proof -
  have "remove_first name (entries dc) \<noteq> None" using assms(2) by simp
  then have "name \<in> set (map de_name (entries dc))" unfolding remove_first_None_iff by blast
  moreover have r: "r = filter (\<lambda>e. de_name e \<notin> {name}) (entries dc)"
    using remove_first_filter assms by (auto simp: names_distinct_def)
  ultimately show "names_distinct (Some r)" "dir_map (Some r) = (dir_map dc)(name := None)" "dir_map dc name \<noteq> None"
    using assms(1) names_distinct_filter dir_map_filter [of "{name}" dc]
    by (auto simp: dir_map_None_iff find_entry_None_iff restrict_map_def fun_eq_iff)
qed

lemma RemoveEntry_refines:
  assumes "holds_dir E n dc" "names_distinct dc" "RemoveEntry E name n w = (Inr n', w')"
  shows "\<exists>dc'. holds_dir E n' dc' \<and> names_distinct dc' \<and> dir_map dc name \<noteq> None \<and>
    dir_map dc' = (dir_map dc)(name := None)"
  by (rule RemoveEntry_holds [OF assms(1,3)]) (use remove_first_map [OF assms(2)] in blast)

lemma RemoveEntries_holds:
  assumes "holds_dir E n dc" "RemoveEntries E names n w = (Inr n', w')"
  shows "\<exists>dc'. holds_dir E n' dc' \<and> entries dc' = filter (\<lambda>e. de_name e \<notin> set names) (entries dc)"
    and "n_id n' = n_id n" "n_stale n' = n_stale n" "n_nlink n' = n_nlink n"
proof -
  let ?f = "filter (\<lambda>e. de_name e \<notin> set names) (entries dc)"
  have k: "n_kind n = NodeKindDirectory" "dir_exact E dc" using assms(1) by (auto simp: holds_dir_def)
  have x: "dir_exact E (Some ?f)" using k(2) by (auto simp: dir_exact_def names_ok_filter)
  have "(n' = n \<and> ?f = entries dc) \<or> WriteDir E (Some ?f) n w = (Inr n', w')"
  proof (cases "names = [] \<or> length ?f = length (entries dc)")
    case True
    then have "?f = entries dc" using length_filter_eq [of _ "entries dc"] by auto
    moreover have "RemoveEntries E names n w = (Inr n, w)"
      using True k by (auto simp: RemoveEntries_def holds_dir_read [OF assms(1)] Let_def)
    ultimately show ?thesis using assms(2) by simp
  next
    case False
    then show ?thesis using assms(2) k
      by (simp add: RemoveEntries_def holds_dir_read [OF assms(1)] Let_def)
  qed
  then show "\<exists>dc'. holds_dir E n' dc' \<and> entries dc' = ?f"
    and "n_id n' = n_id n" "n_stale n' = n_stale n" "n_nlink n' = n_nlink n"
    using WriteDir_holds [OF _ x] assms(1) by fastforce+
qed

lemma RemoveEntries_refines:
  assumes "holds_dir E n dc" "names_distinct dc" "RemoveEntries E names n w = (Inr n', w')"
  shows "\<exists>dc'. holds_dir E n' dc' \<and> names_distinct dc' \<and> dir_map dc' = dir_map dc |` (- set names)"
proof -
  obtain dc' where d: "holds_dir E n' dc'" "entries dc' = filter (\<lambda>e. de_name e \<notin> set names) (entries dc)"
    using RemoveEntries_holds(1) [OF assms(1,3)] by blast
  moreover have "names_distinct dc'"
    using names_distinct_filter [OF assms(2)] d(2) by (simp add: names_distinct_def)
  moreover have "dir_map dc' = dir_map (Some (entries dc'))"
    by (simp add: dir_map_def find_entry_def fun_eq_iff)
  ultimately show ?thesis using dir_map_filter [of "set names" dc] by auto
qed

text \<open>What \<open>AddEntries\<close> is handed, seen as a partial map.\<close>

definition links :: "(string \<times> node option) list \<Rightarrow> string \<rightharpoonup> uuid \<times> node_kind" where
  "links es = map_of (map (\<lambda>(k, c). (k, (n_id (the c), n_kind (the c)))) es)"

lemma add_entries_Inr:
  "add_entries X es dc = Inr dc' \<Longrightarrow>
     entries dc' = entries dc @ map (\<lambda>(k, c). entry_of k (the c)) es \<and>
     [] \<notin> fst ` set es \<and> fst ` set es \<inter> X = {} \<and> None \<notin> snd ` set es"
proof (induction X es dc rule: add_entries.induct)
  case (1 X dc)
  then show ?case by simp
next
  case (2 X name child es dc)
  from 2(2) obtain c where c: "child = Some c" "name \<noteq> []" "name \<notin> X"
    "add_entries X es (Some (entries dc @ [entry_of name c])) = Inr dc'"
    by (auto split: if_splits option.splits)
  with 2(1) have "entries dc' = entries (Some (entries dc @ [entry_of name c])) @ map (\<lambda>(k, c). entry_of k (the c)) es \<and>
     [] \<notin> fst ` set es \<and> fst ` set es \<inter> X = {} \<and> None \<notin> snd ` set es" by blast
  then show ?case using c(1-3) by simp
qed

lemma AddEntries_holds:
  assumes "holds_dir E n dc" "es \<noteq> []" "\<forall>k\<in>fst ` set es. valid_utf8 k" "AddEntries E es n w = (Inr n', w')"
  shows "holds_dir E n' (Some (entries dc @ map (\<lambda>(k, c). entry_of k (the c)) es))"
    and "[] \<notin> fst ` set es" "fst ` set es \<inter> set (map de_name (entries dc)) = {}" "None \<notin> snd ` set es"
    and "n_id n' = n_id n" "n_stale n' = n_stale n" "n_nlink n' = n_nlink n"
proof -
  have k: "n_kind n = NodeKindDirectory" "dir_exact E dc" using assms(1) by (auto simp: holds_dir_def)
  obtain dc' where a: "add_entries (set (map de_name (entries dc))) es dc = Inr dc'"
      and w: "WriteDir E dc' n w = (Inr n', w')"
    using assms(2,4) k by (auto simp: AddEntries_def holds_dir_read [OF assms(1)] monad_simps)
  note add_entries_Inr [OF a]
  then have e: "dc' = Some (entries dc @ map (\<lambda>(k, c). entry_of k (the c)) es)"
    using assms(2) by (cases dc') simp_all
  have "names_ok (map (\<lambda>(k, c). entry_of k (the c)) es)"
    using assms(3) unfolding names_ok_def by auto
  then have "dir_exact E dc'" using k(2) unfolding e dir_exact_def by simp
  from WriteDir_holds [OF w this] e
  show "holds_dir E n' (Some (entries dc @ map (\<lambda>(k, c). entry_of k (the c)) es))"
    and "n_id n' = n_id n" "n_stale n' = n_stale n" "n_nlink n' = n_nlink n" by simp_all
  show "[] \<notin> fst ` set es" "fst ` set es \<inter> set (map de_name (entries dc)) = {}" "None \<notin> snd ` set es"
    using add_entries_Inr [OF a] by blast+
qed

lemma names_of_links: "map de_name (map (\<lambda>(k, c). entry_of k (the c)) es) = map fst es"
  by (induction es) auto

lemma names_distinct_append:
  assumes "names_distinct dc" "distinct (map fst es)" "[] \<notin> fst ` set es"
    "fst ` set es \<inter> set (map de_name (entries dc)) = {}"
  shows "names_distinct (Some (entries dc @ map (\<lambda>(k, c). entry_of k (the c)) es))"
proof -
  have "distinct (map de_name (entries dc @ map (\<lambda>(k, c). entry_of k (the c)) es))"
    using assms unfolding map_append names_of_links distinct_append by (auto simp: names_distinct_def)
  moreover have "de_name e \<noteq> []" if "e \<in> set (map (\<lambda>(k, c). entry_of k (the c)) es)" for e
    using that assms(3) by auto force
  ultimately show ?thesis using assms(1) unfolding names_distinct_def by auto
qed

lemma find_entry_links:
  "find (\<lambda>e. de_name e = x) (map (\<lambda>(k, c). entry_of k (the c)) es) =
     map_option (\<lambda>p. \<lparr>de_ino = fst p, de_name = x, de_kind = snd p\<rparr>) (links es x)"
  by (induction es) (auto simp: links_def entry_of_def)

lemma dom_links: "dom (links es) = fst ` set es"
  by (simp add: links_def dom_map_of_conv_image_fst image_image case_prod_beta)

lemma dom_dir_map: "dom (dir_map dc) = set (map de_name (entries dc))"
  by (auto simp: dom_def dir_map_None_iff find_entry_None_iff)

lemma dir_map_links:
  assumes "dom (links es) \<inter> dom (dir_map dc) = {}"
  shows "dir_map (Some (entries dc @ map (\<lambda>(k, c). entry_of k (the c)) es)) = dir_map dc ++ links es"
proof
  fix x
  have f: "find_entry (Some (entries dc @ map (\<lambda>(k, c). entry_of k (the c)) es)) x =
    (case find_entry dc x of Some e \<Rightarrow> Some e
     | None \<Rightarrow> map_option (\<lambda>p. \<lparr>de_ino = fst p, de_name = x, de_kind = snd p\<rparr>) (links es x))"
    by (cases "find_entry dc x") (simp_all add: find_entry_def find_append find_entry_links)
  show "dir_map (Some (entries dc @ map (\<lambda>(k, c). entry_of k (the c)) es)) x = (dir_map dc ++ links es) x"
  proof (cases "find_entry dc x")
    case None
    then show ?thesis by (cases "links es x") (simp_all add: f dir_map_def map_add_def)
  next
    case (Some e)
    then have "x \<in> dom (dir_map dc)" by (simp add: dir_map_def dom_def)
    then have "links es x = None" using assms by blast
    then show ?thesis using Some by (simp add: f dir_map_def map_add_def)
  qed
qed

lemma AddEntries_refines:
  assumes "holds_dir E n dc" "names_distinct dc" "distinct (map fst es)" "\<forall>k\<in>fst ` set es. valid_utf8 k"
    "AddEntries E es n w = (Inr n', w')"
  shows "\<exists>dc'. holds_dir E n' dc' \<and> names_distinct dc' \<and> dom (links es) \<inter> dom (dir_map dc) = {} \<and>
    dir_map dc' = dir_map dc ++ links es"
proof (cases "es = []")
  case True
  then have "n' = n" using assms(1,5) by (simp add: AddEntries_def) (simp add: holds_dir_def)
  then show ?thesis using assms(1,2) True by (auto simp: links_def)
next
  case False
  note h = AddEntries_holds [OF assms(1) False assms(4,5)]
  have d: "dom (links es) \<inter> dom (dir_map dc) = {}" using h(3) by (simp add: dom_links dom_dir_map)
  show ?thesis
    using h(1) names_distinct_append [OF assms(2,3) h(2,3)] dir_map_links [OF d] d by blast
qed

section \<open>Properties\<close>

text \<open>A directory with one file, on which the properties are evaluated.\<close>

definition demo_listing :: dir_content where
  "demo_listing = Some [\<lparr>de_ino = 5, de_name = ''a.txt'', de_kind = NodeKindFile\<rparr>]"

definition demo_node :: "uuid \<Rightarrow> node_kind \<Rightarrow> string \<Rightarrow> node" where
  "demo_node i k c = \<lparr>n_id = i, n_kind = k, n_size = 0, n_nlink = 1, n_content = Some c, n_atime = 0,
     n_mtime = 0, n_ctime = 0, n_crtime = 0, n_flags = 0, n_rev = ''r'', n_stale = ''r''\<rparr>"

definition demo_dir :: node where
  "demo_dir = demo_node 1 NodeKindDirectory (dir_marshal demo demo_listing)"

definition demo_file :: node where
  "demo_file = demo_node 7 NodeKindFile (file_marshal ''hi'')"

lemma demo_holds: "holds_dir demo demo_dir demo_listing"
  by (simp add: holds_dir_def demo_dir_def demo_node_def dir_exact_def demo_listing_def ascii_valid byte_in_def)

lemma demo_names: "names_distinct demo_listing"
  by (simp add: names_distinct_def demo_listing_def)

lemma demo_add:
  obtains n w where "AddEntry demo ''b'' demo_file demo_dir (world_of empty_db) = (Inr n, w)"
proof -
  have "n_kind demo_dir = NodeKindDirectory" by (simp add: demo_dir_def demo_node_def)
  moreover have "length (dir_marshal demo (Some (entries demo_listing @ [entry_of ''b'' demo_file]))) \<le> MaxContentSize"
    by (simp add: demo_listing_def entry_of_def demo_file_def demo_node_def encode_eval)
  ultimately obtain n w where
    "WriteDir demo (Some (entries demo_listing @ [entry_of ''b'' demo_file])) demo_dir (world_of empty_db) = (Inr n, w)"
    using WriteDir_fits by blast
  then show thesis
    using that AddEntry_Inr_iff [OF demo_holds] by (simp add: demo_listing_def find_entry_def)
qed

text \<open>
  C6. A directory is a map. On a directory with non-empty, distinct names, each of \<open>AddEntry\<close>,
  \<open>RemoveEntry\<close>, \<open>RemoveEntries\<close> and \<open>AddEntries\<close> that succeeds leaves a directory whose names
  are still non-empty and distinct, and acts on the map it stands for as the update, the
  removal, the restriction and the disjoint union; \<open>Lookup\<close> reads that map.
\<close>

theorem dir_operations_refine_map:
  assumes h: "holds_dir E n dc" and d: "names_distinct dc" and v: "valid_utf8 name"
    and ks: "distinct (map fst es)" "\<forall>k\<in>fst ` set es. valid_utf8 k"
  shows "lookup E n name = Inr (find_entry dc name) \<and>
    (AddEntry E name c n w = (Inr n', w') \<longrightarrow>
      (\<exists>dc'. holds_dir E n' dc' \<and> names_distinct dc' \<and> dir_map dc name = None \<and>
        dir_map dc' = (dir_map dc)(name \<mapsto> (n_id c, n_kind c)))) \<and>
    (RemoveEntry E name n w = (Inr n', w') \<longrightarrow>
      (\<exists>dc'. holds_dir E n' dc' \<and> names_distinct dc' \<and> dir_map dc name \<noteq> None \<and>
        dir_map dc' = (dir_map dc)(name := None))) \<and>
    (RemoveEntries E names n w = (Inr n', w') \<longrightarrow>
      (\<exists>dc'. holds_dir E n' dc' \<and> names_distinct dc' \<and> dir_map dc' = dir_map dc |` (- set names))) \<and>
    (AddEntries E es n w = (Inr n', w') \<longrightarrow>
      (\<exists>dc'. holds_dir E n' dc' \<and> names_distinct dc' \<and> dom (links es) \<inter> dom (dir_map dc) = {} \<and>
        dir_map dc' = dir_map dc ++ links es))"
  by (intro conjI impI holds_dir_lookup [OF h] AddEntry_refines [OF h d v] RemoveEntry_refines [OF h d]
    RemoveEntries_refines [OF h d] AddEntries_refines [OF h d ks])

theorem dir_operations_refine_map_witness:
  "\<exists>n w dc. AddEntry demo ''b'' demo_file demo_dir (world_of empty_db) = (Inr n, w) \<and> holds_dir demo n dc \<and>
     dir_map dc = [''a.txt'' \<mapsto> (5, NodeKindFile), ''b'' \<mapsto> (7, NodeKindFile)]"
proof -
  obtain n w where a: "AddEntry demo ''b'' demo_file demo_dir (world_of empty_db) = (Inr n, w)"
    by (rule demo_add)
  have v: "valid_utf8 ''b''" by (simp add: ascii_valid byte_in_def)
  obtain dc where "holds_dir demo n dc" "dir_map dc = (dir_map demo_listing)(''b'' \<mapsto> (n_id demo_file, n_kind demo_file))"
    using dir_operations_refine_map [OF demo_holds demo_names v, of "[]"] a by fastforce
  moreover have "dir_map demo_listing = [''a.txt'' \<mapsto> (5, NodeKindFile)]"
    by (rule ext) (simp add: dir_map_def find_entry_def demo_listing_def)
  ultimately show ?thesis using a by (auto simp: demo_file_def demo_node_def)
qed

text \<open>
  \<open>AddEntry\<close> on every branch: the first failing check decides the error and nothing is
  written; when all pass, the listing is the old one with the new entry at its end, in a node
  that differs from the old one in content, size, mtime, ctime and revision only.
\<close>

theorem AddEntry_total:
  assumes h: "holds_dir E n dc" and v: "valid_utf8 name"
  shows "case AddEntry E name c n w of
      (Inl e, w') \<Rightarrow> w' = w \<and>
        e = (if name = [] then New KindInvalidArgument ''node: invalid name''
             else if find_entry dc name \<noteq> None then entry_exists else too_big)
    | (Inr n', w') \<Rightarrow> name \<noteq> [] \<and> find_entry dc name = None \<and>
        (let data = dir_marshal E (Some (entries dc @ [entry_of name c])) in
          rewritten n data (int (length data)) n') \<and>
        read_dir E n' = Inr (Some (entries dc @ [entry_of name c]))"
proof (cases "name = [] \<or> find_entry dc name \<noteq> None")
  case True
  then show ?thesis
    using h AddEntry_existing [OF h] by (auto simp: AddEntry_def holds_dir_def)
next
  case False
  let ?dc = "Some (entries dc @ [entry_of name c])"
  have a: "AddEntry E name c n w = WriteDir E ?dc n w"
    using False h by (simp add: AddEntry_def holds_dir_read) (simp add: holds_dir_def)
  have k: "n_kind n = NodeKindDirectory" using h by (simp add: holds_dir_def)
  show ?thesis
  proof (cases "WriteDir E ?dc n w")
    case (Pair r w')
    show ?thesis
    proof (cases r)
      case (Inl e)
      then show ?thesis using Pair a False WriteDir_run [OF k, of E ?dc w]
        by (auto simp: node_write_run split: if_splits)
    next
      case (Inr n')
      have "AddEntry E name c n w = (Inr n', w')" using a Pair Inr by simp
      then have "read_dir E n' = Inr ?dc" using AddEntry_holds(1) [OF h v] holds_dir_read by blast
      then show ?thesis using Pair Inr a False WriteDir_Inr(1) [of E ?dc n w n' w'] by (simp add: Let_def)
    qed
  qed
qed

theorem AddEntry_total_witness:
  "AddEntry demo ''a.txt'' demo_file demo_dir (world_of empty_db) = (Inl entry_exists, world_of empty_db)"
proof -
  have v: "valid_utf8 ''a.txt''" by (simp add: ascii_valid byte_in_def)
  have "find_entry demo_listing ''a.txt'' \<noteq> None" by (simp add: find_entry_def demo_listing_def)
  then show ?thesis
    using AddEntry_total [OF demo_holds v, where c = demo_file and w = "world_of empty_db"] by (auto split: prod.splits sum.splits)
qed

text \<open>
  Inline text survives a write and a read: after \<open>NewFile\<close> or \<open>WriteFile\<close>, \<open>ReadFile\<close>
  returns the text (with invalid UTF-8 replaced, hence exactly the text when it is valid), and
  the node's size is the text's length in bytes.
\<close>

theorem file_roundtrip:
  assumes "NewFile E raw w = (Inr n, w') \<or> WriteFile E raw n0 w = (Inr n, w')"
  shows "read_file n = Inr (to_valid raw) \<and> n_size n = int (length raw) \<and> content_ok n \<and>
    (valid_utf8 raw \<longrightarrow> read_file n = Inr raw)"
proof -
  have "n_content n = Some (file_marshal raw) \<and> n_size n = int (length raw) \<and> content_ok n"
    using assms
  proof
    assume "NewFile E raw w = (Inr n, w')"
    then have "fresh_node NodeKindFile (file_marshal raw) (int (length raw)) n"
      unfolding NewFile_def by (rule newInlineNode_Inr)
    then show ?thesis by (simp add: fresh_node_def content_ok_def)
  next
    assume "WriteFile E raw n0 w = (Inr n, w')"
    then have "rewritten n0 (file_marshal raw) (int (length raw)) n"
      by (auto simp: WriteFile_def Let_def split: if_splits dest: node_write_Inr)
    then show ?thesis by (simp add: rewrittenD)
  qed
  then show ?thesis
    by (simp_all add: read_file_def read_payload_Some file_unmarshal_marshal valid_utf8_to_valid)
qed

theorem file_roundtrip_witness:
  "\<exists>n w. NewFile demo ''hi'' (world_of empty_db) = (Inr n, w) \<and> read_file n = Inr ''hi''"
proof -
  have "length (file_marshal ''hi'') \<le> MaxContentSize" by (simp add: encode_eval)
  then obtain n w where n: "NewFile demo ''hi'' (world_of empty_db) = (Inr n, w)"
    unfolding NewFile_def using newInlineNode_fits by blast
  have "valid_utf8 ''hi''" by (simp add: ascii_valid byte_in_def)
  then show ?thesis using n file_roundtrip [of demo "''hi''" "world_of empty_db" n w] by blast
qed

end
