(* ===== verification/NodeRepo.thy ===== *)
theory NodeRepo
  imports Inode
begin

text \<open>
  The component internal/core/node/ent.go: the Ent-backed repository of nodes. \<open>Get\<close> always
  reads the committed tables (it uses \<open>r.client\<close>), \<open>Save\<close> and \<open>Delete\<close> use the transaction of
  the context when there is one. \<open>Save\<close> is optimistic: the update is conditional on the
  revision the node was loaded with. The locale \<open>node_repository\<close> is the interface
  \<open>Repository\<close> of repo.go.
\<close>

section \<open>Rows and nodes\<close>

definition parseNodeKind :: "string \<Rightarrow> node_kind" where
  "parseNodeKind s =
     (if s = ''file'' then NodeKindFile
      else if s = ''directory'' then NodeKindDirectory
      else if s = ''symlink'' then NodeKindSymlink
      else if s = ''object'' then NodeKindObject
      else if s = ''mount'' then NodeKindMount
      else 0)"

definition entKind :: "node_kind \<Rightarrow> string" where
  "entKind k =
     (if k = NodeKindFile then ''file''
      else if k = NodeKindDirectory then ''directory''
      else if k = NodeKindSymlink then ''symlink''
      else if k = NodeKindObject then ''object''
      else if k = NodeKindMount then ''mount''
      else ''file'')"

text \<open>
  \<open>fromEnt\<close>. Ent scans a NULL into a pointer to a nil slice, and the copy of that is an empty
  slice which is not nil.
\<close>

definition fromEnt :: "ent_node \<Rightarrow> node" where
  "fromEnt e = \<lparr>n_id = en_id e, n_kind = parseNodeKind (en_kind e), n_size = en_size e,
     n_nlink = en_nlink e, n_content = Some (case en_content e of None \<Rightarrow> [] | Some c \<Rightarrow> c),
     n_atime = en_atime e, n_mtime = en_mtime e, n_ctime = en_ctime e, n_crtime = en_crtime e,
     n_flags = en_flags e, n_rev = en_revision e, n_stale = en_revision e\<rparr>"

text \<open>The row \<open>insert\<close> creates, as the database keeps it.\<close>

definition row_insert :: "node \<Rightarrow> ent_node" where
  "row_insert n = \<lparr>en_id = n_id n, en_kind = entKind (n_kind n), en_size = n_size n,
     en_nlink = n_nlink n, en_content = n_content n, en_atime = timestamptz (n_atime n), en_mtime = timestamptz (n_mtime n),
     en_ctime = timestamptz (n_ctime n), en_crtime = timestamptz (n_crtime n), en_flags = n_flags n, en_revision = n_rev n\<rparr>"

text \<open>\<open>update\<close> sets every column but the id and \<open>crtime\<close>.\<close>

definition row_update :: "ent_node \<Rightarrow> node \<Rightarrow> ent_node" where
  "row_update old n = old\<lparr>en_kind := entKind (n_kind n), en_size := n_size n,
     en_nlink := n_nlink n, en_content := n_content n, en_atime := timestamptz (n_atime n),
     en_mtime := timestamptz (n_mtime n), en_ctime := timestamptz (n_ctime n), en_flags := n_flags n, en_revision := n_rev n\<rparr>"

section \<open>Operations\<close>

definition node_not_found :: gerror where
  "node_not_found = New KindNotFound ''node: not found''"

definition revision_conflict :: gerror where
  "revision_conflict = New KindRevisionConflict ''node: revision conflict''"

definition ent_validation :: gerror where
  "ent_validation = Foreign ''ent: validator failed'' None"

definition repo_get :: "env \<Rightarrow> uuid \<Rightarrow> node W" where
  "repo_get E i =
     seqM (io E) (bindM get_committed (\<lambda>d.
       (case t_nodes d i of
          None \<Rightarrow> failM node_not_found
        | Some e \<Rightarrow> retM (fromEnt e))))"

definition existsTx :: "env \<Rightarrow> uuid \<Rightarrow> bool W" where
  "existsTx E i = seqM (io E) (bindM get_client (\<lambda>d. retM (t_nodes d i \<noteq> None)))"

text \<open>The validators run before the statement is sent.\<close>

definition insert_node :: "env \<Rightarrow> node \<Rightarrow> node W" where
  "insert_node E n =
     seqM (ensureM (valid_node_row (row_insert n)) ent_validation)
       (seqM (io E) (bindM get_client (\<lambda>d.
         seqM (put_client (d\<lparr>t_nodes := (t_nodes d)(n_id n \<mapsto> row_insert n)\<rparr>))
           (retM (n\<lparr>n_stale := n_rev n\<rparr>)))))"

definition update_node :: "env \<Rightarrow> node \<Rightarrow> node W" where
  "update_node E n =
     seqM (ensureM (valid_node_row (row_insert n)) ent_validation)
       (seqM (io E) (bindM get_client (\<lambda>d.
         (case t_nodes d (n_id n) of
            None \<Rightarrow> failM revision_conflict
          | Some old \<Rightarrow>
              if en_revision old \<noteq> n_stale n then failM revision_conflict
              else seqM (put_client (d\<lparr>t_nodes := (t_nodes d)(n_id n \<mapsto> row_update old n)\<rparr>))
                     (retM (n\<lparr>n_stale := n_rev n\<rparr>))))))"

definition repo_save :: "env \<Rightarrow> node \<Rightarrow> node W" where
  "repo_save E n =
     bindM (existsTx E (n_id n)) (\<lambda>ex. if ex then update_node E n else insert_node E n)"

definition repo_delete :: "env \<Rightarrow> uuid \<Rightarrow> unit W" where
  "repo_delete E i =
     seqM (io E) (bindM get_client (\<lambda>d.
       (case t_nodes d i of
          None \<Rightarrow> failM node_not_found
        | Some _ \<Rightarrow> put_client (d\<lparr>t_nodes := (t_nodes d)(i := None)\<rparr>))))"

section \<open>The table as a map of nodes\<close>

text \<open>What \<open>Get\<close> returns for an id, and a node as it is read back after a save.\<close>

definition node_at :: "db \<Rightarrow> uuid \<Rightarrow> node option" where
  "node_at d i = map_option fromEnt (t_nodes d i)"

definition stored :: "node option \<Rightarrow> node \<Rightarrow> node" where
  "stored old n = n\<lparr>n_kind := parseNodeKind (entKind (n_kind n)),
     n_content := Some (case n_content n of None \<Rightarrow> [] | Some c \<Rightarrow> c),
     n_atime := timestamptz (n_atime n), n_mtime := timestamptz (n_mtime n), n_ctime := timestamptz (n_ctime n),
     n_crtime := (case old of None \<Rightarrow> timestamptz (n_crtime n) | Some m \<Rightarrow> n_crtime m), n_stale := n_rev n\<rparr>"

text \<open>Every row carries its own id.\<close>

definition ids_ok :: "db \<Rightarrow> bool" where
  "ids_ok d \<longleftrightarrow> (\<forall>i e. t_nodes d i = Some e \<longrightarrow> en_id e = i)"

definition set_node :: "node \<Rightarrow> db \<Rightarrow> db" where
  "set_node n d = d\<lparr>t_nodes := (t_nodes d)(n_id n \<mapsto>
     (case t_nodes d (n_id n) of None \<Rightarrow> row_insert n | Some old \<Rightarrow> row_update old n))\<rparr>"

definition del_node :: "uuid \<Rightarrow> db \<Rightarrow> db" where
  "del_node i d = d\<lparr>t_nodes := (t_nodes d)(i := None)\<rparr>"

text \<open>The revision guard of a save.\<close>

definition current :: "db \<Rightarrow> node \<Rightarrow> bool" where
  "current d n \<longleftrightarrow> (case t_nodes d (n_id n) of None \<Rightarrow> True | Some old \<Rightarrow> en_revision old = n_stale n)"

lemma parse_entKind: "k \<le> 4 \<Longrightarrow> parseNodeKind (entKind k) = k"
proof -
  assume "k \<le> 4"
  then have "unat k \<le> 4" by (simp add: word_le_nat_alt)
  then have "unat k \<in> {0, 1, 2, 3, 4}" by auto
  then have "k \<in> {0, 1, 2, 3, 4}" by (auto simp: word_unat_eq_iff)
  then show ?thesis by (auto simp: parseNodeKind_def entKind_def)
qed

lemma parseNodeKind_le: "parseNodeKind s \<le> 4"
  by (simp add: parseNodeKind_def)

lemma node_at_set:
  assumes "ids_ok d"
  shows "node_at (set_node n d) = (node_at d)(n_id n \<mapsto> stored (node_at d (n_id n)) n)"
proof
  fix i
  show "node_at (set_node n d) i = ((node_at d)(n_id n \<mapsto> stored (node_at d (n_id n)) n)) i"
    using assms unfolding ids_ok_def
    by (cases "t_nodes d (n_id n)")
      (auto simp: node_at_def set_node_def stored_def fromEnt_def row_insert_def row_update_def)
qed

lemma node_at_del: "node_at (del_node i d) = (node_at d)(i := None)"
  by (auto simp: node_at_def del_node_def)

lemma ids_ok_set: "ids_ok d \<Longrightarrow> ids_ok (set_node n d)"
  by (auto simp: ids_ok_def set_node_def row_insert_def row_update_def split: option.splits)

lemma ids_ok_del: "ids_ok d \<Longrightarrow> ids_ok (del_node i d)"
  by (auto simp: ids_ok_def del_node_def)

lemma node_at_id: "ids_ok d \<Longrightarrow> node_at d i = Some n \<Longrightarrow> n_id n = i \<and> n_stale n = n_rev n"
  by (auto simp: node_at_def ids_ok_def fromEnt_def)

lemma current_node_at:
  "ids_ok d \<Longrightarrow> current d n \<longleftrightarrow> (case node_at d (n_id n) of None \<Rightarrow> True | Some m \<Rightarrow> n_rev m = n_stale n)"
  by (auto simp: current_def node_at_def fromEnt_def split: option.splits)

section \<open>What the operations do\<close>

lemma io_Inr: "io E w = (Inr u, w') \<Longrightarrow> w' = w\<lparr>w_tick := Suc (w_tick w)\<rparr>"
  by (auto simp: io_def split: option.splits)

lemma io_Inl: "io E w = (Inl e, w') \<Longrightarrow> w' = w\<lparr>w_tick := Suc (w_tick w)\<rparr>"
  by (auto simp: io_def split: option.splits)

lemma get_client_run [simp]: "get_client w = (Inr (client w), w)"
  by (simp add: get_client_def)

lemma get_committed_run [simp]: "get_committed w = (Inr (w_db w), w)"
  by (simp add: get_committed_def)

definition put_db :: "db \<Rightarrow> world \<Rightarrow> world" where
  "put_db d w = snd (put_client d w)"

lemma put_client_run [simp]: "put_client d w = (Inr (), put_db d w)"
  by (simp add: put_db_def put_client_def)

lemma put_db_simps [simp]:
  fixes w :: world
  shows "client (put_db d w) = d" "w_tick (put_db d w) = w_tick w" "w_cache (put_db d w) = w_cache w"
    "w_kv (put_db d w) = w_kv w" "w_mem (put_db d w) = w_mem w" "w_objs (put_db d w) = w_objs w"
    "w_tx w = None \<Longrightarrow> w_db (put_db d w) = d" "w_tx w = Some d0 \<Longrightarrow> w_db (put_db d w) = w_db w"
    "w_tx w = None \<Longrightarrow> w_tx (put_db d w) = None" "w_tx w = Some d0 \<Longrightarrow> w_tx (put_db d w) = Some d"
  by (cases "w_tx w"; simp add: put_db_def put_client_def client_def)+

lemma repo_get_Inr:
  "repo_get E i w = (Inr n, w') \<Longrightarrow> node_at (w_db w) i = Some n \<and> w' = w\<lparr>w_tick := Suc (w_tick w)\<rparr>"
  by (auto simp: repo_get_def node_at_def monad_simps dest!: io_Inr split: option.splits)

lemma repo_get_no_faults:
  "no_faults E \<Longrightarrow> repo_get E i w =
    (case node_at (w_db w) i of None \<Rightarrow> Inl node_not_found | Some n \<Rightarrow> Inr n, w\<lparr>w_tick := Suc (w_tick w)\<rparr>)"
  by (simp add: repo_get_def io_no_faults node_at_def split: option.splits)

lemma repo_save_Inr:
  assumes "repo_save E n w = (Inr n', w')"
  shows "n' = n\<lparr>n_stale := n_rev n\<rparr>" "current (client w) n" "valid_node_row (row_insert n)"
    "w' = put_db (set_node n (client w)) (w\<lparr>w_tick := Suc (Suc (w_tick w))\<rparr>)"
  using assms
  by (auto simp: repo_save_def existsTx_def update_node_def insert_node_def monad_simps set_node_def current_def
      dest!: io_Inr split: if_splits option.splits)

lemma repo_save_no_faults:
  assumes "no_faults E"
  shows "repo_save E n w =
    (if \<not> valid_node_row (row_insert n) then (Inl ent_validation, w\<lparr>w_tick := Suc (w_tick w)\<rparr>)
     else if \<not> current (client w) n then (Inl revision_conflict, w\<lparr>w_tick := Suc (Suc (w_tick w))\<rparr>)
     else (Inr (n\<lparr>n_stale := n_rev n\<rparr>), put_db (set_node n (client w)) (w\<lparr>w_tick := Suc (Suc (w_tick w))\<rparr>)))"
  using assms
  by (simp add: repo_save_def existsTx_def update_node_def insert_node_def io_no_faults set_node_def current_def
      split: option.splits)

lemma repo_delete_Inr:
  "repo_delete E i w = (Inr u, w') \<Longrightarrow>
     t_nodes (client w) i \<noteq> None \<and> w' = put_db (del_node i (client w)) (w\<lparr>w_tick := Suc (w_tick w)\<rparr>)"
  by (auto simp: repo_delete_def monad_simps del_node_def dest!: io_Inr split: option.splits)

lemma repo_delete_no_faults:
  "no_faults E \<Longrightarrow> repo_delete E i w =
    (if t_nodes (client w) i = None then (Inl node_not_found, w\<lparr>w_tick := Suc (w_tick w)\<rparr>)
     else (Inr (), put_db (del_node i (client w)) (w\<lparr>w_tick := Suc (w_tick w)\<rparr>)))"
  by (auto simp: repo_delete_def io_no_faults del_node_def split: option.splits)

lemma quiet_repo_get [quiet_intros]: "quiet (repo_get E i)"
  unfolding repo_get_def by (intro quiet_intros)

lemma quiet_existsTx [quiet_intros]: "quiet (existsTx E i)"
  unfolding existsTx_def by (intro quiet_intros)

lemma tx_safe_repo_get [txsafe_intros]: "tx_safe (repo_get E i)"
  by (intro tx_safe_quiet quiet_intros)

lemma tx_safe_repo_save [txsafe_intros]: "tx_safe (repo_save E n)"
  unfolding repo_save_def existsTx_def update_node_def insert_node_def by (intro txsafe_intros)

lemma tx_safe_repo_delete [txsafe_intros]: "tx_safe (repo_delete E i)"
  unfolding repo_delete_def by (intro txsafe_intros)

lemma repo_save_Inl: "repo_save E n w = (Inl e, w') \<Longrightarrow> same_store w' w"
  by (auto simp: repo_save_def existsTx_def update_node_def insert_node_def monad_simps
      dest!: io_Inr io_Inl split: if_splits option.splits)

lemma repo_delete_Inl: "repo_delete E i w = (Inl e, w') \<Longrightarrow> same_store w' w"
  by (auto simp: repo_delete_def monad_simps dest!: io_Inr io_Inl split: option.splits)

lemma atomic_repo_save [atomic_intros]: "atomic (repo_save E n)"
  unfolding atomic_def
proof (intro allI impI conjI)
  fix w :: world assume w: "w_tx w = None"
  show "w_tx (snd (repo_save E n w)) = None"
  proof (cases "repo_save E n w")
    case (Pair r w')
    show ?thesis
    proof (cases r)
      case (Inl e)
      then show ?thesis using repo_save_Inl Pair w by (fastforce simp: same_store_def)
    next
      case (Inr x)
      then show ?thesis using repo_save_Inr(4) Pair w by fastforce
    qed
  qed
  fix e w' assume "repo_save E n w = (Inl e, w')"
  then show "w_db w' = w_db w" using repo_save_Inl by (fastforce simp: same_store_def)
qed

section \<open>The interface Repository\<close>

text \<open>
  What a client may rely on outside a transaction, over the map \<open>rows\<close> of the nodes that
  \<open>Get\<close> can return: \<open>Get\<close> reads that map, a save that succeeds was made with the current
  revision and stores the node, a save that fails stores nothing, a stale save fails.
\<close>

locale node_repository =
  fixes get :: "uuid \<Rightarrow> node W"
    and save :: "node \<Rightarrow> node W"
    and del :: "uuid \<Rightarrow> unit W"
    and rows :: "world \<Rightarrow> uuid \<Rightarrow> node option"
    and ready :: "world \<Rightarrow> bool"
  assumes get_row: "ready w \<Longrightarrow> get i w = (Inr n, w') \<Longrightarrow> rows w i = Some n \<and> rows w' = rows w \<and> ready w'"
    and row_id: "ready w \<Longrightarrow> rows w i = Some n \<Longrightarrow> n_id n = i \<and> n_stale n = n_rev n"
    and save_row: "ready w \<Longrightarrow> save n w = (Inr n', w') \<Longrightarrow>
      n' = n\<lparr>n_stale := n_rev n\<rparr> \<and> rows w' = (rows w)(n_id n \<mapsto> stored (rows w (n_id n)) n) \<and> ready w' \<and>
      (\<forall>m. rows w (n_id n) = Some m \<longrightarrow> n_rev m = n_stale n)"
    and save_fails: "ready w \<Longrightarrow> save n w = (Inl e, w') \<Longrightarrow> rows w' = rows w \<and> ready w'"
    and del_row: "ready w \<Longrightarrow> del i w = (Inr u, w') \<Longrightarrow> rows w' = (rows w)(i := None) \<and> ready w'"
begin

text \<open>A save made with a revision that is no longer the stored one changes nothing.\<close>

lemma stale_save:
  assumes "ready w" "rows w (n_id n) = Some m" "n_rev m \<noteq> n_stale n"
  obtains e w' where "save n w = (Inl e, w')" "rows w' = rows w"
proof (cases "save n w")
  case (Pair r w')
  show ?thesis
  proof (cases r)
    case (Inl e)
    then show ?thesis using that [of e w'] save_fails [OF assms(1)] Pair by blast
  next
    case (Inr x)
    then show ?thesis using save_row [OF assms(1)] Pair assms(2,3) by blast
  qed
qed

text \<open>Of two clients that loaded the same node and changed its revision, only the first to save wins.\<close>

lemma no_lost_update:
  assumes "ready w" "rows w i = Some m"
    and a: "n_id a = i" "n_rev a \<noteq> n_rev m"
    and b: "n_id b = i" "n_stale b = n_rev m"
    and s: "save a w = (Inr a', w1)"
  obtains e w2 where "save b w1 = (Inl e, w2)" "rows w2 i = Some (stored (Some m) a)"
proof -
  have r: "rows w1 i = Some (stored (Some m) a)" "ready w1"
    using save_row [OF assms(1) s] assms(2) a(1) by auto
  have "rows w1 (n_id b) = Some (stored (Some m) a)" "n_rev (stored (Some m) a) \<noteq> n_stale b"
    using r(1) a(2) b by (simp_all add: stored_def)
  then obtain e w2 where "save b w1 = (Inl e, w2)" "rows w2 = rows w1"
    using stale_save [OF r(2)] by blast
  then show thesis using that r(1) by simp
qed

text \<open>What is saved is what the next load returns.\<close>

lemma save_get:
  assumes "ready w" "save n w = (Inr n', w1)" "get (n_id n) w1 = (Inr k, w2)"
  shows "k = stored (rows w (n_id n)) n"
proof -
  have "rows w1 (n_id n) = Some (stored (rows w (n_id n)) n)" "ready w1"
    using save_row [OF assms(1,2)] by auto
  then show ?thesis using get_row [OF _ assms(3)] by simp
qed

end

definition nodes_ready :: "world \<Rightarrow> bool" where
  "nodes_ready w \<longleftrightarrow> w_tx w = None \<and> ids_ok (w_db w)"

definition committed_nodes :: "world \<Rightarrow> uuid \<Rightarrow> node option" where
  "committed_nodes w = node_at (w_db w)"

lemma client_no_tx: "w_tx w = None \<Longrightarrow> client w = w_db w"
  by (simp add: client_def)

interpretation nrepo: node_repository "repo_get E" "repo_save E" "repo_delete E" committed_nodes nodes_ready for E
proof unfold_locales
  fix w w' :: world and i n
  assume "nodes_ready w" "repo_get E i w = (Inr n, w')"
  then show "committed_nodes w i = Some n \<and> committed_nodes w' = committed_nodes w \<and> nodes_ready w'"
    using repo_get_Inr [of E i w n w'] by (simp add: committed_nodes_def nodes_ready_def)
next
  fix w :: world and i n
  assume "nodes_ready w" "committed_nodes w i = Some n"
  then show "n_id n = i \<and> n_stale n = n_rev n"
    using node_at_id by (auto simp: committed_nodes_def nodes_ready_def)
next
  fix w w' :: world and n n'
  assume r: "nodes_ready w" and s: "repo_save E n w = (Inr n', w')"
  let ?d = "w_db w"
  have d: "ids_ok ?d" "w_tx w = None" "client w = ?d" using r by (auto simp: nodes_ready_def client_no_tx)
  have db: "w_db w' = set_node n ?d" "w_tx w' = None"
    using repo_save_Inr(4) [OF s] d by simp_all
  have cur: "\<forall>m. node_at ?d (n_id n) = Some m \<longrightarrow> n_rev m = n_stale n"
    using repo_save_Inr(2) [OF s] d by (auto simp: current_node_at)
  show "n' = n\<lparr>n_stale := n_rev n\<rparr> \<and>
      committed_nodes w' = (committed_nodes w)(n_id n \<mapsto> stored (committed_nodes w (n_id n)) n) \<and> nodes_ready w' \<and>
      (\<forall>m. committed_nodes w (n_id n) = Some m \<longrightarrow> n_rev m = n_stale n)"
    using repo_save_Inr(1) [OF s] db d cur
    by (simp add: committed_nodes_def nodes_ready_def node_at_set ids_ok_set)
next
  fix w w' :: world and n e
  assume "nodes_ready w" "repo_save E n w = (Inl e, w')"
  then show "committed_nodes w' = committed_nodes w \<and> nodes_ready w'"
    using repo_save_Inl [of E n w e w'] by (simp add: committed_nodes_def nodes_ready_def same_store_def)
next
  fix w w' :: world and i u
  assume r: "nodes_ready w" and s: "repo_delete E i w = (Inr u, w')"
  then have "client w = w_db w" "w_tx w = None" "ids_ok (w_db w)" by (auto simp: nodes_ready_def client_no_tx)
  then show "committed_nodes w' = (committed_nodes w)(i := None) \<and> nodes_ready w'"
    using repo_delete_Inr [OF s] by (simp add: committed_nodes_def nodes_ready_def node_at_del ids_ok_del)
qed

section \<open>When a save succeeds\<close>

lemma valid_row_iff:
  "valid_node_row (row_insert n) \<longleftrightarrow> content_ok n \<and> length (n_rev n) \<le> 26"
  by (auto simp: valid_node_row_def row_insert_def entKind_def content_ok_def MaxContentSize_def split: option.splits)

lemma save_succeeds:
  assumes "no_faults E" "content_ok n" "length (n_rev n) \<le> 26" "current (client w) n"
  shows "repo_save E n w =
    (Inr (n\<lparr>n_stale := n_rev n\<rparr>), put_db (set_node n (client w)) (w\<lparr>w_tick := Suc (Suc (w_tick w))\<rparr>))"
  using assms by (simp add: repo_save_no_faults valid_row_iff)

lemma current_set_other: "n_id a \<noteq> n_id b \<Longrightarrow> current (set_node a d) b = current d b"
  by (simp add: current_def set_node_def split: option.splits)

lemma current_rewritten: "rewritten n c sz n' \<Longrightarrow> current d n' = current d n"
  using rewrittenD [of n c sz n'] by (simp add: current_def split: option.splits)

section \<open>Properties\<close>

definition demo_world :: world where
  "demo_world = world_of (empty_db\<lparr>t_nodes := [7 \<mapsto> row_insert demo_file]\<rparr>)"

lemma demo_world_simps [simp]:
  "w_tx demo_world = None" "w_tick demo_world = 0" "t_nodes (w_db demo_world) = [7 \<mapsto> row_insert demo_file]"
  by (simp_all add: demo_world_def world_of_def empty_db_def)

lemma demo_file_row: "valid_node_row (row_insert (demo_file\<lparr>n_rev := ''s''\<rparr>))"
  by (simp add: valid_node_row_def row_insert_def demo_file_def demo_node_def entKind_def encode_eval)

text \<open>
  C5. No lost update. When two clients hold the same version of a stored node, each has given it
  a new revision, and the first one's save succeeds, the second one's save fails and the
  stored node is the first one's; without database faults and with a valid row the error is
  the revision conflict.
\<close>

theorem save_no_lost_update:
  assumes "w_tx w = None" "ids_ok (w_db w)" "node_at (w_db w) i = Some m"
    and a: "n_id a = i" "n_rev a \<noteq> n_rev m"
    and b: "n_id b = i" "n_stale b = n_rev m"
    and s: "repo_save E a w = (Inr a', w1)"
  shows "\<exists>e w2. repo_save E b w1 = (Inl e, w2) \<and> node_at (w_db w2) i = Some (stored (Some m) a) \<and>
    (no_faults E \<longrightarrow> valid_node_row (row_insert b) \<longrightarrow> e = revision_conflict)"
proof -
  have r: "nodes_ready w" "committed_nodes w i = Some m"
    using assms(1-3) by (simp_all add: nodes_ready_def committed_nodes_def)
  obtain e w2 where e: "repo_save E b w1 = (Inl e, w2)" "committed_nodes w2 i = Some (stored (Some m) a)"
    by (rule nrepo.no_lost_update [OF r a b s])
  have "e = revision_conflict" if "no_faults E" "valid_node_row (row_insert b)"
    using e(1) that by (auto simp: repo_save_no_faults split: if_splits)
  then show ?thesis using e by (auto simp: committed_nodes_def)
qed

theorem save_no_lost_update_witness:
  "let m = demo_file; a = m\<lparr>n_rev := ''s''\<rparr>; b = m\<lparr>n_rev := ''t''\<rparr>; w1 = snd (repo_save demo a demo_world) in
   \<exists>e w2. repo_save demo b w1 = (Inl e, w2) \<and> n_rev (the (node_at (w_db w2) 7)) = ''s''"
proof -
  let ?a = "demo_file\<lparr>n_rev := ''s''\<rparr>" and ?b = "demo_file\<lparr>n_rev := ''t''\<rparr>"
  have i: "ids_ok (w_db demo_world)" by (simp add: ids_ok_def row_insert_def demo_file_def demo_node_def)
  have m: "node_at (w_db demo_world) 7 = Some demo_file"
    by (simp add: node_at_def row_insert_def fromEnt_def demo_file_def demo_node_def parseNodeKind_def entKind_def)
  have c: "current (client demo_world) ?a"
    by (simp add: current_def client_no_tx row_insert_def demo_file_def demo_node_def)
  obtain a' w1 where s: "repo_save demo ?a demo_world = (Inr a', w1)"
    using c demo_file_row by (simp add: repo_save_no_faults)
  have "\<exists>e w2. repo_save demo ?b w1 = (Inl e, w2) \<and> node_at (w_db w2) 7 = Some (stored (Some demo_file) ?a) \<and>
    (no_faults demo \<longrightarrow> valid_node_row (row_insert ?b) \<longrightarrow> e = revision_conflict)"
    by (rule save_no_lost_update [OF _ i m _ _ _ _ s]) (simp_all add: demo_file_def demo_node_def)
  then show ?thesis using s by (auto simp: Let_def stored_def)
qed

text \<open>
  C32. Save, then load. Outside a transaction, a successful save of a node that has a content and
  one of the five kinds stores that node, with the revision as its loaded revision, its instants rounded to the
  microsecond, and the creation time that was stored first; without faults the next load returns it.
  Every other node is as it was, and a save that fails leaves the database unchanged.
\<close>

theorem save_then_get:
  assumes w: "w_tx w = None" "ids_ok (w_db w)" and n: "n_content n \<noteq> None" "n_kind n \<le> 4"
  shows "case repo_save E n w of
      (Inl e, w1) \<Rightarrow> w_db w1 = w_db w
    | (Inr n1, w1) \<Rightarrow> n1 = n\<lparr>n_stale := n_rev n\<rparr> \<and>
        (\<exists>a m c r. (\<forall>(t, s)\<in>{(a, n_atime n), (m, n_mtime n), (c, n_ctime n)}. t mod 1000 = 0 \<and> \<bar>t - s\<bar> \<le> 500) \<and>
          (case node_at (w_db w) (n_id n) of
             None \<Rightarrow> r mod 1000 = 0 \<and> \<bar>r - n_crtime n\<bar> \<le> 500
           | Some old \<Rightarrow> r = n_crtime old \<and> n_rev old = n_stale n) \<and>
          node_at (w_db w1) = (node_at (w_db w))(n_id n \<mapsto> n1\<lparr>n_atime := a, n_mtime := m, n_ctime := c, n_crtime := r\<rparr>) \<and>
          (\<forall>k w2. repo_get E (n_id n) w1 = (Inr k, w2) \<longrightarrow> k = n1\<lparr>n_atime := a, n_mtime := m, n_ctime := c, n_crtime := r\<rparr>)) \<and>
        (no_faults E \<longrightarrow> (\<exists>k w2. repo_get E (n_id n) w1 = (Inr k, w2)))"
proof (cases "repo_save E n w")
  case (Pair q w1)
  have rd: "nodes_ready w" using w by (simp add: nodes_ready_def)
  show ?thesis
  proof (cases q)
    case (Inl e)
    then show ?thesis using repo_save_Inl Pair by (fastforce simp: same_store_def)
  next
    case (Inr n1)
    let ?old = "node_at (w_db w) (n_id n)"
    let ?r = "case ?old of None \<Rightarrow> timestamptz (n_crtime n) | Some m \<Rightarrow> n_crtime m"
    let ?k = "n1\<lparr>n_atime := timestamptz (n_atime n), n_mtime := timestamptz (n_mtime n), n_ctime := timestamptz (n_ctime n), n_crtime := ?r\<rparr>"
    have s: "n1 = n\<lparr>n_stale := n_rev n\<rparr>"
      "committed_nodes w1 = (committed_nodes w)(n_id n \<mapsto> stored (committed_nodes w (n_id n)) n)" "nodes_ready w1"
      "\<forall>m. committed_nodes w (n_id n) = Some m \<longrightarrow> n_rev m = n_stale n"
      using nrepo.save_row [OF rd] Pair Inr by blast+
    have "stored ?old n = ?k" using n s(1) by (auto simp: stored_def parse_entKind split: option.splits)
    then have at: "node_at (w_db w1) = (node_at (w_db w))(n_id n \<mapsto> ?k)" using s(2) by (simp add: committed_nodes_def)
    then have g: "k = ?k" if "repo_get E (n_id n) w1 = (Inr k, w2)" for k w2 using repo_get_Inr [OF that] by simp
    have l: "\<exists>k w2. repo_get E (n_id n) w1 = (Inr k, w2)" if "no_faults E" using repo_get_no_faults [OF that] at by simp
    have r: "case ?old of None \<Rightarrow> ?r mod 1000 = 0 \<and> \<bar>?r - n_crtime n\<bar> \<le> 500 | Some old \<Rightarrow> ?r = n_crtime old \<and> n_rev old = n_stale n"
      using timestamptz_bounds s(4) by (auto simp: committed_nodes_def split: option.splits)
    have t: "\<forall>(t, s)\<in>{(timestamptz (n_atime n), n_atime n), (timestamptz (n_mtime n), n_mtime n), (timestamptz (n_ctime n), n_ctime n)}.
        t mod 1000 = 0 \<and> \<bar>t - s\<bar> \<le> 500" using timestamptz_bounds by simp
    show ?thesis unfolding Pair Inr prod.case sum.case
      by (intro conjI s(1) impI l, rule exI [of _ "timestamptz (n_atime n)"], rule exI [of _ "timestamptz (n_mtime n)"],
          rule exI [of _ "timestamptz (n_ctime n)"], rule exI [of _ ?r], intro conjI t r at allI impI g)
  qed
qed

theorem save_then_get_witness:
  "n_rev (the (node_at (w_db (snd (repo_save demo (demo_file\<lparr>n_rev := ''s''\<rparr>) demo_world))) 7)) = ''s''"
proof -
  let ?a = "demo_file\<lparr>n_rev := ''s''\<rparr>"
  have i: "ids_ok (w_db demo_world)" by (simp add: ids_ok_def row_insert_def demo_file_def demo_node_def)
  have c: "current (client demo_world) ?a"
    by (simp add: current_def client_no_tx row_insert_def demo_file_def demo_node_def)
  obtain a' w1 where s: "repo_save demo ?a demo_world = (Inr a', w1)"
    using c demo_file_row by (simp add: repo_save_no_faults)
  have "n_content ?a \<noteq> None" "n_kind ?a \<le> 4" "n_id ?a = 7" by (simp_all add: demo_file_def demo_node_def)
  then show ?thesis using save_then_get [OF _ i, of ?a demo] s by auto
qed

end
