(* ===== verification/NodeOp.thy ===== *)
theory NodeOp
  imports NodeRepo
begin

text \<open>
  The component internal/core/node/operation.go: the operations on inodes, each a sequence of
  in-memory changes and repository calls, the multi-step ones inside a transaction. A
  \<open>*Node\<close> argument is \<open>None\<close> where it is nil; an operation that changes its arguments returns
  them as it leaves them. Logging is not modelled.
\<close>

section \<open>Creation\<close>

text \<open>\<open>nodeOperation.create\<close>: the factory's own error is replaced.\<close>

definition create :: "env \<Rightarrow> string \<Rightarrow> node W \<Rightarrow> node W" where
  "create E kind factory =
     tryM factory
       (\<lambda>_. failM (New KindInternal (''node: create '' @ kind @ '' factory failed'')))
       (\<lambda>n. wrapM [] (''node: save '' @ kind) (repo_save E n))"

definition CreateFile :: "env \<Rightarrow> string \<Rightarrow> node W" where
  "CreateFile E content = create E ''file'' (NewFile E content)"

definition Touch_op :: "env \<Rightarrow> node W" where
  "Touch_op E = CreateFile E []"

definition CreateDirectory :: "env \<Rightarrow> node W" where
  "CreateDirectory E = create E ''directory'' (NewDirectory E)"

definition CreateSymlink :: "env \<Rightarrow> string \<Rightarrow> node W" where
  "CreateSymlink E target = create E ''symlink'' (NewSymlink E target)"

definition CreateObject :: "env \<Rightarrow> object_content \<Rightarrow> int \<Rightarrow> node W" where
  "CreateObject E content sz = create E ''object'' (NewObject E content sz)"

definition CreateMount :: "env \<Rightarrow> string \<Rightarrow> node W" where
  "CreateMount E src = create E ''mount'' (NewMount E src)"

section \<open>Loading, saving, deleting\<close>

definition GetByID :: "env \<Rightarrow> uuid \<Rightarrow> node W" where
  "GetByID E i = wrapM [] (''node: get (id='' @ uuid_text E i @ '')'') (repo_get E i)"

definition Save_op :: "env \<Rightarrow> node option \<Rightarrow> node W" where
  "Save_op E n =
     (case n of
        None \<Rightarrow> failM (New KindInvalidArgument ''node: save requires non-nil node'')
      | Some m \<Rightarrow> wrapM [] (''node: save (id='' @ uuid_text E (n_id m) @ '')'') (repo_save E m))"

definition Delete_op :: "env \<Rightarrow> uuid \<Rightarrow> unit W" where
  "Delete_op E i = wrapM [] (''node: delete (id='' @ uuid_text E i @ '')'') (repo_delete E i)"

section \<open>Linking\<close>

text \<open>\<open>child.nlink += k; child.ctime = now; child.rev = child.rev.Next()\<close>.\<close>

definition relinked :: "32 word \<Rightarrow> time \<Rightarrow> revision \<Rightarrow> node \<Rightarrow> node" where
  "relinked k now r c = c\<lparr>n_nlink := k, n_ctime := now, n_rev := r\<rparr>"

definition link_body :: "env \<Rightarrow> node \<Rightarrow> string \<Rightarrow> node \<Rightarrow> (node \<times> node) W" where
  "link_body E p name c =
     bindM (wrapM [] (''node: link add entry (name='' @ name @ '')'') (AddEntry E name c p)) (\<lambda>p1.
     bindM (wrapM [] ''node: link save parent'' (repo_save E p1)) (\<lambda>p2.
     bindM (time_Now E) (\<lambda>now. bindM (ulid_Make E) (\<lambda>rev.
     bindM (wrapM [] ''node: link save child'' (repo_save E (relinked (n_nlink c + 1) now rev c))) (\<lambda>c2.
       retM (p2, c2))))))"

definition Link :: "env \<Rightarrow> node option \<Rightarrow> string \<Rightarrow> node option \<Rightarrow> (node \<times> node) W" where
  "Link E parent name child =
     (case (parent, child) of
        (Some p, Some c) \<Rightarrow> with_tx E (link_body E p name c)
      | _ \<Rightarrow> failM (New KindInvalidArgument ''node: link requires non-nil parent and child''))"

text \<open>
  Go ranges over a map in an arbitrary order, anew for each loop: \<open>es\<close> and \<open>es'\<close> are the two
  orders. A child that is listed under two names would be one object in Go; the model takes
  the children to be distinct.
\<close>

definition bulk_link_child :: "env \<Rightarrow> time \<Rightarrow> string \<times> node option \<Rightarrow> node list \<Rightarrow> node list W" where
  "bulk_link_child E now p saved =
     (case snd p of
        None \<Rightarrow> retM saved
      | Some c \<Rightarrow>
          bindM (ulid_Make E) (\<lambda>rev.
          bindM (wrapM [] (''node: bulk link save child (name='' @ fst p @ '')'')
                  (repo_save E (relinked (n_nlink c + 1) now rev c))) (\<lambda>c1.
            retM (saved @ [c1]))))"

definition BulkLink :: "env \<Rightarrow> node option \<Rightarrow> (string \<times> node option) list \<Rightarrow> (string \<times> node option) list
    \<Rightarrow> (node \<times> node list) W" where
  "BulkLink E parent es es' =
     (case parent of
        None \<Rightarrow> failM (New KindInvalidArgument ''node: bulk link requires non-nil parent'')
      | Some p \<Rightarrow>
          if es = [] then retM (p, [])
          else with_tx E (
            bindM (wrapM [] (''node: bulk link add entries (count='' @ itoa_nat (length es) @ '')'')
                    (AddEntries E es p)) (\<lambda>p1.
            bindM (wrapM [] ''node: bulk link save parent'' (repo_save E p1)) (\<lambda>p2.
            bindM (time_Now E) (\<lambda>now.
            bindM (foldM (bulk_link_child E now) es' []) (\<lambda>saved.
              retM (p2, saved)))))))"

section \<open>Unlinking\<close>

text \<open>What happens to the inode whose last or other link was removed. \<open>None\<close>: not deleted.\<close>

definition unlink_child :: "env \<Rightarrow> string \<Rightarrow> uuid \<Rightarrow> node option W" where
  "unlink_child E name i =
     (if i = uuid_Nil then retM None
      else
        bindM (wrapM [] (''node: unlink get child (name='' @ name @ '', child_id='' @ uuid_text E i @ '')'')
                (GetByID E i)) (\<lambda>child.
          if n_nlink child > 1 then
            bindM (time_Now E) (\<lambda>now. bindM (ulid_Make E) (\<lambda>rev.
              bindM (wrapM [] ''node: unlink decrement child nlink''
                      (repo_save E (relinked (n_nlink child - 1) now rev child))) (\<lambda>_. retM None)))
          else
            bindM (wrapM [] (''node: unlink delete child (child_id='' @ uuid_text E i @ '')'')
                    (repo_delete E i)) (\<lambda>_. retM (Some child))))"

definition unlink_body :: "env \<Rightarrow> node \<Rightarrow> string \<Rightarrow> (node \<times> node option) W" where
  "unlink_body E p name =
     bindM (wrapM [] (''node: unlink read dir (name='' @ name @ '')'') (liftM (read_dir E p))) (\<lambda>dc.
       (case find_entry dc name of
          None \<Rightarrow> failM entry_missing
        | Some e \<Rightarrow>
            bindM (wrapM [] (''node: unlink remove entry (name='' @ name @ '')'') (RemoveEntry E name p)) (\<lambda>p1.
            bindM (wrapM [] (''node: unlink save parent (name='' @ name @ '')'') (repo_save E p1)) (\<lambda>p2.
            bindM (unlink_child E name (de_ino e)) (\<lambda>deleted.
              retM (p2, deleted))))))"

definition Unlink :: "env \<Rightarrow> node option \<Rightarrow> string \<Rightarrow> (node \<times> node option) W" where
  "Unlink E parent name =
     (case parent of
        None \<Rightarrow> failM (New KindInvalidArgument ''node: unlink requires non-nil parent'')
      | Some p \<Rightarrow> with_tx E (unlink_body E p name))"

definition UnlinkOrReplace :: "env \<Rightarrow> node option \<Rightarrow> string \<Rightarrow> (node option \<times> node option) W" where
  "UnlinkOrReplace E parent name =
     (case parent of
        None \<Rightarrow> failM (New KindInvalidArgument ''node: unlink requires non-nil parent'')
      | Some p \<Rightarrow>
          bindM (liftM (lookup E p name)) (\<lambda>entry.
            (case entry of
               None \<Rightarrow> retM (Some p, None)
             | Some e \<Rightarrow>
                 bindM (wrapM [] (''node: unlink_or_replace get existing (name='' @ name @ '', inode_id='' @
                                  uuid_text E (de_ino e) @ '')'') (GetByID E (de_ino e))) (\<lambda>child.
                   if is_dir child
                   then failM (New KindFailedPrecondition ''node: target is a directory'')
                   else bindM (Unlink E (Some p) name) (\<lambda>(p1, deleted). retM (Some p1, deleted))))))"

section \<open>Moving\<close>

text \<open>
  The first loop of \<open>MoveEntry\<close>, over the source listing: the moved entry is dropped; in the
  same directory the first or any other entry of the new name is replaced by it. The flag is
  \<open>dstEntryReplaced\<close>.
\<close>

fun move_src_entries :: "bool \<Rightarrow> string \<Rightarrow> string \<Rightarrow> dir_entry \<Rightarrow> dir_entry list \<Rightarrow> dir_entry list \<times> bool" where
  "move_src_entries same src dst moved [] = ([], False)"
| "move_src_entries same src dst moved (e # es) =
     (let (r, b) = move_src_entries same src dst moved es in
      if de_name e = src then (r, b)
      else if same \<and> de_name e = dst then (moved # r, True)
      else (e # r, b))"

text \<open>The loop over the destination listing, as it is written: it keeps no entry.\<close>

fun move_dst_entries :: "string \<Rightarrow> dir_entry list \<Rightarrow> dir_entry list" where
  "move_dst_entries dst [] = []"
| "move_dst_entries dst (e # es) =
     (if de_name e = dst then move_dst_entries dst es else move_dst_entries dst es)"

text \<open>The inode that the moved entry replaces.\<close>

definition move_overwrite :: "env \<Rightarrow> uuid \<Rightarrow> unit W" where
  "move_overwrite E i =
     bindM (wrapM [] (''move entry load overwrite target (inode_id='' @ uuid_text E i @ '')'') (GetByID E i)) (\<lambda>o1.
       if n_nlink o1 \<le> 1 then
         wrapM [] (''move entry delete overwritten inode (inode_id='' @ uuid_text E i @ '')'') (repo_delete E i)
       else
         bindM (ulid_Make E) (\<lambda>r.
           bindM (wrapM [] ''move entry save overwritten inode''
                   (repo_save E (o1\<lparr>n_nlink := n_nlink o1 - 1, n_rev := r\<rparr>))) (\<lambda>_. retM ())))"

definition move_same :: "env \<Rightarrow> node \<Rightarrow> dir_entry list \<Rightarrow> node W" where
  "move_same E sp es =
     bindM (wrapM [] ''move entry write parent'' (WriteDir E (Some es) sp)) (\<lambda>sp1.
       wrapM [] ''move entry save parent'' (repo_save E sp1))"

definition move_across :: "env \<Rightarrow> node \<Rightarrow> dir_entry list \<Rightarrow> node \<Rightarrow> dir_entry list \<Rightarrow> (node \<times> node) W" where
  "move_across E sp ses dp des =
     bindM (wrapM [] ''move entry write src dir'' (WriteDir E (Some ses) sp)) (\<lambda>sp1.
     bindM (wrapM [] ''move entry save src'' (repo_save E sp1)) (\<lambda>sp2.
     bindM (wrapM [] ''move entry write dst dir'' (WriteDir E (Some des) dp)) (\<lambda>dp1.
     bindM (wrapM [] ''move entry save dst'' (repo_save E dp1)) (\<lambda>dp2.
       retM (sp2, dp2)))))"

definition move_body :: "env \<Rightarrow> node \<Rightarrow> string \<Rightarrow> node \<Rightarrow> string \<Rightarrow> (node \<times> node) W" where
  "move_body E sp src dp dst =
     bindM (wrapM [] (''move entry read src dir (src_name='' @ src @ '')'') (liftM (read_dir E sp))) (\<lambda>srcDC.
       (case find_entry srcDC src of
          None \<Rightarrow> failM entry_missing
        | Some se \<Rightarrow>
            if n_id sp = n_id dp \<and> src = dst then retM (sp, dp)
            else
              bindM (wrapM [] (''move entry read dst dir (dst_name='' @ dst @ '')'') (liftM (read_dir E dp))) (\<lambda>dstDC.
                let existing = find_entry dstDC dst;
                    moved = \<lparr>de_ino = de_ino se, de_name = dst, de_kind = de_kind se\<rparr>;
                    same = (n_id sp = n_id dp);
                    (kept, replaced) = move_src_entries same src dst moved (entries srcDC);
                    ses = (if same \<and> \<not> replaced then kept @ [moved] else kept)
                in
                if (case existing of Some x \<Rightarrow> de_ino x = de_ino se | None \<Rightarrow> False) then retM (sp, dp)
                else if (case existing of Some x \<Rightarrow> de_kind x \<noteq> de_kind se | None \<Rightarrow> False)
                then failM (New KindFailedPrecondition ''node: cannot overwrite entry of different type'')
                else
                  bindM (if same then bindM (move_same E sp ses) (\<lambda>sp1. retM (sp1, dp))
                         else move_across E sp ses dp (move_dst_entries dst (entries dstDC) @ [moved])) (\<lambda>r.
                  bindM (case existing of None \<Rightarrow> retM () | Some x \<Rightarrow> move_overwrite E (de_ino x)) (\<lambda>_.
                    retM r)))))"

definition MoveEntry :: "env \<Rightarrow> node option \<Rightarrow> string \<Rightarrow> node option \<Rightarrow> string \<Rightarrow> (node \<times> node) W" where
  "MoveEntry E srcParent src dstParent dst =
     (case (srcParent, dstParent) of
        (Some sp, Some dp) \<Rightarrow> with_tx E (move_body E sp src dp dst)
      | _ \<Rightarrow> failM (New KindInvalidArgument ''node: move entry requires non-nil parents''))"

section \<open>Bulk unlinking\<close>

definition by_name :: "dir_entry list \<Rightarrow> string \<rightharpoonup> uuid" where
  "by_name es = foldl (\<lambda>m e. m(de_name e \<mapsto> de_ino e)) Map.empty es"

text \<open>The plan: the inodes of the names, each once, in the order of the first name.\<close>

fun bulk_plan :: "(string \<rightharpoonup> uuid) \<Rightarrow> uuid list \<Rightarrow> string list \<Rightarrow> uuid list" where
  "bulk_plan m seen [] = []"
| "bulk_plan m seen (x # xs) =
     (case m x of
        None \<Rightarrow> bulk_plan m seen xs
      | Some i \<Rightarrow> if i \<in> set seen then bulk_plan m seen xs else i # bulk_plan m (i # seen) xs)"

definition bulk_unlink_child :: "env \<Rightarrow> time \<Rightarrow> uuid \<Rightarrow> node list \<Rightarrow> node list W" where
  "bulk_unlink_child E now i deleted =
     tryM (GetByID E i)
       (\<lambda>e. if KindOf (Some e) = KindNotFound then retM deleted
            else failM (wrap_with [] (''node: bulk unlink get child (id='' @ uuid_text E i @ '')'') e))
       (\<lambda>child.
          if n_nlink child > 1 then
            bindM (ulid_Make E) (\<lambda>r.
              bindM (wrapM [] ''node: bulk unlink save child nlink decrement''
                      (repo_save E (relinked (n_nlink child - 1) now r child))) (\<lambda>_. retM deleted))
          else
            bindM (wrapM [] (''node: bulk unlink delete (id='' @ uuid_text E i @ '')'') (repo_delete E i)) (\<lambda>_.
              retM (deleted @ [child])))"

definition BulkUnlink :: "env \<Rightarrow> node option \<Rightarrow> string list \<Rightarrow> (node \<times> node list) W" where
  "BulkUnlink E parent names =
     (case parent of
        None \<Rightarrow> failM (New KindInvalidArgument ''node: bulk unlink requires non-nil parent'')
      | Some p \<Rightarrow>
          if names = [] then retM (p, [])
          else with_tx E (
            bindM (wrapM [] ''node: bulk unlink read dir'' (liftM (read_dir E p))) (\<lambda>dc.
            let planned = bulk_plan (by_name (entries dc)) [] names in
            bindM (wrapM [] (''node: bulk unlink remove entries (count='' @ itoa_nat (length names) @ '')'')
                    (RemoveEntries E names p)) (\<lambda>p1.
            bindM (wrapM [] ''node: bulk unlink save parent'' (repo_save E p1)) (\<lambda>p2.
            bindM (time_Now E) (\<lambda>now.
            bindM (foldM (bulk_unlink_child E now) planned []) (\<lambda>deleted.
              retM (p2, deleted))))))))"

section \<open>Every operation is transactional\<close>

lemma tx_safe_inode [txsafe_intros]:
  "tx_safe (AddEntry E name c n)" "tx_safe (AddEntries E es n)" "tx_safe (RemoveEntry E name n)"
  "tx_safe (RemoveEntries E names n)" "tx_safe (WriteDir E dc n)" "tx_safe (NewFile E raw)"
  "tx_safe (NewDirectory E)" "tx_safe (NewSymlink E t)" "tx_safe (NewObject E oc sz)" "tx_safe (NewMount E d)"
  by (intro tx_safe_quiet quiet_intros)+

lemma quiet_GetByID [quiet_intros]: "quiet (GetByID E i)"
  unfolding GetByID_def by (intro quiet_intros)

lemma tx_safe_GetByID [txsafe_intros]: "tx_safe (GetByID E i)"
  by (intro tx_safe_quiet quiet_intros)

lemma tx_safe_create [txsafe_intros]: "tx_safe f \<Longrightarrow> tx_safe (create E k f)"
  unfolding create_def by (intro txsafe_intros)

lemma tx_safe_creates [txsafe_intros]:
  "tx_safe (CreateFile E c)" "tx_safe (CreateDirectory E)" "tx_safe (CreateSymlink E t)"
  "tx_safe (CreateObject E oc sz)" "tx_safe (CreateMount E d)"
  unfolding CreateFile_def CreateDirectory_def CreateSymlink_def CreateObject_def CreateMount_def
  by (intro txsafe_intros)+

lemma tx_safe_Save_op [txsafe_intros]: "tx_safe (Save_op E n)"
  unfolding Save_op_def by (intro txsafe_intros)

lemma tx_safe_link_body [txsafe_intros]: "tx_safe (link_body E p name c)"
  unfolding link_body_def by (intro txsafe_intros)

lemma tx_safe_unlink_child [txsafe_intros]: "tx_safe (unlink_child E name i)"
  unfolding unlink_child_def by (intro txsafe_intros)

lemma tx_safe_unlink_body [txsafe_intros]: "tx_safe (unlink_body E p name)"
  unfolding unlink_body_def by (intro txsafe_intros)

lemma tx_safe_move_body [txsafe_intros]: "tx_safe (move_body E sp src dp dst)"
  unfolding move_body_def move_same_def move_across_def move_overwrite_def by (intro txsafe_intros)

lemma tx_safe_bulk_link_child [txsafe_intros]: "tx_safe (bulk_link_child E now p saved)"
  unfolding bulk_link_child_def by (intro txsafe_intros)

lemma tx_safe_bulk_unlink_child [txsafe_intros]: "tx_safe (bulk_unlink_child E now i deleted)"
  unfolding bulk_unlink_child_def by (intro txsafe_intros)

lemma tx_safe_ops [txsafe_intros]:
  "tx_safe (Link E p name c)" "tx_safe (Unlink E p name)" "tx_safe (MoveEntry E sp src dp dst)"
  "tx_safe (BulkLink E p es es')" "tx_safe (BulkUnlink E p names)"
  unfolding Link_def Unlink_def MoveEntry_def BulkLink_def BulkUnlink_def by (intro txsafe_intros)+

lemma atomic_create [atomic_intros]: "quiet f \<Longrightarrow> atomic (create E k f)"
  unfolding create_def by (intro atomic_intros)

lemma atomic_creates [atomic_intros]:
  "atomic (CreateFile E c)" "atomic (CreateDirectory E)" "atomic (CreateSymlink E t)"
  "atomic (CreateObject E oc sz)" "atomic (CreateMount E d)"
  unfolding CreateFile_def CreateDirectory_def CreateSymlink_def CreateObject_def CreateMount_def
  by (intro atomic_create quiet_intros)+

lemma atomic_ops [atomic_intros]:
  "atomic (Link E p name c)" "atomic (Unlink E p name)" "atomic (MoveEntry E sp src dp dst)"
  "atomic (BulkLink E p es es')" "atomic (BulkUnlink E p names)"
  unfolding Link_def Unlink_def MoveEntry_def BulkLink_def BulkUnlink_def
  by (intro atomic_cases atomic_basic with_tx_atomic txsafe_intros)+

section \<open>What a successful operation commits\<close>

lemma set_node_stale [simp]: "set_node (n\<lparr>n_stale := r\<rparr>) d = set_node n d"
  by (simp add: set_node_def row_insert_def row_update_def split: option.splits)

lemma save_client:
  "repo_save E n w = (Inr n', w') \<Longrightarrow>
     n' = n\<lparr>n_stale := n_rev n\<rparr> \<and> client w' = set_node n' (client w) \<and> current (client w) n"
  using repo_save_Inr [of E n w n' w'] by simp

lemma save_in_tx:
  assumes "repo_save E n w = (Inr n', w')" "w_tx w \<noteq> None"
  shows "w_db w' = w_db w" "w_tx w' \<noteq> None"
  using assms tx_safe_repo_save [of E n] unfolding tx_safe_def by (metis snd_conv)+

lemma delete_client:
  assumes "repo_delete E i w = (Inr u, w')"
  shows "client w' = del_node i (client w)"
  using repo_delete_Inr [OF assms] by simp

lemma GetByID_Inr: "GetByID E i w = (Inr n, w') \<Longrightarrow> node_at (w_db w) i = Some n"
  by (auto simp: GetByID_def monad_simps dest: repo_get_Inr)

lemma client_start [simp]: "client ((w::world)\<lparr>w_tx := Some d\<rparr>) = d"
  by (simp add: client_def)

text \<open>What a transaction that succeeds has done, in terms of its body.\<close>

lemma committed_body:
  assumes "tx_safe m" "w_tx w = None" "with_tx E m w = (Inr x, w')"
  obtains v v' where "m v = (Inr x, v')" "w_tx v \<noteq> None" "w_db v = w_db w" "client v = w_db w"
    "w_db w' = client v'" "w_tx w' = None"
proof -
  obtain k v' where b: "m (w\<lparr>w_tx := Some (w_db w), w_tick := k\<rparr>) = (Inr x, v')" "w_db w' = client v'" "w_tx w' = None"
    by (rule tx.run_committed [OF assms])
  show thesis by (rule that [OF b(1)]) (simp_all add: b)
qed

lemma time_Now_Inr: "time_Now E w = (Inr t, w') \<Longrightarrow> w' = w\<lparr>w_tick := Suc (w_tick w)\<rparr>"
  by auto

lemma ulid_Make_Inr: "ulid_Make E w = (Inr t, w') \<Longrightarrow> w' = w\<lparr>w_tick := Suc (w_tick w)\<rparr>"
  by auto

lemma link_body_Inr:
  assumes "link_body E p name c w = (Inr (p', c'), w')"
  obtains p1 w1 now r where "AddEntry E name c p w = (Inr p1, w1)" "p' = p1\<lparr>n_stale := n_rev p1\<rparr>"
    "c' = (relinked (n_nlink c + 1) now r c)\<lparr>n_stale := r\<rparr>"
    "client w' = set_node c' (set_node p' (client w))" "current (client w) p1"
    "current (set_node p' (client w)) c"
proof -
  obtain p1 w1 w2 now r w3 where a: "AddEntry E name c p w = (Inr p1, w1)" and s: "repo_save E p1 w1 = (Inr p', w2)"
    and t: "repo_save E (relinked (n_nlink c + 1) now r c) w3 = (Inr c', w')" "client w3 = client w2"
    using assms by (auto simp: link_body_def monad_simps)
  have q: "client w1 = client w" using quiet_client [OF quiet_entry_ops(1) a] .
  have "current (client w3) (relinked (n_nlink c + 1) now r c) = current (client w3) c"
    by (simp add: current_def relinked_def split: option.splits)
  then show thesis
    using that [OF a, of r now] save_client [OF s] save_client [OF t(1)] t(2) q by (auto simp: relinked_def)
qed

lemma node_at_set_self [simp]: "ids_ok d \<Longrightarrow> n_id n = i \<Longrightarrow> node_at (set_node n d) i = Some (stored (node_at d i) n)"
  by (simp add: node_at_set)

lemma stored_simps [simp]:
  "n_nlink (stored m n) = n_nlink n" "n_id (stored m n) = n_id n" "n_rev (stored m n) = n_rev n"
  "n_size (stored m n) = n_size n"
  by (simp_all add: stored_def)

lemma holds_dir_stored: "holds_dir E n dc \<Longrightarrow> holds_dir E (stored m n) dc"
  by (simp add: holds_dir_def stored_def parse_entKind)

lemma holds_dir_stale [simp]: "holds_dir E (n\<lparr>n_stale := r\<rparr>) dc = holds_dir E n dc"
  by (simp add: holds_dir_def)

section \<open>When an operation succeeds\<close>

lemma with_tx_succeeds:
  assumes "no_faults E" "w_tx w = None"
    "m (w\<lparr>w_tx := Some (w_db w), w_tick := Suc (w_tick w)\<rparr>) = (Inr x, v')"
  shows "\<exists>w'. with_tx E m w = (Inr x, w')"
  using assms by (simp add: with_tx_fresh no_faults_def)

lemma AddEntry_succeeds:
  assumes "holds_dir E p dc" "name \<noteq> []" "find_entry dc name = None"
    "length (dir_marshal E (Some (entries dc @ [entry_of name c]))) \<le> MaxContentSize"
  obtains p1 where "AddEntry E name c p w = (Inr p1, w\<lparr>w_tick := Suc (Suc (w_tick w))\<rparr>)"
    "rewritten p (dir_marshal E (Some (entries dc @ [entry_of name c])))
      (int (length (dir_marshal E (Some (entries dc @ [entry_of name c]))))) p1"
    "n_rev p1 = ulid_gen E (Suc (w_tick w))"
proof -
  let ?d = "dir_marshal E (Some (entries dc @ [entry_of name c]))"
  have k: "n_kind p = NodeKindDirectory" using assms(1) by (simp add: holds_dir_def)
  have "AddEntry E name c p w = node_write E ?d (int (length ?d)) p w"
    using assms k by (simp add: AddEntry_def holds_dir_read WriteDir_run)
  then show thesis using that assms(4)
    by (cases rule: node_write_cases [of ?d E "int (length ?d)" p w]) auto
qed

lemma link_body_succeeds:
  assumes e: "no_faults E" "ulids_ok E" and p: "holds_dir E p dc" "current (client v) p"
    and c: "content_ok c" "current (client v) c" "n_id p \<noteq> n_id c"
    and n: "name \<noteq> []" "find_entry dc name = None"
      "length (dir_marshal E (Some (entries dc @ [entry_of name c]))) \<le> MaxContentSize"
  shows "\<exists>r w'. link_body E p name c v = (Inr r, w')"
proof -
  obtain p1 where a: "AddEntry E name c p v = (Inr p1, v\<lparr>w_tick := Suc (Suc (w_tick v))\<rparr>)"
    and r: "rewritten p (dir_marshal E (Some (entries dc @ [entry_of name c])))
      (int (length (dir_marshal E (Some (entries dc @ [entry_of name c]))))) p1" "n_rev p1 = ulid_gen E (Suc (w_tick v))"
    by (rule AddEntry_succeeds [OF p(1) n])
  let ?w1 = "v\<lparr>w_tick := Suc (Suc (w_tick v))\<rparr>"
  let ?w2 = "put_db (set_node p1 (client ?w1)) (?w1\<lparr>w_tick := Suc (Suc (w_tick ?w1))\<rparr>)"
  let ?w3 = "?w2\<lparr>w_tick := Suc (Suc (w_tick ?w2))\<rparr>"
  let ?c = "relinked (n_nlink c + 1) (clock E (w_tick ?w2)) (ulid_gen E (Suc (w_tick ?w2))) c"
  have rv: "length (n_rev p1) \<le> 26" "length (n_rev ?c) \<le> 26"
    using e(2) r(2) by (simp_all add: ulids_ok_def relinked_def)
  have s1: "repo_save E p1 ?w1 = (Inr (p1\<lparr>n_stale := n_rev p1\<rparr>), ?w2)"
    using p(2) current_rewritten [OF r(1)] by (intro save_succeeds e rv rewrittenD(10) [OF r(1)]) simp
  have "current (set_node p1 (client v)) ?c = current (client v) ?c"
    using c(3) rewrittenD(3) [OF r(1)] by (intro current_set_other) (simp add: relinked_def)
  also have "\<dots> = current (client v) c" by (simp add: current_def relinked_def split: option.splits)
  finally have cc: "current (client ?w3) ?c" using c(2) by simp
  have ok: "content_ok ?c" using c(1) by (simp add: content_ok_def relinked_def)
  obtain w4 where s2: "repo_save E ?c ?w3 = (Inr (?c\<lparr>n_stale := n_rev ?c\<rparr>), w4)"
    using save_succeeds [OF e(1) ok rv(2) cc] by blast
  have "link_body E p name c v = (Inr (p1\<lparr>n_stale := n_rev p1\<rparr>, ?c\<lparr>n_stale := n_rev ?c\<rparr>), w4)"
    using a s1 s2 by (simp add: link_body_def)
  then show ?thesis by blast
qed

lemma Link_succeeds:
  assumes e: "no_faults E" "ulids_ok E" and w: "w_tx w = None"
    and p: "holds_dir E p dc" "current (w_db w) p" and c: "content_ok c" "current (w_db w) c" "n_id p \<noteq> n_id c"
    and n: "name \<noteq> []" "find_entry dc name = None"
      "length (dir_marshal E (Some (entries dc @ [entry_of name c]))) \<le> MaxContentSize"
  shows "\<exists>r w'. Link E (Some p) name (Some c) w = (Inr r, w')"
proof -
  have "\<exists>r w'. link_body E p name c (w\<lparr>w_tx := Some (w_db w), w_tick := Suc (w_tick w)\<rparr>) = (Inr r, w')"
    by (rule link_body_succeeds [OF e p(1) _ c(1) _ c(3) n]) (use p(2) c(2) in simp_all)
  then show ?thesis using with_tx_succeeds [OF e(1) w] by (fastforce simp: Link_def)
qed

section \<open>Dropping a link\<close>

text \<open>
  \<open>link_dropped d i d'\<close>: from \<open>d\<close> to \<open>d'\<close> the inode \<open>i\<close> lost one link: it is gone if that was its
  last, and else has one less; no other node changed.
\<close>

definition link_dropped :: "db \<Rightarrow> uuid \<Rightarrow> db \<Rightarrow> bool" where
  "link_dropped d i d' \<longleftrightarrow>
     (\<exists>n. node_at d i = Some n \<and>
       (if n_nlink n \<le> 1 then node_at d' i = None
        else map_option n_nlink (node_at d' i) = Some (n_nlink n - 1) \<and>
             map_option n_content (node_at d' i) = Some (n_content n))) \<and>
     (\<forall>j. j \<noteq> i \<longrightarrow> node_at d' j = node_at d j)"

lemma link_dropped_del:
  "node_at d i = Some n \<Longrightarrow> n_nlink n \<le> 1 \<Longrightarrow> link_dropped d i (del_node i d)"
  by (auto simp: link_dropped_def node_at_del)

lemma node_at_content: "node_at d i = Some n \<Longrightarrow> n_content n \<noteq> None"
  by (auto simp: node_at_def fromEnt_def)

lemma link_dropped_set:
  assumes "ids_ok d" "node_at d i = Some n" "\<not> n_nlink n \<le> 1" "n_id m = i" "n_nlink m = n_nlink n - 1"
    "n_content m = n_content n"
  shows "link_dropped d i (set_node m d)"
  using assms node_at_content [OF assms(2)]
  by (auto simp: link_dropped_def node_at_set stored_def)

lemma not_gt_one: "\<not> (k::32 word) > 1 \<longleftrightarrow> k \<le> 1"
  by auto

lemma unlink_child_Inr:
  assumes "unlink_child E name i w = (Inr del, w')" "ids_ok (w_db w)" "i \<noteq> uuid_Nil"
    "node_at (client w) i = node_at (w_db w) i" "ids_ok (client w)"
  shows "link_dropped (client w) i (client w')"
    and "case del of None \<Rightarrow> node_at (client w') i \<noteq> None | Some c \<Rightarrow> node_at (client w) i = Some c \<and> node_at (client w') i = None"
proof -
  obtain c w1 where g: "GetByID E i w = (Inr c, w1)"
    and r: "(if n_nlink c > 1 then
            bindM (time_Now E) (\<lambda>now. bindM (ulid_Make E) (\<lambda>rev.
              bindM (wrapM [] ''node: unlink decrement child nlink''
                      (repo_save E (relinked (n_nlink c - 1) now rev c))) (\<lambda>_. retM None)))
          else
            bindM (wrapM [] (''node: unlink delete child (child_id='' @ uuid_text E i @ '')'')
                    (repo_delete E i)) (\<lambda>_. retM (Some c))) w1 = (Inr del, w')"
    using assms(1,3) by (auto simp: unlink_child_def monad_simps)
  have n: "node_at (client w) i = Some c" using GetByID_Inr [OF g] assms(4) by simp
  have id: "n_id c = i" using node_at_id [OF assms(5) n] by simp
  have q: "client w1 = client w" by (rule quiet_client [OF quiet_GetByID g])
  have "link_dropped (client w) i (client w') \<and>
    (case del of None \<Rightarrow> node_at (client w') i \<noteq> None | Some c \<Rightarrow> node_at (client w) i = Some c \<and> node_at (client w') i = None)"
  proof (cases "n_nlink c > 1")
    case True
    then obtain now rv m w2 where s: "repo_save E (relinked (n_nlink c - 1) now rv c) w2 = (Inr m, w')"
        "client w2 = client w" "del = None"
      using r q by (auto simp: monad_simps)
    have m: "m = (relinked (n_nlink c - 1) now rv c)\<lparr>n_stale := rv\<rparr>" "client w' = set_node m (client w)"
      using save_client [OF s(1)] s(2) by (simp_all add: relinked_def)
    then show ?thesis using link_dropped_set [OF assms(5) n, of m] True id s(3) assms(5)
      by (auto simp: relinked_def)
  next
    case False
    then obtain u w2 where s: "repo_delete E i w1 = (Inr u, w')" "del = Some c"
      using r by (auto simp: monad_simps)
    then have "client w' = del_node i (client w)" using delete_client q by metis
    then show ?thesis using link_dropped_del [OF n] False s(2) n by (simp add: not_gt_one node_at_del)
  qed
  then show "link_dropped (client w) i (client w')"
    and "case del of None \<Rightarrow> node_at (client w') i \<noteq> None | Some c \<Rightarrow> node_at (client w) i = Some c \<and> node_at (client w') i = None"
    by blast+
qed

lemma unlink_body_Inr:
  assumes "unlink_body E p name w = (Inr (p', del), w')" "holds_dir E p dc" "w_tx w \<noteq> None"
  obtains e p1 w1 w2 where "find_entry dc name = Some e" "RemoveEntry E name p w = (Inr p1, w1)"
    "p' = p1\<lparr>n_stale := n_rev p1\<rparr>" "client w2 = set_node p' (client w)" "w_db w2 = w_db w"
    "unlink_child E name (de_ino e) w2 = (Inr del, w')"
proof -
  obtain e p1 w1 w2 where f: "find_entry dc name = Some e" and a: "RemoveEntry E name p w = (Inr p1, w1)"
    and s: "repo_save E p1 w1 = (Inr p', w2)" and u: "unlink_child E name (de_ino e) w2 = (Inr del, w')"
    using assms(1) by (auto simp: unlink_body_def monad_simps holds_dir_read [OF assms(2)] split: option.splits)
  have q: "client w1 = client w" "w_db w1 = w_db w" "w_tx w1 \<noteq> None"
    using quiet_client [OF quiet_entry_ops(3) a] quiet_db [OF quiet_entry_ops(3) a] assms(3) by auto
  show thesis
    using that [OF f a _ _ _ u] save_client [OF s] save_in_tx [OF s q(3)] q by simp
qed

section \<open>The listing a move writes\<close>

lemma move_src_entries_eq:
  "move_src_entries same src dst moved es =
     (map (\<lambda>e. if same \<and> de_name e = dst then moved else e) (filter (\<lambda>e. de_name e \<noteq> src) es),
      same \<and> (\<exists>e\<in>set es. de_name e \<noteq> src \<and> de_name e = dst))"
  by (induction es) (auto simp: Let_def split: prod.splits)

lemma move_dst_entries_Nil [simp]: "move_dst_entries dst es = []"
  by (induction es) auto

text \<open>The listing of a rename within one directory.\<close>

definition renamed :: "string \<Rightarrow> string \<Rightarrow> dir_entry \<Rightarrow> dir_entry list \<Rightarrow> dir_entry list" where
  "renamed src dst moved es =
     (let kept = map (\<lambda>e. if de_name e = dst then moved else e) (filter (\<lambda>e. de_name e \<noteq> src) es) in
      if \<exists>e\<in>set es. de_name e \<noteq> src \<and> de_name e = dst then kept else kept @ [moved])"

lemma find_kept:
  assumes "de_name moved = dst" "src \<noteq> dst"
  shows "find (\<lambda>e. de_name e = x) (map (\<lambda>e. if de_name e = dst then moved else e) (filter (\<lambda>e. de_name e \<noteq> src) es)) =
    (if x = src then None
     else if x = dst then if \<exists>e\<in>set es. de_name e = dst then Some moved else None
     else find (\<lambda>e. de_name e = x) es)"
  using assms by (induction es) auto

lemma find_renamed:
  assumes "de_name moved = dst" "src \<noteq> dst"
  shows "find (\<lambda>e. de_name e = x) (renamed src dst moved es) =
    (if x = src then None else if x = dst then Some moved else find (\<lambda>e. de_name e = x) es)"
proof (cases "\<exists>e\<in>set es. de_name e \<noteq> src \<and> de_name e = dst")
  case True
  then have "\<exists>e\<in>set es. de_name e = dst" by blast
  then show ?thesis using find_kept [OF assms] True by (simp add: renamed_def)
next
  case False
  then have "\<not> (\<exists>e\<in>set es. de_name e = dst)" using assms(2) by auto
  then show ?thesis using find_kept [OF assms] False assms
    by (cases "find (\<lambda>e. de_name e = x) es") (auto simp: renamed_def find_append)
qed

lemma names_renamed:
  assumes "de_name moved = dst" "distinct (map de_name es)" "src \<noteq> dst"
  shows "distinct (map de_name (renamed src dst moved es))"
proof -
  let ?kept = "map (\<lambda>e. if de_name e = dst then moved else e) (filter (\<lambda>e. de_name e \<noteq> src) es)"
  have n: "map de_name ?kept = map de_name (filter (\<lambda>e. de_name e \<noteq> src) es)"
    using assms(1) by (induction es) auto
  have d: "distinct (map de_name ?kept)" unfolding n using assms(2) by (rule distinct_map_filter_neq)
  show ?thesis
  proof (cases "\<exists>e\<in>set es. de_name e \<noteq> src \<and> de_name e = dst")
    case True
    then show ?thesis using d by (simp add: renamed_def Let_def)
  next
    case False
    then have "dst \<notin> set (map de_name ?kept)" unfolding n using assms(3) by auto
    then show ?thesis using False d assms(1) by (simp add: renamed_def Let_def del: map_map)
  qed
qed

lemma set_renamed: "set (renamed src dst moved es) \<subseteq> insert moved (set es)"
  by (auto simp: renamed_def Let_def)

lemma dir_map_renamed:
  assumes "de_name moved = dst" "src \<noteq> dst"
  shows "dir_map (Some (renamed src dst moved (entries dc))) =
    (dir_map dc)(src := None, dst \<mapsto> (de_ino moved, de_kind moved))"
  using find_renamed [OF assms] assms(2) by (auto simp: dir_map_def find_entry_def fun_eq_iff)

lemma names_distinct_renamed:
  assumes "names_distinct dc" "de_name moved = dst" "src \<noteq> dst" "dst \<noteq> []"
  shows "names_distinct (Some (renamed src dst moved (entries dc)))"
  using names_renamed [OF assms(2)] set_renamed [of src dst moved "entries dc"] assms
  unfolding names_distinct_def by auto

lemma dir_exact_renamed:
  assumes "dir_exact E dc" "valid_utf8 (de_name moved)"
  shows "dir_exact E (Some (renamed src dst moved (entries dc)))"
  using set_renamed [of src dst moved "entries dc"] assms unfolding dir_exact_def names_ok_def by auto

lemma move_overwrite_Inr:
  assumes "move_overwrite E i w = (Inr u, w')" "node_at (client w) i = node_at (w_db w) i" "ids_ok (client w)"
  shows "link_dropped (client w) i (client w')"
proof -
  obtain c w1 where g: "GetByID E i w = (Inr c, w1)"
    and r: "(if n_nlink c \<le> 1 then
         wrapM [] (''move entry delete overwritten inode (inode_id='' @ uuid_text E i @ '')'') (repo_delete E i)
       else
         bindM (ulid_Make E) (\<lambda>r.
           bindM (wrapM [] ''move entry save overwritten inode''
                   (repo_save E (c\<lparr>n_nlink := n_nlink c - 1, n_rev := r\<rparr>))) (\<lambda>_. retM ()))) w1 = (Inr u, w')"
    using assms(1) by (auto simp: move_overwrite_def monad_simps)
  have n: "node_at (client w) i = Some c" using GetByID_Inr [OF g] assms(2) by simp
  have id: "n_id c = i" using node_at_id [OF assms(3) n] by simp
  have q: "client w1 = client w" by (rule quiet_client [OF quiet_GetByID g])
  show ?thesis
  proof (cases "n_nlink c \<le> 1")
    case True
    then have "repo_delete E i w1 = (Inr u, w')" using r by (simp add: monad_simps)
    then have "client w' = del_node i (client w)" using delete_client q by metis
    then show ?thesis using link_dropped_del [OF n True] by simp
  next
    case False
    then obtain rv m w2 where s: "repo_save E (c\<lparr>n_nlink := n_nlink c - 1, n_rev := rv\<rparr>) w2 = (Inr m, w')"
        "client w2 = client w"
      using r q by (auto simp: monad_simps)
    then show ?thesis using link_dropped_set [OF assms(3) n False, of m] save_client [OF s(1)] id by simp
  qed
qed

lemma Link_Inr:
  assumes w: "w_tx w = None" "ids_ok (w_db w)" and p: "holds_dir E p dc" "valid_utf8 name" "n_id p \<noteq> n_id c"
    and l: "Link E (Some p) name (Some c) w = (Inr (p', c'), w')"
  shows "name \<noteq> [] \<and> find_entry dc name = None \<and>
    holds_dir E p' (Some (entries dc @ [entry_of name c])) \<and> n_nlink c' = n_nlink c + 1 \<and>
    n_content c' = n_content c \<and>
    node_at (w_db w') = (node_at (w_db w))
      (n_id p \<mapsto> stored (node_at (w_db w) (n_id p)) p', n_id c \<mapsto> stored (node_at (w_db w) (n_id c)) c')"
proof -
  have "with_tx E (link_body E p name c) w = (Inr (p', c'), w')" using l by (simp add: Link_def)
  then obtain v v' where b: "link_body E p name c v = (Inr (p', c'), v')" "client v = w_db w" "w_db w' = client v'"
    by (rule committed_body [OF tx_safe_link_body w(1)])
  obtain p1 w1 now r where a: "AddEntry E name c p v = (Inr p1, w1)" "p' = p1\<lparr>n_stale := n_rev p1\<rparr>"
    "c' = (relinked (n_nlink c + 1) now r c)\<lparr>n_stale := r\<rparr>" "client v' = set_node c' (set_node p' (client v))"
    by (rule link_body_Inr [OF b(1)])
  note h = AddEntry_holds [OF p(1,2) a(1)]
  have i: "n_id p' = n_id p" "n_id c' = n_id c" using h a by (simp_all add: relinked_def)
  have "node_at (w_db w') = (node_at (w_db w))
      (n_id p \<mapsto> stored (node_at (w_db w) (n_id p)) p', n_id c \<mapsto> stored (node_at (w_db w) (n_id c)) c')"
    using i p(3) w(2) b(2,3) a(4) by (simp add: node_at_set ids_ok_set)
  moreover have "name \<noteq> []" "find_entry dc name = None" using a(1) AddEntry_Inr_iff [OF p(1)] by blast+
  ultimately show ?thesis using h(1) a by (simp add: relinked_def)
qed

section \<open>Properties\<close>

text \<open>
  C10. \<open>Link\<close>, when it succeeds: the name was not taken, the parent lists the child under it after
  the old entries, the child has one more link, both are stored, and no other node changed.
\<close>

theorem Link_commits:
  assumes w: "w_tx w = None" "ids_ok (w_db w)" and p: "holds_dir E p dc" "valid_utf8 name" "n_id p \<noteq> n_id c"
    and l: "Link E (Some p) name (Some c) w = (Inr (p', c'), w')"
  shows "name \<noteq> [] \<and> find_entry dc name = None \<and>
    holds_dir E p' (Some (entries dc @ [entry_of name c])) \<and> n_nlink c' = n_nlink c + 1 \<and>
    n_content c' = n_content c \<and>
    node_at (w_db w') = (node_at (w_db w))
      (n_id p \<mapsto> stored (node_at (w_db w) (n_id p)) p', n_id c \<mapsto> stored (node_at (w_db w) (n_id c)) c')"
  by (rule Link_Inr [OF assms])

definition demo_fs :: world where
  "demo_fs = world_of (empty_db\<lparr>t_nodes := [1 \<mapsto> row_insert demo_dir, 7 \<mapsto> row_insert demo_file]\<rparr>)"

lemma demo_fs_simps [simp]:
  "w_tx demo_fs = None" "w_tick demo_fs = 0"
  "t_nodes (w_db demo_fs) = [1 \<mapsto> row_insert demo_dir, 7 \<mapsto> row_insert demo_file]"
  by (simp_all add: demo_fs_def world_of_def empty_db_def)

lemma demo_fields [simp]:
  "n_id demo_dir = 1" "n_id demo_file = 7" "n_nlink demo_file = 1" "n_rev demo_dir = ''r''" "n_rev demo_file = ''r''"
  "n_stale demo_dir = ''r''" "n_stale demo_file = ''r''" "n_kind demo_dir = NodeKindDirectory"
  "n_kind demo_file = NodeKindFile" "n_content demo_file = Some (file_marshal ''hi'')"
  by (simp_all add: demo_dir_def demo_file_def demo_node_def)

lemma demo_fs_ok:
  "ids_ok (w_db demo_fs)" "current (w_db demo_fs) demo_dir" "current (w_db demo_fs) demo_file" "content_ok demo_file"
  by (auto simp: ids_ok_def current_def row_insert_def content_ok_def encode_eval)

lemma demo_link:
  obtains p' c' w' where "Link demo (Some demo_dir) ''b'' (Some demo_file) demo_fs = (Inr (p', c'), w')"
proof -
  have "length (dir_marshal demo (Some (entries demo_listing @ [entry_of ''b'' demo_file]))) \<le> MaxContentSize"
    by (simp add: demo_listing_def entry_of_def encode_eval)
  moreover have "find_entry demo_listing ''b'' = None" by (simp add: demo_listing_def find_entry_def)
  ultimately obtain r w' where "Link demo (Some demo_dir) ''b'' (Some demo_file) demo_fs = (Inr r, w')"
    using Link_succeeds [OF demo_no_faults demo_ulids demo_fs_simps(1) demo_holds demo_fs_ok(2,4,3), of "''b''"] by auto
  then show thesis using that by (cases r) auto
qed

theorem Link_commits_witness:
  "\<exists>r w'. Link demo (Some demo_dir) ''b'' (Some demo_file) demo_fs = (Inr r, w') \<and>
     map_option n_nlink (node_at (w_db w') 7) = Some 2"
proof -
  obtain p' c' w' where l: "Link demo (Some demo_dir) ''b'' (Some demo_file) demo_fs = (Inr (p', c'), w')"
    by (rule demo_link)
  have v: "valid_utf8 ''b''" by (simp add: ascii_valid byte_in_def)
  show ?thesis using Link_commits [OF demo_fs_simps(1) demo_fs_ok(1) demo_holds v _ l] l by auto
qed

text \<open>
  C11. \<open>Unlink\<close>, when it succeeds: the name was there, the parent lists everything else, and the
  inode it named lost one link, being deleted and returned exactly when that was its last;
  no other node changed.
\<close>

theorem Unlink_commits:
  assumes w: "w_tx w = None" "ids_ok (w_db w)" and p: "holds_dir E p dc" "names_distinct dc"
    and i: "\<forall>e\<in>set (entries dc). de_ino e \<noteq> n_id p \<and> de_ino e \<noteq> uuid_Nil"
    and u: "Unlink E (Some p) name w = (Inr (p', del), w')"
  shows "\<exists>e dc'. find_entry dc name = Some e \<and> holds_dir E p' dc' \<and> names_distinct dc' \<and>
    dir_map dc' = (dir_map dc)(name := None) \<and> n_id p' = n_id p \<and>
    link_dropped (set_node p' (w_db w)) (de_ino e) (w_db w') \<and>
    (case del of None \<Rightarrow> node_at (w_db w') (de_ino e) \<noteq> None
     | Some c \<Rightarrow> node_at (w_db w) (de_ino e) = Some c \<and> node_at (w_db w') (de_ino e) = None)"
proof -
  have "with_tx E (unlink_body E p name) w = (Inr (p', del), w')" using u by (simp add: Unlink_def)
  then obtain v v' where b: "unlink_body E p name v = (Inr (p', del), v')" "w_tx v \<noteq> None" "w_db v = w_db w"
      "client v = w_db w" "w_db w' = client v'"
    by (rule committed_body [OF tx_safe_unlink_body w(1)])
  obtain e p1 w1 w2 where f: "find_entry dc name = Some e" and a: "RemoveEntry E name p v = (Inr p1, w1)"
    and q: "p' = p1\<lparr>n_stale := n_rev p1\<rparr>" "client w2 = set_node p' (client v)" "w_db w2 = w_db v"
    and c: "unlink_child E name (de_ino e) w2 = (Inr del, v')"
    by (rule unlink_body_Inr [OF b(1) p(1) b(2)])
  have e: "de_ino e \<noteq> n_id p" "de_ino e \<noteq> uuid_Nil" using find_entry_SomeD [OF f] i by auto
  have pid: "n_id p1 = n_id p" using RemoveEntry_holds [OF p(1) a] by blast
  then have n: "node_at (client w2) (de_ino e) = node_at (w_db w) (de_ino e)" "ids_ok (client w2)"
    using e q(1,2) b(4) w(2) by (simp_all add: node_at_set ids_ok_set)
  obtain dc' where d: "holds_dir E p' dc'" "names_distinct dc'" "dir_map dc' = (dir_map dc)(name := None)"
    using RemoveEntry_refines [OF p a] q(1) by auto
  have ok: "ids_ok (w_db w2)" using q(3) b(3) w(2) by simp
  have pid': "n_id p' = n_id p" using pid q(1) by simp
  have eq: "node_at (client w2) (de_ino e) = node_at (w_db w2) (de_ino e)" using n q(3) b(3) by simp
  show ?thesis
    using f d pid' unlink_child_Inr [OF c ok e(2) eq n(2)] unfolding q(2) b(4,5) n(1) [unfolded q(2) b(4)] by blast
qed

text \<open>The body of a rename to a name that is no other link of the moved inode.\<close>

lemma move_body_same:
  assumes w: "w_tx v \<noteq> None" "client v = w_db v" "ids_ok (w_db v)" and p: "holds_dir E p dc" "names_distinct dc"
    and q: "holds_dir E q dc" "n_id q = n_id p"
    and n: "src \<noteq> dst" "valid_utf8 dst" "dst \<noteq> []"
    and i: "\<forall>e\<in>set (entries dc). de_ino e \<noteq> n_id p"
    and se: "find_entry dc src = Some se" "\<nexists>x. find_entry dc dst = Some x \<and> de_ino x = de_ino se"
    and m: "move_body E p src q dst v = (Inr (p', q'), v')"
  shows "\<exists>dc'. holds_dir E p' dc' \<and> names_distinct dc' \<and> n_id p' = n_id p \<and>
    dir_map dc' = (dir_map dc)(src := None, dst \<mapsto> (de_ino se, de_kind se)) \<and>
    (case find_entry dc dst of
       None \<Rightarrow> node_at (client v') = node_at (set_node p' (w_db v))
     | Some x \<Rightarrow> de_kind x = de_kind se \<and> link_dropped (set_node p' (w_db v)) (de_ino x) (client v'))"
proof -
  let ?moved = "\<lparr>de_ino = de_ino se, de_name = dst, de_kind = de_kind se\<rparr>"
  let ?es = "renamed src dst ?moved (entries dc)"
  obtain kept rpl where ms: "move_src_entries True src dst ?moved (entries dc) = (kept, rpl)" by fastforce
  then have es: "?es = (if rpl then kept else kept @ [?moved])"
    by (auto simp: move_src_entries_eq renamed_def)
  obtain p1 v1 v2 where wr: "WriteDir E (Some ?es) p v = (Inr p1, v1)" and s: "repo_save E p1 v1 = (Inr p', v2)"
    and o: "(case find_entry dc dst of None \<Rightarrow> retM () | Some x \<Rightarrow> move_overwrite E (de_ino x)) v2 = (Inr (), v')"
    and k: "\<And>x. find_entry dc dst = Some x \<Longrightarrow> de_kind x = de_kind se"
    using m se n(1) q(2) unfolding es
    by (cases "find_entry dc dst"; cases rpl)
      (auto simp: move_body_def monad_simps holds_dir_read [OF p(1)] holds_dir_read [OF q(1)] Let_def ms move_same_def split: if_splits)
  have "dir_exact E dc" using p(1) by (simp add: holds_dir_def)
  then have x: "dir_exact E (Some ?es)" using n(2) by (intro dir_exact_renamed) simp_all
  note h = WriteDir_holds [OF wr x]
  have v1: "client v1 = w_db v" "w_db v1 = w_db v" "w_tx v1 \<noteq> None"
    using quiet_client [OF quiet_WriteDir wr] quiet_db [OF quiet_WriteDir wr] w(1,2) by auto
  have v2: "client v2 = set_node p' (w_db v)" "w_db v2 = w_db v" "n_id p' = n_id p" "holds_dir E p' (Some ?es)"
    using save_client [OF s] save_in_tx [OF s v1(3)] v1 h by auto
  have ok: "ids_ok (client v2)" using v2(1) w(3) by (simp add: ids_ok_set)
  have d: "names_distinct (Some ?es)" "dir_map (Some ?es) = (dir_map dc)(src := None, dst \<mapsto> (de_ino se, de_kind se))"
    using names_distinct_renamed [OF p(2) _ n(1,3), of ?moved] dir_map_renamed [OF _ n(1), of ?moved dc] by simp_all
  have r: "case find_entry dc dst of
        None \<Rightarrow> node_at (client v') = node_at (set_node p' (w_db v))
      | Some x \<Rightarrow> de_kind x = de_kind se \<and> link_dropped (set_node p' (w_db v)) (de_ino x) (client v')"
  proof (cases "find_entry dc dst")
    case None
    then show ?thesis using o v2(1) by simp
  next
    case (Some x)
    then have "de_ino x \<noteq> n_id p" using find_entry_SomeD i by blast
    then have "node_at (client v2) (de_ino x) = node_at (w_db v2) (de_ino x)"
      using v2(1-3) w(3) by (simp add: node_at_set)
    then have "link_dropped (client v2) (de_ino x) (client v')"
      using move_overwrite_Inr [OF _ _ ok] o Some by simp
    then show ?thesis using Some k v2(1) by simp
  qed
  show ?thesis using v2(3,4) d r by blast
qed

text \<open>
  A rename within one directory, when it succeeds. Either the new name is another link to the
  moved inode, and nothing changes, or the old name goes, the new name stands for the moved
  inode, every other name is kept, and the inode that the new name had, of the same kind,
  lost one link; no other node changed.
\<close>

theorem MoveEntry_same_directory:
  assumes w: "w_tx w = None" "ids_ok (w_db w)" and p: "holds_dir E p dc" "names_distinct dc"
    and q: "holds_dir E q dc" "n_id q = n_id p"
    and n: "src \<noteq> dst" "valid_utf8 dst" "dst \<noteq> []"
    and i: "\<forall>e\<in>set (entries dc). de_ino e \<noteq> n_id p"
    and m: "MoveEntry E (Some p) src (Some q) dst w = (Inr (p', q'), w')"
  shows "\<exists>se. find_entry dc src = Some se \<and>
    (if \<exists>x. find_entry dc dst = Some x \<and> de_ino x = de_ino se
     then p' = p \<and> node_at (w_db w') = node_at (w_db w)
     else \<exists>dc'. holds_dir E p' dc' \<and> names_distinct dc' \<and> n_id p' = n_id p \<and>
       dir_map dc' = (dir_map dc)(src := None, dst \<mapsto> (de_ino se, de_kind se)) \<and>
       (case find_entry dc dst of
          None \<Rightarrow> node_at (w_db w') = node_at (set_node p' (w_db w))
        | Some x \<Rightarrow> de_kind x = de_kind se \<and> link_dropped (set_node p' (w_db w)) (de_ino x) (w_db w')))"
proof -
  have "with_tx E (move_body E p src q dst) w = (Inr (p', q'), w')" using m by (simp add: MoveEntry_def)
  then obtain v v' where b: "move_body E p src q dst v = (Inr (p', q'), v')" "w_tx v \<noteq> None" "w_db v = w_db w"
      "client v = w_db w" "w_db w' = client v'"
    by (rule committed_body [OF tx_safe_move_body w(1)])
  obtain se where se: "find_entry dc src = Some se"
    using b(1) by (auto simp: move_body_def monad_simps holds_dir_read [OF p(1)] split: option.splits)
  show ?thesis
  proof (cases "\<exists>x. find_entry dc dst = Some x \<and> de_ino x = de_ino se")
    case True
    then have "p' = p" "v' = v" using b(1) n(1) q(2)
      by (auto simp: move_body_def monad_simps holds_dir_read [OF p(1)] holds_dir_read [OF q(1)] se Let_def split: prod.splits)
    then show ?thesis using True se b(4,5) by auto
  next
    case False
    have v: "client v = w_db v" "ids_ok (w_db v)" using b(3,4) w(2) by simp_all
    note r = move_body_same [OF b(2) v p q n i se False b(1)]
    show ?thesis
      by (rule exI [of _ se], intro conjI se) (simp only: if_not_P [OF False] b(5) b(3) [symmetric], rule r)
  qed
qed

definition demo_a :: node where
  "demo_a = demo_node 5 NodeKindFile (file_marshal ''x'')"

definition demo_fs2 :: world where
  "demo_fs2 = world_of (empty_db\<lparr>t_nodes := [1 \<mapsto> row_insert demo_dir, 5 \<mapsto> row_insert demo_a]\<rparr>)"

lemma demo_fs2_simps [simp]:
  "w_tx demo_fs2 = None" "w_tick demo_fs2 = 0"
  "t_nodes (w_db demo_fs2) = [1 \<mapsto> row_insert demo_dir, 5 \<mapsto> row_insert demo_a]"
  by (simp_all add: demo_fs2_def world_of_def empty_db_def)

lemma demo_a_fields [simp]:
  "n_id demo_a = 5" "n_nlink demo_a = 1" "n_rev demo_a = ''r''" "n_stale demo_a = ''r''"
  "n_kind demo_a = NodeKindFile" "n_content demo_a = Some (file_marshal ''x'')"
  by (simp_all add: demo_a_def demo_node_def)

text \<open>Rules that evaluate an operation on a concrete world.\<close>

lemmas run_eval = bindM_def wrapM_def tryM_def seqM_def with_tx_fresh io_no_faults repo_save_no_faults repo_delete_no_faults repo_get_no_faults
  GetByID_def node_write_run WriteDir_run valid_row_iff content_ok_def current_def Let_def
  valid_node_row_def entKind_def row_insert_def set_node_def del_node_def node_at_def fromEnt_def find_entry_def parseNodeKind_def


lemma demo_fs2_ok: "ids_ok (w_db demo_fs2)"
  by (auto simp: ids_ok_def row_insert_def)

theorem Unlink_commits_witness:
  "\<exists>p w'. Unlink demo (Some demo_dir) ''a.txt'' demo_fs2 = (Inr (p, Some demo_a), w') \<and> node_at (w_db w') 5 = None"
proof -
  have "\<exists>r w'. Unlink demo (Some demo_dir) ''a.txt'' demo_fs2 = (Inr r, w')"
    by (simp add: Unlink_def unlink_body_def unlink_child_def RemoveEntry_def run_eval
      holds_dir_read [OF demo_holds] demo_listing_def encode_eval)
  then obtain p del w' where u: "Unlink demo (Some demo_dir) ''a.txt'' demo_fs2 = (Inr (p, del), w')" by auto
  have e: "find_entry demo_listing ''a.txt'' = Some \<lparr>de_ino = 5, de_name = ''a.txt'', de_kind = NodeKindFile\<rparr>"
    by (simp add: find_entry_def demo_listing_def)
  have a: "node_at (w_db demo_fs2) 5 = Some demo_a"
    by (simp add: run_eval demo_a_def demo_node_def)
  have i: "\<forall>e\<in>set (entries demo_listing). de_ino e \<noteq> n_id demo_dir \<and> de_ino e \<noteq> uuid_Nil"
    by (simp add: demo_listing_def)
  have l: "link_dropped (set_node p (w_db demo_fs2)) 5 (w_db w')" "n_id p = 1" and
    d: "case del of None \<Rightarrow> node_at (w_db w') 5 \<noteq> None
     | Some c \<Rightarrow> node_at (w_db demo_fs2) 5 = Some c \<and> node_at (w_db w') 5 = None"
    using Unlink_commits [OF demo_fs2_simps(1) demo_fs2_ok demo_holds demo_names i u] e by (auto split: option.splits)
  have "node_at (set_node p (w_db demo_fs2)) 5 = Some demo_a"
    using a l(2) demo_fs2_ok by (simp add: node_at_set)
  then have "node_at (w_db w') 5 = None" using l(1) by (auto simp: link_dropped_def)
  then show ?thesis using u d a by (cases del) auto
qed

definition demo_dir2 :: node where
  "demo_dir2 = demo_node 2 NodeKindDirectory (dir_marshal demo demo_listing)"
lemma demo_holds2: "holds_dir demo demo_dir2 demo_listing"
  by (simp add: holds_dir_def demo_dir2_def demo_node_def dir_exact_def demo_listing_def ascii_valid byte_in_def)
lemma demo_dir2_fields [simp]:
  "n_id demo_dir2 = 2" "n_nlink demo_dir2 = 1" "n_rev demo_dir2 = ''r''" "n_stale demo_dir2 = ''r''"
  "n_kind demo_dir2 = NodeKindDirectory"
  by (simp_all add: demo_dir2_def demo_node_def)
definition demo_fs3 :: world where
  "demo_fs3 = world_of (empty_db\<lparr>t_nodes := [1 \<mapsto> row_insert demo_dir, 5 \<mapsto> row_insert demo_a, 2 \<mapsto> row_insert demo_dir2]\<rparr>)"
lemma demo_fs3_simps [simp]:
  "w_tx demo_fs3 = None" "w_tick demo_fs3 = 0"
  "t_nodes (w_db demo_fs3) = [1 \<mapsto> row_insert demo_dir, 5 \<mapsto> row_insert demo_a, 2 \<mapsto> row_insert demo_dir2]"
  by (simp_all add: demo_fs3_def world_of_def empty_db_def)

lemma demo_fs3_ok: "ids_ok (w_db demo_fs3)"
  by (auto simp: ids_ok_def row_insert_def)

theorem MoveEntry_same_directory_witness:
  "\<exists>r w' p dc. MoveEntry demo (Some demo_dir) ''a.txt'' (Some demo_dir) ''c'' demo_fs2 = (Inr r, w') \<and>
     holds_dir demo (fst r) dc \<and> dir_map dc ''c'' = Some (5, NodeKindFile) \<and> dir_map dc ''a.txt'' = None"
proof -
  have "\<exists>r w'. MoveEntry demo (Some demo_dir) ''a.txt'' (Some demo_dir) ''c'' demo_fs2 = (Inr r, w')"
    by (simp add: MoveEntry_def move_body_def move_same_def run_eval holds_dir_read [OF demo_holds]
      demo_listing_def encode_eval)
  then obtain p q w' where m: "MoveEntry demo (Some demo_dir) ''a.txt'' (Some demo_dir) ''c'' demo_fs2 = (Inr (p, q), w')"
    by auto
  have e: "find_entry demo_listing ''a.txt'' = Some \<lparr>de_ino = 5, de_name = ''a.txt'', de_kind = NodeKindFile\<rparr>"
    "find_entry demo_listing ''c'' = None"
    by (simp_all add: find_entry_def demo_listing_def)
  have v: "valid_utf8 ''c''" by (simp add: ascii_valid byte_in_def)
  have i: "\<forall>e\<in>set (entries demo_listing). de_ino e \<noteq> n_id demo_dir" by (simp add: demo_listing_def)
  obtain dc where "holds_dir demo p dc" "dir_map dc = (dir_map demo_listing)(''a.txt'' := None, ''c'' \<mapsto> (5, NodeKindFile))"
    using MoveEntry_same_directory [OF demo_fs2_simps(1) demo_fs2_ok demo_holds demo_names demo_holds refl _ v _ i m] e
    by auto
  then show ?thesis using m by auto
qed

text \<open>
  C20. A move into another directory, when it succeeds and the new name is not a link to the moved
  inode: the source directory loses the name and keeps the rest, and the moved entry is ALL
  that the destination lists afterwards, whatever it listed before.
\<close>

theorem MoveEntry_across_directories:
  assumes w: "w_tx w = None" "ids_ok (w_db w)"
    and p: "holds_dir E p dc" "names_distinct dc" and q: "holds_dir E q dc'" "n_id q \<noteq> n_id p"
    and n: "valid_utf8 dst"
    and s: "find_entry dc src = Some se" "\<forall>x. find_entry dc' dst = Some x \<longrightarrow> de_ino x \<noteq> de_ino se"
    and m: "MoveEntry E (Some p) src (Some q) dst w = (Inr (p', q'), w')"
  shows "(\<exists>ds. holds_dir E p' ds \<and> names_distinct ds \<and> dir_map ds = (dir_map dc)(src := None)) \<and>
    read_dir E q' = Inr (Some [\<lparr>de_ino = de_ino se, de_name = dst, de_kind = de_kind se\<rparr>]) \<and>
    (case find_entry dc' dst of
       None \<Rightarrow> node_at (w_db w') = node_at (set_node q' (set_node p' (w_db w)))
     | Some x \<Rightarrow> de_kind x = de_kind se)"
proof -
  have "with_tx E (move_body E p src q dst) w = (Inr (p', q'), w')" using m by (simp add: MoveEntry_def)
  then obtain v v' where b: "move_body E p src q dst v = (Inr (p', q'), v')" "client v = w_db w" "w_db w' = client v'"
    by (rule committed_body [OF tx_safe_move_body w(1)])
  let ?moved = "\<lparr>de_ino = de_ino se, de_name = dst, de_kind = de_kind se\<rparr>"
  let ?es = "filter (\<lambda>e. de_name e \<notin> {src}) (entries dc)"
  let ?over = "case find_entry dc' dst of None \<Rightarrow> retM () | Some x \<Rightarrow> move_overwrite E (de_ino x)"
  have ne: "n_id p \<noteq> n_id q" using q(2) by simp
  obtain v1 where mv: "move_across E p ?es q [?moved] v = (Inr (p', q'), v1)"
    and o: "?over v1 = (Inr (), v')" and k: "\<And>x. find_entry dc' dst = Some x \<Longrightarrow> de_kind x = de_kind se"
    using b(1) ne s(2)
    by (cases "find_entry dc' dst")
      (auto simp: move_body_def monad_simps holds_dir_read [OF p(1)] holds_dir_read [OF q(1)] s(1) Let_def
        move_src_entries_eq split: if_splits)
  obtain p1 w1 w2 q1 w3 where a: "WriteDir E (Some ?es) p v = (Inr p1, w1)" "repo_save E p1 w1 = (Inr p', w2)"
    "WriteDir E (Some [?moved]) q w2 = (Inr q1, w3)" "repo_save E q1 w3 = (Inr q', v1)"
    using mv by (auto simp: move_across_def monad_simps)
  have x: "dir_exact E (Some ?es)" "dir_exact E (Some [?moved])"
    using p(1) n by (auto simp: holds_dir_def dir_exact_def intro: names_ok_filter)
  have h: "holds_dir E p' (Some ?es)" "holds_dir E q' (Some [?moved])"
    using WriteDir_holds(1) [OF a(1) x(1)] WriteDir_holds(1) [OF a(3) x(2)] save_client [OF a(2)] save_client [OF a(4)]
    by auto
  have c: "client v1 = set_node q' (set_node p' (w_db w))"
    using save_client [OF a(2)] save_client [OF a(4)] quiet_client [OF quiet_WriteDir a(1)]
      quiet_client [OF quiet_WriteDir a(3)] b(2) by simp
  have d: "dir_map (Some ?es) = (dir_map dc)(src := None)"
    using dir_map_filter [of "{src}" dc] by (simp add: restrict_map_def fun_eq_iff)
  have l: "case find_entry dc' dst of
       None \<Rightarrow> node_at (w_db w') = node_at (set_node q' (set_node p' (w_db w)))
     | Some x \<Rightarrow> de_kind x = de_kind se"
    using o k c b(3) by (cases "find_entry dc' dst") auto
  show ?thesis
    using h(1) names_distinct_filter [OF p(2), of "\<lambda>e. de_name e \<notin> {src}"] d holds_dir_read [OF h(2)] l by blast
qed

theorem MoveEntry_across_directories_witness:
  "\<exists>p q w'. MoveEntry demo (Some demo_dir) ''a.txt'' (Some demo_dir2) ''c'' demo_fs3 = (Inr (p, q), w') \<and>
     lookup demo demo_dir2 ''a.txt'' \<noteq> Inr None \<and>
     read_dir demo q = Inr (Some [\<lparr>de_ino = 5, de_name = ''c'', de_kind = NodeKindFile\<rparr>])"
proof -
  have "\<exists>r w'. MoveEntry demo (Some demo_dir) ''a.txt'' (Some demo_dir2) ''c'' demo_fs3 = (Inr r, w')"
    by (simp add: MoveEntry_def move_body_def move_across_def run_eval holds_dir_read [OF demo_holds]
      holds_dir_read [OF demo_holds2] demo_listing_def encode_eval)
  then obtain p q w' where m: "MoveEntry demo (Some demo_dir) ''a.txt'' (Some demo_dir2) ''c'' demo_fs3 = (Inr (p, q), w')"
    by auto
  have e: "find_entry demo_listing ''a.txt'' = Some \<lparr>de_ino = 5, de_name = ''a.txt'', de_kind = NodeKindFile\<rparr>"
    "find_entry demo_listing ''c'' = None"
    by (simp_all add: find_entry_def demo_listing_def)
  have v: "valid_utf8 ''c''" by (simp add: ascii_valid byte_in_def)
  have "read_dir demo q = Inr (Some [\<lparr>de_ino = 5, de_name = ''c'', de_kind = NodeKindFile\<rparr>])"
    using MoveEntry_across_directories [OF demo_fs3_simps(1) demo_fs3_ok demo_holds demo_names demo_holds2 _ v e(1) _ m]
      e(2) by simp
  then show ?thesis using m e(1) holds_dir_lookup [OF demo_holds2] by simp
qed

text \<open>
  The multi-step operations are atomic: outside a transaction, an error of \<open>Link\<close>, \<open>Unlink\<close>,
  \<open>MoveEntry\<close>, \<open>BulkLink\<close>, \<open>BulkUnlink\<close> or of a create leaves the database as it was, and no
  transaction stays open.
\<close>

theorem node_operations_atomic:
  assumes "w_tx w = None"
  shows "rolls_back (Link E p name c) w \<and> rolls_back (Unlink E p name) w \<and>
    rolls_back (MoveEntry E p name q dst) w \<and> rolls_back (BulkLink E p es es') w \<and>
    rolls_back (BulkUnlink E p names) w \<and> rolls_back (CreateFile E raw) w \<and>
    rolls_back (CreateDirectory E) w \<and> rolls_back (CreateSymlink E t) w \<and>
    rolls_back (CreateObject E oc sz) w \<and> rolls_back (CreateMount E d) w"
  using assms by (intro conjI atomic_rolls_back atomic_intros)

theorem node_operations_atomic_witness:
  "w_db (snd (Link demo (Some demo_dir) ''a.txt'' (Some demo_file) demo_fs)) = w_db demo_fs"
proof -
  have "\<exists>e w'. Link demo (Some demo_dir) ''a.txt'' (Some demo_file) demo_fs = (Inl e, w')"
    by (simp add: Link_def link_body_def AddEntry_def run_eval holds_dir_read [OF demo_holds] demo_listing_def)
  then show ?thesis
    using node_operations_atomic [OF demo_fs_simps(1), of demo "Some demo_dir" "''a.txt''" "Some demo_file"]
    by (auto simp: rolls_back_def)
qed

end
