(* ===== verification/UserSvc.thy ===== *)
theory UserSvc
  imports NodeRepo
begin

text \<open>
  The component internal/core/user: the user record, its Ent repository (which always uses
  \<open>r.client\<close>, never the transaction of the context) and the service with the OIDC upsert. The
  first section holds what every Ent repository of the program uses: the query \<open>Only\<close>, the
  errors ent reports, and writes that bypass the transaction.
\<close>

section \<open>Ent queries\<close>

text \<open>\<open>Query().Where(...).Only(ctx)\<close>: not found is \<open>None\<close>.\<close>

definition only :: "('r \<Rightarrow> bool) \<Rightarrow> 'r list \<Rightarrow> gerror + 'r option" where
  "only P rows =
     (case filter P rows of
        [] \<Rightarrow> Inr None
      | [r] \<Rightarrow> Inr (Some r)
      | _ \<Rightarrow> Inl (Foreign ''ent: not singular'' None))"

definition ent_constraint :: gerror where
  "ent_constraint = Foreign ''ent: constraint failed'' None"

definition ent_not_found :: gerror where
  "ent_not_found = Foreign ''ent: not found'' None"

definition put_committed :: "db \<Rightarrow> unit W" where
  "put_committed d = (\<lambda>w. (Inr (), w\<lparr>w_db := d\<rparr>))"

text \<open>Replace the first row that satisfies \<open>P\<close>.\<close>

fun map_first :: "('r \<Rightarrow> bool) \<Rightarrow> ('r \<Rightarrow> 'r) \<Rightarrow> 'r list \<Rightarrow> 'r list" where
  "map_first P f [] = []"
| "map_first P f (r # rs) = (if P r then f r # rs else r # map_first P f rs)"

lemma only_None: "only P rows = Inr None \<longleftrightarrow> (\<forall>r\<in>set rows. \<not> P r)"
  unfolding only_def using filter_empty_conv [of P rows] by (auto split: list.splits)

lemma only_Some: "only P rows = Inr (Some r) \<Longrightarrow> r \<in> set rows \<and> P r"
proof -
  assume "only P rows = Inr (Some r)"
  then have "filter P rows = [r]" by (auto simp: only_def split: list.splits)
  then have "r \<in> set (filter P rows)" by simp
  then show ?thesis by simp
qed

lemma only_append_new: "\<forall>r\<in>set rows. \<not> P r \<Longrightarrow> only P (rows @ [x]) = (if P x then Inr (Some x) else Inr None)"
  by (simp add: only_def filter_False)

lemma map_first_filter:
  "only P rows = Inr (Some r) \<Longrightarrow> P (f r) \<Longrightarrow> only P (map_first P f rows) = Inr (Some (f r))"
proof (induction rows)
  case Nil
  then show ?case by (simp add: only_def)
next
  case (Cons x xs)
  show ?case
  proof (cases "P x")
    case True
    then have "filter P xs = []" "x = r" using Cons.prems(1) by (auto simp: only_def split: list.splits)
    then show ?thesis using True Cons.prems(2) by (simp add: only_def)
  next
    case False
    then show ?thesis using Cons by (simp add: only_def)
  qed
qed

lemma put_committed_run [simp]: "put_committed d w = (Inr (), w\<lparr>w_db := d\<rparr>)"
  by (simp add: put_committed_def)

section \<open>Users\<close>

record user =
  u_id :: string
  u_public_id :: string
  u_name :: string
  u_email :: "string option"
  u_provider :: string
  u_provider_id :: string
  u_created_at :: time
  u_updated_at :: time

record create_command =
  cc_name :: string
  cc_email :: "string option"
  cc_provider :: string
  cc_provider_id :: string

definition user_from_ent :: "ent_user \<Rightarrow> user" where
  "user_from_ent e = \<lparr>u_id = eu_id e, u_public_id = eu_public_id e, u_name = eu_name e,
     u_email = eu_email e, u_provider = eu_provider e, u_provider_id = eu_provider_id e,
     u_created_at = eu_create_time e, u_updated_at = eu_update_time e\<rparr>"

section \<open>Repository\<close>

definition user_clash :: "ent_user \<Rightarrow> ent_user \<Rightarrow> bool" where
  "user_clash r s \<longleftrightarrow> eu_id s = eu_id r \<or> eu_public_id s = eu_public_id r \<or>
     (eu_provider s = eu_provider r \<and> eu_provider_id s = eu_provider_id r)"

text \<open>Ent fills both timestamps in before it validates.\<close>

definition user_create :: "env \<Rightarrow> create_command \<Rightarrow> user W" where
  "user_create E cmd =
     bindM (ulid_Make E) (\<lambda>i. bindM (time_Now E) (\<lambda>ct. bindM (time_Now E) (\<lambda>ut.
       let row = \<lparr>eu_id = i, eu_public_id = i, eu_name = cc_name cmd, eu_email = cc_email cmd,
                  eu_provider = cc_provider cmd, eu_provider_id = cc_provider_id cmd,
                  eu_create_time = ct, eu_update_time = ut\<rparr>
       in wrapM [KindUnavailable] ''user.repo.create''
         (seqM (ensureM (valid_user_row row) ent_validation)
         (seqM (io E) (bindM get_committed (\<lambda>d.
            if \<exists>s\<in>set (t_users d). user_clash row s then failM ent_constraint
            else seqM (put_committed (d\<lparr>t_users := t_users d @ [row]\<rparr>)) (retM (user_from_ent row)))))))))"

definition user_query :: "env \<Rightarrow> string \<Rightarrow> (ent_user \<Rightarrow> bool) \<Rightarrow> user option W" where
  "user_query E what P =
     wrapM [KindUnavailable] what
       (seqM (io E) (bindM get_committed (\<lambda>d.
         bindM (liftM (only P (t_users d))) (\<lambda>r. retM (map_option user_from_ent r)))))"

definition user_get_by_id :: "env \<Rightarrow> string \<Rightarrow> user option W" where
  "user_get_by_id E i = user_query E ''user.repo.get_by_id'' (\<lambda>r. eu_id r = i)"

definition user_get_by_public_id :: "env \<Rightarrow> string \<Rightarrow> user option W" where
  "user_get_by_public_id E i = user_query E ''user.repo.get_by_public_id'' (\<lambda>r. eu_public_id r = i)"

definition user_get_by_provider_id :: "env \<Rightarrow> string \<Rightarrow> string \<Rightarrow> user option W" where
  "user_get_by_provider_id E prov pid =
     user_query E ''user.repo.get_by_provider_id'' (\<lambda>r. eu_provider r = prov \<and> eu_provider_id r = pid)"

text \<open>\<open>SetNillableEmail(nil)\<close> sets nothing: the column keeps its value.\<close>

definition user_set :: "user \<Rightarrow> time \<Rightarrow> ent_user \<Rightarrow> ent_user" where
  "user_set u ut r = r\<lparr>eu_name := u_name u,
     eu_email := (case u_email u of None \<Rightarrow> eu_email r | Some e \<Rightarrow> Some e), eu_update_time := ut\<rparr>"

definition user_update :: "env \<Rightarrow> user \<Rightarrow> user W" where
  "user_update E u =
     bindM (time_Now E) (\<lambda>ut.
       wrapM [KindUnavailable] ''user.repo.update''
         (seqM (ensureM (length (u_name u) \<le> 255 \<and> length (case u_email u of None \<Rightarrow> [] | Some e \<Rightarrow> e) \<le> 255)
                  ent_validation)
         (seqM (io E) (bindM get_committed (\<lambda>d.
            (case find (\<lambda>r. eu_id r = u_id u) (t_users d) of
               None \<Rightarrow> failM ent_not_found
             | Some r \<Rightarrow>
                 seqM (put_committed (d\<lparr>t_users := map_first (\<lambda>r. eu_id r = u_id u) (user_set u ut) (t_users d)\<rparr>))
                   (retM (user_from_ent (user_set u ut r)))))))))"

definition user_delete :: "env \<Rightarrow> string \<Rightarrow> unit W" where
  "user_delete E i =
     wrapM [KindUnavailable] ''user.repo.delete''
       (seqM (io E) (bindM get_committed (\<lambda>d.
         if \<exists>r\<in>set (t_users d). eu_id r = i
         then put_committed (d\<lparr>t_users := filter (\<lambda>r. eu_id r \<noteq> i) (t_users d)\<rparr>)
         else failM ent_not_found)))"

definition user_exist :: "env \<Rightarrow> string \<Rightarrow> bool W" where
  "user_exist E i = bindM (user_get_by_id E i) (\<lambda>u. retM (u \<noteq> None))"

section \<open>Service\<close>

definition emailDiffers :: "user \<Rightarrow> create_command \<Rightarrow> bool" where
  "emailDiffers u cmd =
     (case (cc_email cmd, u_email u) of
        (None, None) \<Rightarrow> False
      | (Some a, Some b) \<Rightarrow> b \<noteq> a
      | _ \<Rightarrow> True)"

definition UpsertFromOIDC :: "env \<Rightarrow> create_command \<Rightarrow> user W" where
  "UpsertFromOIDC E cmd =
     (if cc_provider cmd = [] then failM (New KindInvalidArgument ''user: provider is required'')
      else if cc_provider_id cmd = [] then failM (New KindInvalidArgument ''user: provider_id is required'')
      else if cc_name cmd = [] then failM (New KindInvalidArgument ''user: name is required'')
      else
        bindM (wrapM [KindUnavailable] ''user: upsert lookup''
                 (user_get_by_provider_id E (cc_provider cmd) (cc_provider_id cmd))) (\<lambda>existing.
          (case existing of
             Some u \<Rightarrow>
               if u_name u \<noteq> cc_name cmd \<or> emailDiffers u cmd then
                 bindM (time_Now E) (\<lambda>now.
                   wrapM [KindUnavailable] ''user: upsert update''
                     (user_update E (u\<lparr>u_name := cc_name cmd, u_email := cc_email cmd, u_updated_at := now\<rparr>)))
               else retM u
           | None \<Rightarrow> wrapM [KindUnavailable] ''user: upsert create'' (user_create E cmd))))"

definition UserGetByID :: "env \<Rightarrow> string \<Rightarrow> user W" where
  "UserGetByID E i =
     bindM (wrapM [] (''user: get by id (id='' @ i @ '')'') (user_get_by_id E i)) (\<lambda>u.
       (case u of
          None \<Rightarrow> failM (New KindNotFound (''user: not found (id='' @ i @ '')''))
        | Some x \<Rightarrow> retM x))"

definition UserGetByPublicID :: "env \<Rightarrow> string \<Rightarrow> user W" where
  "UserGetByPublicID E i =
     bindM (wrapM [] (''user: get by public id (public_id='' @ i @ '')'') (user_get_by_public_id E i)) (\<lambda>u.
       (case u of
          None \<Rightarrow> failM (New KindNotFound (''user: not found (public_id='' @ i @ '')''))
        | Some x \<Rightarrow> retM x))"

definition UserGetByProviderID :: "env \<Rightarrow> string \<Rightarrow> string \<Rightarrow> user option W" where
  "UserGetByProviderID E prov pid =
     wrapM [] (''user: get by provider id (provider='' @ prov @ '', provider_id='' @ pid @ '')'')
       (user_get_by_provider_id E prov pid)"

definition UserUpdate :: "env \<Rightarrow> user option \<Rightarrow> user W" where
  "UserUpdate E u =
     (case u of
        None \<Rightarrow> failM (New KindInternal ''user: update requires non-nil user'')
      | Some x \<Rightarrow> wrapM [] (''user: update (id='' @ u_id x @ '')'') (user_update E x))"

lemma quiet_user_reads [quiet_intros]:
  "quiet (user_query E s P)" "quiet (user_get_by_id E i)" "quiet (user_get_by_public_id E i)"
  "quiet (user_get_by_provider_id E a b)" "quiet (user_exist E i)" "quiet (UserGetByID E i)"
  "quiet (UserGetByPublicID E i)" "quiet (UserGetByProviderID E a b)"
  unfolding user_exist_def UserGetByID_def UserGetByPublicID_def UserGetByProviderID_def
    user_get_by_id_def user_get_by_public_id_def user_get_by_provider_id_def user_query_def
  by (intro quiet_intros)+

section \<open>The upsert\<close>

text \<open>The unique indexes of the table.\<close>

definition user_key :: "ent_user \<Rightarrow> string \<times> string" where
  "user_key r = (eu_provider r, eu_provider_id r)"

definition users_ok :: "db \<Rightarrow> bool" where
  "users_ok d \<longleftrightarrow> distinct (map eu_id (t_users d)) \<and> distinct (map eu_public_id (t_users d)) \<and>
     distinct (map user_key (t_users d))"

lemma map_first_map:
  "(\<And>r. f (g r) = f r) \<Longrightarrow> map f (map_first P g rs) = map f rs"
  by (induction rs) auto

lemma filter_map_first:
  "(\<And>r. r \<in> set rs \<Longrightarrow> P r \<Longrightarrow> \<not> Q r) \<Longrightarrow> (\<And>r. Q (g r) = Q r) \<Longrightarrow> filter Q (map_first P g rs) = filter Q rs"
  by (induction rs) auto

lemma find_distinct:
  "distinct (map f rs) \<Longrightarrow> r \<in> set rs \<Longrightarrow> find (\<lambda>s. f s = f r) rs = Some r"
  by (induction rs) auto

lemma map_first_mem: "find P rs = Some r \<Longrightarrow> g r \<in> set (map_first P g rs)"
  by (induction rs) (auto split: if_splits)

lemma user_query_Inr:
  "user_query E s P w = (Inr u, w') \<Longrightarrow>
     \<exists>r. only P (t_users (w_db w)) = Inr r \<and> u = map_option user_from_ent r \<and> w' = w\<lparr>w_tick := Suc (w_tick w)\<rparr>"
  by (auto simp: user_query_def monad_simps dest!: io_Inr)

lemma user_create_Inr:
  assumes "user_create E cmd w = (Inr u, w')"
  obtains row where "u = user_from_ent row" "w_db w' = (w_db w)\<lparr>t_users := t_users (w_db w) @ [row]\<rparr>"
    "\<forall>s\<in>set (t_users (w_db w)). \<not> user_clash row s" "eu_name row = cc_name cmd" "eu_email row = cc_email cmd"
    "user_key row = (cc_provider cmd, cc_provider_id cmd)" "valid_user_row row"
proof -
  have "\<exists>row. u = user_from_ent row \<and> w_db w' = (w_db w)\<lparr>t_users := t_users (w_db w) @ [row]\<rparr> \<and>
    (\<forall>s\<in>set (t_users (w_db w)). \<not> user_clash row s) \<and> eu_name row = cc_name cmd \<and> eu_email row = cc_email cmd \<and>
    user_key row = (cc_provider cmd, cc_provider_id cmd) \<and> valid_user_row row"
    using assms by (auto simp: user_create_def monad_simps Let_def user_key_def dest!: io_Inr split: if_splits)
  then show thesis using that by blast
qed

lemma user_update_Inr:
  assumes "user_update E u w = (Inr v, w')"
  obtains r ut where "find (\<lambda>r. eu_id r = u_id u) (t_users (w_db w)) = Some r" "v = user_from_ent (user_set u ut r)"
    "w_db w' = (w_db w)\<lparr>t_users := map_first (\<lambda>r. eu_id r = u_id u) (user_set u ut) (t_users (w_db w))\<rparr>"
proof -
  have "\<exists>r ut. find (\<lambda>r. eu_id r = u_id u) (t_users (w_db w)) = Some r \<and> v = user_from_ent (user_set u ut r) \<and>
    w_db w' = (w_db w)\<lparr>t_users := map_first (\<lambda>r. eu_id r = u_id u) (user_set u ut) (t_users (w_db w))\<rparr>"
    using assms by (auto simp: user_update_def monad_simps dest!: io_Inr split: if_splits option.splits)
  then show thesis using that by blast
qed

lemma user_set_keys [simp]:
  "eu_id (user_set u t r) = eu_id r" "eu_public_id (user_set u t r) = eu_public_id r" "user_key (user_set u t r) = user_key r"
  "eu_name (user_set u t r) = u_name u"
  "eu_email (user_set u t r) = (case u_email u of None \<Rightarrow> eu_email r | Some e \<Rightarrow> Some e)"
  by (simp_all add: user_set_def user_key_def)

lemma user_from_ent_simps [simp]:
  "u_id (user_from_ent r) = eu_id r" "u_name (user_from_ent r) = eu_name r" "u_email (user_from_ent r) = eu_email r"
  "u_provider (user_from_ent r) = eu_provider r" "u_provider_id (user_from_ent r) = eu_provider_id r"
  by (simp_all add: user_from_ent_def)

lemma user_key_eq: "user_key r = (a, b) \<longleftrightarrow> eu_provider r = a \<and> eu_provider_id r = b"
  by (simp add: user_key_def)

text \<open>
  What the upsert leaves: the returned user is stored under the identity of the command, with its
  name, and with its email unless the command has none; the unique indexes hold and the
  other users are as they were.
\<close>

definition upserted :: "create_command \<Rightarrow> db \<Rightarrow> user \<Rightarrow> db \<Rightarrow> bool" where
  "upserted cmd d u d' \<longleftrightarrow> users_ok d' \<and>
     (\<exists>r\<in>set (t_users d'). u = user_from_ent r \<and> user_key r = (cc_provider cmd, cc_provider_id cmd) \<and>
        eu_name r = cc_name cmd \<and> (cc_email cmd \<noteq> None \<longrightarrow> eu_email r = cc_email cmd)) \<and>
     filter (\<lambda>r. user_key r \<noteq> (cc_provider cmd, cc_provider_id cmd)) (t_users d') =
       filter (\<lambda>r. user_key r \<noteq> (cc_provider cmd, cc_provider_id cmd)) (t_users d)"

lemma upserted_create:
  assumes "users_ok (w_db w)" "user_create E cmd w = (Inr u, w')"
  shows "upserted cmd (w_db w) u (w_db w')"
proof -
  obtain row where r: "u = user_from_ent row" "w_db w' = (w_db w)\<lparr>t_users := t_users (w_db w) @ [row]\<rparr>"
    "\<forall>s\<in>set (t_users (w_db w)). \<not> user_clash row s" "eu_name row = cc_name cmd" "eu_email row = cc_email cmd"
    "user_key row = (cc_provider cmd, cc_provider_id cmd)"
    by (rule user_create_Inr [OF assms(2)])
  have n: "eu_id row \<notin> eu_id ` set (t_users (w_db w))" "eu_public_id row \<notin> eu_public_id ` set (t_users (w_db w))"
    "user_key row \<notin> user_key ` set (t_users (w_db w))"
    using r(3) by (auto simp: user_clash_def user_key_def)
  have "users_ok (w_db w')" using assms(1) n r(2) by (simp add: users_ok_def)
  then show ?thesis using r by (simp add: upserted_def)
qed

lemma upserted_update:
  assumes ok: "users_ok (w_db w)"
    and e: "r0 \<in> set (t_users (w_db w))" "user_key r0 = (cc_provider cmd, cc_provider_id cmd)"
    and u: "user_update E ((user_from_ent r0)\<lparr>u_name := cc_name cmd, u_email := cc_email cmd, u_updated_at := t\<rparr>) w = (Inr v, w')"
  shows "upserted cmd (w_db w) v (w_db w')"
proof -
  let ?u = "(user_from_ent r0)\<lparr>u_name := cc_name cmd, u_email := cc_email cmd, u_updated_at := t\<rparr>"
  obtain r ut where r: "find (\<lambda>r. eu_id r = u_id ?u) (t_users (w_db w)) = Some r" "v = user_from_ent (user_set ?u ut r)"
    "w_db w' = (w_db w)\<lparr>t_users := map_first (\<lambda>r. eu_id r = u_id ?u) (user_set ?u ut) (t_users (w_db w))\<rparr>"
    by (rule user_update_Inr [OF u])
  have d: "distinct (map eu_id (t_users (w_db w)))" using ok by (simp add: users_ok_def)
  have r0: "r = r0" using find_distinct [OF d e(1)] r(1) by simp
  have ok': "users_ok (w_db w')"
    using ok r(3) by (simp add: users_ok_def map_first_map [where f = eu_id] map_first_map [where f = eu_public_id]
        map_first_map [where f = user_key])
  have m: "user_set ?u ut r0 \<in> set (t_users (w_db w'))"
    using map_first_mem [OF r(1), of "user_set ?u ut"] r(3) r0 by simp
  have inj: "s = r0" if "s \<in> set (t_users (w_db w))" "eu_id s = eu_id r0" for s
    using d that e(1) by (metis distinct_map inj_onD)
  have f: "filter (\<lambda>r. user_key r \<noteq> (cc_provider cmd, cc_provider_id cmd)) (t_users (w_db w')) =
       filter (\<lambda>r. user_key r \<noteq> (cc_provider cmd, cc_provider_id cmd)) (t_users (w_db w))"
    using inj e(2) r(3) by (simp, intro filter_map_first) auto
  have "eu_name (user_set ?u ut r0) = cc_name cmd \<and> user_key (user_set ?u ut r0) = (cc_provider cmd, cc_provider_id cmd) \<and>
     (cc_email cmd \<noteq> None \<longrightarrow> eu_email (user_set ?u ut r0) = cc_email cmd)"
    using e(2) by (auto split: option.splits)
  then show ?thesis using ok' m f r(2) r0 unfolding upserted_def by blast
qed

section \<open>Properties\<close>

text \<open>What a successful upsert did: the lookup by provider identity, and then one of the branches.\<close>

lemma UpsertFromOIDC_Inr:
  fixes cmd defines "P \<equiv> \<lambda>r. eu_provider r = cc_provider cmd \<and> eu_provider_id r = cc_provider_id cmd"
  assumes "UpsertFromOIDC E cmd w = (Inr u, w')"
  obtains (created) w1 where "only P (t_users (w_db w)) = Inr None" "w_db w1 = w_db w" "user_create E cmd w1 = (Inr u, w')"
  | (updated) r t w1 where "only P (t_users (w_db w)) = Inr (Some r)" "w_db w1 = w_db w"
      "u_name (user_from_ent r) \<noteq> cc_name cmd \<or> emailDiffers (user_from_ent r) cmd"
      "user_update E ((user_from_ent r)\<lparr>u_name := cc_name cmd, u_email := cc_email cmd, u_updated_at := t\<rparr>) w1 = (Inr u, w')"
  | (kept) r where "only P (t_users (w_db w)) = Inr (Some r)" "w_db w' = w_db w" "u = user_from_ent r"
      "eu_name r = cc_name cmd" "eu_email r = cc_email cmd"
proof -
  obtain x w1 where q: "user_query E ''user.repo.get_by_provider_id'' P w = (Inr x, w1)"
    and c: "(case x of
             Some u \<Rightarrow>
               if u_name u \<noteq> cc_name cmd \<or> emailDiffers u cmd then
                 bindM (time_Now E) (\<lambda>now.
                   wrapM [KindUnavailable] ''user: upsert update''
                     (user_update E (u\<lparr>u_name := cc_name cmd, u_email := cc_email cmd, u_updated_at := now\<rparr>)))
               else retM u
           | None \<Rightarrow> wrapM [KindUnavailable] ''user: upsert create'' (user_create E cmd)) w1 = (Inr u, w')"
    using assms by (auto simp: UpsertFromOIDC_def user_get_by_provider_id_def monad_simps split: if_splits)
  obtain s where s: "only P (t_users (w_db w)) = Inr s" "x = map_option user_from_ent s" "w_db w1 = w_db w"
    using user_query_Inr [OF q] by auto
  show thesis
  proof (cases s)
    case None
    then show ?thesis using created [of w1] s c by (simp add: monad_simps)
  next
    case (Some r)
    note f = s(1) [unfolded Some]
    show ?thesis
    proof (cases "u_name (user_from_ent r) \<noteq> cc_name cmd \<or> emailDiffers (user_from_ent r) cmd")
      case True
      let ?w = "w1\<lparr>w_tick := Suc (w_tick w1)\<rparr>"
      have up: "user_update E ((user_from_ent r)\<lparr>u_name := cc_name cmd, u_email := cc_email cmd, u_updated_at := clock E (w_tick w1)\<rparr>) ?w = (Inr u, w')"
        using c s(2) Some True by (auto simp: monad_simps)
      show ?thesis by (rule updated [OF f _ True up]) (simp add: s(3))
    next
      case False
      then have "u = user_from_ent r" "w' = w1" "eu_name r = cc_name cmd" "eu_email r = cc_email cmd"
        using c s(2) Some by (auto simp: emailDiffers_def split: option.splits)
      then show ?thesis using kept [OF f] s(3) by simp
    qed
  qed
qed

lemma only_user:
  assumes "only (\<lambda>r. eu_provider r = p \<and> eu_provider_id r = i) us = Inr (Some r0)"
  shows "r0 \<in> set us" "user_key r0 = (p, i)"
  using only_Some [OF assms] by (auto simp: user_key_def)

lemma upsert_upserts:
  assumes ok: "users_ok (w_db w)" and u: "UpsertFromOIDC E cmd w = (Inr u, w')"
  shows "upserted cmd (w_db w) u (w_db w')"
  using u
proof (cases rule: UpsertFromOIDC_Inr)
  case (created w1)
  then show ?thesis using upserted_create [of w1 E cmd u w'] ok by simp
next
  case (updated r t w1)
  then show ?thesis using upserted_update [of w1 r cmd E t u w'] ok only_user [OF updated(1)] by simp
next
  case (kept r)
  then show ?thesis using ok only_user [OF kept(1)] by (auto simp: upserted_def)
qed

lemma upsert_again:
  assumes up: "upserted cmd d u (w_db w)" and em: "cc_email cmd \<noteq> None" and v: "UpsertFromOIDC E cmd w = (Inr v, w2)"
  shows "v = u \<and> w_db w2 = w_db w"
proof -
  obtain r where r: "r \<in> set (t_users (w_db w))" "u = user_from_ent r" "user_key r = (cc_provider cmd, cc_provider_id cmd)"
    "eu_name r = cc_name cmd" "eu_email r = cc_email cmd" and ok: "users_ok (w_db w)"
    using up em by (auto simp: upserted_def)
  have same: "s = r" if "s \<in> set (t_users (w_db w))" "user_key s = user_key r" for s
    using that ok r(1) unfolding users_ok_def by (metis distinct_map inj_onD)
  have n: "\<not> emailDiffers u cmd" "u_name u = cc_name cmd" using r by (auto simp: emailDiffers_def split: option.splits)
  show ?thesis using v
  proof (cases rule: UpsertFromOIDC_Inr)
    case (created w1)
    then show ?thesis using r(1,3) created(1) by (auto simp: user_key_def only_None)
  next
    case (updated s t w1)
    then show ?thesis using same [OF only_user(1) [OF updated(1)]] only_user(2) [OF updated(1)] r(2,3) n by simp
  next
    case (kept s)
    then show ?thesis using same [OF only_user(1) [OF kept(1)]] only_user(2) [OF kept(1)] r(2,3) by simp
  qed
qed

text \<open>
  C30. \<open>UpsertFromOIDC\<close>, when it succeeds, leaves exactly one user for the identity of the command:
  the returned one, with the command's name and, if it has one, its email. No other user
  changes and the unique indexes are kept. Upserting again finds it unchanged.
\<close>

theorem upsert_spec:
  assumes ok: "users_ok (w_db w)" and u: "UpsertFromOIDC E cmd w = (Inr u, w')"
  shows "upserted cmd (w_db w) u (w_db w') \<and>
    (cc_email cmd \<noteq> None \<longrightarrow> (\<forall>v w2. UpsertFromOIDC E cmd w' = (Inr v, w2) \<longrightarrow> v = u \<and> w_db w2 = w_db w'))"
  using upsert_upserts [OF assms] upsert_again by blast

theorem upsert_spec_witness:
  "let cmd = \<lparr>cc_name = ''ann'', cc_email = Some ''a@x'', cc_provider = ''kc'', cc_provider_id = ''7''\<rparr> in
   \<exists>u w. UpsertFromOIDC demo cmd (world_of empty_db) = (Inr u, w) \<and> upserted cmd empty_db u (w_db w)"
proof -
  let ?cmd = "\<lparr>cc_name = ''ann'', cc_email = Some ''a@x'', cc_provider = ''kc'', cc_provider_id = ''7''\<rparr>"
  have ok: "users_ok (w_db (world_of empty_db))" by (simp add: users_ok_def world_of_def empty_db_def)
  have "\<exists>u w. UpsertFromOIDC demo ?cmd (world_of empty_db) = (Inr u, w)"
    by (simp add: UpsertFromOIDC_def user_get_by_provider_id_def user_query_def user_create_def only_def
      world_of_def empty_db_def bindM_def wrapM_def seqM_def io_no_faults Let_def valid_user_row_def dec_nat_digit)
  then obtain u w where u: "UpsertFromOIDC demo ?cmd (world_of empty_db) = (Inr u, w)" by blast
  have "w_db (world_of empty_db) = empty_db" by (simp add: world_of_def)
  then show ?thesis using upsert_spec [OF ok u] u by (auto simp: Let_def)
qed

end
