(* ===== verification/Crypto.thy ===== *)
theory Crypto
  imports Demo
begin

text \<open>
  The component internal/crypto: the ciphers that protect drive secrets at rest. AES-GCM itself
  and the source of random bytes are parameters of the environment; the encoding around them
  (nonce, then sealed text, then base64) and the key format are modelled.
\<close>

section \<open>Package base64\<close>

definition b64_char :: "nat \<Rightarrow> char" where
  "b64_char i =
     (if i < 26 then char_of (65 + i) else if i < 52 then char_of (71 + i)
      else if i < 62 then char_of (i - 4) else if i = 62 then CHR ''+'' else CHR ''/'')"

definition b64_val :: "char \<Rightarrow> nat option" where
  "b64_val c =
     (let n = of_char c in
      if 65 \<le> n \<and> n \<le> 90 then Some (n - 65) else if 97 \<le> n \<and> n \<le> 122 then Some (n - 71)
      else if 48 \<le> n \<and> n \<le> 57 then Some (n + 4) else if n = 43 then Some 62
      else if n = 47 then Some 63 else None)"

definition b64_quad :: "nat \<Rightarrow> nat \<Rightarrow> nat \<Rightarrow> nat list" where
  "b64_quad a b c = [a div 4, a mod 4 * 16 + b div 16, b mod 16 * 4 + c div 64, c mod 64]"

fun b64_encode :: "string \<Rightarrow> string" where
  "b64_encode [] = []"
| "b64_encode [a] = map b64_char (take 2 (b64_quad (of_char a) 0 0)) @ ''==''"
| "b64_encode [a, b] = map b64_char (take 3 (b64_quad (of_char a) (of_char b) 0)) @ ''=''"
| "b64_encode (a # b # c # s) = map b64_char (b64_quad (of_char a) (of_char b) (of_char c)) @ b64_encode s"

definition b64_pair :: "nat option \<Rightarrow> nat option \<Rightarrow> char option" where
  "b64_pair x y =
     (case (x, y) of (Some u, Some v) \<Rightarrow> Some (char_of (u * 4 + v div 16)) | _ \<Rightarrow> None)"

definition b64_pair2 :: "nat option \<Rightarrow> nat option \<Rightarrow> char option" where
  "b64_pair2 y z =
     (case (y, z) of (Some v, Some w) \<Rightarrow> Some (char_of (v mod 16 * 16 + w div 4)) | _ \<Rightarrow> None)"

definition b64_pair3 :: "nat option \<Rightarrow> nat option \<Rightarrow> char option" where
  "b64_pair3 z t =
     (case (z, t) of (Some w, Some x) \<Rightarrow> Some (char_of (w mod 4 * 64 + x)) | _ \<Rightarrow> None)"

fun b64_quanta :: "string \<Rightarrow> string option" where
  "b64_quanta [] = Some []"
| "b64_quanta (a # b # c # d # s) =
     (if c = CHR ''='' \<and> d = CHR ''='' \<and> s = [] then those [b64_pair (b64_val a) (b64_val b)]
      else if d = CHR ''='' \<and> s = [] then
        those [b64_pair (b64_val a) (b64_val b), b64_pair2 (b64_val b) (b64_val c)]
      else
        (case those [b64_pair (b64_val a) (b64_val b), b64_pair2 (b64_val b) (b64_val c),
                     b64_pair3 (b64_val c) (b64_val d)] of
           None \<Rightarrow> None
         | Some x \<Rightarrow> map_option ((@) x) (b64_quanta s)))"
| "b64_quanta _ = None"

text \<open>The decoder skips line breaks.\<close>

definition b64_decode :: "string \<Rightarrow> string option" where
  "b64_decode s = b64_quanta (filter (\<lambda>c. c \<noteq> CHR 0x0A \<and> c \<noteq> CHR 0x0D) s)"

lemma b64_val_char [simp]: "i < 64 \<Longrightarrow> b64_val (b64_char i) = Some i"
  by (auto simp: b64_val_def b64_char_def Let_def)

lemma b64_char_plain:
  assumes "i < 64"
  shows "b64_char i \<noteq> CHR ''=''" "b64_char i \<noteq> CHR 0x0A" "b64_char i \<noteq> CHR 0x0D"
proof -
  have "b64_val (b64_char i) \<noteq> None" using assms by simp
  moreover have "b64_val (CHR ''='') = None" "b64_val (CHR 0x0A) = None" "b64_val (CHR 0x0D) = None"
    by (simp_all add: b64_val_def)
  ultimately show "b64_char i \<noteq> CHR ''=''" "b64_char i \<noteq> CHR 0x0A" "b64_char i \<noteq> CHR 0x0D" by metis+
qed

lemma b64_quad_bound:
  "a < 256 \<Longrightarrow> b < 256 \<Longrightarrow> c < 256 \<Longrightarrow> x \<in> set (b64_quad a b c) \<Longrightarrow> x < 64"
  by (auto simp: b64_quad_def)

lemma of_char_lt [simp]: "(of_char (c::char) :: nat) < 256"
  by (metis of_char_mod_256 mod_less_divisor zero_less_numeral)

lemma b64_join:
  fixes a b c :: nat
  assumes "a < 256" "b < 256"
  shows "(a div 4) * 4 + (a mod 4 * 16 + b div 16) div 16 = a"
    and "(a mod 4 * 16 + b div 16) mod 16 * 16 + (b mod 16 * 4 + c) div 4 = b div 16 * 16 + b mod 16 + c div 4"
proof -
  have "b div 16 < 16" using assms(2) by (simp add: less_mult_imp_div_less)
  then have "(a mod 4 * 16 + b div 16) div 16 = a mod 4" "(a mod 4 * 16 + b div 16) mod 16 = b div 16" by simp_all
  then show "(a div 4) * 4 + (a mod 4 * 16 + b div 16) div 16 = a"
    and "(a mod 4 * 16 + b div 16) mod 16 * 16 + (b mod 16 * 4 + c) div 4 = b div 16 * 16 + b mod 16 + c div 4"
    by simp_all
qed

lemma b64_pairs:
  fixes a b c :: char
  defines "q \<equiv> b64_quad (of_char a) (of_char b) (of_char c)"
  shows "b64_pair (Some (q ! 0)) (Some (q ! 1)) = Some a"
    and "b64_pair2 (Some (q ! 1)) (Some (q ! 2)) = Some b"
    and "b64_pair3 (Some (q ! 2)) (Some (q ! 3)) = Some c"
proof -
  have c: "(of_char c :: nat) div 64 < 4" by (intro less_mult_imp_div_less) simp
  have "q ! 0 * 4 + q ! 1 div 16 = of_char a"
    using b64_join(1) [of "of_char a" "of_char b"] by (simp add: q_def b64_quad_def)
  then show "b64_pair (Some (q ! 0)) (Some (q ! 1)) = Some a" by (simp add: b64_pair_def)
  have "q ! 1 mod 16 * 16 + q ! 2 div 4 = of_char b"
    using b64_join(2) [of "of_char a" "of_char b" "of_char c div 64"] c by (simp add: q_def b64_quad_def)
  then show "b64_pair2 (Some (q ! 1)) (Some (q ! 2)) = Some b" by (simp add: b64_pair2_def)
  have "q ! 2 mod 4 = of_char c div 64" using c by (simp add: q_def b64_quad_def)
  then have "q ! 2 mod 4 * 64 + q ! 3 = of_char c" by (simp add: q_def b64_quad_def)
  then show "b64_pair3 (Some (q ! 2)) (Some (q ! 3)) = Some c" by (simp add: b64_pair3_def)
qed

lemma b64_quad_lt:
  "a < 256 \<Longrightarrow> b < 256 \<Longrightarrow> c < 256 \<Longrightarrow> b64_quad a b c ! 0 < 64"
  "a < 256 \<Longrightarrow> b < 256 \<Longrightarrow> c < 256 \<Longrightarrow> b64_quad a b c ! 1 < 64"
  "a < 256 \<Longrightarrow> b < 256 \<Longrightarrow> c < 256 \<Longrightarrow> b64_quad a b c ! 2 < 64"
  "a < 256 \<Longrightarrow> b < 256 \<Longrightarrow> c < 256 \<Longrightarrow> b64_quad a b c ! 3 < 64"
  by (auto simp: b64_quad_def)

lemma b64_quanta_encode: "b64_quanta (b64_encode s) = Some s"
proof (induction s rule: b64_encode.induct)
  case 1
  then show ?case by simp
next
  case (2 a)
  let ?q = "b64_quad (of_char a) 0 0"
  have "?q ! 0 < 64" "?q ! 1 < 64" by (simp_all add: b64_quad_lt del: One_nat_def)
  then show ?case using b64_pairs(1) [of a "CHR 0x00"] by (simp add: b64_quad_def)
next
  case (3 a b)
  let ?q = "b64_quad (of_char a) (of_char b) 0"
  have "?q ! 0 < 64" "?q ! 1 < 64" "?q ! 2 < 64" by (simp_all add: b64_quad_lt del: One_nat_def)
  then show ?case using b64_pairs(1,2) [of a b "CHR 0x00"] by (simp add: b64_quad_def b64_char_plain)
next
  case (4 a b c s)
  let ?q = "b64_quad (of_char a) (of_char b) (of_char c)"
  have l: "?q ! 0 < 64" "?q ! 1 < 64" "?q ! 2 < 64" "?q ! 3 < 64"
    by (simp_all add: b64_quad_lt del: One_nat_def)
  have e: "b64_encode (a # b # c # s) =
      b64_char (?q ! 0) # b64_char (?q ! 1) # b64_char (?q ! 2) # b64_char (?q ! 3) # b64_encode s"
    by (simp add: b64_quad_def)
  show ?case unfolding e using l b64_pairs [of a b c] 4 by (simp add: b64_char_plain del: One_nat_def)
qed

lemma b64_encode_chars: "x \<in> set (b64_encode s) \<Longrightarrow> x \<noteq> CHR 0x0A \<and> x \<noteq> CHR 0x0D"
proof (induction s rule: b64_encode.induct)
  case 1
  then show ?case by simp
next
  case (2 a)
  have "\<forall>y\<in>set (b64_quad (of_char a) 0 0). y < 64" by (auto intro: b64_quad_bound [rotated 3])
  then show ?case using 2 by (auto simp: b64_char_plain dest: in_set_takeD)
next
  case (3 a b)
  have "\<forall>y\<in>set (b64_quad (of_char a) (of_char b) 0). y < 64" by (auto intro: b64_quad_bound [rotated 3])
  then show ?case using 3 by (auto simp: b64_char_plain dest: in_set_takeD)
next
  case (4 a b c s)
  have "\<forall>y\<in>set (b64_quad (of_char a) (of_char b) (of_char c)). y < 64" by (auto intro: b64_quad_bound [rotated 3])
  then show ?case using 4 by (auto simp: b64_char_plain)
qed

lemma b64_decode_encode: "b64_decode (b64_encode s) = Some s"
proof -
  have "filter (\<lambda>c. c \<noteq> CHR 0x0A \<and> c \<noteq> CHR 0x0D) (b64_encode s) = b64_encode s"
    using b64_encode_chars by (auto intro!: filter_True)
  then show ?thesis by (simp add: b64_decode_def b64_quanta_encode)
qed

lemma b64_encode_Nil_iff: "b64_encode s = [] \<longleftrightarrow> s = []"
  by (cases s rule: b64_encode.cases) (auto simp: b64_quad_def)

interpretation b64: codec b64_encode b64_decode "\<lambda>_. True"
  by unfold_locales (rule b64_decode_encode)

section \<open>Package hex\<close>

fun hex_decode :: "string \<Rightarrow> string option" where
  "hex_decode [] = Some []"
| "hex_decode (a # b # s) =
     (case (hex_val a, hex_val b, hex_decode s) of
        (Some x, Some y, Some r) \<Rightarrow> Some (char_of (16 * x + y) # r)
      | _ \<Rightarrow> None)"
| "hex_decode [a] = None"

definition hex_encode :: "string \<Rightarrow> string" where
  "hex_encode s = concat (map (\<lambda>c. [hex_digit (of_char c div 16), hex_digit (of_char c mod 16)]) s)"

lemma hex_decode_encode: "hex_decode (hex_encode s) = Some s"
proof (induction s)
  case Nil
  then show ?case by (simp add: hex_encode_def)
next
  case (Cons c s)
  have "(of_char c :: nat) div 16 < 16" by (intro less_mult_imp_div_less) simp
  then show ?case using Cons by (simp add: hex_encode_def)
qed

lemma hex_encode_length: "length (hex_encode s) = 2 * length s"
  by (induction s) (auto simp: hex_encode_def)

interpretation hex: codec hex_encode hex_decode "\<lambda>_. True"
  by unfold_locales (rule hex_decode_encode)

section \<open>Ciphers\<close>

datatype cipher = AESGCM string | NoOp

definition nonce_size :: nat where
  "nonce_size = 12"

definition NewAESGCM :: "string \<Rightarrow> gerror + cipher" where
  "NewAESGCM masterKeyHex =
     (if length masterKeyHex \<noteq> 64
      then Inl (Foreign ''crypto: master key must be 64 hex characters (32 bytes)'' None)
      else (case hex_decode masterKeyHex of
              None \<Rightarrow> Inl (wrap_with [] ''crypto: decode master key'' (Foreign ''encoding/hex: invalid byte'' None))
            | Some key \<Rightarrow> Inr (AESGCM key)))"

definition rand_bytes :: "env \<Rightarrow> nat \<Rightarrow> string W" where
  "rand_bytes E n =
     bindM (draw (\<lambda>t. rand_read E t n)) (\<lambda>b.
       (case b of None \<Rightarrow> failM (Foreign ''rand: read failed'' None) | Some s \<Rightarrow> retM s))"

definition GenerateMasterKey :: "env \<Rightarrow> string W" where
  "GenerateMasterKey E = bindM (rand_bytes E 32) (\<lambda>b. retM (hex_encode b))"

definition Encrypt :: "env \<Rightarrow> cipher \<Rightarrow> string \<Rightarrow> string W" where
  "Encrypt E c plaintext =
     (case c of
        NoOp \<Rightarrow> retM plaintext
      | AESGCM key \<Rightarrow>
          bindM (wrapM [] ''crypto: generate nonce'' (rand_bytes E nonce_size)) (\<lambda>nonce.
            retM (b64_encode (nonce @ gcm_seal E key nonce plaintext))))"

definition Decrypt :: "env \<Rightarrow> cipher \<Rightarrow> string \<Rightarrow> gerror + string" where
  "Decrypt E c ciphertext =
     (case c of
        NoOp \<Rightarrow> Inr ciphertext
      | AESGCM key \<Rightarrow>
          if ciphertext = [] then Inl (Foreign ''crypto: empty ciphertext'' None)
          else (case b64_decode ciphertext of
                  None \<Rightarrow> Inl (wrap_with [] ''crypto: decode ciphertext'' (Foreign ''illegal base64 data'' None))
                | Some bs \<Rightarrow>
                    if length bs < nonce_size then Inl (Foreign ''crypto: ciphertext too short'' None)
                    else (case gcm_open E key (take nonce_size bs) (drop nonce_size bs) of
                            None \<Rightarrow> Inl (Foreign ''cipher: message authentication failed'' None)
                          | Some p \<Rightarrow> Inr p)))"

lemma quiet_rand_bytes [quiet_intros]: "quiet (rand_bytes E n)"
  unfolding rand_bytes_def by (intro quiet_intros)

lemma quiet_Encrypt [quiet_intros]: "quiet (Encrypt E c p)"
  unfolding Encrypt_def by (cases c) (auto intro!: quiet_intros)

lemma rand_bytes_Inr: "rand_ok E \<Longrightarrow> rand_bytes E n w = (Inr b, w') \<Longrightarrow> length b = n"
  by (auto simp: rand_bytes_def monad_simps rand_ok_def draw_def split: option.splits)

lemma Decrypt_Encrypt:
  assumes "gcm_ok E" "rand_ok E" and e: "Encrypt E c p w = (Inr ct, w')"
  shows "Decrypt E c ct = Inr p"
proof (cases c)
  case NoOp
  then show ?thesis using e by (simp add: Encrypt_def Decrypt_def)
next
  case (AESGCM key)
  then obtain n w1 where n: "rand_bytes E nonce_size w = (Inr n, w1)" "ct = b64_encode (n @ gcm_seal E key n p)"
    using e by (auto simp: Encrypt_def monad_simps)
  then have "length n = nonce_size" using rand_bytes_Inr [OF assms(2)] by blast
  moreover from this have "ct \<noteq> []" using n(2) by (auto simp: b64_encode_Nil_iff nonce_size_def)
  ultimately show ?thesis using AESGCM n(2) assms(1) by (simp add: Decrypt_def b64_decode_encode gcm_ok_def)
qed

section \<open>Properties\<close>

text \<open>
  Decryption inverts encryption under the same key, and a key that \<open>GenerateMasterKey\<close> returns
  is accepted by \<open>NewAESGCM\<close>.
\<close>

theorem decrypt_encrypt:
  assumes "gcm_ok E" "rand_ok E"
  shows "(\<forall>c p ct w w'. Encrypt E c p w = (Inr ct, w') \<longrightarrow> Decrypt E c ct = Inr p) \<and>
    (\<forall>k w w'. GenerateMasterKey E w = (Inr k, w') \<longrightarrow> (\<exists>b. NewAESGCM k = Inr (AESGCM b) \<and> length b = 32))"
proof (intro conjI allI impI)
  show "Decrypt E c ct = Inr p" if "Encrypt E c p w = (Inr ct, w')" for c p ct w w'
    by (rule Decrypt_Encrypt [OF assms that])
next
  fix k w w' assume "GenerateMasterKey E w = (Inr k, w')"
  then obtain b w1 where "rand_bytes E 32 w = (Inr b, w1)" "k = hex_encode b"
    by (auto simp: GenerateMasterKey_def monad_simps)
  then show "\<exists>b. NewAESGCM k = Inr (AESGCM b) \<and> length b = 32"
    using rand_bytes_Inr [OF assms(2)] by (auto simp: NewAESGCM_def hex_encode_length hex_decode_encode)
qed

theorem decrypt_encrypt_witness:
  "\<exists>ct w. Encrypt demo (AESGCM ''key'') ''secret'' (world_of empty_db) = (Inr ct, w) \<and>
     Decrypt demo (AESGCM ''key'') ct = Inr ''secret''"
proof -
  obtain ct w where e: "Encrypt demo (AESGCM ''key'') ''secret'' (world_of empty_db) = (Inr ct, w)"
    by (simp add: Encrypt_def rand_bytes_def draw_def demo_def bindM_def wrapM_def)
  then show ?thesis using decrypt_encrypt [OF demo_gcm] by blast
qed

end
