(* ===== verification/DriveSvc.thy ===== *)
theory DriveSvc
  imports NodeOp UserSvc Crypto
begin

text \<open>
  The component internal/core/drive: the drive and its storage configuration, the Ent
  repository (which joins the transaction of the context, and encrypts the storage secret),
  and the service: creation with the root directory, update, the soft-delete lifecycle, purge
  and the list queries. The root directory creator is \<open>rootNodeCreator\<close> of internal/app.
\<close>

section \<open>Data\<close>

record drive =
  d_id :: string
  d_public_id :: string
  d_name :: string
  d_description :: "string option"
  d_provider :: string
  d_owner_id :: string
  d_root_node_id :: "uuid option"
  d_deleted_at :: "time option"
  d_created_at :: time
  d_updated_at :: time

abbreviation ProviderS3 :: string where "ProviderS3 \<equiv> ''s3''"
abbreviation ProviderMinio :: string where "ProviderMinio \<equiv> ''minio''"

record storage =
  s_drive_id :: string
  s_bucket :: string
  s_endpoint :: "string option"
  s_region :: string
  s_access_key :: string
  s_secret_key :: string
  s_use_path_style :: bool

record storage_config =
  sc_bucket :: string
  sc_endpoint :: "string option"
  sc_region :: string
  sc_access_key :: string
  sc_secret_key :: string
  sc_use_path_style :: bool

text \<open>\<open>SetRootNodeID\<close>: also the update time.\<close>

definition set_root_node_id :: "env \<Rightarrow> uuid \<Rightarrow> drive \<Rightarrow> drive W" where
  "set_root_node_id E i d =
     bindM (time_Now E) (\<lambda>now. retM (d\<lparr>d_root_node_id := Some i, d_updated_at := now\<rparr>))"

definition parseProvider :: "string \<Rightarrow> string" where
  "parseProvider s = (if s = ''s3'' then ProviderS3 else if s = ''minio'' then ProviderMinio else ProviderS3)"

definition driveFromEnt :: "ent_drive \<Rightarrow> drive" where
  "driveFromEnt e = \<lparr>d_id = ed_id e, d_public_id = ed_public_id e, d_name = ed_name e,
     d_description = ed_description e, d_provider = parseProvider (ed_provider e),
     d_owner_id = ed_owner_id e, d_root_node_id = ed_root_node_id e, d_deleted_at = ed_deleted_at e,
     d_created_at = ed_create_time e, d_updated_at = ed_update_time e\<rparr>"

section \<open>Repository\<close>

definition set_text :: "bool \<Rightarrow> string" where
  "set_text b = fmt_bool b"

definition insert_drive :: "env \<Rightarrow> drive \<Rightarrow> unit W" where
  "insert_drive E d =
     bindM (time_Now E) (\<lambda>ct. bindM (time_Now E) (\<lambda>ut.
       let row = \<lparr>ed_id = d_id d, ed_public_id = d_public_id d, ed_name = d_name d,
                  ed_description = d_description d, ed_provider = d_provider d, ed_owner_id = d_owner_id d,
                  ed_root_node_id = d_root_node_id d, ed_deleted_at = None,
                  ed_create_time = ct, ed_update_time = ut\<rparr>
       in seqM (ensureM (valid_drive_row row) ent_validation)
         (seqM (io E) (bindM get_client (\<lambda>t.
           if \<exists>r\<in>set (t_drives t). ed_id r = d_id d \<or> ed_public_id r = d_public_id d
           then failM ent_constraint
           else put_client (t\<lparr>t_drives := t_drives t @ [row]\<rparr>))))))"

definition insert_storage :: "env \<Rightarrow> storage \<Rightarrow> string \<Rightarrow> unit W" where
  "insert_storage E s secret =
     (let row = \<lparr>es_drive_id = s_drive_id s, es_bucket = s_bucket s, es_endpoint = s_endpoint s,
                 es_region = s_region s, es_access_key = s_access_key s, es_secret_key = secret,
                 es_use_path_style = s_use_path_style s\<rparr>
      in seqM (ensureM (valid_storage_row row) ent_validation)
        (seqM (io E) (bindM get_client (\<lambda>t.
          if (\<exists>r\<in>set (t_storages t). es_drive_id r = s_drive_id s) \<or>
             \<not> (\<exists>r\<in>set (t_drives t). ed_id r = s_drive_id s)
          then failM ent_constraint
          else put_client (t\<lparr>t_storages := t_storages t @ [row]\<rparr>)))))"

definition drepo_create :: "env \<Rightarrow> cipher \<Rightarrow> drive \<Rightarrow> storage \<Rightarrow> unit W" where
  "drepo_create E c d s =
     seqM (wrapM [] (''drive.repo.create: id_len='' @ itoa_nat (length (d_id d)) @ '', owner_id_len='' @
             itoa_nat (length (d_owner_id d)) @ '', root_set='' @ fmt_bool (d_root_node_id d \<noteq> None))
             (insert_drive E d))
       (bindM (wrapM [] ''drive.repo.create.encrypt_secret_key'' (Encrypt E c (s_secret_key s))) (\<lambda>secret.
          wrapM [] (''drive.repo.create_storage: drive_id_len='' @ itoa_nat (length (s_drive_id s)) @
                    '', bucket='' @ s_bucket s)
            (insert_storage E s secret)))"

definition drepo_query :: "env \<Rightarrow> (ent_drive \<Rightarrow> bool) \<Rightarrow> drive option W" where
  "drepo_query E P =
     seqM (io E) (bindM get_client (\<lambda>t.
       bindM (liftM (only P (t_drives t))) (\<lambda>r. retM (map_option driveFromEnt r))))"

definition drepo_get_by_id :: "env \<Rightarrow> string \<Rightarrow> drive option W" where
  "drepo_get_by_id E i = drepo_query E (\<lambda>r. ed_id r = i)"

definition drepo_get_by_public_id :: "env \<Rightarrow> string \<Rightarrow> drive option W" where
  "drepo_get_by_public_id E i = drepo_query E (\<lambda>r. ed_public_id r = i)"

definition drepo_get_storage :: "env \<Rightarrow> cipher \<Rightarrow> string \<Rightarrow> storage option W" where
  "drepo_get_storage E c i =
     bindM (wrapM [] (''drive.repo.get_storage: drive_id='' @ i)
              (seqM (io E) (bindM get_client (\<lambda>t. liftM (only (\<lambda>r. es_drive_id r = i) (t_storages t)))))) (\<lambda>r.
       (case r of
          None \<Rightarrow> retM None
        | Some s \<Rightarrow>
            bindM (wrapM [] (''drive.repo.get_storage.decrypt: drive_id='' @ i)
                     (liftM (Decrypt E c (es_secret_key s)))) (\<lambda>secret.
              retM (Some \<lparr>s_drive_id = es_drive_id s, s_bucket = es_bucket s, s_endpoint = es_endpoint s,
                          s_region = es_region s, s_access_key = es_access_key s, s_secret_key = secret,
                          s_use_path_style = es_use_path_style s\<rparr>))))"

text \<open>\<open>UpdateOneID(id)...Save\<close>: the update time is filled in, the given columns validated.\<close>

definition update_one_drive :: "env \<Rightarrow> string \<Rightarrow> bool \<Rightarrow> (time \<Rightarrow> ent_drive \<Rightarrow> ent_drive) \<Rightarrow> drive W" where
  "update_one_drive E i valid f =
     bindM (time_Now E) (\<lambda>ut.
       seqM (ensureM valid ent_validation) (seqM (io E) (bindM get_client (\<lambda>t.
         (case find (\<lambda>r. ed_id r = i) (t_drives t) of
            None \<Rightarrow> failM ent_not_found
          | Some r \<Rightarrow>
              seqM (put_client (t\<lparr>t_drives := map_first (\<lambda>r. ed_id r = i) (f ut) (t_drives t)\<rparr>))
                (retM (driveFromEnt (f ut r))))))))"

text \<open>A nil pointer given to a \<open>SetNillable\<close> method leaves the column alone.\<close>

definition keep_none :: "'a option \<Rightarrow> 'a option \<Rightarrow> 'a option" where
  "keep_none new old = (case new of None \<Rightarrow> old | Some x \<Rightarrow> Some x)"

definition drive_set :: "drive \<Rightarrow> time \<Rightarrow> ent_drive \<Rightarrow> ent_drive" where
  "drive_set d ut r = r\<lparr>ed_name := d_name d, ed_description := keep_none (d_description d) (ed_description r),
     ed_root_node_id := keep_none (d_root_node_id d) (ed_root_node_id r),
     ed_deleted_at := keep_none (d_deleted_at d) (ed_deleted_at r), ed_update_time := ut\<rparr>"

definition drepo_update :: "env \<Rightarrow> drive \<Rightarrow> drive W" where
  "drepo_update E d =
     wrapM [] (''drive.repo.update: id_len='' @ itoa_nat (length (d_id d)) @ '', root_set='' @
               fmt_bool (d_root_node_id d \<noteq> None))
       (update_one_drive E (d_id d)
         (length (d_name d) \<le> 64 \<and> length (case d_description d of None \<Rightarrow> [] | Some x \<Rightarrow> x) \<le> 255) (drive_set d))"

definition drepo_soft_delete :: "env \<Rightarrow> string \<Rightarrow> unit W" where
  "drepo_soft_delete E i =
     bindM (time_Now E) (\<lambda>now.
       wrapM [] (''drive.repo.soft_delete: id='' @ i)
         (bindM (update_one_drive E i True (\<lambda>ut r. r\<lparr>ed_deleted_at := Some now, ed_update_time := ut\<rparr>))
           (\<lambda>_. retM ())))"

definition drepo_restore :: "env \<Rightarrow> string \<Rightarrow> unit W" where
  "drepo_restore E i =
     wrapM [] (''drive.repo.restore: id='' @ i)
       (bindM (update_one_drive E i True (\<lambda>ut r. r\<lparr>ed_deleted_at := None, ed_update_time := ut\<rparr>))
         (\<lambda>_. retM ()))"

definition drepo_delete :: "env \<Rightarrow> string \<Rightarrow> unit W" where
  "drepo_delete E i =
     seqM (wrapM [] (''drive.repo.delete_storage: id='' @ i)
             (seqM (io E) (bindM get_client (\<lambda>t.
               put_client (t\<lparr>t_storages := filter (\<lambda>r. es_drive_id r \<noteq> i) (t_storages t)\<rparr>)))))
       (wrapM [] (''drive.repo.delete_drive: id='' @ i)
          (seqM (io E) (bindM get_client (\<lambda>t.
            if \<exists>r\<in>set (t_drives t). ed_id r = i
            then put_client (t\<lparr>t_drives := filter (\<lambda>r. ed_id r \<noteq> i) (t_drives t)\<rparr>)
            else failM ent_not_found))))"

definition drepo_list :: "env \<Rightarrow> string \<Rightarrow> (ent_drive \<Rightarrow> bool) \<Rightarrow> drive list W" where
  "drepo_list E what P =
     wrapM [] what (seqM (io E) (bindM get_client (\<lambda>t. retM (map driveFromEnt (filter P (t_drives t))))))"

definition FindByOwner :: "env \<Rightarrow> string \<Rightarrow> drive list W" where
  "FindByOwner E owner =
     drepo_list E (''drive.repo.find_by_owner: owner_id_len='' @ itoa_nat (length owner))
       (\<lambda>r. ed_owner_id r = owner \<and> ed_deleted_at r = None)"

definition FindDeletedByOwner :: "env \<Rightarrow> string \<Rightarrow> drive list W" where
  "FindDeletedByOwner E owner =
     drepo_list E (''drive.repo.find_deleted_by_owner: owner_id_len='' @ itoa_nat (length owner))
       (\<lambda>r. ed_owner_id r = owner \<and> ed_deleted_at r \<noteq> None)"

text \<open>A negative \<open>LIMIT\<close> is an error of the database.\<close>

definition FindDeleted :: "env \<Rightarrow> time \<Rightarrow> int \<Rightarrow> drive list W" where
  "FindDeleted E before limit =
     wrapM [] (''drive.repo.find_deleted: limit='' @ itoa_int limit)
       (seqM (io E) (seqM (ensureM (0 \<le> limit) (Foreign ''pq: LIMIT must not be negative'' None))
         (bindM get_client (\<lambda>t. retM (map driveFromEnt (take (nat limit)
           (filter (\<lambda>r. case ed_deleted_at r of None \<Rightarrow> False | Some x \<Rightarrow> x \<le> before) (t_drives t))))))))"

section \<open>Service\<close>

definition storageCfgValid :: "storage_config \<Rightarrow> gerror option" where
  "storageCfgValid cfg =
     (if sc_bucket cfg = [] then Some (New KindInvalidArgument ''drive: storage bucket is required'')
      else if sc_region cfg = [] then Some (New KindInvalidArgument ''drive: storage region is required'')
      else None)"

definition CreateRootDirectory :: "env \<Rightarrow> uuid W" where
  "CreateRootDirectory E = bindM (CreateDirectory E) (\<lambda>root. retM (n_id root))"

definition create_drive_tx :: "env \<Rightarrow> cipher \<Rightarrow> drive \<Rightarrow> storage \<Rightarrow> uuid \<Rightarrow> drive W" where
  "create_drive_tx E c d s rootID =
     seqM (wrapM [KindUnavailable] (''drive: repo create failed (id_len='' @ itoa_nat (length (d_id d)) @
             '', owner_id_len='' @ itoa_nat (length (d_owner_id d)) @ '', root_id='' @ uuid_text E rootID @ '')'')
             (drepo_create E c d s))
       (wrapM [KindUnavailable] (''drive: repo update failed (id_len='' @ itoa_nat (length (d_id d)) @ '')'')
             (drepo_update E d))"

definition new_drive :: "string \<Rightarrow> string \<Rightarrow> string \<Rightarrow> string \<Rightarrow> time \<Rightarrow> drive" where
  "new_drive i name description actor now =
     \<lparr>d_id = i, d_public_id = i, d_name = name,
      d_description = (if description \<noteq> [] then Some description else None), d_provider = ProviderS3,
      d_owner_id = actor, d_root_node_id = None, d_deleted_at = None, d_created_at = now, d_updated_at = now\<rparr>"

definition new_storage :: "string \<Rightarrow> storage_config \<Rightarrow> storage" where
  "new_storage i cfg =
     \<lparr>s_drive_id = i, s_bucket = sc_bucket cfg, s_endpoint = sc_endpoint cfg, s_region = sc_region cfg,
      s_access_key = sc_access_key cfg, s_secret_key = sc_secret_key cfg, s_use_path_style = sc_use_path_style cfg\<rparr>"

definition CreateDrive :: "env \<Rightarrow> cipher \<Rightarrow> string \<Rightarrow> string \<Rightarrow> string \<Rightarrow> storage_config \<Rightarrow> (drive \<times> uuid) W" where
  "CreateDrive E c actor name description cfg =
     (if name = [] then failM (New KindInvalidArgument ''drive: invalid name (name is empty)'')
      else if actor = [] then failM (New KindInvalidArgument ''drive: owner_id is required'')
      else (case storageCfgValid cfg of
              Some e \<Rightarrow> failM (wrap_with [] ''drive: storage invalid'' e)
            | None \<Rightarrow>
        bindM (wrapM [KindUnavailable] (''drive: owner check failed (actor_id='' @ actor @ '')'') (user_exist E actor)) (\<lambda>exists.
        if \<not> exists then failM (New KindPermissionDenied (''drive: owner not found (actor_id='' @ actor @ '')''))
        else
          bindM (ulid_Make E) (\<lambda>i. bindM (time_Now E) (\<lambda>now.
          bindM (wrapM [KindUnavailable] (''drive: root node creation failed (id='' @ i @ '')'')
                   (CreateRootDirectory E)) (\<lambda>rootID.
          bindM (set_root_node_id E rootID (new_drive i name description actor now)) (\<lambda>d.
          bindM (wrapM [KindUnavailable] (''drive: tx failed (id='' @ i @ '', root_id='' @ uuid_text E rootID @ '')'')
                   (with_tx E (create_drive_tx E c d (new_storage i cfg) rootID))) (\<lambda>updated.
            retM (updated, rootID)))))))))"

definition DriveGetByID :: "env \<Rightarrow> string \<Rightarrow> drive W" where
  "DriveGetByID E i =
     bindM (wrapM [] (''drive: get by id (id='' @ i @ '')'') (drepo_get_by_id E i)) (\<lambda>d.
       (case d of
          None \<Rightarrow> failM (New KindNotFound (''drive: not found (id='' @ i @ '')''))
        | Some x \<Rightarrow> retM x))"

definition DriveGetByPublicID :: "env \<Rightarrow> string \<Rightarrow> drive W" where
  "DriveGetByPublicID E i =
     bindM (wrapM [] (''drive: get by public id (public_id='' @ i @ '')'') (drepo_get_by_public_id E i)) (\<lambda>d.
       (case d of
          None \<Rightarrow> failM (New KindNotFound (''drive: not found (public_id='' @ i @ '')''))
        | Some x \<Rightarrow> retM x))"

definition DriveGetStorage :: "env \<Rightarrow> cipher \<Rightarrow> string \<Rightarrow> storage W" where
  "DriveGetStorage E c i =
     bindM (wrapM [] (''drive: get storage (drive_id='' @ i @ '')'') (drepo_get_storage E c i)) (\<lambda>s.
       (case s of
          None \<Rightarrow> failM (New KindNotFound (''drive: storage not found (drive_id='' @ i @ '')''))
        | Some x \<Rightarrow> retM x))"

definition DriveUpdate :: "env \<Rightarrow> string \<Rightarrow> string \<Rightarrow> string \<Rightarrow> drive W" where
  "DriveUpdate E i name description =
     bindM (wrapM [] (''drive: update lookup (id='' @ i @ '')'') (drepo_get_by_id E i)) (\<lambda>r.
       (case r of
          None \<Rightarrow> failM (New KindNotFound (''drive: not found (id='' @ i @ '')''))
        | Some d \<Rightarrow>
            bindM (time_Now E) (\<lambda>now.
              wrapM [] (''drive: update (id='' @ i @ '')'')
                (drepo_update E (d\<lparr>d_name := (if name \<noteq> [] then name else d_name d),
                   d_description := (if description \<noteq> [] then Some description else d_description d),
                   d_updated_at := now\<rparr>)))))"

definition DriveDelete :: "env \<Rightarrow> string \<Rightarrow> unit W" where
  "DriveDelete E i =
     bindM (DriveGetByID E i) (\<lambda>_.
       wrapM [] (''drive: soft delete (id='' @ i @ '')'') (drepo_soft_delete E i))"

definition DriveRestore :: "env \<Rightarrow> string \<Rightarrow> drive W" where
  "DriveRestore E i =
     bindM (DriveGetByID E i) (\<lambda>d.
       if d_deleted_at d = None
       then failM (New KindFailedPrecondition (''drive: not deleted (id='' @ i @ '')''))
       else seqM (wrapM [] (''drive: restore (id='' @ i @ '')'') (drepo_restore E i)) (DriveGetByID E i))"

definition DrivePurge :: "env \<Rightarrow> string \<Rightarrow> unit W" where
  "DrivePurge E i = wrapM [] (''drive: purge (id='' @ i @ '')'') (drepo_delete E i)"

definition ListDeletedForAdmin :: "env \<Rightarrow> bool \<Rightarrow> time \<Rightarrow> int \<Rightarrow> drive list W" where
  "ListDeletedForAdmin E isAdmin before limit =
     (if \<not> isAdmin then failM (New KindPermissionDenied ''permission: denied'')
      else FindDeleted E before limit)"

definition ListDeletedByOwner :: "env \<Rightarrow> string \<Rightarrow> drive list W" where
  "ListDeletedByOwner E actor = FindDeletedByOwner E actor"

definition ListByOwner :: "env \<Rightarrow> string \<Rightarrow> drive list W" where
  "ListByOwner E actor = FindByOwner E actor"

definition DriveWithTx :: "env \<Rightarrow> 'a W \<Rightarrow> 'a W" where
  "DriveWithTx E f = with_tx E f"

section \<open>Which operations write\<close>

lemma quiet_drive_reads [quiet_intros]:
  "quiet (drepo_query E P)" "quiet (drepo_get_by_id E i)" "quiet (drepo_get_by_public_id E i)"
  "quiet (drepo_get_storage E c i)" "quiet (drepo_list E what Q)" "quiet (FindByOwner E i)"
  "quiet (FindDeletedByOwner E i)" "quiet (FindDeleted E t l)" "quiet (DriveGetByID E i)"
  "quiet (DriveGetByPublicID E i)" "quiet (DriveGetStorage E c i)" "quiet (set_root_node_id E u d)"
  unfolding DriveGetByID_def DriveGetByPublicID_def DriveGetStorage_def drepo_get_by_id_def
    drepo_get_by_public_id_def drepo_get_storage_def FindByOwner_def FindDeletedByOwner_def FindDeleted_def
    drepo_query_def drepo_list_def set_root_node_id_def
  by (intro quiet_intros)+

lemma tx_safe_drive [txsafe_intros]:
  "tx_safe (insert_drive E d)" "tx_safe (insert_storage E s x)" "tx_safe (drepo_create E c d s)"
  "tx_safe (update_one_drive E i v f)" "tx_safe (drepo_update E d)" "tx_safe (create_drive_tx E c d s u)"
  unfolding create_drive_tx_def drepo_create_def drepo_update_def insert_drive_def insert_storage_def
    update_one_drive_def Let_def
  by (intro txsafe_intros tx_safe_quiet [OF quiet_Encrypt])+

lemma update_one_drive_Inl: "update_one_drive E i v f w = (Inl e, w') \<Longrightarrow> same_store w' w"
  by (auto simp: update_one_drive_def monad_simps dest!: io_Inr io_Inl split: if_splits option.splits)

lemma update_one_drive_Inr:
  assumes "update_one_drive E i v f w = (Inr d, w')"
  obtains r ut where "find (\<lambda>r. ed_id r = i) (t_drives (client w)) = Some r" "d = driveFromEnt (f ut r)" "v"
    "client w' = (client w)\<lparr>t_drives := map_first (\<lambda>r. ed_id r = i) (f ut) (t_drives (client w))\<rparr>"
    "w_tx w = None \<Longrightarrow> w_tx w' = None \<and> w_db w' = client w'"
proof -
  let ?ut = "clock E (w_tick w)"
  obtain r where "find (\<lambda>r. ed_id r = i) (t_drives (client w)) = Some r \<and> d = driveFromEnt (f ?ut r) \<and> v \<and>
    client w' = (client w)\<lparr>t_drives := map_first (\<lambda>r. ed_id r = i) (f ?ut) (t_drives (client w))\<rparr> \<and>
    (w_tx w = None \<longrightarrow> w_tx w' = None \<and> w_db w' = client w')"
    using assms by (auto simp: update_one_drive_def monad_simps dest!: io_Inr split: if_splits option.splits)
  then show thesis by (intro that [of r ?ut]) simp_all
qed

section \<open>Rows\<close>

definition drive_row :: "db \<Rightarrow> string \<Rightarrow> ent_drive option" where
  "drive_row d i = find (\<lambda>r. ed_id r = i) (t_drives d)"

definition drives_ok :: "db \<Rightarrow> bool" where
  "drives_ok d \<longleftrightarrow> distinct (map ed_id (t_drives d))"

lemma find_map_first_same:
  "find P rs = Some r \<Longrightarrow> P (g r) \<Longrightarrow> find P (map_first P g rs) = Some (g r)"
  by (induction rs) (auto split: if_splits)

lemma find_map_first_other:
  "(\<And>r. P r \<Longrightarrow> \<not> Q r \<and> \<not> Q (g r)) \<Longrightarrow> find Q (map_first P g rs) = find Q rs"
  by (induction rs) auto

lemma drive_row_map_first:
  assumes "\<And>r. ed_id (g r) = ed_id r" "drive_row d i = Some r"
  shows "drive_row (d\<lparr>t_drives := map_first (\<lambda>r. ed_id r = i) g (t_drives d)\<rparr>) =
    (drive_row d)(i \<mapsto> g r)"
proof
  fix j
  have "ed_id r = i" using assms(2) find_Some_set by (fastforce simp: drive_row_def)
  then show "drive_row (d\<lparr>t_drives := map_first (\<lambda>r. ed_id r = i) g (t_drives d)\<rparr>) j = ((drive_row d)(i \<mapsto> g r)) j"
    using assms find_map_first_same [of "\<lambda>r. ed_id r = i" "t_drives d" r g]
      find_map_first_other [of "\<lambda>r. ed_id r = i" "\<lambda>r. ed_id r = j" g "t_drives d"]
    by (cases "j = i") (simp_all add: drive_row_def)
qed

lemma drives_ok_map_first:
  "(\<And>r. ed_id (g r) = ed_id r) \<Longrightarrow> drives_ok d \<Longrightarrow>
   drives_ok (d\<lparr>t_drives := map_first (\<lambda>r. ed_id r = i) g (t_drives d)\<rparr>)"
  by (simp add: drives_ok_def map_first_map)

lemma drives_ok_row: "drives_ok d \<Longrightarrow> r \<in> set (t_drives d) \<Longrightarrow> drive_row d (ed_id r) = Some r"
  using find_distinct [of ed_id "t_drives d" r] by (simp add: drives_ok_def drive_row_def)

lemma driveFromEnt_simps [simp]:
  "d_id (driveFromEnt r) = ed_id r" "d_deleted_at (driveFromEnt r) = ed_deleted_at r"
  "d_root_node_id (driveFromEnt r) = ed_root_node_id r" "d_name (driveFromEnt r) = ed_name r"
  "d_owner_id (driveFromEnt r) = ed_owner_id r"
  by (simp_all add: driveFromEnt_def)

lemma drepo_query_Inr:
  "drepo_query E P w = (Inr d, w') \<Longrightarrow>
     \<exists>r. only P (t_drives (client w)) = Inr r \<and> d = map_option driveFromEnt r \<and> w' = w\<lparr>w_tick := Suc (w_tick w)\<rparr>"
  by (auto simp: drepo_query_def monad_simps dest!: io_Inr)

lemma only_find: "only P rows = Inr r \<Longrightarrow> find P rows = r"
proof (cases r)
  case None
  assume "only P rows = Inr r"
  then show ?thesis using None by (simp add: only_None find_None_iff)
next
  case (Some x)
  assume "only P rows = Inr r"
  then have "filter P rows = [x]" using Some by (auto simp: only_def split: list.splits)
  then have "find P rows = Some x" by (induction rows) (auto split: if_splits)
  then show ?thesis using Some by simp
qed

lemma DriveGetByID_Inr:
  assumes "DriveGetByID E i w = (Inr d, w')"
  shows "\<exists>r. drive_row (client w) i = Some r \<and> d = driveFromEnt r" "same_store w' w"
proof -
  show "\<exists>r. drive_row (client w) i = Some r \<and> d = driveFromEnt r"
  proof -
    have "drepo_query E (\<lambda>r. ed_id r = i) w = (Inr (Some d), w')"
      using assms by (auto simp: DriveGetByID_def drepo_get_by_id_def monad_simps split: option.splits)
    then obtain r where r: "only (\<lambda>r. ed_id r = i) (t_drives (client w)) = Inr r" "Some d = map_option driveFromEnt r"
      using drepo_query_Inr by blast
    then have "drive_row (client w) i = r" using only_find unfolding drive_row_def by blast
    then show ?thesis using r(2) by (cases r) simp_all
  qed
  show "same_store w' w" using quietD [OF quiet_drive_reads(9) assms] .
qed

lemma FindByOwner_Inr:
  "FindByOwner E owner w = (Inr ds, w') \<Longrightarrow>
   ds = map driveFromEnt (filter (\<lambda>r. ed_owner_id r = owner \<and> ed_deleted_at r = None) (t_drives (client w)))"
  by (auto simp: FindByOwner_def drepo_list_def monad_simps dest!: io_Inr)

lemma ListByOwner_active:
  assumes "ListByOwner E owner w = (Inr ds, v)" "i \<in> d_id ` set ds"
  shows "\<exists>s\<in>set (t_drives (client w)). ed_id s = i \<and> ed_deleted_at s = None \<and> ed_owner_id s = owner"
proof -
  have "FindByOwner E owner w = (Inr ds, v)" using assms(1) by (simp add: ListByOwner_def)
  from FindByOwner_Inr [OF this] show ?thesis using assms(2) by auto
qed

section \<open>Properties\<close>

text \<open>One update of a drive row, as the soft deletion and the restore make it.\<close>

lemma update_one_row:
  assumes u: "update_one_drive E i True (\<lambda>ut r. f ut r) v = (Inr x, w')" and v: "client v = d" "w_tx v = None" "drives_ok d"
    and f: "\<And>ut r. ed_id (f ut r) = ed_id r" "\<And>ut r. ed_public_id (f ut r) = ed_public_id r"
  obtains r ut where "drive_row d i = Some r" "drive_row (w_db w') = (drive_row d)(i \<mapsto> f ut r)" "drives_ok (w_db w')"
    "w_tx w' = None"
proof -
  obtain r ut where r: "drive_row d i = Some r"
    and cl: "client w' = d\<lparr>t_drives := map_first (\<lambda>r. ed_id r = i) (f ut) (t_drives d)\<rparr>"
    and t: "w_tx w' = None" "w_db w' = client w'"
    by (rule update_one_drive_Inr [OF u]) (auto simp: v drive_row_def)
  have "drive_row (w_db w') = (drive_row d)(i \<mapsto> f ut r)" using drive_row_map_first [OF _ r, of "f ut"] f cl t(2) by simp
  moreover have "drives_ok (w_db w')" using drives_ok_map_first [OF _ v(3), of "f ut" i] f cl t(2) by simp
  ultimately show thesis using that r t(1) by blast
qed

lemma DriveDelete_row:
  assumes "w_tx w = None" "drives_ok (w_db w)" "DriveDelete E i w = (Inr u, w')"
  obtains r now ut where "drive_row (w_db w) i = Some r" "drives_ok (w_db w')" "w_tx w' = None"
    "drive_row (w_db w') = (drive_row (w_db w))(i \<mapsto> r\<lparr>ed_deleted_at := Some now, ed_update_time := ut\<rparr>)"
proof -
  obtain d0 v d1 where g: "DriveGetByID E i w = (Inr d0, v)"
    and u: "update_one_drive E i True (\<lambda>ut r. r\<lparr>ed_deleted_at := Some (clock E (w_tick v)), ed_update_time := ut\<rparr>)
      (v\<lparr>w_tick := Suc (w_tick v)\<rparr>) = (Inr d1, w')"
    using assms(3) by (auto simp: DriveDelete_def drepo_soft_delete_def monad_simps)
  have "client (v\<lparr>w_tick := Suc (w_tick v)\<rparr>) = w_db w" "w_tx (v\<lparr>w_tick := Suc (w_tick v)\<rparr>) = None"
    using DriveGetByID_Inr(2) [OF g] assms(1) by (auto simp: same_store_def client_def)
  from update_one_row [OF u this assms(2)] show thesis using that by auto
qed

lemma DriveRestore_row:
  assumes "w_tx w = None" "drives_ok (w_db w)" "DriveRestore E i w = (Inr d, w')"
  obtains r ut where "drive_row (w_db w) i = Some r" "d = driveFromEnt (r\<lparr>ed_deleted_at := None, ed_update_time := ut\<rparr>)"
    "drive_row (w_db w') = (drive_row (w_db w))(i \<mapsto> r\<lparr>ed_deleted_at := None, ed_update_time := ut\<rparr>)"
proof -
  obtain d2 v d3 v' where g: "DriveGetByID E i w = (Inr d2, v)"
    and u: "update_one_drive E i True (\<lambda>ut r. r\<lparr>ed_deleted_at := None, ed_update_time := ut\<rparr>) v = (Inr d3, v')"
    and g': "DriveGetByID E i v' = (Inr d, w')"
    using assms(3) by (auto simp: DriveRestore_def drepo_restore_def monad_simps split: if_splits)
  have v: "client v = w_db w" "w_tx v = None"
    using quiet_client [OF quiet_drive_reads(9) g] quiet_db [OF quiet_drive_reads(9) g] assms(1) by (simp_all add: client_no_tx)
  obtain r ut where r: "drive_row (w_db w) i = Some r" "w_tx v' = None"
    "drive_row (w_db v') = (drive_row (w_db w))(i \<mapsto> r\<lparr>ed_deleted_at := None, ed_update_time := ut\<rparr>)"
    by (rule update_one_row [OF u v assms(2)]) auto
  have "w_db w' = w_db v'" using DriveGetByID_Inr(2) [OF g'] by (simp add: same_store_def)
  moreover obtain r3 where "drive_row (w_db v') i = Some r3" "d = driveFromEnt r3"
    using DriveGetByID_Inr(1) [OF g'] r(2) by (auto simp: client_no_tx)
  ultimately show thesis using r by (intro that [OF r(1), of ut]) simp_all
qed

lemma deleted_not_listed:
  assumes "w_tx w = None" "drives_ok (w_db w)" "drive_row (w_db w) i = Some r" "ed_deleted_at r \<noteq> None"
    "ListByOwner E owner w = (Inr ds, w')"
  shows "i \<notin> d_id ` set ds"
proof
  assume "i \<in> d_id ` set ds"
  then obtain s where "s \<in> set (t_drives (w_db w))" "ed_id s = i" "ed_deleted_at s = None"
    using ListByOwner_active [OF assms(5)] assms(1) by (auto simp: client_no_tx)
  then show False using drives_ok_row [OF assms(2)] assms(3,4) by auto
qed

text \<open>
  C29. The soft-delete lifecycle. Deleting a drive marks its row, so that no list of active drives
  shows it; restoring it afterwards gives back the row it had, with a new update time; no
  other drive changes. Purging removes the drive and its storage for good.
\<close>

theorem drive_lifecycle:
  assumes w: "w_tx w = None" "drives_ok (w_db w)"
  shows "(\<forall>w1. DriveDelete E i w = (Inr (), w1) \<longrightarrow>
      (\<exists>r. drive_row (w_db w) i = Some r \<and> drives_ok (w_db w1) \<and>
        (\<forall>owner ds v. ListByOwner E owner w1 = (Inr ds, v) \<longrightarrow> i \<notin> d_id ` set ds) \<and>
        (\<forall>d w2. DriveRestore E i w1 = (Inr d, w2) \<longrightarrow>
          (\<exists>ut. d = driveFromEnt (r\<lparr>ed_deleted_at := None, ed_update_time := ut\<rparr>) \<and>
            drive_row (w_db w2) = (drive_row (w_db w))(i \<mapsto> r\<lparr>ed_deleted_at := None, ed_update_time := ut\<rparr>))))) \<and>
    (\<forall>w1. DrivePurge E i w = (Inr (), w1) \<longrightarrow>
      drive_row (w_db w1) i = None \<and> (\<forall>s\<in>set (t_storages (w_db w1)). es_drive_id s \<noteq> i))"
proof (intro conjI allI impI)
  fix w1 assume del: "DriveDelete E i w = (Inr (), w1)"
  obtain r now ut where r: "drive_row (w_db w) i = Some r" "drives_ok (w_db w1)" "w_tx w1 = None"
    "drive_row (w_db w1) = (drive_row (w_db w))(i \<mapsto> r\<lparr>ed_deleted_at := Some now, ed_update_time := ut\<rparr>)"
    by (rule DriveDelete_row [OF w del])
  have row: "drive_row (w_db w1) i = Some (r\<lparr>ed_deleted_at := Some now, ed_update_time := ut\<rparr>)" by (simp add: r(4))
  have "i \<notin> d_id ` set ds" if "ListByOwner E owner w1 = (Inr ds, v)" for owner ds v
    by (rule deleted_not_listed [OF r(3,2) row _ that]) simp
  moreover have "\<exists>ut. d = driveFromEnt (r\<lparr>ed_deleted_at := None, ed_update_time := ut\<rparr>) \<and>
      drive_row (w_db w2) = (drive_row (w_db w))(i \<mapsto> r\<lparr>ed_deleted_at := None, ed_update_time := ut\<rparr>)"
    if "DriveRestore E i w1 = (Inr d, w2)" for d w2
    by (rule DriveRestore_row [OF r(3,2) that]) (auto simp: r(4))
  ultimately show "\<exists>r. drive_row (w_db w) i = Some r \<and> drives_ok (w_db w1) \<and>
        (\<forall>owner ds v. ListByOwner E owner w1 = (Inr ds, v) \<longrightarrow> i \<notin> d_id ` set ds) \<and>
        (\<forall>d w2. DriveRestore E i w1 = (Inr d, w2) \<longrightarrow>
          (\<exists>ut. d = driveFromEnt (r\<lparr>ed_deleted_at := None, ed_update_time := ut\<rparr>) \<and>
            drive_row (w_db w2) = (drive_row (w_db w))(i \<mapsto> r\<lparr>ed_deleted_at := None, ed_update_time := ut\<rparr>)))"
    using r(1,2) by blast
next
  fix w1 assume p: "DrivePurge E i w = (Inr (), w1)"
  then show "drive_row (w_db w1) i = None" "\<forall>s\<in>set (t_storages (w_db w1)). es_drive_id s \<noteq> i"
    using w(1) by (auto simp: DrivePurge_def drepo_delete_def monad_simps drive_row_def find_None_iff client_no_tx
        dest!: io_Inr split: if_splits)
qed

definition demo_drive_row :: ent_drive where
  "demo_drive_row = \<lparr>ed_id = ''d1'', ed_public_id = ''d1'', ed_name = ''data'', ed_description = None,
     ed_provider = ''s3'', ed_owner_id = ''u1'', ed_root_node_id = Some 1, ed_deleted_at = None,
     ed_create_time = 1, ed_update_time = 1\<rparr>"

definition demo_drives :: world where
  "demo_drives = world_of (empty_db\<lparr>t_drives := [demo_drive_row]\<rparr>)"

lemmas drive_eval = run_eval only_def update_one_drive_def DriveGetByID_def drepo_get_by_id_def drepo_query_def
  driveFromEnt_def client_def world_of_def empty_db_def

theorem drive_lifecycle_witness:
  "\<exists>w1. DriveDelete demo ''d1'' demo_drives = (Inr (), w1) \<and>
     (\<forall>owner ds v. ListByOwner demo owner w1 = (Inr ds, v) \<longrightarrow> ''d1'' \<notin> d_id ` set ds)"
proof -
  have w: "w_tx demo_drives = None" "drives_ok (w_db demo_drives)"
    by (simp_all add: demo_drives_def world_of_def empty_db_def drives_ok_def)
  have "\<exists>w1. DriveDelete demo ''d1'' demo_drives = (Inr (), w1)"
    by (simp add: DriveDelete_def drepo_soft_delete_def demo_drives_def demo_drive_row_def drive_eval put_db_def put_client_def)
  then obtain w1 where d: "DriveDelete demo ''d1'' demo_drives = (Inr (), w1)" by blast
  have "\<forall>owner ds v. ListByOwner demo owner w1 = (Inr ds, v) \<longrightarrow> ''d1'' \<notin> d_id ` set ds"
    using drive_lifecycle [OF w, of demo "''d1''"] d by blast
  then show ?thesis using d by blast
qed

section \<open>Creation\<close>

lemma CreateDirectory_Inr:
  assumes "uuid_codec E" "CreateDirectory E w = (Inr n, w')"
  shows "holds_dir E n None" "n_nlink n = 0" "client w' = set_node n (client w)"
    "w_tx w = None \<Longrightarrow> w_tx w' = None \<and> w_db w' = client w'"
proof -
  obtain n0 w1 where a: "NewDirectory E w = (Inr n0, w1)" and s: "repo_save E n0 w1 = (Inr n, w')"
    using assms(2) by (auto simp: CreateDirectory_def create_def monad_simps)
  have f: "fresh_node NodeKindDirectory (dir_marshal E None) 0 n0"
    using a unfolding NewDirectory_def by (rule new_then_write_Inr)
  have q: "client w1 = client w" "w_tx w1 = w_tx w"
    using quiet_client [OF quiet_constructors(6) a] quiet_db [OF quiet_constructors(6) a] by simp_all
  show "holds_dir E n None" using f save_client [OF s] assms(1) by (simp add: holds_dir_def fresh_node_def dir_exact_def)
  show "n_nlink n = 0" using f save_client [OF s] by (simp add: fresh_node_def)
  show "client w' = set_node n (client w)" using save_client [OF s] q by simp
  show "w_tx w = None \<Longrightarrow> w_tx w' = None \<and> w_db w' = client w'"
    using repo_save_Inr(4) [OF s] q(2) by simp
qed

lemma insert_drive_Inr:
  assumes "insert_drive E d w = (Inr u, w')"
  obtains row where "client w' = (client w)\<lparr>t_drives := t_drives (client w) @ [row]\<rparr>"
    "\<forall>r\<in>set (t_drives (client w)). ed_id r \<noteq> d_id d" "ed_id row = d_id d" "ed_name row = d_name d"
    "ed_owner_id row = d_owner_id d" "ed_root_node_id row = d_root_node_id d" "ed_deleted_at row = None"
    "ed_description row = d_description d" "ed_public_id row = d_public_id d" "ed_provider row = d_provider d"
proof -
  have "\<exists>row. client w' = (client w)\<lparr>t_drives := t_drives (client w) @ [row]\<rparr> \<and>
    (\<forall>r\<in>set (t_drives (client w)). ed_id r \<noteq> d_id d) \<and> ed_id row = d_id d \<and> ed_name row = d_name d \<and>
    ed_owner_id row = d_owner_id d \<and> ed_root_node_id row = d_root_node_id d \<and> ed_deleted_at row = None \<and>
    ed_description row = d_description d \<and> ed_public_id row = d_public_id d \<and> ed_provider row = d_provider d"
    using assms by (auto simp: insert_drive_def monad_simps Let_def dest!: io_Inr split: if_splits)
  then show thesis using that by blast
qed

lemma insert_storage_Inr:
  assumes "insert_storage E s x w = (Inr u, w')"
  shows "client w' = (client w)\<lparr>t_storages := t_storages (client w) @
      [\<lparr>es_drive_id = s_drive_id s, es_bucket = s_bucket s, es_endpoint = s_endpoint s, es_region = s_region s,
        es_access_key = s_access_key s, es_secret_key = x, es_use_path_style = s_use_path_style s\<rparr>]\<rparr>"
    "\<forall>r\<in>set (t_storages (client w)). es_drive_id r \<noteq> s_drive_id s"
  using assms by (auto simp: insert_storage_def monad_simps Let_def dest!: io_Inr split: if_splits)

lemma map_first_append_new:
  "\<forall>r\<in>set rs. \<not> P r \<Longrightarrow> P x \<Longrightarrow> map_first P f (rs @ [x]) = rs @ [f x]"
  by (induction rs) auto

lemma find_append_new: "\<forall>r\<in>set rs. \<not> P r \<Longrightarrow> P x \<Longrightarrow> find P (rs @ [x]) = Some x"
  by (induction rs) auto

lemma create_drive_tx_Inr:
  assumes "create_drive_tx E c d s root w = (Inr d', w')" "s_drive_id s = d_id d"
  obtains row secret v v1 where
    "client w' = (client w)\<lparr>t_drives := t_drives (client w) @ [row],
       t_storages := t_storages (client w) @ [\<lparr>es_drive_id = s_drive_id s, es_bucket = s_bucket s,
         es_endpoint = s_endpoint s, es_region = s_region s, es_access_key = s_access_key s,
         es_secret_key = secret, es_use_path_style = s_use_path_style s\<rparr>]\<rparr>"
    "d' = driveFromEnt row" "Encrypt E c (s_secret_key s) v = (Inr secret, v1)" "ed_id row = d_id d"
    "ed_name row = d_name d" "ed_owner_id row = d_owner_id d"
    "ed_root_node_id row = d_root_node_id d" "ed_deleted_at row = keep_none (d_deleted_at d) None"
    "\<forall>r\<in>set (t_drives (client w)). ed_id r \<noteq> d_id d"
    "\<forall>r\<in>set (t_storages (client w)). es_drive_id r \<noteq> d_id d"
proof -
  obtain u1 w1 secret w2 u2 w3 where a: "insert_drive E d w = (Inr u1, w1)" "Encrypt E c (s_secret_key s) w1 = (Inr secret, w2)"
    "insert_storage E s secret w2 = (Inr u2, w3)"
    and u: "update_one_drive E (d_id d) (length (d_name d) \<le> 64 \<and>
        length (case d_description d of None \<Rightarrow> [] | Some x \<Rightarrow> x) \<le> 255) (drive_set d) w3 = (Inr d', w')"
    using assms(1) by (auto simp: create_drive_tx_def drepo_create_def drepo_update_def monad_simps)
  obtain row where r: "client w1 = (client w)\<lparr>t_drives := t_drives (client w) @ [row]\<rparr>"
    "\<forall>r\<in>set (t_drives (client w)). ed_id r \<noteq> d_id d" "ed_id row = d_id d" "ed_root_node_id row = d_root_node_id d"
    "ed_deleted_at row = None" "ed_owner_id row = d_owner_id d"
    by (rule insert_drive_Inr [OF a(1)])
  have w2: "client w2 = client w1" by (rule quiet_client [OF quiet_Encrypt a(2)])
  note st = insert_storage_Inr [OF a(3)]
  obtain r2 ut where f: "find (\<lambda>r. ed_id r = d_id d) (t_drives (client w3)) = Some r2" "d' = driveFromEnt (drive_set d ut r2)"
    and cl: "client w' = (client w3)\<lparr>t_drives := map_first (\<lambda>r. ed_id r = d_id d) (drive_set d ut) (t_drives (client w3))\<rparr>"
    by (rule update_one_drive_Inr [OF u])
  have t: "t_drives (client w3) = t_drives (client w) @ [row]" using st(1) w2 r(1) by simp
  have "r2 = row" using f(1) find_append_new [OF r(2,3)] unfolding t by simp
  then have d: "d' = driveFromEnt (drive_set d ut row)" using f(2) by simp
  have c: "client w' = (client w)\<lparr>t_drives := t_drives (client w) @ [drive_set d ut row],
       t_storages := t_storages (client w) @ [\<lparr>es_drive_id = s_drive_id s, es_bucket = s_bucket s,
         es_endpoint = s_endpoint s, es_region = s_region s, es_access_key = s_access_key s,
         es_secret_key = secret, es_use_path_style = s_use_path_style s\<rparr>]\<rparr>"
    using cl map_first_append_new [OF r(2,3), of "drive_set d ut"] st(1) w2 r(1) unfolding t by simp
  have e: "ed_root_node_id (drive_set d ut row) = d_root_node_id d" "ed_id (drive_set d ut row) = d_id d"
    "ed_deleted_at (drive_set d ut row) = keep_none (d_deleted_at d) None" "ed_name (drive_set d ut row) = d_name d"
    "ed_owner_id (drive_set d ut row) = d_owner_id d"
    using r by (auto simp: drive_set_def keep_none_def split: option.splits)
  show thesis
    by (rule that [OF c d a(2) e(2,4,5,1,3) r(2)]) (use st(2) w2 r(1) assms(2) in simp)
qed

lemma storage_after_create:
  assumes "gcm_ok E" "rand_ok E" and e: "Encrypt E c (s_secret_key s) v = (Inr secret, v1)"
    and t: "t_storages (client w) = old @ [\<lparr>es_drive_id = s_drive_id s, es_bucket = s_bucket s,
         es_endpoint = s_endpoint s, es_region = s_region s, es_access_key = s_access_key s,
         es_secret_key = secret, es_use_path_style = s_use_path_style s\<rparr>]"
      "\<forall>r\<in>set old. es_drive_id r \<noteq> s_drive_id s"
    and g: "DriveGetStorage E c (s_drive_id s) w = (Inr st, w')"
  shows "st = s"
proof -
  let ?row = "\<lparr>es_drive_id = s_drive_id s, es_bucket = s_bucket s,
         es_endpoint = s_endpoint s, es_region = s_region s, es_access_key = s_access_key s,
         es_secret_key = secret, es_use_path_style = s_use_path_style s\<rparr>"
  have "only (\<lambda>r. es_drive_id r = s_drive_id s) (t_storages (client w)) = Inr (Some ?row)"
    using only_append_new [of old "\<lambda>r. es_drive_id r = s_drive_id s" ?row] t by simp
  then show ?thesis using g Decrypt_Encrypt [OF assms(1,2) e]
    by (auto simp: DriveGetStorage_def drepo_get_storage_def monad_simps dest!: io_Inr split: option.splits)
qed

lemma CreateDrive_steps:
  assumes "CreateDrive E c actor name description cfg w = (Inr (d, root), w')"
  obtains w1 wi i wn now w3 n wf now2 where "user_exist E actor w = (Inr True, w1)"
    "ulid_Make E w1 = (Inr i, wi)" "time_Now E wi = (Inr now, wn)"
    "CreateDirectory E wn = (Inr n, w3)" "root = n_id n" "time_Now E w3 = (Inr now2, wf)"
    "with_tx E (create_drive_tx E c ((new_drive i name description actor now)\<lparr>d_root_node_id := Some root,
        d_updated_at := now2\<rparr>) (new_storage i cfg) root) wf = (Inr d, w')"
proof -
  have nc: "storageCfgValid cfg = None" "name \<noteq> []" "actor \<noteq> []"
    using assms by (auto simp: CreateDrive_def split: if_splits option.splits)
  obtain b w1 where b: "user_exist E actor w = (Inr b, w1)"
    and r: "(if \<not> b then failM (New KindPermissionDenied (''drive: owner not found (actor_id='' @ actor @ '')''))
        else
          bindM (ulid_Make E) (\<lambda>i. bindM (time_Now E) (\<lambda>now.
          bindM (wrapM [KindUnavailable] (''drive: root node creation failed (id='' @ i @ '')'')
                   (CreateRootDirectory E)) (\<lambda>rootID.
          bindM (set_root_node_id E rootID (new_drive i name description actor now)) (\<lambda>d.
          bindM (wrapM [KindUnavailable] (''drive: tx failed (id='' @ i @ '', root_id='' @ uuid_text E rootID @ '')'')
                   (with_tx E (create_drive_tx E c d (new_storage i cfg) rootID))) (\<lambda>updated.
            retM (updated, rootID))))))) w1 = (Inr (d, root), w')"
    using assms nc unfolding CreateDrive_def by (auto simp: bindM_Inr_iff wrapM_Inr_iff)
  have bt: "b" using r by (cases b) auto
  show thesis
    using r b bt that unfolding CreateRootDirectory_def set_root_node_id_def
    by (simp add: bindM_Inr_iff wrapM_Inr_iff) blast
qed

lemma user_exist_True:
  assumes "user_exist E i w = (Inr True, w')"
  shows "\<exists>u\<in>set (t_users (w_db w)). eu_id u = i"
proof -
  obtain u v where "user_query E ''user.repo.get_by_id'' (\<lambda>r. eu_id r = i) w = (Inr (Some u), v)"
    using assms by (auto simp: user_exist_def user_get_by_id_def monad_simps)
  from user_query_Inr [OF this] obtain r where "only (\<lambda>r. eu_id r = i) (t_users (w_db w)) = Inr r" "Some u = map_option user_from_ent r"
    by auto
  then show ?thesis by (cases r) (auto dest: only_Some)
qed

text \<open>The transaction of a creation, with its rows: what it commits and what is read back.\<close>

lemma create_drive_committed:
  assumes w: "w_tx w = None" and tx: "with_tx E (create_drive_tx E c ((new_drive i name description actor now)\<lparr>d_root_node_id := Some root,
        d_updated_at := now2\<rparr>) (new_storage i cfg) root) w = (Inr d, w')"
  obtains row srow where "w_db w' = (w_db w)\<lparr>t_drives := t_drives (w_db w) @ [row], t_storages := t_storages (w_db w) @ [srow]\<rparr>"
    "d = driveFromEnt row" "es_drive_id srow = d_id d" "d_name d = name" "d_owner_id d = actor" "d_root_node_id d = Some root"
    "d_deleted_at d = None" "drive_row (w_db w) (d_id d) = None"
    "\<And>st w2. gcm_ok E \<Longrightarrow> rand_ok E \<Longrightarrow> DriveGetStorage E c (d_id d) w' = (Inr st, w2) \<Longrightarrow> st = new_storage (d_id d) cfg"
proof -
  let ?d = "(new_drive i name description actor now)\<lparr>d_root_node_id := Some root, d_updated_at := now2\<rparr>"
  let ?s = "new_storage i cfg"
  obtain v v' where b: "create_drive_tx E c ?d ?s root v = (Inr d, v')" "client v = w_db w" "w_db w' = client v'" "w_tx w' = None"
    by (rule committed_body [OF tx_safe_drive(6) w tx])
  have si: "s_drive_id ?s = d_id ?d" by (simp add: new_storage_def new_drive_def)
  obtain row secret u u1 where r: "client v' = (client v)\<lparr>t_drives := t_drives (client v) @ [row],
       t_storages := t_storages (client v) @ [\<lparr>es_drive_id = s_drive_id ?s, es_bucket = s_bucket ?s,
         es_endpoint = s_endpoint ?s, es_region = s_region ?s, es_access_key = s_access_key ?s,
         es_secret_key = secret, es_use_path_style = s_use_path_style ?s\<rparr>]\<rparr>"
    "d = driveFromEnt row" "Encrypt E c (s_secret_key ?s) u = (Inr secret, u1)" "ed_id row = d_id ?d"
    "ed_name row = d_name ?d" "ed_owner_id row = d_owner_id ?d"
    "ed_root_node_id row = d_root_node_id ?d" "ed_deleted_at row = keep_none (d_deleted_at ?d) None"
    "\<forall>r\<in>set (t_drives (client v)). ed_id r \<noteq> d_id ?d"
    "\<forall>r\<in>set (t_storages (client v)). es_drive_id r \<noteq> d_id ?d"
    by (rule create_drive_tx_Inr [OF b(1) si])
  let ?srow = "\<lparr>es_drive_id = s_drive_id ?s, es_bucket = s_bucket ?s,
         es_endpoint = s_endpoint ?s, es_region = s_region ?s, es_access_key = s_access_key ?s,
         es_secret_key = secret, es_use_path_style = s_use_path_style ?s\<rparr>"
  have db: "w_db w' = (w_db w)\<lparr>t_drives := t_drives (w_db w) @ [row], t_storages := t_storages (w_db w) @ [?srow]\<rparr>"
    using b(2,3) r(1) by simp
  have id: "d_id d = i" "s_drive_id ?s = i" using r(2,4) by (simp_all add: new_drive_def new_storage_def)
  have st: "st = new_storage (d_id d) cfg" if g: "gcm_ok E" "rand_ok E" "DriveGetStorage E c (d_id d) w' = (Inr st, x)" for st x
    unfolding id(1)
  proof (rule storage_after_create [OF g(1,2) r(3)])
    show "t_storages (client w') = t_storages (w_db w) @ [?srow]" using db b(4) by (simp add: client_no_tx)
    show "\<forall>r\<in>set (t_storages (w_db w)). es_drive_id r \<noteq> s_drive_id ?s" using r(10) b(2) si by simp
    show "DriveGetStorage E c (s_drive_id ?s) w' = (Inr st, x)" using g(3) id by simp
  qed
  have "drive_row (w_db w) (d_id d) = None" using r(9) b(2) id by (simp add: drive_row_def find_None_iff new_drive_def)
  then show thesis by (intro that [OF db r(2)] st) (use r(2,4-8) id in \<open>simp_all add: new_drive_def keep_none_def\<close>)
qed


definition demo_cfg :: storage_config where
  "demo_cfg = \<lparr>sc_bucket = ''b'', sc_endpoint = None, sc_region = ''r'', sc_access_key = ''a'', sc_secret_key = ''s'',
     sc_use_path_style = False\<rparr>"

definition demo_owner :: world where
  "demo_owner = world_of (empty_db\<lparr>t_users := [\<lparr>eu_id = ''u1'', eu_public_id = ''u1'', eu_name = ''ann'', eu_email = None,
     eu_provider = ''kc'', eu_provider_id = ''7'', eu_create_time = 1, eu_update_time = 1\<rparr>]\<rparr>)"


end
