(* ===== verification/DemoTree.thy ===== *)
theory DemoTree
  imports NodeOp DriveSvc
begin

text \<open>
  A concrete pair of drives for evaluating the virtual file system. Drive d1: its root has the
  link l to "/d", the directory d, the mount m of drive d2 and the file f; d has the link s to
  "/l/t" and the file t. Drive d2: its root has the file x.
\<close>

definition tree_dir :: "uuid \<Rightarrow> dir_entry list \<Rightarrow> node" where
  "tree_dir i es = demo_node i NodeKindDirectory (dir_marshal demo (Some es))"

definition tree_link :: "uuid \<Rightarrow> string \<Rightarrow> node" where
  "tree_link i target = demo_node i NodeKindSymlink (symlink_marshal target)"

definition tree_mount :: "uuid \<Rightarrow> string \<Rightarrow> node" where
  "tree_mount i src = demo_node i NodeKindMount (mount_marshal src)"

definition tree_file :: "uuid \<Rightarrow> node" where
  "tree_file i = demo_node i NodeKindFile (file_marshal ''hi'')"

definition tree_root :: node where
  "tree_root = tree_dir 1 [\<lparr>de_ino = 2, de_name = ''l'', de_kind = NodeKindSymlink\<rparr>,
     \<lparr>de_ino = 3, de_name = ''d'', de_kind = NodeKindDirectory\<rparr>, \<lparr>de_ino = 6, de_name = ''m'', de_kind = NodeKindMount\<rparr>,
     \<lparr>de_ino = 7, de_name = ''f'', de_kind = NodeKindFile\<rparr>]"

definition tree_sub :: node where
  "tree_sub = tree_dir 3 [\<lparr>de_ino = 4, de_name = ''s'', de_kind = NodeKindSymlink\<rparr>,
     \<lparr>de_ino = 5, de_name = ''t'', de_kind = NodeKindFile\<rparr>]"

definition tree_root2 :: node where
  "tree_root2 = tree_dir 20 [\<lparr>de_ino = 21, de_name = ''x'', de_kind = NodeKindFile\<rparr>]"

definition tree_drive :: "string \<Rightarrow> uuid \<Rightarrow> ent_drive" where
  "tree_drive i root = \<lparr>ed_id = i, ed_public_id = i, ed_name = ''data'', ed_description = None,
     ed_provider = ''s3'', ed_owner_id = ''u1'', ed_root_node_id = Some root, ed_deleted_at = None,
     ed_create_time = 1, ed_update_time = 1\<rparr>"

definition tree_db :: db where
  "tree_db = empty_db\<lparr>t_nodes := [1 \<mapsto> row_insert tree_root, 2 \<mapsto> row_insert (tree_link 2 ''/d''),
     3 \<mapsto> row_insert tree_sub, 4 \<mapsto> row_insert (tree_link 4 ''/l/t''), 5 \<mapsto> row_insert (tree_file 5),
     6 \<mapsto> row_insert (tree_mount 6 ''d2''), 7 \<mapsto> row_insert (tree_file 7),
     20 \<mapsto> row_insert tree_root2, 21 \<mapsto> row_insert (tree_file 21)],
     t_drives := [tree_drive ''d1'' 1, tree_drive ''d2'' 20]\<rparr>"

definition tree :: world where
  "tree = world_of tree_db"

lemma from_demo_node: "k \<le> 4 \<Longrightarrow> fromEnt (row_insert (demo_node i k c)) = demo_node i k c"
  by (simp add: fromEnt_def row_insert_def demo_node_def parse_entKind)

lemma tree_at [simp]:
  "node_at tree_db 1 = Some tree_root" "node_at tree_db 2 = Some (tree_link 2 ''/d'')" "node_at tree_db 3 = Some tree_sub"
  "node_at tree_db 4 = Some (tree_link 4 ''/l/t'')" "node_at tree_db 5 = Some (tree_file 5)"
  "node_at tree_db 6 = Some (tree_mount 6 ''d2'')" "node_at tree_db 7 = Some (tree_file 7)"
  "node_at tree_db 20 = Some tree_root2" "node_at tree_db 21 = Some (tree_file 21)"
  by (simp_all add: node_at_def tree_db_def empty_db_def tree_root_def tree_sub_def tree_root2_def tree_dir_def
      tree_link_def tree_mount_def tree_file_def from_demo_node)

lemma tree_simps [simp]:
  "w_db tree = tree_db" "w_tx tree = None" "w_tick tree = 0" "w_cache tree = Map.empty"
  by (simp_all add: tree_def world_of_def)

lemma tree_ids: "ids_ok tree_db"
  by (simp add: ids_ok_def tree_db_def empty_db_def tree_root_def tree_sub_def tree_root2_def tree_dir_def
      tree_link_def tree_mount_def tree_file_def row_insert_def demo_node_def)

lemma tree_kinds [simp]:
  "n_kind (tree_dir i es) = NodeKindDirectory" "n_kind (tree_link i x) = NodeKindSymlink"
  "n_kind (tree_mount i x) = NodeKindMount" "n_kind (tree_file i) = NodeKindFile"
  "n_id (tree_dir i es) = i" "n_id (tree_link i x) = i" "n_id (tree_mount i x) = i" "n_id (tree_file i) = i"
  "n_rev (tree_dir i es) = ''r''" "n_stale (tree_dir i es) = ''r''" "n_nlink (tree_file i) = 1"
  by (simp_all add: tree_dir_def tree_link_def tree_mount_def tree_file_def demo_node_def)

lemma tree_dir_holds: "names_ok es \<Longrightarrow> holds_dir demo (tree_dir i es) (Some es)"
  by (simp add: holds_dir_def dir_exact_def tree_dir_def demo_node_def)

lemma tree_lookup:
  "names_ok es \<Longrightarrow> lookup demo (tree_dir i es) name = Inr (find (\<lambda>e. de_name e = name) es)"
  using holds_dir_lookup [OF tree_dir_holds] by (simp add: find_entry_def)

lemma tree_readlink: "valid_utf8 x \<Longrightarrow> readlink (tree_link i x) = Inr x"
  by (simp add: readlink_def read_payload_Some [of _ "symlink_marshal x"] tree_link_def demo_node_def symlink_codec.dec_enc)

lemma tree_read_mount: "valid_utf8 x \<Longrightarrow> read_mount (tree_mount i x) = Inr x"
  by (simp add: read_mount_def read_payload_Some [of _ "mount_marshal x"] tree_mount_def demo_node_def mount_codec.dec_enc)

lemma tree_read_file: "read_file (tree_file i) = Inr ''hi''"
  by (simp add: read_file_def read_payload_Some [of _ "file_marshal ''hi''"] tree_file_def demo_node_def
      file_codec.dec_enc ascii_valid byte_in_def)

lemma tree_names [simp]: "valid_utf8 ''l''" "valid_utf8 ''d''" "valid_utf8 ''m''" "valid_utf8 ''f''" "valid_utf8 ''s''"
  "valid_utf8 ''t''" "valid_utf8 ''x''" "valid_utf8 ''/d''" "valid_utf8 ''/l/t''" "valid_utf8 ''d2''"
  by (simp_all add: ascii_valid byte_in_def)

lemmas tree_eval = tree_lookup tree_readlink tree_read_mount tree_read_file kind_tests

end
