(* ===== verification/GoPath.thy ===== *)
theory GoPath
  imports Prelude
begin

text \<open>
  The path functions at the end of internal/vfs/path.go, over the standard library's
  \<open>path.Clean\<close>: a path is cleaned before it is walked, split into components, and the
  components after a symbolic link or a mount are joined again. The lemmas show that a
  cleaned path is exactly its list of plain components. The last section reads a path without
  them, as the list of names \<open>path_names\<close>, and a link's target from its directory
  (\<open>after_link\<close>); the code's functions agree with both.
\<close>

section \<open>Package path\<close>

text \<open>
  \<open>path.Clean\<close> reads the components from left to right and keeps the output as a stack (the
  last component first): empty components and "." are dropped, ".." removes the last one, is
  dropped at the root and kept at the front of a relative path.
\<close>

fun clean_step :: "bool \<Rightarrow> string list \<Rightarrow> string \<Rightarrow> string list" where
  "clean_step rooted st p =
     (if p = [] \<or> p = ''.'' then st
      else if p = ''..'' then
        (case st of
           [] \<Rightarrow> if rooted then [] else [''..'']
         | t # ts \<Rightarrow> if \<not> rooted \<and> t = ''..'' then ''..'' # st else ts)
      else p # st)"

definition clean_parts :: "bool \<Rightarrow> string \<Rightarrow> string list" where
  "clean_parts rooted p = rev (foldl (clean_step rooted) [] (split_char CHR ''/'' p))"

definition path_Clean :: "string \<Rightarrow> string" where
  "path_Clean p =
     (if p = [] then ''.''
      else if hd p = CHR ''/'' then CHR ''/'' # join_char CHR ''/'' (clean_parts True p)
      else if clean_parts False p = [] then ''.''
      else join_char CHR ''/'' (clean_parts False p))"

section \<open>The functions of path.go\<close>

definition cleanPath :: "string \<Rightarrow> string" where
  "cleanPath p =
     (let s = trim_space p in
      if s = [] then ''/''
      else let cleaned = path_Clean (CHR ''/'' # s) in
        if cleaned = [] \<or> cleaned = ''.'' then ''/'' else cleaned)"

definition splitPath :: "string \<Rightarrow> string list" where
  "splitPath p =
     (let t = trim_char CHR ''/'' p in if t = [] then [] else split_char CHR ''/'' t)"

definition joinParts :: "string list \<Rightarrow> string" where
  "joinParts parts = join_char CHR ''/'' parts"

text \<open>The split at the last slash with which \<open>resolveParent\<close> begins.\<close>

definition split_last :: "string \<Rightarrow> (string \<times> string) option" where
  "split_last cleaned =
     (case last_index CHR ''/'' cleaned of
        None \<Rightarrow> None
      | Some i \<Rightarrow>
          let parent = take i cleaned in
          Some (if parent = [] then ''/'' else parent, drop (Suc i) cleaned))"

section \<open>Plain components\<close>

definition plain :: "string \<Rightarrow> bool" where
  "plain c \<longleftrightarrow> c \<noteq> [] \<and> c \<noteq> ''.'' \<and> c \<noteq> ''..'' \<and> CHR ''/'' \<notin> set c"

definition plain_list :: "string list \<Rightarrow> bool" where
  "plain_list cs \<longleftrightarrow> list_all plain cs"

lemma plain_list_simps [simp]:
  "plain_list []" "plain_list (c # cs) \<longleftrightarrow> plain c \<and> plain_list cs"
  "plain_list (cs @ ds) \<longleftrightarrow> plain_list cs \<and> plain_list ds" "plain_list (rev cs) \<longleftrightarrow> plain_list cs"
  by (simp_all add: plain_list_def)

lemma plain_listD: "plain_list cs \<Longrightarrow> c \<in> set cs \<Longrightarrow> plain c"
  by (auto simp: plain_list_def list_all_iff)

lemma clean_step_plain:
  "plain_list st \<Longrightarrow> CHR ''/'' \<notin> set p \<Longrightarrow> plain_list (clean_step True st p)"
  by (auto simp: plain_def split: list.splits)

lemma foldl_clean_plain:
  "plain_list st \<Longrightarrow> \<forall>p\<in>set ps. CHR ''/'' \<notin> set p \<Longrightarrow> plain_list (foldl (clean_step True) st ps)"
proof (induction ps arbitrary: st)
  case (Cons p ps)
  have "plain_list (clean_step True st p)" by (rule clean_step_plain) (use Cons.prems in auto)
  then show ?case using Cons.IH Cons.prems(2) by simp
qed simp

lemma clean_parts_plain: "plain_list (clean_parts True p)"
  unfolding clean_parts_def by (simp add: foldl_clean_plain split_char_no_sep)

lemma foldl_clean_fixed: "plain_list ps \<Longrightarrow> foldl (clean_step r) st ps = rev ps @ st"
  by (induction ps arbitrary: st) (auto simp: plain_def)

lemma split_slash_join:
  "plain_list cs \<Longrightarrow> split_char CHR ''/'' (CHR ''/'' # join_char CHR ''/'' cs) = [] # (if cs = [] then [[]] else cs)"
  by (auto intro!: split_join_char simp: plain_def dest: plain_listD)

lemma clean_parts_fixed:
  "plain_list cs \<Longrightarrow> clean_parts True (CHR ''/'' # join_char CHR ''/'' cs) = cs"
  unfolding clean_parts_def by (subst split_slash_join) (auto simp: foldl_clean_fixed)

lemma cleanPath_eq: "cleanPath p = CHR ''/'' # join_char CHR ''/'' (clean_parts True (CHR ''/'' # trim_space p))"
  by (auto simp: cleanPath_def path_Clean_def Let_def clean_parts_def)

lemma trim_char_plain:
  assumes "plain_list cs" "cs \<noteq> []"
  shows "trim_char CHR ''/'' (CHR ''/'' # join_char CHR ''/'' cs) = join_char CHR ''/'' cs"
proof -
  obtain c ds where cs: "cs = c # ds" using assms(2) by (cases cs) auto
  have c: "c \<noteq> []" "CHR ''/'' \<notin> set c" using assms(1) cs by (auto simp: plain_def)
  obtain x c' where x: "c = x # c'" using c(1) by (cases c) auto
  have front: "dropWhile (\<lambda>x. x = CHR ''/'') (join_char CHR ''/'' cs) = join_char CHR ''/'' cs"
    using c x cs by (cases ds) auto
  obtain es d where es: "cs = es @ [d]" using assms(2) by (metis rev_exhaust)
  have d: "d \<noteq> []" "CHR ''/'' \<notin> set d" using assms(1) es by (auto simp: plain_def)
  obtain d' y where y: "d = d' @ [y]" using d(1) by (metis rev_exhaust)
  have e: "\<exists>s. join_char CHR ''/'' cs = s @ [y]"
    using es y by (cases "es = []") (auto simp: join_char_snoc)
  then obtain s where s: "join_char CHR ''/'' cs = s @ [y]" by blast
  have "trim_right_char CHR ''/'' (join_char CHR ''/'' cs) = join_char CHR ''/'' cs"
    using d(2) y by (auto simp: trim_right_char_def s)
  then show ?thesis using front by (simp add: trim_char_def)
qed

lemma splitPath_plain:
  assumes "plain_list cs"
  shows "splitPath (CHR ''/'' # join_char CHR ''/'' cs) = cs"
proof (cases "cs = []")
  case True
  then show ?thesis by (simp add: splitPath_def trim_char_def trim_right_char_def)
next
  case False
  have "join_char CHR ''/'' cs \<noteq> []" using assms False by (auto simp: join_char_eq_Nil plain_def)
  moreover have "split_char CHR ''/'' (join_char CHR ''/'' cs) = cs"
    using assms False by (intro split_join_char) (auto simp: plain_def dest: plain_listD)
  ultimately show ?thesis using trim_char_plain [OF assms False] by (simp add: splitPath_def)
qed

lemma splitPath_cleanPath: "splitPath (cleanPath p) = clean_parts True (CHR ''/'' # trim_space p)"
  unfolding cleanPath_eq by (rule splitPath_plain) (rule clean_parts_plain)

lemma cleanPath_plain: "plain_list (splitPath (cleanPath p))"
  unfolding splitPath_cleanPath by (rule clean_parts_plain)

lemma cleanPath_split: "cleanPath p = CHR ''/'' # joinParts (splitPath (cleanPath p))"
  unfolding splitPath_cleanPath joinParts_def by (rule cleanPath_eq)

lemma cleanPath_fixed:
  "trim_space q = q \<Longrightarrow> plain_list cs \<Longrightarrow> q = CHR ''/'' # joinParts cs \<Longrightarrow> cleanPath q = q"
proof -
  assume t: "trim_space q = q" and p: "plain_list cs" and q: "q = CHR ''/'' # joinParts cs"
  have "clean_parts True (CHR ''/'' # q) = clean_parts True q"
    by (simp add: clean_parts_def)
  then show ?thesis using t q p clean_parts_fixed by (simp add: cleanPath_eq joinParts_def)
qed

lemma cleanPath_idem: "trim_space (cleanPath p) = cleanPath p \<Longrightarrow> cleanPath (cleanPath p) = cleanPath p"
  using cleanPath_fixed [OF _ cleanPath_plain cleanPath_split] by blast

lemma split_last_snoc:
  assumes "CHR ''/'' \<notin> set d"
  shows "split_last (CHR ''/'' # joinParts (cs @ [d])) = Some (CHR ''/'' # joinParts cs, d)"
proof (cases "cs = []")
  case True
  have "last_index CHR ''/'' (CHR ''/'' # d) = Some 0"
    using last_index_append [OF assms, of "[]"] by simp
  then show ?thesis using True by (simp add: split_last_def joinParts_def Let_def)
next
  case False
  have e: "CHR ''/'' # joinParts (cs @ [d]) = (CHR ''/'' # joinParts cs) @ CHR ''/'' # d"
    using False by (simp add: joinParts_def join_char_snoc)
  show ?thesis unfolding e split_last_def last_index_append [OF assms] by (simp add: Let_def)
qed

lemma split_last_cleanPath:
  assumes "splitPath (cleanPath p) = cs @ [d]"
  shows "split_last (cleanPath p) = Some (CHR ''/'' # joinParts cs, d)"
proof -
  have "plain d" using cleanPath_plain [of p] assms by simp
  then show ?thesis using cleanPath_split [of p] split_last_snoc [of d cs] assms by (simp add: plain_def)
qed

lemma split_last_root: "splitPath (cleanPath p) = [] \<Longrightarrow> split_last (cleanPath p) = Some (''/'', [])"
  using cleanPath_split [of p] by (simp add: split_last_def joinParts_def Let_def)

section \<open>What a path names\<close>

text \<open>
  A path is read without the functions of the code: its pieces between slashes, without the empty ones and
  "."; the normal form in which each ".." cancels the name before it, if there is one; and from the root, the
  names that are left once no ".." leads above it.
\<close>

definition pieces :: "string \<Rightarrow> string list" where
  "pieces s = filter (\<lambda>c. c \<noteq> [] \<and> c \<noteq> ''.'') (split_char CHR ''/'' s)"

fun lexical :: "string list \<Rightarrow> string list \<Rightarrow> string list" where
  "lexical st [] = rev st"
| "lexical st (c # cs) = (if c = ''..'' \<and> st \<noteq> [] \<and> hd st \<noteq> ''..'' then lexical (tl st) cs else lexical (c # st) cs)"

definition below_root :: "string list \<Rightarrow> string list" where
  "below_root cs = dropWhile (\<lambda>c. c = ''..'') (lexical [] cs)"

definition path_names :: "string \<Rightarrow> string list" where
  "path_names p = below_root (pieces (trim_space p))"

text \<open>
  The names a path stands for when the directory \<open>cs\<close> holds a symbolic link to \<open>target\<close> and \<open>rest\<close> follows it: an
  absolute target starts at the root, another one at \<open>cs\<close>. The text of the new path is read like any
  path, without white space at its ends; that of a relative target in a directory below the root has no slash in
  front.
\<close>

definition after_link :: "string list \<Rightarrow> string \<Rightarrow> string list \<Rightarrow> string list" where
  "after_link cs target rest =
     (if target \<noteq> [] \<and> hd target = CHR ''/'' then path_names (target @ concat (map (\<lambda>c. CHR ''/'' # c) rest))
      else if cs = [] then path_names (CHR ''/'' # join_char CHR ''/'' (below_root (pieces target @ rest)))
      else path_names (join_char CHR ''/'' (lexical [] (cs @ pieces target @ rest))))"

lemma split_char_snoc_sep: "split_char c (s @ c # t) = split_char c s @ split_char c t"
proof (induction s)
  case (Cons x s)
  then show ?case using split_char_nonempty [of c s] by (cases "split_char c s") auto
qed simp

lemma pieces_append: "pieces (s @ CHR ''/'' # t) = pieces s @ pieces t"
  by (simp add: pieces_def split_char_snoc_sep)

lemma pieces_slash [simp]: "pieces (CHR ''/'' # t) = pieces t" "pieces [] = []"
  by (simp_all add: pieces_def)

lemma pieces_join: "plain_list cs \<Longrightarrow> pieces (join_char CHR ''/'' cs) = cs"
proof (cases "cs = []")
  case False
  assume p: "plain_list cs"
  then have "split_char CHR ''/'' (join_char CHR ''/'' cs) = cs"
    using False by (intro split_join_char) (auto simp: plain_def dest: plain_listD)
  then show ?thesis using p by (auto simp: pieces_def plain_def intro!: filter_True dest: plain_listD)
qed simp

lemma lexical_clean_step: "rev (foldl (clean_step False) st xs) = lexical st (filter (\<lambda>c. c \<noteq> [] \<and> c \<noteq> ''.'') xs)"
  by (induction xs arbitrary: st) (auto split: list.splits)

lemma clean_parts_lexical: "clean_parts False p = lexical [] (pieces p)"
  by (simp add: clean_parts_def pieces_def lexical_clean_step)

text \<open>Rooted and relative cleaning differ in the ".." kept at the front.\<close>

lemma clean_step_rooted:
  "''..'' \<notin> set st \<Longrightarrow> \<exists>k'. clean_step False (st @ replicate k ''..'') c = clean_step True st c @ replicate k' ''..'' \<and>
     ''..'' \<notin> set (clean_step True st c)"
proof (cases "c = ''..'' \<and> st = []")
  case True
  then have "clean_step False (st @ replicate k ''..'') c = clean_step True st c @ replicate (Suc k) ''..''"
    by (cases k) auto
  then show ?thesis using True by (intro exI [of _ "Suc k"]) simp
next
  case False
  assume "''..'' \<notin> set st"
  then show ?thesis using False by (intro exI [of _ k]) (auto split: list.splits)
qed

lemma foldl_clean_rooted:
  "''..'' \<notin> set st \<Longrightarrow> \<exists>k'. foldl (clean_step False) (st @ replicate k ''..'') xs = foldl (clean_step True) st xs @ replicate k' ''..'' \<and>
     ''..'' \<notin> set (foldl (clean_step True) st xs)"
proof (induction xs arbitrary: st k)
  case (Cons c xs)
  obtain k1 where k1: "clean_step False (st @ replicate k ''..'') c = clean_step True st c @ replicate k1 ''..''"
    "''..'' \<notin> set (clean_step True st c)" using clean_step_rooted [OF Cons.prems, of k c] by blast
  from Cons.IH [OF k1(2), of k1] show ?case unfolding foldl.simps k1(1) .
qed auto

lemma clean_parts_below_root: "clean_parts True p = below_root (pieces p)"
proof -
  let ?xs = "split_char CHR ''/'' p"
  have "\<exists>k. foldl (clean_step False) [] ?xs = foldl (clean_step True) [] ?xs @ replicate k ''..'' \<and>
      ''..'' \<notin> set (foldl (clean_step True) [] ?xs)" using foldl_clean_rooted [of "[]" 0 ?xs] by simp
  then obtain k where k: "foldl (clean_step False) [] ?xs = foldl (clean_step True) [] ?xs @ replicate k ''..''"
    "''..'' \<notin> set (foldl (clean_step True) [] ?xs)" by blast
  have "lexical [] (pieces p) = replicate k ''..'' @ clean_parts True p"
    unfolding clean_parts_lexical [symmetric] clean_parts_def k(1) by simp
  moreover have "dropWhile (\<lambda>c. c = ''..'') (replicate k ''..'' @ ys) = ys" if "''..'' \<notin> set ys" for ys :: "string list"
    using that by (induction k) (cases ys; auto)+
  moreover have "''..'' \<notin> set (clean_parts True p)" using k(2) by (simp add: clean_parts_def)
  ultimately show ?thesis by (simp add: below_root_def)
qed

lemma splitPath_path_names: "splitPath (cleanPath p) = path_names p"
  by (simp add: splitPath_cleanPath clean_parts_below_root path_names_def)

lemma path_names_plain: "plain_list (path_names p)"
  using cleanPath_plain [of p] by (simp add: splitPath_path_names)

lemma concat_slash: "rest \<noteq> [] \<Longrightarrow> concat (map (\<lambda>c. CHR ''/'' # c) rest) = CHR ''/'' # join_char CHR ''/'' rest"
  by (induction rest rule: induct_list012) auto

lemma path_Clean_rooted: "path_Clean (CHR ''/'' # p) = CHR ''/'' # join_char CHR ''/'' (below_root (pieces p))"
  by (simp add: path_Clean_def clean_parts_below_root)

lemma path_names_Clean:
  assumes "p \<noteq> []" "hd p \<noteq> CHR ''/''"
  shows "path_names (path_Clean p) = path_names (join_char CHR ''/'' (lexical [] (pieces p)))"
proof -
  have "path_names ''.'' = path_names []"
    by (simp add: path_names_def trim_space_def space_seqs_def has_prefix_def upt_rec pieces_def)
  then show ?thesis using assms by (simp add: path_Clean_def clean_parts_lexical)
qed

section \<open>Properties\<close>

text \<open>
  A cleaned path is absolute and consists of plain components only (none is empty, "." or "..",
  none contains a slash), \<open>splitPath\<close> and \<open>joinParts\<close> are inverse on it, its components are what
  the left-to-right reading of the trimmed path leaves on the stack, the split at the last
  slash separates the last component, and cleaning it again changes it only if it ends in
  white space.
\<close>

theorem cleanPath_components:
  "plain_list (splitPath (cleanPath p)) \<and>
   cleanPath p = CHR ''/'' # joinParts (splitPath (cleanPath p)) \<and>
   splitPath (cleanPath p) = rev (foldl (clean_step True) [] (split_char CHR ''/'' (trim_space p))) \<and>
   (case rev (splitPath (cleanPath p)) of
      [] \<Rightarrow> split_last (cleanPath p) = Some (''/'', [])
    | d # cs \<Rightarrow> split_last (cleanPath p) = Some (CHR ''/'' # joinParts (rev cs), d)) \<and>
   (trim_space (cleanPath p) = cleanPath p \<longrightarrow> cleanPath (cleanPath p) = cleanPath p)"
proof (intro conjI)
  show "splitPath (cleanPath p) = rev (foldl (clean_step True) [] (split_char CHR ''/'' (trim_space p)))"
    by (simp add: splitPath_cleanPath clean_parts_def)
  show "case rev (splitPath (cleanPath p)) of
      [] \<Rightarrow> split_last (cleanPath p) = Some (''/'', [])
    | d # cs \<Rightarrow> split_last (cleanPath p) = Some (CHR ''/'' # joinParts (rev cs), d)"
    by (cases "rev (splitPath (cleanPath p))")
      (auto intro: split_last_root split_last_cleanPath simp: rev_swap)
qed (auto simp: cleanPath_plain cleanPath_idem intro: cleanPath_split)

theorem cleanPath_components_witness:
  "cleanPath '' /a//b/../c/ '' = ''/a/c'' \<and> splitPath ''/a/c'' = [''a'', ''c''] \<and> cleanPath ''/a/c'' = ''/a/c''"
proof -
  have t: "trim_space '' /a//b/../c/ '' = ''/a//b/../c/''" "trim_space ''/a/c'' = ''/a/c''"
    by (simp_all add: trim_space_def space_seqs_def has_prefix_def upt_rec)
  have p: "splitPath (cleanPath '' /a//b/../c/ '') = [''a'', ''c'']"
    using cleanPath_components [of "'' /a//b/../c/ ''"] t(1) by simp
  have c: "cleanPath '' /a//b/../c/ '' = ''/a/c''"
    using cleanPath_components [of "'' /a//b/../c/ ''"] p by (simp add: joinParts_def)
  then show ?thesis using cleanPath_components [of "'' /a//b/../c/ ''"] p t(2) by simp
qed

text \<open>
  \<open>cleanPath\<close> is not idempotent: of a directory whose name ends in a space, the walk of a
  parent path (which is cleaned a second time) finds the directory without the space.
\<close>

theorem cleanPath_not_idempotent:
  "splitPath (cleanPath ''/dir /x'') = [''dir '', ''x''] \<and>
   split_last (cleanPath ''/dir /x'') = Some (''/dir '', ''x'') \<and> cleanPath ''/dir '' = ''/dir''"
proof -
  have t: "trim_space ''/dir /x'' = ''/dir /x''" "trim_space ''/dir '' = ''/dir''"
    by (simp_all add: trim_space_def space_seqs_def has_prefix_def upt_rec)
  have c: "splitPath (cleanPath ''/dir /x'') = [''dir '', ''x'']"
    by (simp add: splitPath_cleanPath t clean_parts_def)
  have "split_last (cleanPath ''/dir /x'') = Some (CHR ''/'' # joinParts [''dir ''], ''x'')"
    by (rule split_last_cleanPath) (simp add: c)
  moreover have "cleanPath ''/dir '' = ''/dir''"
    by (simp add: cleanPath_eq t clean_parts_def)
  ultimately show ?thesis using c by (simp add: joinParts_def)
qed

end
