(* ===== verification/Resolver.thy ===== *)
theory Resolver
  imports DemoTree GoPath
begin

text \<open>
  The path resolver of internal/vfs/path.go: the walk over directory entries, the splicing of
  symbolic links, the following of mounts from drive to drive. The relations \<open>leads\<close>,
  \<open>resolves\<close> and \<open>crosses\<close> say what a list of names or a path means in a given database,
  without caches or bounds and without the code's path functions; the properties show that the
  resolver computes them.

  The cache of the resolver in use is \<open>w_cache\<close>; \<open>newResolver\<close> empties it. A load never
  returns a nil node without an error, so the sources' checks for it have no branch here.
\<close>

section \<open>The resolver\<close>

definition vfs_not_found :: gerror where
  "vfs_not_found = New KindNotFound ''vfs: not found''"

definition vfs_invalid_path :: gerror where
  "vfs_invalid_path = New KindInvalidArgument ''vfs: invalid path''"

definition symlink_cycle :: gerror where
  "symlink_cycle = New KindInvalidArgument ''vfs: symlink cycle detected''"

definition get_cache :: "(uuid \<rightharpoonup> node) W" where
  "get_cache = (\<lambda>w. (Inr (w_cache w), w))"

definition put_cache :: "(uuid \<rightharpoonup> node) \<Rightarrow> unit W" where
  "put_cache c = (\<lambda>w. (Inr (), w\<lparr>w_cache := c\<rparr>))"

definition newResolver :: "unit W" where
  "newResolver = put_cache Map.empty"

definition loadByID :: "env \<Rightarrow> uuid \<Rightarrow> node W" where
  "loadByID E i =
     bindM get_cache (\<lambda>c.
       (case c i of
          Some n \<Rightarrow> retM n
        | None \<Rightarrow>
            bindM (GetByID E i) (\<lambda>n. bindM get_cache (\<lambda>c1. seqM (put_cache (c1(i \<mapsto> n))) (retM n)))))"

record walk_result =
  wr_node :: node
  wr_remaining :: string

definition maxSymlinkDepth :: nat where
  "maxSymlinkDepth = 40"

text \<open>
  The loop of \<open>resolvePathInner\<close>. \<open>cur # ups\<close> is the stack \<open>parents\<close>, its last element first;
  \<open>before\<close> are the components already read, \<open>parts[:i]\<close>. The walk ends at a node, at a mount, or
  at a symbolic link to follow.
\<close>

datatype walk_out = AtNode node | AtMount node string | AtLink node "string list" "string list"

fun walk :: "env \<Rightarrow> bool \<Rightarrow> node \<Rightarrow> node list \<Rightarrow> string list \<Rightarrow> string list \<Rightarrow> walk_out W" where
  "walk E follow cur ups before [] = retM (AtNode cur)"
| "walk E follow cur ups before (part # rest) =
     (if part = [] \<or> part = ''.'' then walk E follow cur ups (before @ [part]) rest
      else if part = ''..'' then
        (case ups of
           [] \<Rightarrow> failM vfs_invalid_path
         | u # us \<Rightarrow> walk E follow u us (before @ [part]) rest)
      else
        bindM (liftM (lookup E cur part)) (\<lambda>de.
          (case de of
             None \<Rightarrow> failM vfs_not_found
           | Some e \<Rightarrow>
               tryM (loadByID E (de_ino e)) (\<lambda>_. failM vfs_not_found) (\<lambda>child.
                 if is_mount child then retM (AtMount child (joinParts rest))
                 else if follow \<and> is_symlink child then retM (AtLink child before rest)
                 else walk E follow child (cur # ups) (before @ [part]) rest))))"

text \<open>The path with the link's target put in place of the link.\<close>

definition splice_target :: "string list \<Rightarrow> string \<Rightarrow> string list \<Rightarrow> string" where
  "splice_target before target rest =
     (let suffix = joinParts rest in
      if has_prefix target ''/'' then
        (if suffix = [] then target else target @ ''/'' @ suffix)
      else
        let p0 = joinParts before; parentPath = (if p0 = [] then ''/'' else p0) in
        if suffix = [] then path_Clean (parentPath @ ''/'' @ target)
        else path_Clean (parentPath @ ''/'' @ target @ ''/'' @ suffix))"

function resolve_inner :: "env \<Rightarrow> uuid \<Rightarrow> bool \<Rightarrow> uuid list \<Rightarrow> string \<Rightarrow> walk_result W" where
  "resolve_inner E rootID follow visited p =
     (let cleaned = cleanPath p in
      if cleaned = [] \<or> cleaned = ''/'' then
        bindM (loadByID E rootID) (\<lambda>n. retM \<lparr>wr_node = n, wr_remaining = []\<rparr>)
      else
        tryM (loadByID E rootID) (\<lambda>_. failM vfs_not_found) (\<lambda>root.
          bindM (walk E follow root [] [] (splitPath cleaned)) (\<lambda>r.
            (case r of
               AtNode n \<Rightarrow> retM \<lparr>wr_node = n, wr_remaining = []\<rparr>
             | AtMount m rest \<Rightarrow> retM \<lparr>wr_node = m, wr_remaining = rest\<rparr>
             | AtLink child before rest \<Rightarrow>
                 if length visited \<ge> maxSymlinkDepth then failM symlink_cycle
                 else if n_id child \<in> set visited then failM symlink_cycle
                 else
                   bindM (liftM (readlink child)) (\<lambda>target.
                     resolve_inner E rootID follow (n_id child # visited) (splice_target before target rest))))))"
  by pat_completeness auto
termination
  by (relation "measure (\<lambda>(E, rootID, follow, visited, p). maxSymlinkDepth - length visited)") auto

declare resolve_inner.simps [simp del]

definition resolvePath :: "env \<Rightarrow> uuid \<Rightarrow> string \<Rightarrow> bool \<Rightarrow> walk_result W" where
  "resolvePath E rootID p follow = resolve_inner E rootID follow [] p"

definition resolveParent :: "env \<Rightarrow> uuid \<Rightarrow> string \<Rightarrow> (node \<times> string) W" where
  "resolveParent E rootID p =
     (if p = [] then failM vfs_invalid_path
      else (case split_last (cleanPath p) of
              None \<Rightarrow> failM vfs_invalid_path
            | Some (parentPath, name) \<Rightarrow>
                if name = [] then failM vfs_invalid_path
                else bindM (resolvePath E rootID parentPath True) (\<lambda>r. retM (wr_node r, name))))"

section \<open>Drives and mounts\<close>

definition GetRootNodeID :: "env \<Rightarrow> string \<Rightarrow> uuid W" where
  "GetRootNodeID E driveID =
     bindM (wrapM [] (''vfs: get root node (drive_id='' @ driveID @ '')'') (DriveGetByID E driveID)) (\<lambda>d.
       (case d_root_node_id d of
          None \<Rightarrow> failM vfs_not_found
        | Some i \<Rightarrow> retM i))"

definition maxMountHops :: nat where
  "maxMountHops = 32"

text \<open>The hops of \<open>resolveWithMounts\<close>: each uses a resolver of its own.\<close>

fun mount_hops :: "env \<Rightarrow> bool \<Rightarrow> nat \<Rightarrow> string list \<Rightarrow> string \<Rightarrow> string \<Rightarrow> (string \<times> node) W" where
  "mount_hops E follow 0 visited drive p = failM (New KindInvalidArgument ''vfs: max mount hops exceeded'')"
| "mount_hops E follow (Suc k) visited drive p =
     seqM newResolver (
     bindM (GetRootNodeID E drive) (\<lambda>rootID.
     bindM (resolvePath E rootID p follow) (\<lambda>out.
       if wr_remaining out = [] then retM (drive, wr_node out)
       else
         bindM (liftM (read_mount (wr_node out))) (\<lambda>src.
           if src \<in> set visited then failM (New KindInvalidArgument ''vfs: mount cycle detected'')
           else mount_hops E follow k (src # visited) src (''/'' @ wr_remaining out)))))"

definition resolveWithMounts :: "env \<Rightarrow> string \<Rightarrow> string \<Rightarrow> bool \<Rightarrow> (string \<times> node) W" where
  "resolveWithMounts E driveID p follow = mount_hops E follow maxMountHops [driveID] driveID (cleanPath p)"

definition not_a_directory :: gerror where
  "not_a_directory = New KindInvalidArgument ''vfs: not a directory''"

definition resolveEditableParent :: "env \<Rightarrow> string \<Rightarrow> string \<Rightarrow> (node \<times> string) W" where
  "resolveEditableParent E driveID p =
     bindM (GetRootNodeID E driveID) (\<lambda>rootID.
       if rootID = uuid_Nil then failM (New KindNotFound ''vfs: drive not found'')
       else
         seqM newResolver (bindM (resolveParent E rootID p) (\<lambda>(parent, name).
           if \<not> is_dir parent then failM not_a_directory else retM (parent, name))))"

section \<open>Resolution only reads\<close>

lemma quiet_cache [quiet_intros]: "quiet get_cache" "quiet (put_cache c)" "quiet newResolver"
  by (simp_all add: quiet_def get_cache_def put_cache_def newResolver_def)

lemma quiet_loadByID [quiet_intros]: "quiet (loadByID E i)"
  unfolding loadByID_def by (intro quiet_intros)

lemma quiet_walk [quiet_intros]: "quiet (walk E follow cur ups before parts)"
proof (induction parts arbitrary: cur ups before)
  case Nil
  show ?case unfolding walk.simps by (rule quiet_basic)
next
  case (Cons p ps)
  have "quiet (case ups of [] \<Rightarrow> failM vfs_invalid_path | u # us \<Rightarrow> walk E follow u us (before @ [p]) ps)"
    by (cases ups) (auto intro: quiet_basic Cons.IH)
  then show ?case unfolding walk.simps by (intro quiet_intros Cons.IH)
qed

lemma quiet_resolve_inner [quiet_intros]: "quiet (resolve_inner E rootID follow visited p)"
proof (induction E rootID follow visited p rule: resolve_inner.induct)
  case (1 E rootID follow visited p)
  have "quiet (case r of
               AtNode n \<Rightarrow> retM \<lparr>wr_node = n, wr_remaining = []\<rparr>
             | AtMount m rest \<Rightarrow> retM \<lparr>wr_node = m, wr_remaining = rest\<rparr>
             | AtLink child before rest \<Rightarrow>
                 if length visited \<ge> maxSymlinkDepth then failM symlink_cycle
                 else if n_id child \<in> set visited then failM symlink_cycle
                 else
                   bindM (liftM (readlink child)) (\<lambda>target.
                     resolve_inner E rootID follow (n_id child # visited) (splice_target before target rest)))"
    if "cleanPath p \<noteq> []" "cleanPath p \<noteq> ''/''" for r
    using that 1 by (cases r) (auto intro!: quiet_intros)
  then show ?case
    by (subst resolve_inner.simps) (auto intro!: quiet_intros simp: Let_def)
qed

lemma quiet_resolvePath [quiet_intros]: "quiet (resolvePath E rootID p follow)"
  unfolding resolvePath_def by (intro quiet_intros)

lemma quiet_resolveParent [quiet_intros]: "quiet (resolveParent E rootID p)"
  unfolding resolveParent_def by (intro quiet_intros)

lemma quiet_GetRootNodeID [quiet_intros]: "quiet (GetRootNodeID E d)"
  unfolding GetRootNodeID_def by (intro quiet_intros)

lemma quiet_mount_hops [quiet_intros]: "quiet (mount_hops E follow k visited d p)"
  by (induction k arbitrary: visited d p) (auto intro!: quiet_intros)

lemma quiet_resolveWithMounts [quiet_intros]: "quiet (resolveWithMounts E d p follow)"
  unfolding resolveWithMounts_def by (intro quiet_intros)

lemma quiet_resolveEditableParent [quiet_intros]: "quiet (resolveEditableParent E d p)"
  unfolding resolveEditableParent_def by (intro quiet_intros)

section \<open>What a path means\<close>

text \<open>\<open>entry_at d dir c m\<close>: \<open>dir\<close> is a directory whose first entry of the name \<open>c\<close> refers to the stored node \<open>m\<close>.\<close>

definition entry_at :: "env \<Rightarrow> db \<Rightarrow> node \<Rightarrow> string \<Rightarrow> node \<Rightarrow> bool" where
  "entry_at E d dir c m \<longleftrightarrow> n_kind dir = NodeKindDirectory \<and>
     (\<exists>dc e. read_dir E dir = Inr dc \<and> find (\<lambda>e. de_name e = c) (entries dc) = Some e \<and> node_at d (de_ino e) = Some m)"

lemma entry_at_lookup: "entry_at E d dir c m \<longleftrightarrow> (\<exists>e. lookup E dir c = Inr (Some e) \<and> node_at d (de_ino e) = Some m)"
  by (auto simp: entry_at_def lookup_def find_entry_def split: sum.splits)

text \<open>\<open>descends n cs k\<close>: the components \<open>cs\<close> lead from \<open>n\<close> to \<open>k\<close> without a mount or a link to follow.\<close>

inductive descends :: "env \<Rightarrow> db \<Rightarrow> bool \<Rightarrow> node \<Rightarrow> string list \<Rightarrow> node \<Rightarrow> bool"
  for E :: env and d :: db and follow :: bool where
  descends_here: "descends E d follow n [] n"
| descends_into: "entry_at E d n c m \<Longrightarrow> \<not> is_mount m \<Longrightarrow> \<not> (follow \<and> is_symlink m) \<Longrightarrow>
    descends E d follow m cs k \<Longrightarrow> descends E d follow n (c # cs) k"

inductive_simps descends_Nil: "descends E d follow n [] k"
inductive_simps descends_Cons: "descends E d follow n (c # cs) k"

text \<open>
  \<open>leads ns ls r\<close>: from the root the names \<open>ns\<close> lead to \<open>r\<close>, following the links \<open>ls\<close>, with the target of each
  put in its place. \<open>resolves p ls r\<close>: so do the names of the path \<open>p\<close>.
\<close>

inductive leads :: "env \<Rightarrow> db \<Rightarrow> uuid \<Rightarrow> bool \<Rightarrow> string list \<Rightarrow> uuid list \<Rightarrow> walk_result \<Rightarrow> bool"
  for E :: env and d :: db and rootID :: uuid and follow :: bool where
  leads_node: "node_at d rootID = Some root \<Longrightarrow> descends E d follow root ns n \<Longrightarrow>
    leads E d rootID follow ns [] \<lparr>wr_node = n, wr_remaining = []\<rparr>"
| leads_mount: "node_at d rootID = Some root \<Longrightarrow> descends E d follow root cs dir \<Longrightarrow> entry_at E d dir c m \<Longrightarrow> is_mount m \<Longrightarrow>
    leads E d rootID follow (cs @ c # rest) [] \<lparr>wr_node = m, wr_remaining = join_char CHR ''/'' rest\<rparr>"
| leads_link: "node_at d rootID = Some root \<Longrightarrow> descends E d follow root cs dir \<Longrightarrow> entry_at E d dir c m \<Longrightarrow> follow \<Longrightarrow>
    is_symlink m \<Longrightarrow> readlink m = Inr target \<Longrightarrow> leads E d rootID follow (after_link cs target rest) ls r \<Longrightarrow>
    leads E d rootID follow (cs @ c # rest) (n_id m # ls) r"

definition resolves :: "env \<Rightarrow> db \<Rightarrow> uuid \<Rightarrow> bool \<Rightarrow> string \<Rightarrow> uuid list \<Rightarrow> walk_result \<Rightarrow> bool" where
  "resolves E d rootID follow p ls r \<longleftrightarrow> leads E d rootID follow (path_names p) ls r"

text \<open>The code's functions read a path as the relation does, and put a link's target where it belongs.\<close>

lemma path_names_splice_target:
  assumes cs: "plain_list cs" and rest: "plain_list rest"
  shows "path_names (splice_target cs target rest) = after_link cs target rest"
proof -
  have suffix: "joinParts rest = [] \<longleftrightarrow> rest = []"
    using rest by (auto simp: joinParts_def join_char_eq_Nil plain_def)
  have prefix: "has_prefix target ''/'' \<longleftrightarrow> target \<noteq> [] \<and> hd target = CHR ''/''" by (cases target) (auto simp: has_prefix_def)
  let ?t = "if rest = [] then target else target @ CHR ''/'' # joinParts rest"
  have t: "pieces ?t = pieces target @ rest" using pieces_join [OF rest] by (simp add: pieces_append joinParts_def)
  show ?thesis
  proof (cases "target \<noteq> [] \<and> hd target = CHR ''/''")
    case True
    then show ?thesis using concat_slash [of rest, folded joinParts_def] suffix
      by (cases "rest = []") (simp_all add: splice_target_def after_link_def prefix Let_def)
  next
    case rel: False
    then have np: "\<not> has_prefix target ''/''" by (simp add: prefix)
    note al = after_link_def [of cs target rest, unfolded if_not_P [OF rel]]
    show ?thesis
    proof (cases "cs = []")
      case True
      have "splice_target cs target rest = path_Clean (CHR ''/'' # CHR ''/'' # ?t)"
        using True np joinParts_def [of "[]"] by (simp add: splice_target_def suffix Let_def)
      then show ?thesis unfolding al using True t by (simp add: path_Clean_rooted)
    next
      case False
      obtain c ds where c: "cs = c # ds" "plain c" using False cs by (cases cs) auto
      then obtain x c' where x: "c = x # c'" "x \<noteq> CHR ''/''" by (cases c) (auto simp: plain_def)
      have "\<exists>t. joinParts cs = x # t" using c(1) x(1) by (cases ds) (simp_all add: joinParts_def)
      then have j: "joinParts cs \<noteq> []" "hd (joinParts cs) \<noteq> CHR ''/''" using x(2) by auto
      let ?q = "joinParts cs @ CHR ''/'' # ?t"
      have "splice_target cs target rest = path_Clean ?q"
        using np j(1) by (simp add: splice_target_def suffix Let_def)
      moreover have "?q \<noteq> []" "hd ?q \<noteq> CHR ''/''" using j by simp_all
      moreover have "pieces ?q = cs @ pieces target @ rest"
        unfolding pieces_append t using pieces_join [OF cs] by (simp add: joinParts_def)
      ultimately show ?thesis unfolding al using path_names_Clean [of ?q] False by simp
    qed
  qed
qed

lemma resolves_node: "node_at d rootID = Some root \<Longrightarrow> descends E d follow root (splitPath (cleanPath p)) n \<Longrightarrow>
    resolves E d rootID follow p [] \<lparr>wr_node = n, wr_remaining = []\<rparr>"
  unfolding resolves_def splitPath_path_names by (rule leads_node)

lemma resolves_mount: "node_at d rootID = Some root \<Longrightarrow> splitPath (cleanPath p) = cs @ c # rest \<Longrightarrow>
    descends E d follow root cs dir \<Longrightarrow> entry_at E d dir c m \<Longrightarrow> is_mount m \<Longrightarrow>
    resolves E d rootID follow p [] \<lparr>wr_node = m, wr_remaining = joinParts rest\<rparr>"
  unfolding resolves_def splitPath_path_names joinParts_def by (simp add: leads_mount)

lemma resolves_link:
  assumes "node_at d rootID = Some root" "splitPath (cleanPath p) = cs @ c # rest" "descends E d follow root cs dir"
    "entry_at E d dir c m" "follow" "is_symlink m" "readlink m = Inr target"
    "resolves E d rootID follow (splice_target cs target rest) ls r"
  shows "resolves E d rootID follow p (n_id m # ls) r"
proof -
  have "plain_list cs" "plain_list rest" using cleanPath_plain [of p] assms(2) by simp_all
  then have "leads E d rootID follow (after_link cs target rest) ls r"
    using assms(8) by (simp add: resolves_def path_names_splice_target)
  from leads_link [OF assms(1,3-7) this] show ?thesis using assms(2) by (simp add: resolves_def splitPath_path_names)
qed

lemma resolves_induct [consumes 1, case_names resolves_node resolves_mount resolves_link]:
  assumes r: "resolves E d rootID follow p ls r"
    and node: "\<And>root p n. node_at d rootID = Some root \<Longrightarrow> descends E d follow root (splitPath (cleanPath p)) n \<Longrightarrow>
      P p [] \<lparr>wr_node = n, wr_remaining = []\<rparr>"
    and mount: "\<And>root p cs c rest dir m. node_at d rootID = Some root \<Longrightarrow> splitPath (cleanPath p) = cs @ c # rest \<Longrightarrow>
      descends E d follow root cs dir \<Longrightarrow> entry_at E d dir c m \<Longrightarrow> is_mount m \<Longrightarrow>
      P p [] \<lparr>wr_node = m, wr_remaining = joinParts rest\<rparr>"
    and link: "\<And>root p cs c rest dir m target ls r. node_at d rootID = Some root \<Longrightarrow> splitPath (cleanPath p) = cs @ c # rest \<Longrightarrow>
      descends E d follow root cs dir \<Longrightarrow> entry_at E d dir c m \<Longrightarrow> follow \<Longrightarrow> is_symlink m \<Longrightarrow> readlink m = Inr target \<Longrightarrow>
      resolves E d rootID follow (splice_target cs target rest) ls r \<Longrightarrow> P (splice_target cs target rest) ls r \<Longrightarrow> P p (n_id m # ls) r"
  shows "P p ls r"
proof -
  have "\<forall>p. path_names p = ns \<longrightarrow> P p ls r" if "leads E d rootID follow ns ls r" for ns ls r
    using that
  proof (induction rule: leads.induct)
    case (leads_node root ns n)
    then show ?case using node by (auto simp: splitPath_path_names)
  next
    case (leads_mount root cs dir c m rest)
    then show ?case using mount by (auto simp: splitPath_path_names joinParts_def)
  next
    case (leads_link root cs dir c m target rest ls r)
    show ?case
    proof (intro allI impI)
      fix p assume p: "path_names p = cs @ c # rest"
      then have "plain_list cs" "plain_list rest" using path_names_plain [of p] by simp_all
      then have n: "path_names (splice_target cs target rest) = after_link cs target rest" by (rule path_names_splice_target)
      have "splitPath (cleanPath p) = cs @ c # rest" using p by (simp add: splitPath_path_names)
      moreover have "resolves E d rootID follow (splice_target cs target rest) ls r"
        using leads_link.hyps unfolding resolves_def n by blast
      moreover have "P (splice_target cs target rest) ls r" using leads_link.IH n by blast
      ultimately show "P p (n_id m # ls) r" using link leads_link.hyps(1-6) by blast
    qed
  qed
  then show ?thesis using r by (simp add: resolves_def)
qed

text \<open>The cache holds what the database holds.\<close>

definition cache_ok :: "world \<Rightarrow> bool" where
  "cache_ok w \<longleftrightarrow> (\<forall>i n. w_cache w i = Some n \<longrightarrow> node_at (w_db w) i = Some n)"

lemma get_cache_run [simp]: "get_cache w = (Inr (w_cache w), w)"
  by (simp add: get_cache_def)

lemma put_cache_run [simp]: "put_cache c w = (Inr (), w\<lparr>w_cache := c\<rparr>)"
  by (simp add: put_cache_def)

lemma cache_ok_new: "newResolver w = (r, w') \<Longrightarrow> cache_ok w' \<and> w_db w' = w_db w"
  by (auto simp: newResolver_def cache_ok_def)

lemma GetByID_cases:
  obtains e where "GetByID E i w = (Inl e, w\<lparr>w_tick := Suc (w_tick w)\<rparr>)"
  | n where "GetByID E i w = (Inr n, w\<lparr>w_tick := Suc (w_tick w)\<rparr>)" "node_at (w_db w) i = Some n"
proof -
  have "snd (GetByID E i w) = w\<lparr>w_tick := Suc (w_tick w)\<rparr>"
    by (auto simp: GetByID_def repo_get_def wrapM_def seqM_def bindM_def io_def get_committed_def split: option.splits)
  then show thesis using that GetByID_Inr [of E i w] by (cases "GetByID E i w"; cases "fst (GetByID E i w)") auto
qed

lemma loadByID_run:
  assumes "cache_ok w" "loadByID E i w = (r, w')"
  shows "cache_ok w' \<and> w_db w' = w_db w \<and> (\<forall>n. r = Inr n \<longrightarrow> node_at (w_db w) i = Some n)"
proof (cases "w_cache w i")
  case None
  show ?thesis
    by (cases rule: GetByID_cases [of E i w])
      (use None assms in \<open>auto simp: loadByID_def cache_ok_def split: if_splits\<close>)
next
  case (Some n)
  then show ?thesis using assms by (auto simp: loadByID_def cache_ok_def)
qed

lemma GetByID_no_faults:
  "no_faults E \<Longrightarrow> node_at (w_db w) i = Some n \<Longrightarrow> GetByID E i w = (Inr n, w\<lparr>w_tick := Suc (w_tick w)\<rparr>)"
  by (auto simp: GetByID_def repo_get_def wrapM_def seqM_def bindM_def io_no_faults node_at_def)

lemma loadByID_finds:
  assumes "no_faults E" "cache_ok w" "node_at (w_db w) i = Some n"
  obtains w' where "loadByID E i w = (Inr n, w')" "cache_ok w'" "w_db w' = w_db w"
proof -
  have "\<exists>w'. loadByID E i w = (Inr n, w')"
    using assms(2,3) GetByID_no_faults [OF assms(1,3)]
    by (cases "w_cache w i") (auto simp: loadByID_def cache_ok_def)
  then show thesis using that loadByID_run [OF assms(2)] by blast
qed

section \<open>The walk follows entries\<close>

definition walk_ok :: "env \<Rightarrow> db \<Rightarrow> bool \<Rightarrow> node \<Rightarrow> string list \<Rightarrow> string list \<Rightarrow> walk_out \<Rightarrow> bool" where
  "walk_ok E d follow cur before parts r \<longleftrightarrow>
     (case r of
        AtNode n \<Rightarrow> descends E d follow cur parts n
      | AtMount m rem \<Rightarrow> \<exists>cs c rest dir. parts = cs @ c # rest \<and> rem = joinParts rest \<and>
          descends E d follow cur cs dir \<and> entry_at E d dir c m \<and> is_mount m
      | AtLink m bef rest \<Rightarrow> \<exists>cs c dir. parts = cs @ c # rest \<and> bef = before @ cs \<and>
          descends E d follow cur cs dir \<and> entry_at E d dir c m \<and> follow \<and> is_symlink m)"

lemma walk_ok_into:
  assumes "entry_at E d n c m" "\<not> is_mount m" "\<not> (follow \<and> is_symlink m)" "walk_ok E d follow m (before @ [c]) cs r"
  shows "walk_ok E d follow n before (c # cs) r"
proof (cases r)
  case (AtNode k)
  then show ?thesis using assms by (simp add: walk_ok_def descends_into)
next
  case (AtMount k rem)
  then obtain ds x rest dir where "cs = ds @ x # rest" "rem = joinParts rest" "descends E d follow m ds dir"
    "entry_at E d dir x k" "is_mount k" using assms(4) by (auto simp: walk_ok_def)
  moreover from this have "descends E d follow n (c # ds) dir" using assms by (simp add: descends_into)
  ultimately show ?thesis using AtMount by (fastforce simp: walk_ok_def intro: exI [of _ "c # ds"])
next
  case (AtLink k bef rest)
  then obtain ds x dir where "cs = ds @ x # rest" "bef = (before @ [c]) @ ds" "descends E d follow m ds dir"
    "entry_at E d dir x k" "follow" "is_symlink k" using assms(4) by (auto simp: walk_ok_def)
  moreover from this have "descends E d follow n (c # ds) dir" using assms by (simp add: descends_into)
  ultimately show ?thesis using AtLink by (fastforce simp: walk_ok_def intro: exI [of _ "c # ds"])
qed

lemma walk_ok_stop:
  assumes "entry_at E d n c m"
  shows "is_mount m \<Longrightarrow> walk_ok E d follow n before (c # cs) (AtMount m (joinParts cs))"
    "follow \<Longrightarrow> is_symlink m \<Longrightarrow> walk_ok E d follow n before (c # cs) (AtLink m before cs)"
proof -
  have h: "descends E d follow n [] n" by (rule descends_here)
  show "walk_ok E d follow n before (c # cs) (AtMount m (joinParts cs))" if "is_mount m"
    unfolding walk_ok_def walk_out.case
    by (rule exI [of _ "[]"], rule exI [of _ c], rule exI [of _ cs], rule exI [of _ n]) (simp add: h assms that)
  show "walk_ok E d follow n before (c # cs) (AtLink m before cs)" if "follow" "is_symlink m"
    unfolding walk_ok_def walk_out.case
    by (rule exI [of _ "[]"], rule exI [of _ c], rule exI [of _ n]) (use h assms that in simp)
qed

lemma walk_sound:
  assumes "cache_ok w" "plain_list parts" "walk E follow cur ups before parts w = (r, w')"
  shows "cache_ok w' \<and> w_db w' = w_db w \<and> (\<forall>out. r = Inr out \<longrightarrow> walk_ok E (w_db w) follow cur before parts out)"
  using assms
proof (induction parts arbitrary: cur ups before w)
  case Nil
  then show ?case by (auto simp: walk_ok_def descends_here)
next
  case (Cons c cs)
  have c: "c \<noteq> []" "c \<noteq> ''.''" "c \<noteq> ''..''" using Cons.prems(2) by (auto simp: plain_def)
  show ?case
  proof (cases "lookup E cur c")
    case (Inl e)
    then show ?thesis using Cons.prems c by auto
  next
    case (Inr de)
    show ?thesis
    proof (cases de)
      case None
      then show ?thesis using Cons.prems c Inr by auto
    next
      case (Some e)
      obtain q w1 where l: "loadByID E (de_ino e) w = (q, w1)" by fastforce
      have w1: "cache_ok w1" "w_db w1 = w_db w" "\<And>n. q = Inr n \<Longrightarrow> node_at (w_db w) (de_ino e) = Some n"
        using loadByID_run [OF Cons.prems(1) l] by auto
      show ?thesis
      proof (cases q)
        case (Inl x)
        then show ?thesis using Cons.prems(3) c Inr Some l w1(1,2) by auto
      next
        case q: (Inr m)
        have en: "entry_at E (w_db w) cur c m" using Inr Some w1(3) q by (auto simp: entry_at_lookup)
        show ?thesis
        proof (cases "is_mount m \<or> follow \<and> is_symlink m")
          case True
          then have "r = Inr (if is_mount m then AtMount m (joinParts cs) else AtLink m before cs)" "w' = w1"
            using Cons.prems(3) c Inr Some l q by (auto split: if_splits)
          then show ?thesis using True walk_ok_stop [OF en] w1(1,2) by auto
        next
          case False
          then have "walk E follow m (cur # ups) (before @ [c]) cs w1 = (r, w')"
            using Cons.prems(3) c Inr Some l q by (auto split: if_splits)
          from Cons.IH [OF w1(1) _ this] have "cache_ok w' \<and> w_db w' = w_db w1 \<and>
              (\<forall>out. r = Inr out \<longrightarrow> walk_ok E (w_db w1) follow m (before @ [c]) cs out)"
            using Cons.prems(2) by simp
          then show ?thesis using walk_ok_into [OF en] False w1(2) by auto
        qed
      qed
    qed
  qed
qed

lemma walk_descends:
  assumes "no_faults E" "descends E d follow cur cs dir" "plain_list cs" "cache_ok w" "w_db w = d"
  shows "\<exists>w1 ups1. cache_ok w1 \<and> w_db w1 = d \<and>
    walk E follow cur ups before (cs @ rest) w = walk E follow dir ups1 (before @ cs) rest w1"
  using assms(2-5)
proof (induction arbitrary: ups before w rule: descends.induct)
  case (descends_here n)
  then show ?case by auto
next
  case (descends_into n c m cs k)
  obtain e where e: "lookup E n c = Inr (Some e)" "node_at d (de_ino e) = Some m"
    using descends_into.hyps(1) by (auto simp: entry_at_lookup)
  obtain w1 where l: "loadByID E (de_ino e) w = (Inr m, w1)" "cache_ok w1" "w_db w1 = w_db w"
    using loadByID_finds [OF assms(1)] e(2) descends_into.prems by metis
  have "walk E follow n ups before ((c # cs) @ rest) w = walk E follow m (n # ups) (before @ [c]) (cs @ rest) w1"
    using e(1) l(1) descends_into.hyps(2,3) descends_into.prems(1) by (auto simp: plain_def)
  then show ?case
    using descends_into.IH [of w1 "n # ups" "before @ [c]"] l descends_into.prems by simp
qed

lemma walk_complete:
  assumes f: "no_faults E" and w: "cache_ok w" "plain_list parts" and k: "walk_ok E (w_db w) follow cur before parts out"
    and nm: "\<And>m bef rest. out = AtLink m bef rest \<Longrightarrow> \<not> is_mount m"
  shows "\<exists>w'. walk E follow cur ups before parts w = (Inr out, w')"
proof -
  have stop: "\<exists>w'. walk E follow cur ups before (cs @ c # rest) w =
      (Inr (if is_mount m then AtMount m (joinParts rest) else AtLink m (before @ cs) rest), w')"
    if p: "plain_list (cs @ c # rest)" "descends E (w_db w) follow cur cs dir" "entry_at E (w_db w) dir c m"
      "is_mount m \<or> follow \<and> is_symlink m" for cs c rest dir m
  proof -
    obtain w1 ups1 where a: "cache_ok w1" "w_db w1 = w_db w"
      "walk E follow cur ups before (cs @ c # rest) w = walk E follow dir ups1 (before @ cs) (c # rest) w1"
      using walk_descends [OF f p(2) _ w(1) refl] p(1) by fastforce
    obtain e where e: "lookup E dir c = Inr (Some e)" "node_at (w_db w1) (de_ino e) = Some m"
      using p(3) a(2) by (auto simp: entry_at_lookup)
    obtain w2 where "loadByID E (de_ino e) w1 = (Inr m, w2)"
      using loadByID_finds [OF f a(1) e(2)] by blast
    then show ?thesis using a(3) e(1) p(1,4) by (auto simp: plain_def)
  qed
  show ?thesis
  proof (cases out)
    case (AtNode n)
    then have "descends E (w_db w) follow cur parts n" using k by (simp add: walk_ok_def)
    from walk_descends [OF f this w(2,1) refl, of ups before "[]"] show ?thesis using AtNode by auto
  next
    case (AtMount m rem)
    then obtain cs c rest dir where "parts = cs @ c # rest" "rem = joinParts rest"
      "descends E (w_db w) follow cur cs dir" "entry_at E (w_db w) dir c m" "is_mount m"
      using k by (auto simp: walk_ok_def)
    then show ?thesis using stop [of cs c rest dir m] w(2) AtMount by simp
  next
    case (AtLink m bef rest)
    then obtain cs c dir where "parts = cs @ c # rest" "bef = before @ cs"
      "descends E (w_db w) follow cur cs dir" "entry_at E (w_db w) dir c m" "follow" "is_symlink m"
      using k by (auto simp: walk_ok_def)
    then show ?thesis using stop [of cs c rest dir m] w(2) AtLink nm by simp
  qed
qed

lemma walk_link_not_mount:
  "walk E follow cur ups before parts w = (Inr (AtLink m bef rest), w') \<Longrightarrow> \<not> is_mount m"
proof (induction parts arbitrary: cur ups before w)
  case (Cons c cs)
  then show ?case
    by (auto simp: monad_simps split: if_splits option.splits list.splits)
qed simp

lemma symlink_not_mount: "is_symlink m \<Longrightarrow> \<not> is_mount m"
  by (simp add: kind_tests)

lemma clean_root_iff: "cleanPath p = [] \<or> cleanPath p = ''/'' \<longleftrightarrow> splitPath (cleanPath p) = []"
proof
  assume "cleanPath p = [] \<or> cleanPath p = ''/''"
  then show "splitPath (cleanPath p) = []" by (auto simp: splitPath_def trim_char_def trim_right_char_def)
next
  assume "splitPath (cleanPath p) = []"
  then show "cleanPath p = [] \<or> cleanPath p = ''/''" using cleanPath_split [of p] by (simp add: joinParts_def)
qed

section \<open>The resolver computes the meaning\<close>

text \<open>What \<open>resolvePathInner\<close> does with the end of the walk.\<close>

definition resolve_out :: "env \<Rightarrow> uuid \<Rightarrow> bool \<Rightarrow> uuid list \<Rightarrow> walk_out \<Rightarrow> walk_result W" where
  "resolve_out E rootID follow visited r =
     (case r of
        AtNode n \<Rightarrow> retM \<lparr>wr_node = n, wr_remaining = []\<rparr>
      | AtMount m rest \<Rightarrow> retM \<lparr>wr_node = m, wr_remaining = rest\<rparr>
      | AtLink child before rest \<Rightarrow>
          if length visited \<ge> maxSymlinkDepth then failM symlink_cycle
          else if n_id child \<in> set visited then failM symlink_cycle
          else
            bindM (liftM (readlink child)) (\<lambda>target.
              resolve_inner E rootID follow (n_id child # visited) (splice_target before target rest)))"

lemma resolve_walk:
  assumes "cache_ok w" "resolve_inner E rootID follow visited p w = (Inr r, w')"
  obtains (node) n where "resolves E (w_db w) rootID follow p [] \<lparr>wr_node = n, wr_remaining = []\<rparr>"
      "r = \<lparr>wr_node = n, wr_remaining = []\<rparr>" "cache_ok w'"
  | (mount) m rest where "resolves E (w_db w) rootID follow p [] \<lparr>wr_node = m, wr_remaining = rest\<rparr>"
      "r = \<lparr>wr_node = m, wr_remaining = rest\<rparr>" "cache_ok w'"
  | (link) root cs c rest dir m target w1 where "node_at (w_db w) rootID = Some root"
      "splitPath (cleanPath p) = cs @ c # rest" "descends E (w_db w) follow root cs dir"
      "entry_at E (w_db w) dir c m" "follow" "is_symlink m" "readlink m = Inr target"
      "length visited < maxSymlinkDepth" "n_id m \<notin> set visited"
      "resolve_inner E rootID follow (n_id m # visited) (splice_target cs target rest) w1 = (Inr r, w')"
      "cache_ok w1" "w_db w1 = w_db w" "cleanPath p \<noteq> []" "cleanPath p \<noteq> ''/''"
proof (cases "cleanPath p = [] \<or> cleanPath p = ''/''")
  case True
  then obtain n where n: "loadByID E rootID w = (Inr n, w')" "r = \<lparr>wr_node = n, wr_remaining = []\<rparr>"
    using assms(2) by (subst (asm) resolve_inner.simps) (auto simp: Let_def monad_simps)
  have "splitPath (cleanPath p) = []" using True clean_root_iff by blast
  then have "resolves E (w_db w) rootID follow p [] \<lparr>wr_node = n, wr_remaining = []\<rparr>"
    using loadByID_run [OF assms(1) n(1)] by (intro resolves_node [of _ _ n]) (auto intro: descends_here)
  then show thesis using node n loadByID_run [OF assms(1) n(1)] by blast
next
  case False
  obtain root wr where l: "loadByID E rootID w = (Inr root, wr)"
    using assms(2) False by (subst (asm) resolve_inner.simps) (auto simp: Let_def monad_simps)
  have wr: "cache_ok wr" "w_db wr = w_db w" "node_at (w_db w) rootID = Some root"
    using loadByID_run [OF assms(1) l] by auto
  obtain out w1 where k: "walk E follow root [] [] (splitPath (cleanPath p)) wr = (Inr out, w1)"
    and c: "resolve_out E rootID follow visited out w1 = (Inr r, w')"
    using assms(2) False l by (subst (asm) resolve_inner.simps) (auto simp: Let_def bindM_Inr_iff resolve_out_def)
  have ok: "cache_ok w1" "w_db w1 = w_db w" "walk_ok E (w_db w) follow root [] (splitPath (cleanPath p)) out"
    using walk_sound [OF wr(1) cleanPath_plain k] wr(2) by auto
  show thesis
  proof (cases out)
    case (AtNode n)
    then have "r = \<lparr>wr_node = n, wr_remaining = []\<rparr>" "w' = w1" using c by (auto simp: resolve_out_def)
    moreover have "descends E (w_db w) follow root (splitPath (cleanPath p)) n" using ok(3) AtNode by (simp add: walk_ok_def)
    ultimately show thesis using node [of n] resolves_node [OF wr(3)] ok(1) by blast
  next
    case (AtMount m rem)
    then obtain cs x rest dir where "splitPath (cleanPath p) = cs @ x # rest" "rem = joinParts rest"
      "descends E (w_db w) follow root cs dir" "entry_at E (w_db w) dir x m" "is_mount m"
      using ok(3) by (auto simp: walk_ok_def)
    note m = this
    have "r = \<lparr>wr_node = m, wr_remaining = rem\<rparr>" "w' = w1" using c AtMount by (auto simp: resolve_out_def)
    then show thesis using mount [of m rem] resolves_mount [OF wr(3) m(1,3,4,5)] m(2) ok(1) by blast
  next
    case (AtLink m bef rest)
    then obtain cs x dir where s: "splitPath (cleanPath p) = cs @ x # rest" "bef = cs"
      "descends E (w_db w) follow root cs dir" "entry_at E (w_db w) dir x m" "follow" "is_symlink m"
      using ok(3) by (auto simp: walk_ok_def)
    have v: "length visited < maxSymlinkDepth" "n_id m \<notin> set visited" using c AtLink by (auto simp: resolve_out_def split: if_splits)
    then obtain target where "readlink m = Inr target"
      "resolve_inner E rootID follow (n_id m # visited) (splice_target cs target rest) w1 = (Inr r, w')"
      using c AtLink s(2) by (auto simp: resolve_out_def monad_simps split: if_splits)
    then show thesis using link [OF wr(3) s(1,3-6) _ v] ok(1,2) False by blast
  qed
qed

lemma resolve_sound:
  assumes "cache_ok w" "resolve_inner E rootID follow visited p w = (Inr r, w')" "length visited \<le> maxSymlinkDepth"
  shows "\<exists>ls. resolves E (w_db w) rootID follow p ls r \<and> distinct ls \<and> set ls \<inter> set visited = {} \<and>
    length ls + length visited \<le> maxSymlinkDepth \<and> cache_ok w'"
  using assms
proof (induction "maxSymlinkDepth - length visited" arbitrary: visited p w)
  case less: (0 visited p w)
  show ?case using less(2,3,4)
  proof (cases rule: resolve_walk [consumes 2])
    case (node n)
    then show ?thesis using less by (intro exI [of _ "[]"]) simp
  next
    case (mount m rest)
    then show ?thesis using less by (intro exI [of _ "[]"]) simp
  next
    case (link root cs c rest dir m target w1)
    then show ?thesis using less(1) by simp
  qed
next
  case (Suc k visited p w)
  show ?case using Suc(3,4)
  proof (cases rule: resolve_walk [consumes 2])
    case (node n)
    then show ?thesis using Suc(5) by (intro exI [of _ "[]"]) simp
  next
    case (mount m rest)
    then show ?thesis using Suc(5) by (intro exI [of _ "[]"]) simp
  next
    case (link root cs c rest dir m target w1)
    have "k = maxSymlinkDepth - length (n_id m # visited)" using Suc(2) by simp
    from Suc(1) [OF this link(11,10)] link(8,12) obtain ls where
      ls: "resolves E (w_db w) rootID follow (splice_target cs target rest) ls r" "distinct ls"
        "set ls \<inter> set (n_id m # visited) = {}" "length ls + length (n_id m # visited) \<le> maxSymlinkDepth" "cache_ok w'"
      by auto
    have "resolves E (w_db w) rootID follow p (n_id m # ls) r"
      by (rule resolves_link [OF link(1-7) ls(1)])
    then show ?thesis using ls link(9) by (intro exI [of _ "n_id m # ls"]) auto
  qed
qed

text \<open>The links fit the budget of one resolution that has already followed \<open>visited\<close>.\<close>

definition links_fit :: "uuid list \<Rightarrow> uuid list \<Rightarrow> bool" where
  "links_fit ls visited \<longleftrightarrow> distinct ls \<and> set ls \<inter> set visited = {} \<and> length ls + length visited \<le> maxSymlinkDepth"

lemma links_fit_Cons:
  "links_fit (i # ls) visited \<longleftrightarrow> length visited < maxSymlinkDepth \<and> i \<notin> set visited \<and> links_fit ls (i # visited)"
  by (auto simp: links_fit_def)

text \<open>One round of the resolution finds the root and walks as far as the path goes.\<close>

lemma resolve_round:
  assumes f: "no_faults E" and w: "cache_ok w" "node_at (w_db w) rootID = Some root"
    and k: "walk_ok E (w_db w) follow root [] (splitPath (cleanPath p)) out" "\<And>m bef rest. out = AtLink m bef rest \<Longrightarrow> \<not> is_mount m"
    and ne: "splitPath (cleanPath p) \<noteq> []"
  shows "\<exists>w2. cache_ok w2 \<and> w_db w2 = w_db w \<and> (\<forall>visited. resolve_inner E rootID follow visited p w =
      (case out of
         AtNode n \<Rightarrow> (Inr \<lparr>wr_node = n, wr_remaining = []\<rparr>, w2)
       | AtMount m rest \<Rightarrow> (Inr \<lparr>wr_node = m, wr_remaining = rest\<rparr>, w2)
       | AtLink child before rest \<Rightarrow>
           if length visited \<ge> maxSymlinkDepth \<or> n_id child \<in> set visited then (Inl symlink_cycle, w2)
           else bindM (liftM (readlink child)) (\<lambda>target.
             resolve_inner E rootID follow (n_id child # visited) (splice_target before target rest)) w2))"
proof -
  obtain w1 where l: "loadByID E rootID w = (Inr root, w1)" "cache_ok w1" "w_db w1 = w_db w"
    by (rule loadByID_finds [OF f w])
  have c: "\<not> (cleanPath p = [] \<or> cleanPath p = ''/'')" using ne clean_root_iff by blast
  have "\<exists>w2. walk E follow root [] [] (splitPath (cleanPath p)) w1 = (Inr out, w2)"
    by (rule walk_complete [OF f l(2) cleanPath_plain]) (use k l(3) in auto)
  then obtain w2 where k2: "walk E follow root [] [] (splitPath (cleanPath p)) w1 = (Inr out, w2)" by blast
  have "cache_ok w2" "w_db w2 = w_db w" using walk_sound [OF l(2) cleanPath_plain k2] l(3) by auto
  moreover have "resolve_inner E rootID follow visited p w =
      (case out of
         AtNode n \<Rightarrow> (Inr \<lparr>wr_node = n, wr_remaining = []\<rparr>, w2)
       | AtMount m rest \<Rightarrow> (Inr \<lparr>wr_node = m, wr_remaining = rest\<rparr>, w2)
       | AtLink child before rest \<Rightarrow>
           if length visited \<ge> maxSymlinkDepth \<or> n_id child \<in> set visited then (Inl symlink_cycle, w2)
           else bindM (liftM (readlink child)) (\<lambda>target.
             resolve_inner E rootID follow (n_id child # visited) (splice_target before target rest)) w2)" for visited
    using l(1) c k2 by (subst resolve_inner.simps) (simp add: Let_def split: walk_out.splits)
  ultimately show ?thesis by blast
qed

lemma resolve_complete:
  assumes f: "no_faults E" and r: "resolves E d rootID follow p ls r"
    and "cache_ok w" "w_db w = d" "length visited \<le> maxSymlinkDepth"
  shows "\<exists>w'. resolve_inner E rootID follow visited p w = (if links_fit ls visited then Inr r else Inl symlink_cycle, w')"
  using assms(2-)
proof (induction arbitrary: visited w rule: resolves_induct)
  case (resolves_node root p n)
  show ?case
  proof (cases "splitPath (cleanPath p) = []")
    case True
    then have "cleanPath p = [] \<or> cleanPath p = ''/''" "n = root"
      using clean_root_iff resolves_node.hyps(2) by (simp_all add: descends_Nil)
    moreover obtain w1 where "loadByID E rootID w = (Inr root, w1)"
      using loadByID_finds [OF f resolves_node.prems(1)] resolves_node by metis
    ultimately show ?thesis using resolves_node.prems(3) by (subst resolve_inner.simps) (auto simp: Let_def links_fit_def)
  next
    case False
    have "walk_ok E (w_db w) follow root [] (splitPath (cleanPath p)) (AtNode n)"
      using resolves_node by (simp add: walk_ok_def)
    from resolve_round [OF f resolves_node.prems(1) _ this _ False] show ?thesis
      using resolves_node by (fastforce simp: links_fit_def)
  qed
next
  case (resolves_mount root p cs c rest dir m)
  have "walk_ok E (w_db w) follow root [] (splitPath (cleanPath p)) (AtMount m (joinParts rest))"
    unfolding walk_ok_def walk_out.case
    by (intro exI [of _ cs] exI [of _ c] exI [of _ rest] exI [of _ dir]) (use resolves_mount in simp)
  from resolve_round [OF f resolves_mount.prems(1) _ this] show ?case
    using resolves_mount by (fastforce simp: links_fit_def)
next
  case (resolves_link root p cs c rest dir m target ls r)
  have "walk_ok E (w_db w) follow root [] (splitPath (cleanPath p)) (AtLink m cs rest)"
    unfolding walk_ok_def walk_out.case
    by (intro exI [of _ cs] exI [of _ c] exI [of _ dir]) (use resolves_link in simp)
  from resolve_round [OF f resolves_link.prems(1) _ this] obtain w2 where w2: "cache_ok w2" "w_db w2 = d"
    and k: "resolve_inner E rootID follow visited p w =
      (if length visited \<ge> maxSymlinkDepth \<or> n_id m \<in> set visited then (Inl symlink_cycle, w2)
       else resolve_inner E rootID follow (n_id m # visited) (splice_target cs target rest) w2)"
    using resolves_link symlink_not_mount [OF resolves_link.hyps(6)] by (fastforce simp: bindM_def)
  show ?case
  proof (cases "length visited < maxSymlinkDepth \<and> n_id m \<notin> set visited")
    case True
    then show ?thesis using resolves_link.IH [OF w2, of "n_id m # visited"] k by (simp add: links_fit_Cons)
  next
    case False
    then show ?thesis using k by (auto simp: links_fit_Cons not_less)
  qed
qed

lemma resolvePath_Inr:
  "cache_ok w \<Longrightarrow> resolvePath E rootID p follow w = (Inr r, w') \<Longrightarrow>
   (\<exists>ls. resolves E (w_db w) rootID follow p ls r \<and> distinct ls \<and> length ls \<le> maxSymlinkDepth) \<and> cache_ok w' \<and> same_store w' w"
  using resolve_sound [of w E rootID follow "[]" p r w'] quietD [OF quiet_resolvePath, of E rootID p follow w]
  by (auto simp: resolvePath_def)

section \<open>Properties of the resolver\<close>

text \<open>
  C7. What \<open>resolvePath\<close> returns is what the path means in the database: the names of the path, from the
  root, lead through directory entries to the node, or to the first mount with the names after it; a symbolic
  link stands for its target, which starts at the root when it is absolute and otherwise at the directory that
  holds the link, followed by the rest of the path. It writes nothing. Without database faults it returns
  the meaning of every path that follows at most 40 links, each once, and every other path
  that has a meaning is refused with the cycle error.
\<close>

theorem resolvePath_meaning:
  assumes w: "cache_ok w"
  shows "(\<forall>r w'. resolvePath E rootID p follow w = (Inr r, w') \<longrightarrow>
      (\<exists>ls. leads E (w_db w) rootID follow (path_names p) ls r \<and> distinct ls \<and> length ls \<le> 40)) \<and>
    (\<forall>r w'. resolvePath E rootID p follow w = (r, w') \<longrightarrow> same_store w' w) \<and>
    (no_faults E \<longrightarrow> (\<forall>ls r. leads E (w_db w) rootID follow (path_names p) ls r \<longrightarrow>
      (\<exists>w'. resolvePath E rootID p follow w =
        (if distinct ls \<and> length ls \<le> 40 then Inr r else Inl (New KindInvalidArgument ''vfs: symlink cycle detected''), w'))))"
proof (intro conjI allI impI)
  have d: "maxSymlinkDepth = 40" by (simp add: maxSymlinkDepth_def)
  show "\<exists>ls. leads E (w_db w) rootID follow (path_names p) ls r \<and> distinct ls \<and> length ls \<le> 40"
    if "resolvePath E rootID p follow w = (Inr r, w')" for r w'
    using resolvePath_Inr [OF w that] unfolding resolves_def d by blast
  show "same_store w' w" if "resolvePath E rootID p follow w = (r, w')" for r w'
    by (rule quietD [OF quiet_resolvePath that])
  show "\<exists>w'. resolvePath E rootID p follow w =
        (if distinct ls \<and> length ls \<le> 40 then Inr r else Inl (New KindInvalidArgument ''vfs: symlink cycle detected''), w')"
    if "no_faults E" "leads E (w_db w) rootID follow (path_names p) ls r" for ls r
    using resolve_complete [OF that(1) _ w refl, of rootID follow p ls r "[]"] that(2)
    by (cases "distinct ls \<and> length ls \<le> 40") (auto simp: resolves_def resolvePath_def links_fit_def symlink_cycle_def d)
qed

lemma tree_splits:
  "splitPath (cleanPath ''/l/s'') = [''l'', ''s'']" "splitPath (cleanPath ''/d/s'') = [''d'', ''s'']"
  "splitPath (cleanPath ''/l/t'') = [''l'', ''t'']" "splitPath (cleanPath ''/d/t'') = [''d'', ''t'']"
  "splitPath (cleanPath ''/m/x'') = [''m'', ''x'']" "splitPath (cleanPath ''/m'') = [''m'']"
  "splitPath (cleanPath ''/x'') = [''x'']" "splitPath (cleanPath ''/f'') = [''f'']"
  by (simp_all add: splitPath_cleanPath clean_parts_def trim_space_def space_seqs_def has_prefix_def upt_rec)

lemma tree_entries:
  "entry_at demo tree_db tree_root ''l'' (tree_link 2 ''/d'')" "entry_at demo tree_db tree_root ''d'' tree_sub"
  "entry_at demo tree_db tree_sub ''s'' (tree_link 4 ''/l/t'')" "entry_at demo tree_db tree_sub ''t'' (tree_file 5)"
  "entry_at demo tree_db tree_root ''m'' (tree_mount 6 ''d2'')" "entry_at demo tree_db tree_root2 ''x'' (tree_file 21)"
  "entry_at demo tree_db tree_root ''f'' (tree_file 7)"
  by (simp_all add: entry_at_lookup tree_root_def tree_sub_def tree_root2_def tree_lookup)

lemma tree_kinds2: "is_dir tree_root" "is_dir tree_sub" "is_dir tree_root2" "\<not> is_mount tree_sub" "\<not> is_symlink tree_sub"
  "n_kind tree_sub = NodeKindDirectory"
  by (simp_all add: kind_tests tree_root_def tree_sub_def tree_root2_def)

lemma tree_resolves:
  "resolves demo tree_db 1 True ''/d/t'' [] \<lparr>wr_node = tree_file 5, wr_remaining = []\<rparr>"
  "resolves demo tree_db 1 True ''/l/t'' [2] \<lparr>wr_node = tree_file 5, wr_remaining = []\<rparr>"
  "resolves demo tree_db 1 True ''/d/s'' [4, 2] \<lparr>wr_node = tree_file 5, wr_remaining = []\<rparr>"
  "resolves demo tree_db 1 True ''/l/s'' [2, 4, 2] \<lparr>wr_node = tree_file 5, wr_remaining = []\<rparr>"
proof -
  note e = tree_entries and k = tree_kinds2 tree_kinds
  have sub: "descends demo tree_db True tree_root [''d''] tree_sub"
    by (rule descends_into [OF e(2)]) (simp_all add: k descends_here)
  have "descends demo tree_db True tree_root [''d'', ''t''] (tree_file 5)"
    by (intro descends_into [OF e(2)] descends_into [OF e(4)] descends_here) (simp_all add: k kind_tests)
  then show a: "resolves demo tree_db 1 True ''/d/t'' [] \<lparr>wr_node = tree_file 5, wr_remaining = []\<rparr>"
    by (intro resolves_node [of _ _ tree_root]) (simp_all add: tree_splits)
  have l: "is_symlink (tree_link i x)" for i x by (simp add: kind_tests)
  have sp: "splice_target [] ''/d'' [''t''] = ''/d/t''" "splice_target [] ''/d'' [''s''] = ''/d/s''" "splice_target [''d''] ''/l/t'' [] = ''/l/t''"
    by (simp_all add: splice_target_def joinParts_def has_prefix_def)
  have "resolves demo tree_db 1 True ''/l/t'' (n_id (tree_link 2 ''/d'') # []) \<lparr>wr_node = tree_file 5, wr_remaining = []\<rparr>"
    by (rule resolves_link [OF tree_at(1) _ descends_here e(1) _ l])
      (simp add: tree_splits tree_readlink sp a)+
  then show b: "resolves demo tree_db 1 True ''/l/t'' [2] \<lparr>wr_node = tree_file 5, wr_remaining = []\<rparr>" by simp
  have "resolves demo tree_db 1 True ''/d/s'' (n_id (tree_link 4 ''/l/t'') # [2]) \<lparr>wr_node = tree_file 5, wr_remaining = []\<rparr>"
    by (rule resolves_link [OF tree_at(1) _ sub e(3) _ l]) (simp add: tree_splits tree_readlink sp b)+
  then show c: "resolves demo tree_db 1 True ''/d/s'' [4, 2] \<lparr>wr_node = tree_file 5, wr_remaining = []\<rparr>" by simp
  have "resolves demo tree_db 1 True ''/l/s'' (n_id (tree_link 2 ''/d'') # [4, 2]) \<lparr>wr_node = tree_file 5, wr_remaining = []\<rparr>"
    by (rule resolves_link [OF tree_at(1) _ descends_here e(1) _ l])
      (simp add: tree_splits tree_readlink sp c)+
  then show "resolves demo tree_db 1 True ''/l/s'' [2, 4, 2] \<lparr>wr_node = tree_file 5, wr_remaining = []\<rparr>" by simp
qed

text \<open>A tree with a relative link: d holds the link r to "../f".\<close>

definition rel_root :: node where
  "rel_root = tree_dir 1 [\<lparr>de_ino = 3, de_name = ''d'', de_kind = NodeKindDirectory\<rparr>,
     \<lparr>de_ino = 7, de_name = ''f'', de_kind = NodeKindFile\<rparr>]"

definition rel_sub :: node where
  "rel_sub = tree_dir 3 [\<lparr>de_ino = 8, de_name = ''r'', de_kind = NodeKindSymlink\<rparr>]"

definition rel_db :: db where
  "rel_db = tree_db\<lparr>t_nodes := [1 \<mapsto> row_insert rel_root, 3 \<mapsto> row_insert rel_sub, 7 \<mapsto> row_insert (tree_file 7),
     8 \<mapsto> row_insert (tree_link 8 ''../f'')]\<rparr>"

lemma rel_at: "node_at rel_db 1 = Some rel_root" "node_at rel_db 3 = Some rel_sub" "node_at rel_db 7 = Some (tree_file 7)"
  "node_at rel_db 8 = Some (tree_link 8 ''../f'')"
  by (simp_all add: rel_db_def node_at_def rel_root_def rel_sub_def tree_dir_def tree_link_def tree_file_def from_demo_node)

lemma rel_leads: "leads demo rel_db 1 True [''d'', ''r''] [8] \<lparr>wr_node = tree_file 7, wr_remaining = []\<rparr>"
proof -
  have t: "valid_utf8 ''../f''" "valid_utf8 ''r''" by (simp_all add: ascii_valid byte_in_def)
  have e: "entry_at demo rel_db rel_root ''d'' rel_sub" "entry_at demo rel_db rel_sub ''r'' (tree_link 8 ''../f'')"
    "entry_at demo rel_db rel_root ''f'' (tree_file 7)"
    using t(2) by (simp_all add: entry_at_lookup rel_root_def rel_sub_def tree_lookup rel_at [unfolded rel_root_def rel_sub_def])
  have "after_link [''d''] ''../f'' [] = [''f'']"
    by (simp add: after_link_def pieces_def path_names_def below_root_def trim_space_def space_seqs_def has_prefix_def upt_rec)
  moreover have "descends demo rel_db True rel_root [''f''] (tree_file 7)"
    by (intro descends_into [OF e(3)] descends_here) (simp_all add: kind_tests)
  ultimately have "leads demo rel_db 1 True (after_link [''d''] ''../f'' []) [] \<lparr>wr_node = tree_file 7, wr_remaining = []\<rparr>"
    using leads_node [OF rel_at(1)] by simp
  moreover have "descends demo rel_db True rel_root [''d''] rel_sub"
    by (rule descends_into [OF e(1) _ _ descends_here]) (simp_all add: kind_tests rel_sub_def)
  moreover have "readlink (tree_link 8 ''../f'') = Inr ''../f''" using t(1) by (rule tree_readlink)
  moreover have "is_symlink (tree_link 8 ''../f'')" by (simp add: kind_tests)
  ultimately show ?thesis
    using leads_link [OF rel_at(1) _ e(2), where follow = True and cs = "[''d'']" and target = "''../f''" and rest = "[]"] by simp
qed

text \<open>
  The path /l/s leads to a file after three links and is yet refused: one link is used twice. A relative
  link is read from its own directory.
\<close>

theorem resolvePath_meaning_witness:
  "(\<exists>w. resolvePath demo 1 ''/d/s'' True tree = (Inr \<lparr>wr_node = tree_file 5, wr_remaining = []\<rparr>, w)) \<and>
   (\<exists>w. resolvePath demo 1 ''/l/s'' True tree = (Inl symlink_cycle, w)) \<and>
   resolves demo (w_db tree) 1 True ''/l/s'' [2, 4, 2] \<lparr>wr_node = tree_file 5, wr_remaining = []\<rparr> \<and>
   (\<exists>w. resolvePath demo 1 ''/d/r'' True (world_of rel_db) = (Inr \<lparr>wr_node = tree_file 7, wr_remaining = []\<rparr>, w))"
proof -
  have c: "cache_ok tree" "cache_ok (world_of rel_db)" "w_db (world_of rel_db) = rel_db"
    by (simp_all add: cache_ok_def world_of_def)
  have n: "path_names ''/d/r'' = [''d'', ''r'']"
    by (simp add: path_names_def below_root_def pieces_def trim_space_def space_seqs_def has_prefix_def upt_rec)
  note m = resolvePath_meaning [THEN conjunct2, THEN conjunct2, THEN mp, OF _ demo_no_faults, rule_format]
  from m [OF c(1)] m [OF c(2)] tree_resolves(3,4) rel_leads show ?thesis
    unfolding resolves_def c(3) tree_simps n [symmetric] symlink_cycle_def by fastforce
qed

section \<open>Crossing mounts\<close>

definition drive_root :: "db \<Rightarrow> string \<Rightarrow> uuid \<Rightarrow> bool" where
  "drive_root d drive root \<longleftrightarrow> (\<exists>r. drive_row d drive = Some r \<and> ed_root_node_id r = Some root)"

text \<open>
  \<open>crosses drive p d' n ds\<close>: from the root of \<open>drive\<close> the path \<open>p\<close> leads to the node \<open>n\<close> in the
  drive \<open>d'\<close>, through mounts of the drives \<open>ds\<close>, within the link budget in each drive.
\<close>

inductive crosses :: "env \<Rightarrow> db \<Rightarrow> bool \<Rightarrow> string \<Rightarrow> string \<Rightarrow> string \<Rightarrow> node \<Rightarrow> string list \<Rightarrow> bool"
  for E :: env and d :: db and follow :: bool where
  crosses_here: "drive_root d drive root \<Longrightarrow> resolves E d root follow p ls r \<Longrightarrow> links_fit ls [] \<Longrightarrow>
    wr_remaining r = [] \<Longrightarrow> crosses E d follow drive p drive (wr_node r) []"
| crosses_mount: "drive_root d drive root \<Longrightarrow> resolves E d root follow p ls r \<Longrightarrow> links_fit ls [] \<Longrightarrow>
    wr_remaining r \<noteq> [] \<Longrightarrow> read_mount (wr_node r) = Inr src \<Longrightarrow>
    crosses E d follow src (''/'' @ wr_remaining r) d' n ds \<Longrightarrow> crosses E d follow drive p d' n (src # ds)"

lemma GetRootNodeID_Inr:
  assumes "GetRootNodeID E drive w = (Inr i, w')"
  shows "drive_root (client w) drive i" "same_store w' w"
proof -
  obtain d where g: "DriveGetByID E drive w = (Inr d, w')" "d_root_node_id d = Some i"
    using assms by (auto simp: GetRootNodeID_def monad_simps split: option.splits)
  obtain r where "drive_row (client w) drive = Some r" "d = driveFromEnt r"
    using DriveGetByID_Inr(1) [OF g(1)] by blast
  then show "drive_root (client w) drive i" using g(2) by (auto simp: drive_root_def driveFromEnt_def)
  show "same_store w' w" by (rule DriveGetByID_Inr(2) [OF g(1)])
qed

lemma GetRootNodeID_cache:
  assumes "GetRootNodeID E drive w = (r, w')"
  shows "w_cache w' = w_cache w"
  using assms
  by (auto simp: GetRootNodeID_def DriveGetByID_def drepo_get_by_id_def drepo_query_def bindM_def wrapM_def seqM_def io_def
      split: option.splits sum.splits prod.splits if_splits)

lemma only_unique:
  assumes "distinct (map k rs)" "r \<in> set rs"
  shows "only (\<lambda>x. k x = k r) rs = Inr (Some r)"
proof -
  have "filter (\<lambda>x. k x = k r) rs = [r]"
    using assms by (induction rs) (auto simp: filter_empty_conv intro: rev_image_eqI)
  then show ?thesis by (simp add: only_def)
qed

lemma GetRootNodeID_finds:
  assumes "no_faults E" "drives_ok (client w)" "drive_root (client w) drive i"
  shows "GetRootNodeID E drive w = (Inr i, w\<lparr>w_tick := Suc (w_tick w)\<rparr>)"
proof -
  obtain r where r: "r \<in> set (t_drives (client w))" "ed_id r = drive" "ed_root_node_id r = Some i"
    using assms(3) by (auto simp: drive_root_def drive_row_def dest: find_Some_set)
  have "only (\<lambda>x. ed_id x = drive) (t_drives (client w)) = Inr (Some r)"
    using only_unique [of ed_id "t_drives (client w)" r] assms(2) r by (simp add: drives_ok_def)
  then show ?thesis using r(3)
    by (simp add: GetRootNodeID_def DriveGetByID_def drepo_get_by_id_def drepo_query_def bindM_def wrapM_def seqM_def
        io_no_faults [OF assms(1)] driveFromEnt_def)
qed

lemma mount_hops_sound:
  assumes "w_tx w = None" "mount_hops E follow k visited drive p w = (Inr (d', n), w')"
  shows "\<exists>ds. crosses E (w_db w) follow drive p d' n ds \<and> distinct ds \<and> set ds \<inter> set visited = {} \<and> length ds < k"
  using assms
proof (induction k arbitrary: visited drive p w)
  case 0
  then show ?case by simp
next
  case (Suc k)
  obtain w0 w1 w2 root r where n: "newResolver w = (Inr (), w0)" and g: "GetRootNodeID E drive w0 = (Inr root, w1)"
    and p: "resolvePath E root p follow w1 = (Inr r, w2)"
    and c: "(if wr_remaining r = [] then retM (drive, wr_node r)
       else
         bindM (liftM (read_mount (wr_node r))) (\<lambda>src.
           if src \<in> set visited then failM (New KindInvalidArgument ''vfs: mount cycle detected'')
           else mount_hops E follow k (src # visited) src (''/'' @ wr_remaining r))) w2 = (Inr (d', n), w')"
    using Suc.prems(2) by (auto simp: bindM_Inr_iff seqM_Inr_iff)
  have w0: "w_db w0 = w_db w" "w_tx w0 = None" "w_cache w0 = Map.empty"
    using n Suc.prems(1) by (auto simp: newResolver_def)
  have w1: "w_db w1 = w_db w" "w_tx w1 = None" "w_cache w1 = Map.empty"
    using GetRootNodeID_Inr(2) [OF g] GetRootNodeID_cache [OF g] w0 by (auto simp: same_store_def)
  have root: "drive_root (w_db w) drive root" using GetRootNodeID_Inr(1) [OF g] w0 by (simp add: client_no_tx)
  have "cache_ok w1" using w1(3) by (simp add: cache_ok_def)
  from resolvePath_Inr [OF this p] obtain ls where
    r: "resolves E (w_db w) root follow p ls r" "links_fit ls []" and w2: "same_store w2 w1"
    using w1(1) by (auto simp: links_fit_def)
  have w2: "w_db w2 = w_db w" "w_tx w2 = None" using w2 w1 by (auto simp: same_store_def)
  show ?case
  proof (cases "wr_remaining r = []")
    case True
    then have "d' = drive" "n = wr_node r" using c by auto
    then show ?thesis using crosses_here [OF root r True] by (intro exI [of _ "[]"]) simp
  next
    case False
    then obtain src where s: "read_mount (wr_node r) = Inr src" "src \<notin> set visited"
      "mount_hops E follow k (src # visited) src (''/'' @ wr_remaining r) w2 = (Inr (d', n), w')"
      using c by (auto simp: bindM_Inr_iff split: if_splits)
    from Suc.IH [OF w2(2) s(3)] obtain ds where ds:
      "crosses E (w_db w) follow src (''/'' @ wr_remaining r) d' n ds" "distinct ds" "set ds \<inter> set (src # visited) = {}" "length ds < k"
      using w2(1) by auto
    then show ?thesis using crosses_mount [OF root r False s(1) ds(1)] s(2)
      by (intro exI [of _ "src # ds"]) auto
  qed
qed

lemma mount_hops_complete:
  assumes f: "no_faults E" and c: "crosses E d follow drive p d' n ds"
    and "w_tx w = None" "w_db w = d" "drives_ok d" "distinct ds" "set ds \<inter> set visited = {}" "length ds < k"
  shows "\<exists>w'. mount_hops E follow k visited drive p w = (Inr (d', n), w')"
  using c assms(3-)
proof (induction arbitrary: w visited k rule: crosses.induct)
  case (crosses_here drive root p ls r)
  obtain j where k: "k = Suc j" using crosses_here.prems(6) by (cases k) auto
  let ?w1 = "w\<lparr>w_cache := Map.empty, w_tick := Suc (w_tick w)\<rparr>"
  have cl: "client (w\<lparr>w_cache := Map.empty\<rparr>) = d" using crosses_here.prems(1,2) by (simp add: client_def)
  have g: "GetRootNodeID E drive (w\<lparr>w_cache := Map.empty\<rparr>) = (Inr root, ?w1)"
    using GetRootNodeID_finds [OF f, of "w\<lparr>w_cache := Map.empty\<rparr>"] cl crosses_here by simp
  have "cache_ok ?w1" by (simp add: cache_ok_def)
  from resolve_complete [OF f crosses_here.hyps(2) this, of "[]"] obtain w2 where
    "resolvePath E root p follow ?w1 = (Inr r, w2)" using crosses_here by (auto simp: resolvePath_def)
  then show ?case using g crosses_here.hyps(4) k by (simp add: newResolver_def)
next
  case (crosses_mount drive root p ls r src d' n ds)
  obtain j where k: "k = Suc j" using crosses_mount.prems(6) by (cases k) auto
  let ?w1 = "w\<lparr>w_cache := Map.empty, w_tick := Suc (w_tick w)\<rparr>"
  have cl: "client (w\<lparr>w_cache := Map.empty\<rparr>) = d" using crosses_mount.prems(1,2) by (simp add: client_def)
  have g: "GetRootNodeID E drive (w\<lparr>w_cache := Map.empty\<rparr>) = (Inr root, ?w1)"
    using GetRootNodeID_finds [OF f, of "w\<lparr>w_cache := Map.empty\<rparr>"] cl crosses_mount by simp
  have co: "cache_ok ?w1" by (simp add: cache_ok_def)
  from resolve_complete [OF f crosses_mount.hyps(2) co, of "[]"] obtain w2 where
    p: "resolvePath E root p follow ?w1 = (Inr r, w2)" using crosses_mount by (auto simp: resolvePath_def)
  have "same_store w2 ?w1" by (rule quietD [OF quiet_resolvePath p])
  then have w2: "w_tx w2 = None" "w_db w2 = d" using crosses_mount.prems by (auto simp: same_store_def)
  obtain w' where "mount_hops E follow j (src # visited) src (''/'' @ wr_remaining r) w2 = (Inr (d', n), w')"
    using crosses_mount.IH [OF w2, of "src # visited" j] crosses_mount.prems k by auto
  then show ?case using g p crosses_mount.hyps(4,5) crosses_mount.prems(5) k by (simp add: newResolver_def)
qed

text \<open>
  C8. Crossing mounts. Outside a transaction, the drive and the node \<open>resolveWithMounts\<close> returns are
  where the path leads through a chain of mounted drives, each visited once and at most 31
  mounts; without database faults it returns the end of every such chain.
\<close>

theorem resolveWithMounts_meaning:
  assumes w: "w_tx w = None"
  shows "(\<forall>d' n w'. resolveWithMounts E drive p follow w = (Inr (d', n), w') \<longrightarrow>
      (\<exists>ds. crosses E (w_db w) follow drive (cleanPath p) d' n ds \<and> distinct (drive # ds) \<and> length ds < maxMountHops)) \<and>
    (\<forall>r w'. resolveWithMounts E drive p follow w = (r, w') \<longrightarrow> same_store w' w) \<and>
    (no_faults E \<longrightarrow> drives_ok (w_db w) \<longrightarrow> (\<forall>d' n ds. crosses E (w_db w) follow drive (cleanPath p) d' n ds \<longrightarrow>
      distinct (drive # ds) \<longrightarrow> length ds < maxMountHops \<longrightarrow>
      (\<exists>w'. resolveWithMounts E drive p follow w = (Inr (d', n), w'))))"
proof (intro conjI allI impI)
  fix d' n w' assume "resolveWithMounts E drive p follow w = (Inr (d', n), w')"
  from mount_hops_sound [OF w this [unfolded resolveWithMounts_def]]
  show "\<exists>ds. crosses E (w_db w) follow drive (cleanPath p) d' n ds \<and> distinct (drive # ds) \<and> length ds < maxMountHops"
    by auto
next
  show "same_store w' w" if "resolveWithMounts E drive p follow w = (r, w')" for r w'
    by (rule quietD [OF quiet_resolveWithMounts that])
next
  fix d' n ds
  assume a: "no_faults E" "drives_ok (w_db w)" "crosses E (w_db w) follow drive (cleanPath p) d' n ds"
    "distinct (drive # ds)" "length ds < maxMountHops"
  show "\<exists>w'. resolveWithMounts E drive p follow w = (Inr (d', n), w')"
    unfolding resolveWithMounts_def by (rule mount_hops_complete [OF a(1,3) w refl a(2) _ _ a(5)]) (use a(4) in auto)
qed

lemma tree_roots: "drive_root tree_db ''d1'' 1" "drive_root tree_db ''d2'' 20" "drives_ok tree_db"
  by (simp_all add: drive_root_def drive_row_def drives_ok_def tree_db_def empty_db_def tree_drive_def)

lemma tree_crosses: "crosses demo tree_db True ''d1'' (cleanPath ''/m/x'') ''d2'' (tree_file 21) [''d2'']"
proof -
  have s: "cleanPath ''/m/x'' = ''/m/x''" using cleanPath_split [of "''/m/x''"] by (simp add: tree_splits joinParts_def)
  have "descends demo tree_db True tree_root2 [''x''] (tree_file 21)"
    by (intro descends_into [OF tree_entries(6)] descends_here) (simp_all add: kind_tests)
  then have "resolves demo tree_db 20 True ''/x'' [] \<lparr>wr_node = tree_file 21, wr_remaining = []\<rparr>"
    by (intro resolves_node [of _ _ tree_root2]) (simp_all add: tree_splits)
  from crosses_here [OF tree_roots(2) this] have x: "crosses demo tree_db True ''d2'' ''/x'' ''d2'' (tree_file 21) []"
    by (simp add: links_fit_def)
  have "resolves demo tree_db 1 True ''/m/x'' [] \<lparr>wr_node = tree_mount 6 ''d2'', wr_remaining = joinParts [''x'']\<rparr>"
    by (rule resolves_mount [OF tree_at(1) _ descends_here tree_entries(5)]) (simp add: tree_splits kind_tests)+
  from crosses_mount [OF tree_roots(1) this] x show ?thesis
    by (simp add: links_fit_def joinParts_def s tree_read_mount)
qed

theorem resolveWithMounts_meaning_witness:
  "\<exists>w'. resolveWithMounts demo ''d1'' ''/m/x'' True tree = (Inr (''d2'', tree_file 21), w')"
  using resolveWithMounts_meaning [OF tree_simps(2), of demo "''d1''" "''/m/x''" True] tree_crosses tree_roots(3)
  by (auto simp: maxMountHops_def)

end
