(* ===== verification/VfsRead.thy ===== *)
theory VfsRead
  imports Resolver
begin

text \<open>
  The reading half of package internal/vfs: \<open>Resolve\<close>, \<open>Lstat\<close>, \<open>ResolveForPermission\<close>, the id
  lookups, \<open>Stat\<close>, \<open>Ls\<close> and \<open>Cat\<close>. The properties say what they return in terms of the
  relations \<open>crosses\<close> and \<open>resolves\<close>.
\<close>

section \<open>service.go\<close>

definition Resolve :: "env \<Rightarrow> string \<Rightarrow> string \<Rightarrow> (string \<times> node) W" where
  "Resolve E driveID p = resolveWithMounts E driveID p True"

definition Lstat :: "env \<Rightarrow> string \<Rightarrow> string \<Rightarrow> (string \<times> node) W" where
  "Lstat E driveID p = resolveWithMounts E driveID p False"

definition ResolveForPermission :: "env \<Rightarrow> string \<Rightarrow> string \<Rightarrow> (string \<times> string) W" where
  "ResolveForPermission E driveID p =
     bindM (GetRootNodeID E driveID) (\<lambda>rootID.
     seqM newResolver (bindM (resolvePath E rootID p True) (\<lambda>out.
       if is_mount (wr_node out) then
         bindM (liftM (read_mount (wr_node out))) (\<lambda>src. retM (src, wr_remaining out))
       else retM (driveID, p))))"

definition ResolveParentNodeID :: "env \<Rightarrow> string \<Rightarrow> string \<Rightarrow> (uuid \<times> string) W" where
  "ResolveParentNodeID E driveID p =
     bindM (GetRootNodeID E driveID) (\<lambda>rootID.
     seqM newResolver (bindM (resolveParent E rootID p) (\<lambda>(parent, name). retM (n_id parent, name))))"

definition ResolveNodeID :: "env \<Rightarrow> string \<Rightarrow> string \<Rightarrow> uuid W" where
  "ResolveNodeID E driveID p =
     bindM (GetRootNodeID E driveID) (\<lambda>rootID.
     seqM newResolver (bindM (resolvePath E rootID p True) (\<lambda>out. retM (n_id (wr_node out)))))"

section \<open>stat.go, ls.go, cat.go\<close>

definition Stat :: "env \<Rightarrow> string \<Rightarrow> string \<Rightarrow> node W" where
  "Stat E driveID p = bindM (Resolve E driveID p) (\<lambda>(d, n). retM n)"

definition ls_not_a_directory :: gerror where
  "ls_not_a_directory = New KindFailedPrecondition ''vfs: not a directory''"

definition Ls :: "env \<Rightarrow> string \<Rightarrow> string \<Rightarrow> dir_content W" where
  "Ls E driveID p =
     bindM (wrapM [] (''vfs: ls resolve (path='' @ p @ '')'') (Resolve E driveID p)) (\<lambda>(d, n).
       if \<not> is_dir n then failM ls_not_a_directory
       else wrapM [] (''vfs: ls read dir (path='' @ p @ '')'') (liftM (read_dir E n)))"

text \<open>\<open>string(n.Kind())\<close> is the text of the code point whose number is the kind.\<close>

definition kind_rune :: "node_kind \<Rightarrow> string" where
  "kind_rune k = encode_rune (unat k)"

definition Cat :: "env \<Rightarrow> string \<Rightarrow> string \<Rightarrow> string W" where
  "Cat E driveID p =
     bindM (wrapM [] (''vfs: cat resolve (path='' @ p @ '')'') (Resolve E driveID p)) (\<lambda>(d, n).
       if is_file n then wrapM [] (''vfs: cat read file (path='' @ p @ '')'') (liftM (read_file n))
       else if is_object n then
         failM (New KindFailedPrecondition ''vfs: cat: target is an object (use download endpoint)'')
       else if is_dir n then failM (New KindInvalidArgument ''vfs: cat: target is a directory'')
       else failM (New KindFailedPrecondition (''vfs: cat: cannot read type='' @ kind_rune (n_kind n))))"

section \<open>They only read\<close>

lemma quiet_vfs_reads [quiet_intros]:
  "quiet (Resolve E d p)" "quiet (Lstat E d p)" "quiet (ResolveForPermission E d p)"
  "quiet (ResolveParentNodeID E d p)" "quiet (ResolveNodeID E d p)" "quiet (Stat E d p)"
  "quiet (Ls E d p)" "quiet (Cat E d p)"
  unfolding Stat_def Ls_def Cat_def Resolve_def Lstat_def ResolveForPermission_def
    ResolveParentNodeID_def ResolveNodeID_def
  by (intro quiet_intros)+

section \<open>Parents\<close>

text \<open>\<open>parent_of d root p dir name\<close>: the entry \<open>p\<close> names is \<open>name\<close> in \<open>dir\<close> (links in the parent part followed).\<close>

definition parent_of :: "env \<Rightarrow> db \<Rightarrow> uuid \<Rightarrow> string \<Rightarrow> node \<Rightarrow> string \<Rightarrow> bool" where
  "parent_of E d rootID p dir name \<longleftrightarrow>
     (\<exists>cs ls r. splitPath (cleanPath p) = cs @ [name] \<and> plain name \<and>
        resolves E d rootID True (CHR ''/'' # joinParts cs) ls r \<and> links_fit ls [] \<and> dir = wr_node r)"

lemma resolveParent_Inr:
  assumes "cache_ok w" "resolveParent E rootID p w = (Inr (dir, name), w')"
  shows "parent_of E (w_db w) rootID p dir name" "cache_ok w'" "same_store w' w"
proof -
  have parts: "\<exists>cs. splitPath (cleanPath p) = cs @ [name] \<and>
      (\<exists>r. resolvePath E rootID (CHR ''/'' # joinParts cs) True w = (Inr r, w') \<and> dir = wr_node r)"
  proof (cases "splitPath (cleanPath p)" rule: rev_cases)
    case Nil
    then show ?thesis using assms(2) split_last_root [of p]
      by (auto simp: resolveParent_def split: if_splits)
  next
    case (snoc cs x)
    then show ?thesis using assms(2) split_last_cleanPath [OF snoc]
      by (auto simp: resolveParent_def bindM_Inr_iff split: if_splits)
  qed
  then obtain cs r where s: "splitPath (cleanPath p) = cs @ [name]"
    and r: "resolvePath E rootID (CHR ''/'' # joinParts cs) True w = (Inr r, w')" "dir = wr_node r" by blast
  have "plain name" using cleanPath_plain [of p] s by simp
  then show "parent_of E (w_db w) rootID p dir name"
    using s r resolvePath_Inr [OF assms(1) r(1)] unfolding parent_of_def links_fit_def by auto
  show "cache_ok w'" "same_store w' w" using resolvePath_Inr [OF assms(1) r(1)] by auto
qed

lemma newResolver_run [simp]: "newResolver w = (Inr (), w\<lparr>w_cache := Map.empty\<rparr>)"
  by (simp add: newResolver_def)

lemma cache_ok_empty [simp]: "cache_ok (w\<lparr>w_cache := Map.empty\<rparr>)"
  by (simp add: cache_ok_def)

lemma client_cache [simp]: "client ((w::world)\<lparr>w_cache := c\<rparr>) = client w"
  by (cases "w_tx w") (simp_all add: client_def)

lemma Resolve_Inr:
  assumes "w_tx w = None" "Resolve E d p w = (Inr (d', n), w')"
  shows "\<exists>ds. crosses E (w_db w) True d (cleanPath p) d' n ds \<and> distinct (d # ds) \<and> length ds < maxMountHops"
  using mount_hops_sound [OF assms(1) assms(2) [unfolded Resolve_def resolveWithMounts_def]] by auto

text \<open>
  The drive whose permission a read of the path needs, and the path to read there: the source of the first
  mount on the path, with the names after it, or the drive and the path themselves when they lead to no mount.
\<close>

definition read_drive :: "env \<Rightarrow> db \<Rightarrow> string \<Rightarrow> string \<Rightarrow> string \<Rightarrow> string \<Rightarrow> bool" where
  "read_drive E db d p d1 q \<longleftrightarrow> (\<exists>root ls r. drive_root db d root \<and> resolves E db root True p ls r \<and> links_fit ls [] \<and>
     (if is_mount (wr_node r) then read_mount (wr_node r) = Inr d1 \<and> q = (if d1 = d then [] else ''/'') @ wr_remaining r
      else d1 = d \<and> q = p))"

lemma ResolveForPermission_Inr:
  assumes w: "w_tx w = None" and r: "ResolveForPermission E d p w = (Inr (d1, q), w')"
  shows "read_drive E (w_db w) d p d1 (if d1 = d then q else CHR ''/'' # q)"
proof -
  obtain root w1 r w2 where g: "GetRootNodeID E d w = (Inr root, w1)"
    and p: "resolvePath E root p True (w1\<lparr>w_cache := Map.empty\<rparr>) = (Inr r, w2)"
    and o: "(if is_mount (wr_node r) then bindM (liftM (read_mount (wr_node r))) (\<lambda>src. retM (src, wr_remaining r))
       else retM (d, p)) w2 = (Inr (d1, q), w')"
    using r by (auto simp: ResolveForPermission_def bindM_Inr_iff seqM_Inr_iff)
  have w1: "w_db w1 = w_db w" using GetRootNodeID_Inr(2) [OF g] by (simp add: same_store_def)
  have root: "drive_root (w_db w) d root" using GetRootNodeID_Inr(1) [OF g] w by (simp add: client_no_tx)
  obtain ls where "resolves E (w_db w) root True p ls r" "links_fit ls []"
    using resolvePath_Inr [OF cache_ok_empty p] w1 by (auto simp: links_fit_def)
  moreover have "if is_mount (wr_node r) then read_mount (wr_node r) = Inr d1 \<and> q = wr_remaining r else d1 = d \<and> q = p"
    using o by (auto simp: monad_simps split: if_splits)
  ultimately show ?thesis using root unfolding read_drive_def
    by (intro exI [of _ root] exI [of _ ls] exI [of _ r]) (auto split: if_splits)
qed

lemma ResolveForPermission_finds:
  assumes f: "no_faults E" and w: "w_tx w = None" "drives_ok (w_db w)" and r: "read_drive E (w_db w) d p d1 q"
  shows "\<exists>q' w'. ResolveForPermission E d p w = (Inr (d1, q'), w') \<and> q = (if d1 = d then q' else CHR ''/'' # q')"
proof -
  obtain root ls x where root: "drive_root (w_db w) d root" and x: "resolves E (w_db w) root True p ls x" "links_fit ls []"
    and o: "if is_mount (wr_node x) then read_mount (wr_node x) = Inr d1 \<and> q = (if d1 = d then [] else ''/'') @ wr_remaining x
      else d1 = d \<and> q = p" using r unfolding read_drive_def by blast
  let ?w1 = "w\<lparr>w_tick := Suc (w_tick w)\<rparr>"
  have g: "GetRootNodeID E d w = (Inr root, ?w1)"
    using GetRootNodeID_finds [OF f, of w] w root by (simp add: client_no_tx)
  have "w_db (?w1\<lparr>w_cache := Map.empty\<rparr>) = w_db w" by simp
  from resolve_complete [OF f x(1) cache_ok_empty this, of "[]"] obtain w2
    where "resolvePath E root p True (?w1\<lparr>w_cache := Map.empty\<rparr>) = (Inr x, w2)" using x(2) by (auto simp: resolvePath_def)
  then show ?thesis using g o by (cases "is_mount (wr_node x)") (auto simp: ResolveForPermission_def bindM_def seqM_def liftM_def)
qed

section \<open>Properties\<close>

text \<open>
  C21. What \<open>Stat\<close>, \<open>Ls\<close> and \<open>Cat\<close> return: each succeeds only with a node the path leads to
  through directories, links and mounts; \<open>Ls\<close> returns the listing of a directory, \<open>Cat\<close> the
  content of a file; and none of them writes.
\<close>

theorem vfs_reads_meaning:
  assumes w: "w_tx w = None"
  shows "(\<forall>n w'. Stat E d p w = (Inr n, w') \<longrightarrow> (\<exists>d' ds. crosses E (w_db w) True d (cleanPath p) d' n ds)) \<and>
    (\<forall>dc w'. Ls E d p w = (Inr dc, w') \<longrightarrow>
      (\<exists>d' n ds. crosses E (w_db w) True d (cleanPath p) d' n ds \<and> is_dir n \<and> read_dir E n = Inr dc)) \<and>
    (\<forall>s w'. Cat E d p w = (Inr s, w') \<longrightarrow>
      (\<exists>d' n ds. crosses E (w_db w) True d (cleanPath p) d' n ds \<and> is_file n \<and> read_file n = Inr s)) \<and>
    same_store (snd (Stat E d p w)) w \<and> same_store (snd (Ls E d p w)) w \<and> same_store (snd (Cat E d p w)) w"
proof (intro conjI allI impI)
  show "\<exists>d' ds. crosses E (w_db w) True d (cleanPath p) d' n ds" if "Stat E d p w = (Inr n, w')" for n w'
    using that Resolve_Inr [OF w] by (fastforce simp: Stat_def bindM_Inr_iff)
  show "\<exists>d' n ds. crosses E (w_db w) True d (cleanPath p) d' n ds \<and> is_dir n \<and> read_dir E n = Inr dc"
    if l: "Ls E d p w = (Inr dc, w')" for dc w'
  proof -
    obtain d' n w1 where "Resolve E d p w = (Inr (d', n), w1)" "is_dir n" "read_dir E n = Inr dc"
      using l by (auto simp: Ls_def bindM_Inr_iff wrapM_Inr_iff split: if_splits)
    then show ?thesis using Resolve_Inr [OF w] by blast
  qed
  show "\<exists>d' n ds. crosses E (w_db w) True d (cleanPath p) d' n ds \<and> is_file n \<and> read_file n = Inr s"
    if l: "Cat E d p w = (Inr s, w')" for s w'
  proof -
    obtain d' n w1 where "Resolve E d p w = (Inr (d', n), w1)" "is_file n" "read_file n = Inr s"
      using l by (auto simp: Cat_def bindM_Inr_iff wrapM_Inr_iff split: if_splits)
    then show ?thesis using Resolve_Inr [OF w] by blast
  qed
  show "same_store (snd (Stat E d p w)) w" "same_store (snd (Ls E d p w)) w" "same_store (snd (Cat E d p w)) w"
    using quiet_vfs_reads(6-8) unfolding quiet_def by blast+
qed

lemma tree_resolve_x: "\<exists>w'. Resolve demo ''d1'' ''/m/x'' tree = (Inr (''d2'', tree_file 21), w')"
  unfolding Resolve_def resolveWithMounts_def
  by (rule mount_hops_complete [OF demo_no_faults tree_crosses]) (simp_all add: tree_roots maxMountHops_def)

theorem vfs_reads_meaning_witness:
  "\<exists>w' n d' ds. Cat demo ''d1'' ''/m/x'' tree = (Inr ''hi'', w') \<and> crosses demo tree_db True ''d1'' (cleanPath ''/m/x'') d' n ds \<and>
     read_file n = Inr ''hi''"
proof -
  obtain w' where "Cat demo ''d1'' ''/m/x'' tree = (Inr ''hi'', w')"
    using tree_resolve_x by (auto simp: Cat_def wrapM_def bindM_def tree_eval)
  then show ?thesis using vfs_reads_meaning [OF tree_simps(2), of demo "''d1''" "''/m/x''"] by auto
qed

text \<open>
  A path that ends at a mount stops there: \<open>Resolve\<close> returns the mount node itself in the
  drive that holds it, so \<open>Ls\<close> of a mounted drive's root is always refused with "not a
  directory" and \<open>Cat\<close> with its fallback error.
\<close>

theorem mount_point_not_entered:
  assumes "no_faults E" "w_tx w = None" "drives_ok (w_db w)"
    and "drive_root (w_db w) d root" "resolves E (w_db w) root True (cleanPath p) [] r" "is_mount (wr_node r)" "wr_remaining r = []"
  shows "(\<exists>w'. Resolve E d p w = (Inr (d, wr_node r), w')) \<and>
    (\<exists>w'. Ls E d p w = (Inl ls_not_a_directory, w')) \<and>
    (\<exists>w'. Cat E d p w = (Inl (New KindFailedPrecondition (''vfs: cat: cannot read type='' @ [CHR 0x04])), w'))"
proof -
  have "crosses E (w_db w) True d (cleanPath p) d (wr_node r) []"
    by (rule crosses_here [OF assms(4,5)]) (simp_all add: links_fit_def assms(7))
  then obtain w' where r: "Resolve E d p w = (Inr (d, wr_node r), w')"
    unfolding Resolve_def resolveWithMounts_def
    using mount_hops_complete [OF assms(1) _ assms(2) refl assms(3), where ds = "[]" and k = maxMountHops and visited = "[d]"]
    by (force simp: maxMountHops_def)
  have k: "kind_rune 4 = [CHR 0x04]" by (simp add: kind_rune_def encode_rune_def char_of_eq_iff)
  show ?thesis using r assms(6) k by (simp add: Ls_def Cat_def wrapM_def bindM_def kind_tests)
qed

theorem mount_point_not_entered_witness:
  "\<exists>w'. Ls demo ''d1'' ''/m'' tree = (Inl ls_not_a_directory, w')"
proof -
  have s: "cleanPath ''/m'' = ''/m''" using cleanPath_split [of "''/m''"] by (simp add: tree_splits joinParts_def)
  have "resolves demo tree_db 1 True ''/m'' [] \<lparr>wr_node = tree_mount 6 ''d2'', wr_remaining = joinParts []\<rparr>"
    by (rule resolves_mount [OF tree_at(1) _ descends_here tree_entries(5)]) (simp add: tree_splits kind_tests)+
  then show ?thesis
    using mount_point_not_entered [OF demo_no_faults tree_simps(2), of "''d1''" 1 "''/m''"] tree_roots
    by (auto simp: s kind_tests joinParts_def)
qed

end
