(* ===== verification/Tombs.thy ===== *)
theory Tombs
  imports NodeRepo UserSvc
begin

text \<open>
  The component internal/app/gc/store.go: the table of S3 objects that wait for deletion. The
  recorder writes one row per reference, inside the caller's transaction when there is one;
  the cleaner reads them in groups by bucket and deletes the rows it has dealt with. The
  locale \<open>garbage_recorder\<close> is the interface \<open>vfs.GarbageRecorder\<close>.
\<close>

section \<open>References\<close>

record garbage_ref =
  gr_bucket :: string
  gr_key :: string

record tombstone_group =
  tg_bucket :: string
  tg_keys :: "string list"
  tg_ids :: "nat list"

record storage_for_bucket =
  sb_region :: string
  sb_endpoint :: string
  sb_access_key :: string
  sb_secret_key :: string
  sb_use_path_style :: bool

section \<open>The recorder\<close>

text \<open>The id column is filled from a sequence: an id above all that are in use.\<close>

definition next_tomb_id :: "ent_tomb list \<Rightarrow> nat" where
  "next_tomb_id ts = Suc (foldr max (map et_id ts) 0)"

fun tomb_rows :: "nat \<Rightarrow> (garbage_ref \<times> time) list \<Rightarrow> ent_tomb list" where
  "tomb_rows k [] = []"
| "tomb_rows k ((r, t) # rs) =
     \<lparr>et_id = k, et_bucket = gr_bucket r, et_key = gr_key r, et_retries = 0, et_create_time = t\<rparr> # tomb_rows (Suc k) rs"

text \<open>Each row's creation time is drawn while the statement is built.\<close>

definition stamp :: "env \<Rightarrow> garbage_ref \<Rightarrow> (garbage_ref \<times> time) list \<Rightarrow> (garbage_ref \<times> time) list W" where
  "stamp E r acc = bindM (time_Now E) (\<lambda>t. retM (acc @ [(r, t)]))"

definition stamped :: "env \<Rightarrow> garbage_ref list \<Rightarrow> (garbage_ref \<times> time) list W" where
  "stamped E refs = foldM (stamp E) refs []"

definition RecordGarbage :: "env \<Rightarrow> garbage_ref list \<Rightarrow> unit W" where
  "RecordGarbage E refs =
     (if refs = [] then retM ()
      else wrapM [] (''gc: tombstone insert (count='' @ itoa_nat (length refs) @ '')'')
        (bindM (stamped E refs) (\<lambda>rs.
          seqM (ensureM (list_all valid_tomb_row (tomb_rows 0 rs)) ent_validation)
            (seqM (io E) (bindM get_client (\<lambda>d.
              put_client (d\<lparr>t_tombs := t_tombs d @ tomb_rows (next_tomb_id (t_tombs d)) rs\<rparr>)))))))"

section \<open>The cleaner's queries\<close>

definition add_to_group :: "ent_tomb \<Rightarrow> tombstone_group list \<Rightarrow> tombstone_group list" where
  "add_to_group r gs =
     (if \<not> (\<exists>g\<in>set gs. tg_bucket g = et_bucket r)
      then gs @ [\<lparr>tg_bucket = et_bucket r, tg_keys = [et_key r], tg_ids = [et_id r]\<rparr>]
      else map_first (\<lambda>g. tg_bucket g = et_bucket r)
             (\<lambda>g. g\<lparr>tg_keys := tg_keys g @ [et_key r], tg_ids := tg_ids g @ [et_id r]\<rparr>) gs)"

text \<open>
  Grouping by bucket. Go then ranges over a map, in an arbitrary order: here the groups come in
  the order of their first row, and \<open>QueryTombstones\<close> takes the reordering as an argument.
\<close>

definition group_tombs :: "ent_tomb list \<Rightarrow> tombstone_group list" where
  "group_tombs rows = foldl (\<lambda>gs r. add_to_group r gs) [] rows"

definition QueryTombstones ::
  "env \<Rightarrow> (tombstone_group list \<Rightarrow> tombstone_group list) \<Rightarrow> nat \<Rightarrow> tombstone_group list W" where
  "QueryTombstones E order limit =
     bindM (wrapM [] (''gc: tombstone query (limit='' @ itoa_nat limit @ '')'') (seqM (io E) get_committed)) (\<lambda>d.
       retM (order (group_tombs (take limit (sort_key et_create_time (t_tombs d))))))"

definition DeleteTombstones :: "env \<Rightarrow> nat list \<Rightarrow> unit W" where
  "DeleteTombstones E ids =
     (if ids = [] then retM ()
      else wrapM [] (''gc: tombstone delete (count='' @ itoa_nat (length ids) @ '')'')
        (seqM (io E) (bindM get_committed (\<lambda>d.
          put_committed (d\<lparr>t_tombs := filter (\<lambda>r. et_id r \<notin> set ids) (t_tombs d)\<rparr>)))))"

text \<open>The columns are handed on as they are stored: the secret is not decrypted here.\<close>

definition FindStorageByBucket :: "env \<Rightarrow> string \<Rightarrow> storage_for_bucket W" where
  "FindStorageByBucket E bucket =
     wrapM [] (''gc: storage for bucket (bucket='' @ bucket @ '')'')
       (seqM (io E) (bindM get_committed (\<lambda>d.
         (case find (\<lambda>s. es_bucket s = bucket) (t_storages d) of
            None \<Rightarrow> failM ent_not_found
          | Some s \<Rightarrow>
              retM \<lparr>sb_region = es_region s, sb_endpoint = (case es_endpoint s of None \<Rightarrow> [] | Some x \<Rightarrow> x),
                    sb_access_key = es_access_key s, sb_secret_key = es_secret_key s,
                    sb_use_path_style = es_use_path_style s\<rparr>))))"

section \<open>The pending references\<close>

definition pending :: "db \<Rightarrow> garbage_ref list" where
  "pending d = map (\<lambda>r. \<lparr>gr_bucket = et_bucket r, gr_key = et_key r\<rparr>) (t_tombs d)"

definition tombs_ok :: "db \<Rightarrow> bool" where
  "tombs_ok d \<longleftrightarrow> distinct (map et_id (t_tombs d)) \<and> list_all valid_tomb_row (t_tombs d)"

lemma next_tomb_id_above: "r \<in> set ts \<Longrightarrow> et_id r < next_tomb_id ts"
proof -
  assume "r \<in> set ts"
  then have "et_id r \<le> foldr max (map et_id ts) 0" by (induction ts) auto
  then show ?thesis by (simp add: next_tomb_id_def)
qed

lemma tomb_rows_ids: "map et_id (tomb_rows k rs) = [k ..< k + length rs]"
  by (induction rs arbitrary: k) (auto simp: upt_conv_Cons simp del: upt_Suc)

lemma tomb_rows_refs:
  "map (\<lambda>r. \<lparr>gr_bucket = et_bucket r, gr_key = et_key r\<rparr>) (tomb_rows k rs) = map (\<lambda>p. \<lparr>gr_bucket = gr_bucket (fst p), gr_key = gr_key (fst p)\<rparr>) rs"
  by (induction rs arbitrary: k) auto

lemma tomb_rows_valid:
  "list_all valid_tomb_row (tomb_rows k rs) = list_all (\<lambda>p. length (gr_bucket (fst p)) \<le> 128 \<and> length (gr_key (fst p)) \<le> 512) rs"
  by (induction rs arbitrary: k) (auto simp: valid_tomb_row_def)

lemma stamp_run: "stamp E r acc w = (Inr (acc @ [(r, clock E (w_tick w))]), w\<lparr>w_tick := Suc (w_tick w)\<rparr>)"
  by (simp add: stamp_def bindM_def time_Now_def draw_def)

lemma stamped_foldM:
  "foldM (stamp E) refs acc w = (q, w') \<Longrightarrow>
   \<exists>rs. q = Inr (acc @ rs) \<and> map fst rs = refs \<and> w' = w\<lparr>w_tick := w_tick w'\<rparr>"
proof (induction refs arbitrary: acc w)
  case Nil
  then show ?case by simp
next
  case (Cons r refs)
  let ?p = "(r, clock E (w_tick w))"
  have "foldM (stamp E) refs (acc @ [?p]) (w\<lparr>w_tick := Suc (w_tick w)\<rparr>) = (q, w')"
    using Cons.prems unfolding foldM.simps(2) bindM_run_Inr [OF stamp_run] .
  from Cons.IH [OF this] obtain rs where rs: "q = Inr ((acc @ [?p]) @ rs)" "map fst rs = refs"
    "w' = w\<lparr>w_tick := Suc (w_tick w), w_tick := w_tick w'\<rparr>" by blast
  show ?case by (intro exI [of _ "?p # rs"] conjI) (use rs in simp_all)
qed

lemma stamped_run:
  assumes "stamped E refs w = (q, w')"
  obtains rs where "q = Inr rs" "map fst rs = refs" "w' = w\<lparr>w_tick := w_tick w'\<rparr>"
  using stamped_foldM [OF assms [unfolded stamped_def]] that by auto

lemma quiet_stamped [quiet_intros]: "quiet (stamped E refs)"
  unfolding stamped_def stamp_def by (intro quiet_intros)

lemma tx_safe_RecordGarbage [txsafe_intros]: "tx_safe (RecordGarbage E refs)"
  unfolding RecordGarbage_def by (intro txsafe_intros tx_safe_quiet [OF quiet_stamped])

lemma garbage_ref_eta: "\<lparr>gr_bucket = gr_bucket r, gr_key = gr_key r\<rparr> = r"
  by simp

lemma RecordGarbage_Inr:
  assumes "RecordGarbage E refs w = (Inr u, w')"
  shows "pending (client w') = pending (client w) @ refs"
    "client w' = (client w)\<lparr>t_tombs := t_tombs (client w')\<rparr>"
    "tombs_ok (client w) \<Longrightarrow> tombs_ok (client w')"
proof -
  have "pending (client w') = pending (client w) @ refs \<and> client w' = (client w)\<lparr>t_tombs := t_tombs (client w')\<rparr> \<and>
    (tombs_ok (client w) \<longrightarrow> tombs_ok (client w'))"
  proof (cases "refs = []")
    case True
    then show ?thesis using assms by (simp add: RecordGarbage_def)
  next
    case False
    then obtain rs w1 w2 where s: "stamped E refs w = (Inr rs, w1)" and v: "list_all valid_tomb_row (tomb_rows 0 rs)"
      and i: "io E w1 = (Inr (), w2)"
      and p: "put_client ((client w2)\<lparr>t_tombs := t_tombs (client w2) @ tomb_rows (next_tomb_id (t_tombs (client w2))) rs\<rparr>) w2 = (Inr (), w')"
      using assms by (auto simp: RecordGarbage_def monad_simps split: if_splits)
    have c: "client w2 = client w" using quiet_client [OF quiet_stamped s] quiet_client [OF quiet_basic(9) i] by simp
    let ?new = "tomb_rows (next_tomb_id (t_tombs (client w))) rs"
    have d: "client w' = (client w)\<lparr>t_tombs := t_tombs (client w) @ ?new\<rparr>" using p c by auto
    have f: "map fst rs = refs" by (rule stamped_run [OF s]) auto
    have "map (\<lambda>p. \<lparr>gr_bucket = gr_bucket (fst p), gr_key = gr_key (fst p)\<rparr>) rs = refs"
      using f by (induction rs arbitrary: refs) auto
    then have a: "pending (client w') = pending (client w) @ refs" by (simp add: d pending_def tomb_rows_refs)
    have "distinct (map et_id (t_tombs (client w) @ ?new))" if "tombs_ok (client w)"
      using that next_tomb_id_above by (fastforce simp: tombs_ok_def tomb_rows_ids)
    then have "tombs_ok (client w) \<longrightarrow> tombs_ok (client w')"
      using v by (auto simp: tombs_ok_def d tomb_rows_valid)
    then show ?thesis using a d by simp
  qed
  then show "pending (client w') = pending (client w) @ refs"
    "client w' = (client w)\<lparr>t_tombs := t_tombs (client w')\<rparr>"
    "tombs_ok (client w) \<Longrightarrow> tombs_ok (client w')" by blast+
qed

lemma RecordGarbage_Inl: "RecordGarbage E refs w = (Inl e, w') \<Longrightarrow> same_store w' w"
proof -
  assume a: "RecordGarbage E refs w = (Inl e, w')"
  then obtain e0 where "bindM (stamped E refs) (\<lambda>rs.
          seqM (ensureM (list_all valid_tomb_row (tomb_rows 0 rs)) ent_validation)
            (seqM (io E) (bindM get_client (\<lambda>d.
              put_client (d\<lparr>t_tombs := t_tombs d @ tomb_rows (next_tomb_id (t_tombs d)) rs\<rparr>))))) w = (Inl e0, w')"
    by (auto simp: RecordGarbage_def wrapM_Inl_iff split: if_splits)
  then have "stamped E refs w = (Inl e0, w') \<or> (\<exists>rs w1. stamped E refs w = (Inr rs, w1) \<and>
      seqM (ensureM (list_all valid_tomb_row (tomb_rows 0 rs)) ent_validation)
            (seqM (io E) (bindM get_client (\<lambda>d.
              put_client (d\<lparr>t_tombs := t_tombs d @ tomb_rows (next_tomb_id (t_tombs d)) rs\<rparr>)))) w1 = (Inl e0, w'))"
    by (simp add: bindM_Inl_iff)
  then show ?thesis
  proof (elim disjE exE conjE)
    assume "stamped E refs w = (Inl e0, w')"
    then show ?thesis by (rule quietD [OF quiet_stamped])
  next
    fix rs w1
    assume s: "stamped E refs w = (Inr rs, w1)" and r: "seqM (ensureM (list_all valid_tomb_row (tomb_rows 0 rs)) ent_validation)
            (seqM (io E) (bindM get_client (\<lambda>d.
              put_client (d\<lparr>t_tombs := t_tombs d @ tomb_rows (next_tomb_id (t_tombs d)) rs\<rparr>)))) w1 = (Inl e0, w')"
    have "same_store w' w1" using r by (auto simp: monad_simps dest!: io_Inl split: if_splits)
    then show ?thesis using quietD [OF quiet_stamped s] by (rule same_store_trans)
  qed
qed

section \<open>The interface GarbageRecorder\<close>

text \<open>
  What vfs relies on: recorded references become pending with the caller's transaction, nothing
  else is written, and a failure writes nothing.
\<close>

locale garbage_recorder =
  fixes record_refs :: "garbage_ref list \<Rightarrow> unit W"
    and waiting :: "db \<Rightarrow> garbage_ref list"
  assumes record_tx_safe: "tx_safe (record_refs refs)"
    and record_pending: "record_refs refs w = (Inr u, w') \<Longrightarrow> waiting (client w') = waiting (client w) @ refs"
    and record_frame: "record_refs refs w = (Inr u, w') \<Longrightarrow>
      t_nodes (client w') = t_nodes (client w) \<and> t_drives (client w') = t_drives (client w)"
    and record_fails: "record_refs refs w = (Inl e, w') \<Longrightarrow> same_store w' w"
begin

text \<open>The step with which \<open>Rm\<close> and \<open>Mv\<close> end: nothing to record, or all of it.\<close>

lemma record_all:
  assumes "(if refs = [] then retM () else wrapM [] msg (record_refs refs)) w = (Inr u, w')"
    "\<And>d. waiting d = pending d"
  shows "pending (client w') = pending (client w) @ refs \<and> t_nodes (client w') = t_nodes (client w) \<and>
    t_drives (client w') = t_drives (client w)"
  using assms record_pending [of refs w] record_frame [of refs w]
  by (cases "refs = []") (auto simp: wrapM_Inr_iff)

end

interpretation tombs: garbage_recorder "RecordGarbage E" pending for E
proof unfold_locales
  fix refs and w w' :: world and u
  assume "RecordGarbage E refs w = (Inr u, w')"
  note r = RecordGarbage_Inr [OF this]
  show "pending (client w') = pending (client w) @ refs" by (rule r(1))
  show "t_nodes (client w') = t_nodes (client w) \<and> t_drives (client w') = t_drives (client w)"
    by (subst r(2), subst (2) r(2)) simp
qed (auto intro: tx_safe_RecordGarbage RecordGarbage_Inl)

end
