(* ===== verification/Vfs.thy ===== *)
theory Vfs
  imports VfsRead Tombs
begin

text \<open>
  The mutating half of package internal/vfs: creation (Mkdir, Touch, Symlink, Hardlink, Write,
  WriteLarge, Mount), Unmount, removal (Rm) and Mv. The garbage recorder, which may be absent,
  is the argument \<open>gc\<close>. A \<open>*Node\<close> that an operation changes is written back where the code
  keeps the pointer: in \<open>mvBatch\<close> the parents live in the resolver's cache.
\<close>

section \<open>Creation\<close>

definition vfs_ctx :: "string \<Rightarrow> string \<Rightarrow> string \<Rightarrow> string \<Rightarrow> string" where
  "vfs_ctx what d key p = what @ '' (drive_id='' @ d @ '', '' @ key @ ''='' @ p @ '')''"

definition Mkdir :: "env \<Rightarrow> string \<Rightarrow> string \<Rightarrow> node W" where
  "Mkdir E d p =
     bindM (wrapM [] (vfs_ctx ''vfs: mkdir resolve parent'' d ''path'' p) (resolveEditableParent E d p)) (\<lambda>(parent, name).
     bindM (wrapM [] (vfs_ctx ''vfs: mkdir new directory'' d ''path'' p) (NewDirectory E)) (\<lambda>dir.
     bindM (wrapM [] (vfs_ctx ''vfs: mkdir link'' d ''path'' p) (Link E (Some parent) name (Some dir))) (\<lambda>(parent1, dir1).
       retM dir1)))"

definition Touch :: "env \<Rightarrow> string \<Rightarrow> string \<Rightarrow> node W" where
  "Touch E d p =
     bindM (wrapM [] (vfs_ctx ''vfs: touch resolve parent'' d ''path'' p) (resolveEditableParent E d p)) (\<lambda>(parent, name).
     bindM (wrapM [] (vfs_ctx ''vfs: touch new file'' d ''path'' p) (NewFile E [])) (\<lambda>n.
     bindM (wrapM [] (vfs_ctx ''vfs: touch link'' d ''path'' p) (Link E (Some parent) name (Some n))) (\<lambda>(parent1, n1).
       retM n1)))"

definition Symlink :: "env \<Rightarrow> string \<Rightarrow> string \<Rightarrow> string \<Rightarrow> node W" where
  "Symlink E d target linkPath =
     bindM (wrapM [] (vfs_ctx ''vfs: symlink resolve parent'' d ''link_path'' linkPath) (resolveEditableParent E d linkPath)) (\<lambda>(parent, name).
     bindM (wrapM [] (vfs_ctx ''vfs: symlink new'' d ''target'' target) (NewSymlink E target)) (\<lambda>n.
     bindM (wrapM [] (vfs_ctx ''vfs: symlink link'' d ''link_path'' linkPath) (Link E (Some parent) name (Some n))) (\<lambda>(parent1, n1).
       retM n1)))"

definition ErrHardlinkNotSupported :: gerror where
  "ErrHardlinkNotSupported =
     New KindInvalidArgument ''ln: source node type does not support hardlinks (dir/symlink/mount)''"

definition Hardlink :: "env \<Rightarrow> string \<Rightarrow> string \<Rightarrow> string \<Rightarrow> node W" where
  "Hardlink E d srcPath linkPath =
     bindM (GetRootNodeID E d) (\<lambda>rootID. seqM newResolver (
     bindM (wrapM [] (vfs_ctx ''vfs: hardlink resolve src'' d ''src_path'' srcPath) (resolvePath E rootID srcPath True)) (\<lambda>out.
       let src = wr_node out in
       if is_dir src \<or> is_mount src \<or> is_symlink src then failM ErrHardlinkNotSupported
       else
         bindM (wrapM [] (vfs_ctx ''vfs: hardlink resolve parent'' d ''link_path'' linkPath) (resolveParent E rootID linkPath)) (\<lambda>(parent, name).
           if \<not> is_dir parent then failM not_a_directory
           else
             bindM (wrapM [] (vfs_ctx ''vfs: hardlink link'' d ''link_path'' linkPath) (Link E (Some parent) name (Some src))) (\<lambda>(parent1, src1).
               retM src1)))))"

text \<open>\<open>Write\<close> takes every error of the first resolution for a missing file.\<close>

definition Write :: "env \<Rightarrow> string \<Rightarrow> string \<Rightarrow> string \<Rightarrow> unit W" where
  "Write E d p content =
     bindM (GetRootNodeID E d) (\<lambda>rootID. seqM newResolver (
     tryM (resolvePath E rootID p True)
       (\<lambda>_.
         bindM (wrapM [] (''vfs: write resolve parent (path='' @ p @ '')'') (resolveParent E rootID p)) (\<lambda>(parent, name).
         bindM (wrapM [] (''vfs: write new file (path='' @ p @ '')'') (NewFile E content)) (\<lambda>f.
         bindM (Link E (Some parent) name (Some f)) (\<lambda>_. retM ()))))
       (\<lambda>out.
         let n = wr_node out in
         if \<not> is_file n then
           failM (New KindFailedPrecondition (''vfs: write target is not a file (type='' @ kind_rune (n_kind n) @ '')''))
         else
           bindM (wrapM [] (''vfs: write encode content (path='' @ p @ '')'') (WriteFile E content n)) (\<lambda>n1.
           bindM (wrapM [] (''vfs: write save (path='' @ p @ '')'') (Save_op E (Some n1))) (\<lambda>_. retM ())))))"

definition WriteLarge :: "env \<Rightarrow> string \<Rightarrow> string \<Rightarrow> object_content \<Rightarrow> int \<Rightarrow> unit W" where
  "WriteLarge E d p obj sz =
     bindM (wrapM [] (vfs_ctx ''vfs: write_large resolve parent'' d ''path'' p) (resolveEditableParent E d p)) (\<lambda>(parent, name).
     bindM (wrapM [] (vfs_ctx ''vfs: write_large new object'' d ''path'' p) (NewObject E obj sz)) (\<lambda>n.
     bindM (Link E (Some parent) name (Some n)) (\<lambda>_. retM ())))"

section \<open>Mounts\<close>

definition Mount :: "env \<Rightarrow> string \<Rightarrow> string \<Rightarrow> string \<Rightarrow> unit W" where
  "Mount E d mountPath srcDrive =
     (if d = srcDrive then failM (New KindInvalidArgument (''vfs: mount self-cycle (drive_id='' @ d @ '')''))
      else
        bindM (wrapM [] (''vfs: mount source drive lookup (source_drive='' @ srcDrive @ '')'') (DriveGetByID E srcDrive)) (\<lambda>src.
        if d_root_node_id src = None then
          failM (New KindNotFound (''vfs: mount source drive has no root (source_drive='' @ srcDrive @ '')''))
        else if d_deleted_at src \<noteq> None then
          failM (New KindFailedPrecondition (''vfs: mount source drive is soft-deleted (source_drive='' @ srcDrive @ '')''))
        else
          bindM (wrapM [] (vfs_ctx ''vfs: mount resolve parent'' d ''mount_path'' mountPath) (resolveEditableParent E d mountPath)) (\<lambda>(parent, name).
          bindM (wrapM [] (vfs_ctx ''vfs: mount new'' d ''source_drive'' srcDrive) (NewMount E srcDrive)) (\<lambda>m.
          bindM (wrapM [] (vfs_ctx ''vfs: mount link'' d ''mount_path'' mountPath) (Link E (Some parent) name (Some m))) (\<lambda>_.
            retM ())))))"

definition Unmount :: "env \<Rightarrow> string \<Rightarrow> string \<Rightarrow> unit W" where
  "Unmount E d mountPath =
     bindM (GetRootNodeID E d) (\<lambda>rootID. seqM newResolver (
     bindM (wrapM [] (vfs_ctx ''vfs: unmount resolve'' d ''mount_path'' mountPath) (resolvePath E rootID mountPath True)) (\<lambda>out.
       let n = wr_node out in
       if \<not> is_mount n then
         failM (New KindFailedPrecondition (vfs_ctx ''vfs: unmount target is not a mount'' d ''mount_path'' mountPath))
       else
         bindM (wrapM [] (vfs_ctx ''vfs: unmount read mount'' d ''mount_path'' mountPath) (liftM (read_mount n))) (\<lambda>_.
         bindM (wrapM [] (vfs_ctx ''vfs: unmount resolve parent'' d ''mount_path'' mountPath) (resolveParent E rootID mountPath)) (\<lambda>(parent, name).
         bindM (wrapM [] (vfs_ctx ''vfs: unmount unlink'' d ''mount_path'' mountPath) (Unlink E (Some parent) name)) (\<lambda>_.
           retM ()))))))"

section \<open>Removal\<close>

text \<open>The S3 reference of an object node, if it has one.\<close>

definition object_refs :: "node \<Rightarrow> garbage_ref list" where
  "object_refs n =
     (if \<not> is_object n then []
      else (case read_object n of
              Inl _ \<Rightarrow> []
            | Inr oc \<Rightarrow>
                if o_bucket oc = [] \<or> o_key oc = [] then []
                else [\<lparr>gr_bucket = o_bucket oc, gr_key = o_key oc\<rparr>]))"

definition rm :: "env \<Rightarrow> uuid \<Rightarrow> node \<Rightarrow> string \<Rightarrow> garbage_ref list W" where
  "rm E rootID n p =
     seqM newResolver (
     bindM (wrapM [] (''vfs: rm resolve parent (path='' @ p @ '')'') (resolveParent E rootID p)) (\<lambda>(parent, name).
       if name = [] then retM []
       else
         bindM (wrapM [] (''vfs: rm unlink (path='' @ p @ '', name='' @ name @ '')'') (Unlink E (Some parent) name)) (\<lambda>(parent1, deleted).
           retM (object_refs (case deleted of Some t \<Rightarrow> t | None \<Rightarrow> n)))))"

text \<open>Go's recursion has no bound; \<open>k\<close> bounds it here, and running out is an error of its own.\<close>

definition stack_exhausted :: gerror where
  "stack_exhausted = Foreign ''runtime: goroutine stack exceeds limit'' None"

definition child_path :: "string \<Rightarrow> string \<Rightarrow> string" where
  "child_path p name = trim_right_char CHR ''/'' p @ ''/'' @ name"

fun rmRecursive :: "env \<Rightarrow> uuid \<Rightarrow> nat \<Rightarrow> node \<Rightarrow> string \<Rightarrow> garbage_ref list W" where
  "rmRecursive E rootID 0 n p = failM stack_exhausted"
| "rmRecursive E rootID (Suc k) n p =
     bindM (wrapM [] (''vfs: rm read dir (path='' @ p @ '')'') (liftM (read_dir E n))) (\<lambda>dc.
     bindM (foldM (\<lambda>e refs.
         bindM (wrapM [] (''vfs: rm get child (path='' @ p @ '', child_id='' @ uuid_text E (de_ino e) @ '')'')
                  (GetByID E (de_ino e))) (\<lambda>child.
         bindM (if is_dir child then rmRecursive E rootID k child (child_path p (de_name e))
                else rm E rootID child (child_path p (de_name e))) (\<lambda>rs. retM (refs @ rs))))
       (entries dc) []) (\<lambda>refs.
     bindM (rm E rootID n p) (\<lambda>rs. retM (refs @ rs))))"

definition rmPath :: "env \<Rightarrow> nat \<Rightarrow> uuid \<Rightarrow> string \<Rightarrow> bool \<Rightarrow> garbage_ref list W" where
  "rmPath E k rootID p recursive =
     seqM newResolver (
     bindM (wrapM [] (''vfs: rm resolve (path='' @ p @ '')'') (resolvePath E rootID p True)) (\<lambda>out.
       let n = wr_node out in
       if is_dir n then
         (if \<not> recursive then
            failM (New KindFailedPrecondition (''vfs: rm target is a directory (path='' @ p @ '', use -r)''))
          else rmRecursive E rootID k n p)
       else rm E rootID n p))"

text \<open>The common end of \<open>Rm\<close> and \<open>Mv\<close>: hand the references to the recorder.\<close>

definition record_refs_opt ::
  "(garbage_ref list \<Rightarrow> unit W) option \<Rightarrow> string \<Rightarrow> string \<Rightarrow> garbage_ref list \<Rightarrow> unit W" where
  "record_refs_opt gc what d refs =
     (if refs = [] then retM ()
      else (case gc of
              None \<Rightarrow> retM ()
            | Some g \<Rightarrow>
                wrapM [] (what @ '' (drive_id='' @ d @ '', ref_count='' @ itoa_nat (length refs) @ '')'') (g refs)))"

definition Rm :: "env \<Rightarrow> nat \<Rightarrow> (garbage_ref list \<Rightarrow> unit W) option \<Rightarrow> string \<Rightarrow> string list \<Rightarrow> bool \<Rightarrow> unit W" where
  "Rm E k gc d paths recursive =
     with_tx E (
       bindM (GetRootNodeID E d) (\<lambda>rootID.
       bindM (foldM (\<lambda>p refs. bindM (rmPath E k rootID p recursive) (\<lambda>rs. retM (refs @ rs))) paths []) (\<lambda>allRefs.
         record_refs_opt gc ''vfs: rm tombstone enqueue'' d allRefs)))"

section \<open>Moving\<close>

definition captureOverwriteRef :: "env \<Rightarrow> node \<Rightarrow> string \<Rightarrow> garbage_ref list W" where
  "captureOverwriteRef E dstParent dstName =
     (case lookup E dstParent dstName of
        Inl _ \<Rightarrow> retM []
      | Inr None \<Rightarrow> retM []
      | Inr (Some e) \<Rightarrow> tryM (GetByID E (de_ino e)) (\<lambda>_. retM []) (\<lambda>child. retM (object_refs child)))"

definition applyMoveEntry ::
  "env \<Rightarrow> node \<Rightarrow> string \<Rightarrow> node \<Rightarrow> string \<Rightarrow> (garbage_ref list \<times> node \<times> node) W" where
  "applyMoveEntry E srcParent srcName dstParent dstName =
     bindM (captureOverwriteRef E dstParent dstName) (\<lambda>refs.
     bindM (wrapM [] (''vfs: mv move entry (src_name='' @ srcName @ '', dst_name='' @ dstName @ '')'')
              (MoveEntry E (Some srcParent) srcName (Some dstParent) dstName)) (\<lambda>(sp, dp).
       retM (refs, sp, dp)))"

definition cross_drive_move :: gerror where
  "cross_drive_move = New KindInvalidArgument ''vfs: cross-drive move not supported''"

definition mvOne :: "env \<Rightarrow> string \<Rightarrow> string \<Rightarrow> string \<Rightarrow> garbage_ref list W" where
  "mvOne E d srcPath dstPath =
     bindM (GetRootNodeID E d) (\<lambda>rootID. seqM newResolver (
     bindM (wrapM [] (''vfs: mv resolve src (src_path='' @ srcPath @ '')'') (resolvePath E rootID srcPath True)) (\<lambda>srcOut.
       if wr_remaining srcOut \<noteq> [] then failM cross_drive_move
       else
         bindM (wrapM [] (''vfs: mv resolve src parent (src_path='' @ srcPath @ '')'') (resolveParent E rootID srcPath)) (\<lambda>(srcParent, srcName).
         bindM (wrapM [] (''vfs: mv resolve dst parent (dst_path='' @ dstPath @ '')'') (resolveParent E rootID dstPath)) (\<lambda>(dstParent, dstName).
           if \<not> is_dir dstParent then
             failM (wrap_with [] (''vfs: mv dest (dst_path='' @ dstPath @ '')'') not_a_directory)
           else
             bindM (applyMoveEntry E srcParent srcName dstParent dstName) (\<lambda>(refs, sp, dp). retM refs))))))"

text \<open>A source of a batch: the node's id, its name, and its parent as the resolver's cache key.\<close>

record src_info =
  si_id :: uuid
  si_name :: string
  si_parent :: node

definition mv_source :: "env \<Rightarrow> uuid \<Rightarrow> string \<Rightarrow> src_info list \<Rightarrow> src_info list W" where
  "mv_source E rootID srcPath sources =
     bindM (wrapM [] (''vfs: mv batch resolve src (src_path='' @ srcPath @ '')'') (resolvePath E rootID srcPath True)) (\<lambda>srcOut.
       if wr_remaining srcOut \<noteq> [] then failM cross_drive_move
       else
         bindM (wrapM [] (''vfs: mv batch resolve src parent (src_path='' @ srcPath @ '')'') (resolveParent E rootID srcPath)) (\<lambda>(sp, sn).
           if sn \<in> si_name ` set sources then
             failM (New KindInvalidArgument (''vfs: mv duplicate source basename '' @ sn @ '' in batch''))
           else retM (sources @ [\<lparr>si_id = n_id (wr_node srcOut), si_name = sn, si_parent = sp\<rparr>])))"

text \<open>The node a cached pointer stands for, and the write through it.\<close>

definition deref :: "node \<Rightarrow> node W" where
  "deref n = bindM get_cache (\<lambda>c. retM (case c (n_id n) of Some m \<Rightarrow> m | None \<Rightarrow> n))"

definition assign_ptr :: "node \<Rightarrow> unit W" where
  "assign_ptr n = bindM get_cache (\<lambda>c. put_cache (c(n_id n \<mapsto> n)))"

definition mv_apply :: "env \<Rightarrow> node \<Rightarrow> src_info \<Rightarrow> garbage_ref list \<Rightarrow> garbage_ref list W" where
  "mv_apply E dstDir si refs =
     bindM (deref (si_parent si)) (\<lambda>srcParent.
     bindM (deref dstDir) (\<lambda>dstParent.
     bindM (applyMoveEntry E srcParent (si_name si) dstParent (si_name si)) (\<lambda>(rs, sp, dp).
       seqM (assign_ptr dp) (seqM (assign_ptr sp) (retM (refs @ rs))))))"

definition mvBatch :: "env \<Rightarrow> string \<Rightarrow> string list \<Rightarrow> string \<Rightarrow> garbage_ref list W" where
  "mvBatch E d srcPaths dstPath =
     bindM (GetRootNodeID E d) (\<lambda>rootID. seqM newResolver (
     bindM (wrapM [] (''vfs: mv resolve dst (dst_path='' @ dstPath @ '')'') (resolvePath E rootID dstPath True)) (\<lambda>dstOut.
       let dstDir = wr_node dstOut in
       if \<not> is_dir dstDir then
         failM (wrap_with [] (''vfs: mv dest (dst_path='' @ dstPath @ '')'') not_a_directory)
       else
         bindM (foldM (mv_source E rootID) srcPaths []) (\<lambda>sources.
           if n_id dstDir \<in> si_id ` set sources then
             failM (New KindInvalidArgument ''vfs: mv cannot move directory into itself'')
           else foldM (mv_apply E dstDir) sources []))))"

definition Mv ::
  "env \<Rightarrow> (garbage_ref list \<Rightarrow> unit W) option \<Rightarrow> string \<Rightarrow> string list \<Rightarrow> string \<Rightarrow> string \<Rightarrow> unit W" where
  "Mv E gc srcDrive srcPaths dstDrive dstPath =
     (if srcDrive \<noteq> dstDrive then failM cross_drive_move
      else with_tx E (
        bindM (case srcPaths of [p] \<Rightarrow> mvOne E srcDrive p dstPath | _ \<Rightarrow> mvBatch E srcDrive srcPaths dstPath) (\<lambda>refs.
          record_refs_opt gc ''vfs: mv tombstone enqueue'' srcDrive refs)))"

end
