(* ===== verification/Safe.thy ===== *)
theory Safe
  imports Vfs UserSvc
begin

text \<open>
  The invariant of the stored data and a logic to prove that operations keep it.
  \<open>safe E m Q\<close>: run in any state that satisfies the invariant, \<open>m\<close> ends in one that does, whether
  it fails or not, and a result satisfies \<open>Q\<close>. There is one rule per combinator of the monad and
  one lemma per operation, from the repositories up to the virtual file system.
\<close>

named_theorems safe_intros \<open>operations that keep the invariant\<close>

section \<open>The invariant\<close>

text \<open>A node is of one of the five kinds, and the content of a directory is a listing of distinct names.\<close>

definition node_ok :: "env \<Rightarrow> node \<Rightarrow> bool" where
  "node_ok E n \<longleftrightarrow> n_kind n \<le> 4 \<and> (is_dir n \<longrightarrow> dir_ok E n)"

definition nodes_ok :: "env \<Rightarrow> db \<Rightarrow> bool" where
  "nodes_ok E d \<longleftrightarrow> ids_ok d \<and> (\<forall>i n. node_at d i = Some n \<longrightarrow> node_ok E n) \<and>
     (\<forall>i r. t_nodes d i = Some r \<longrightarrow> valid_node_row r)"

definition drive_tables_ok :: "db \<Rightarrow> bool" where
  "drive_tables_ok d \<longleftrightarrow> drives_ok d \<and> distinct (map ed_public_id (t_drives d)) \<and> list_all valid_drive_row (t_drives d) \<and>
     distinct (map es_drive_id (t_storages d)) \<and> list_all valid_storage_row (t_storages d) \<and>
     es_drive_id ` set (t_storages d) \<subseteq> ed_id ` set (t_drives d)"

definition user_table_ok :: "db \<Rightarrow> bool" where
  "user_table_ok d \<longleftrightarrow> users_ok d \<and> list_all valid_user_row (t_users d)"

definition db_ok :: "env \<Rightarrow> db \<Rightarrow> bool" where
  "db_ok E d \<longleftrightarrow> nodes_ok E d \<and> drive_tables_ok d \<and> user_table_ok d \<and> tombs_ok d"

definition world_ok :: "env \<Rightarrow> world \<Rightarrow> bool" where
  "world_ok E w \<longleftrightarrow> db_ok E (w_db w) \<and> db_ok E (client w) \<and> (\<forall>i n. w_cache w i = Some n \<longrightarrow> node_ok E n)"

lemma db_ok_empty: "db_ok E empty_db"
  by (simp add: db_ok_def nodes_ok_def drive_tables_ok_def user_table_ok_def tombs_ok_def empty_db_def ids_ok_def
      node_at_def drives_ok_def users_ok_def)

section \<open>The logic\<close>

definition safe :: "env \<Rightarrow> 'a W \<Rightarrow> ('a \<Rightarrow> bool) \<Rightarrow> bool" where
  "safe E m Q \<longleftrightarrow> (\<forall>w r w'. world_ok E w \<longrightarrow> m w = (r, w') \<longrightarrow> world_ok E w' \<and> (\<forall>x. r = Inr x \<longrightarrow> Q x))"

lemma safeI:
  assumes "\<And>w e w'. world_ok E w \<Longrightarrow> m w = (Inl e, w') \<Longrightarrow> world_ok E w'"
    and "\<And>w x w'. world_ok E w \<Longrightarrow> m w = (Inr x, w') \<Longrightarrow> world_ok E w' \<and> Q x"
  shows "safe E m Q"
  unfolding safe_def
proof (intro allI impI)
  fix w r w' assume w: "world_ok E w" "m w = (r, w')"
  show "world_ok E w' \<and> (\<forall>x. r = Inr x \<longrightarrow> Q x)"
    using assms(1) [OF w(1)] assms(2) [OF w(1)] w(2) by (cases r) auto
qed

lemma safe_Inr: "safe E m Q \<Longrightarrow> world_ok E w \<Longrightarrow> m w = (Inr x, w') \<Longrightarrow> world_ok E w' \<and> Q x"
  unfolding safe_def by blast

lemma safe_Inl: "safe E m Q \<Longrightarrow> world_ok E w \<Longrightarrow> m w = (Inl e, w') \<Longrightarrow> world_ok E w'"
  unfolding safe_def by blast

lemma safe_weaken: "safe E m P \<Longrightarrow> (\<And>x. P x \<Longrightarrow> Q x) \<Longrightarrow> safe E m Q"
  unfolding safe_def by blast

lemma safe_conj: "safe E m P \<Longrightarrow> safe E m Q \<Longrightarrow> safe E m (\<lambda>x. P x \<and> Q x)"
  unfolding safe_def by blast

lemma safe_retM: "Q x \<Longrightarrow> safe E (retM x) Q"
  by (simp add: safe_def)

lemma safe_failM [safe_intros]: "safe E (failM e) Q"
  by (simp add: safe_def)

lemma safe_liftM: "(\<And>x. r = Inr x \<Longrightarrow> Q x) \<Longrightarrow> safe E (liftM r) Q"
  by (simp add: safe_def)

lemma safe_ensureM [safe_intros]: "safe E (ensureM b e) (\<lambda>_. b)"
  by (simp add: safe_def)

lemma safe_bindM:
  assumes "safe E m Q" and "\<And>x. Q x \<Longrightarrow> safe E (f x) R"
  shows "safe E (bindM m f) R"
proof (rule safeI)
  fix w e w' assume w: "world_ok E w" and b: "bindM m f w = (Inl e, w')"
  show "world_ok E w'"
    using b safe_Inl [OF assms(1) w] safe_Inr [OF assms(1) w] safe_Inl [OF assms(2)]
    by (simp add: bindM_Inl_iff) blast
next
  fix w y w' assume w: "world_ok E w" and b: "bindM m f w = (Inr y, w')"
  show "world_ok E w' \<and> R y"
    using b safe_Inr [OF assms(1) w] safe_Inr [OF assms(2)] by (simp add: bindM_Inr_iff) blast
qed

lemma safe_seqM: "safe E m Q \<Longrightarrow> safe E k R \<Longrightarrow> safe E (seqM m k) R"
  unfolding seqM_def by (rule safe_bindM)

lemma safe_wrapM [safe_intros]: "safe E m Q \<Longrightarrow> safe E (wrapM ks s m) Q"
  unfolding safe_def wrapM_def by (fastforce split: prod.splits sum.splits)

lemma safe_tryM:
  assumes "safe E m Q" and "\<And>e. safe E (h e) R" and "\<And>x. Q x \<Longrightarrow> safe E (f x) R"
  shows "safe E (tryM m h f) R"
  unfolding safe_def
proof (intro allI impI)
  fix w r w' assume w: "world_ok E w" and t: "tryM m h f w = (r, w')"
  then consider e w1 where "m w = (Inl e, w1)" "h e w1 = (r, w')" | x w1 where "m w = (Inr x, w1)" "f x w1 = (r, w')"
    by (auto simp: tryM_iff)
  then show "world_ok E w' \<and> (\<forall>x. r = Inr x \<longrightarrow> R x)"
  proof cases
    case 1
    then show ?thesis using safe_Inl [OF assms(1) w 1(1)] assms(2) unfolding safe_def by blast
  next
    case 2
    then show ?thesis using safe_Inr [OF assms(1) w 2(1)] assms(3) unfolding safe_def by blast
  qed
qed

lemma safe_foldM:
  assumes "\<And>x a. x \<in> set xs \<Longrightarrow> Q a \<Longrightarrow> safe E (f x a) Q" and "Q acc"
  shows "safe E (foldM f xs acc) Q"
  using assms
proof (induction xs arbitrary: acc)
  case Nil
  show ?case unfolding foldM.simps by (rule safe_retM) (rule Nil(2))
next
  case (Cons x xs)
  show ?case unfolding foldM.simps
    by (rule safe_bindM [where Q = Q]) (use Cons in auto)
qed

lemma safe_cases [safe_intros]:
  "(b \<Longrightarrow> safe E m Q) \<Longrightarrow> (\<not> b \<Longrightarrow> safe E k Q) \<Longrightarrow> safe E (if b then m else k) Q"
  "(x = None \<Longrightarrow> safe E m Q) \<Longrightarrow> (\<And>y. x = Some y \<Longrightarrow> safe E (f y) Q) \<Longrightarrow> safe E (case x of None \<Rightarrow> m | Some y \<Rightarrow> f y) Q"
  "(\<And>e. s = Inl e \<Longrightarrow> safe E (g e) Q) \<Longrightarrow> (\<And>y. s = Inr y \<Longrightarrow> safe E (h y) Q) \<Longrightarrow>
     safe E (case s of Inl e \<Rightarrow> g e | Inr y \<Rightarrow> h y) Q"
  "(\<And>a c. p = (a, c) \<Longrightarrow> safe E (q a c) Q) \<Longrightarrow> safe E (case p of (a, c) \<Rightarrow> q a c) Q"
  "safe E (l z) Q \<Longrightarrow> safe E (Let z l) Q"
  by (auto split: option.splits sum.splits prod.splits)

lemma world_ok_tick [simp]: "world_ok E (w\<lparr>w_tick := k\<rparr>) = world_ok E w"
  by (simp add: world_ok_def)

lemma safe_draws [safe_intros]:
  "safe E (draw g) (\<lambda>_. True)" "safe E (time_Now E) (\<lambda>_. True)" "safe E (uuid_New E) (\<lambda>_. True)"
  "safe E (ulid_Make E) (\<lambda>_. True)" "safe E (io E) (\<lambda>_. True)"
  by (auto simp: safe_def draw_def time_Now_def uuid_New_def ulid_Make_def io_def)

lemma safe_get_client [safe_intros]: "safe E get_client (db_ok E)" "safe E get_committed (db_ok E)"
  by (auto simp: safe_def world_ok_def)

lemma safe_put_client [safe_intros]: "db_ok E d \<Longrightarrow> safe E (put_client d) (\<lambda>_. True)"
  by (auto simp: safe_def world_ok_def put_client_def client_def split: option.splits)

lemma safe_put_committed [safe_intros]: "db_ok E d \<Longrightarrow> safe E (put_committed d) (\<lambda>_. True)"
  by (auto simp: safe_def world_ok_def client_def split: option.splits)

lemma safe_with_tx [safe_intros]:
  assumes "safe E m Q"
  shows "safe E (with_tx E m) Q"
  unfolding safe_def
proof (intro allI impI)
  fix w r w' assume w: "world_ok E w" and t: "with_tx E m w = (r, w')"
  show "world_ok E w' \<and> (\<forall>x. r = Inr x \<longrightarrow> Q x)"
  proof (cases "w_tx w")
    case (Some d)
    then have "m w = (r, w')" using t by (simp add: with_tx_def)
    then show ?thesis using assms w unfolding safe_def by blast
  next
    case None
    let ?v = "w\<lparr>w_tx := Some (w_db w), w_tick := Suc (w_tick w)\<rparr>"
    obtain q v where b: "m ?v = (q, v)" by fastforce
    have "world_ok E ?v" using w by (simp add: world_ok_def client_def)
    then have v: "world_ok E v" "\<And>x. q = Inr x \<Longrightarrow> Q x" using assms b unfolding safe_def by blast+
    have c: "world_ok E (v\<lparr>w_tx := None, w_tick := k\<rparr>)" "world_ok E (v\<lparr>w_db := client v, w_tx := None, w_tick := k\<rparr>)" for k
      using v(1) by (simp_all add: world_ok_def client_def)
    show ?thesis
    proof (cases "fault E (w_tick w)")
      case (Some f)
      then show ?thesis using t w with_tx_fresh [OF None, of E m] by auto
    next
      case fo: None
      then show ?thesis using t b c v(2) with_tx_fresh [OF None, of E m]
        by (cases q; cases "fault E (w_tick v)") auto
    qed
  qed
qed

lemma safe_True: "safe E m Q \<Longrightarrow> safe E m (\<lambda>_. True)"
  by (rule safe_weaken, assumption, simp)

section \<open>The node table\<close>

lemma db_ok_nodes:
  "db_ok E d \<Longrightarrow> nodes_ok E (d\<lparr>t_nodes := m\<rparr>) \<Longrightarrow> db_ok E (d\<lparr>t_nodes := m\<rparr>)"
  by (simp add: db_ok_def drive_tables_ok_def drives_ok_def user_table_ok_def users_ok_def tombs_ok_def)

lemma node_ok_kind: "node_ok E n \<Longrightarrow> n_kind n \<le> 4"
  by (simp add: node_ok_def)

lemma node_ok_dir: "node_ok E n \<Longrightarrow> n_kind n = NodeKindDirectory \<Longrightarrow> dir_ok E n"
  by (simp add: node_ok_def is_dir_def)

lemma node_ok_cong:
  "n_kind m = n_kind n \<Longrightarrow> n_content m = n_content n \<Longrightarrow> node_ok E m = node_ok E n"
  by (simp add: node_ok_def dir_ok_def holds_dir_def is_dir_def)

lemma node_ok_fields [simp]:
  "node_ok E (n\<lparr>n_stale := r\<rparr>) = node_ok E n" "node_ok E (relinked k t r n) = node_ok E n"
  "node_ok E (n\<lparr>n_nlink := k, n_rev := r\<rparr>) = node_ok E n"
  by (rule node_ok_cong; simp add: relinked_def)+

lemma node_ok_other: "n_kind n \<le> 4 \<Longrightarrow> n_kind n \<noteq> NodeKindDirectory \<Longrightarrow> node_ok E n"
  by (simp add: node_ok_def is_dir_def)

lemma node_ok_listing: "holds_dir E n dc \<Longrightarrow> names_distinct dc \<Longrightarrow> node_ok E n"
  by (auto simp: node_ok_def dir_ok_def holds_dir_def)

lemma node_ok_stored: "node_ok E n \<Longrightarrow> node_ok E (stored old n)"
proof (cases "is_dir n")
  case True
  assume n: "node_ok E n"
  then obtain dc where "holds_dir E n dc" "names_distinct dc" using True by (auto simp: node_ok_def dir_ok_def)
  then show ?thesis using holds_dir_stored node_ok_listing by blast
next
  case False
  assume "node_ok E n"
  then have "n_kind (stored old n) = n_kind n" "n_kind n \<le> 4" by (simp_all add: stored_def parse_entKind node_ok_def)
  then show ?thesis using False by (intro node_ok_other) (simp_all add: is_dir_def)
qed

lemma db_ok_upd:
  assumes "db_ok E d" "en_id r = i" "node_ok E (fromEnt r)" "valid_node_row r"
  shows "db_ok E (d\<lparr>t_nodes := (t_nodes d)(i \<mapsto> r)\<rparr>)"
proof -
  have "nodes_ok E (d\<lparr>t_nodes := (t_nodes d)(i \<mapsto> r)\<rparr>)"
    using assms by (auto simp: db_ok_def nodes_ok_def ids_ok_def node_at_def)
  then show ?thesis by (rule db_ok_nodes [OF assms(1)])
qed

lemma db_ok_insert_row:
  assumes "db_ok E d" "node_ok E n" "valid_node_row (row_insert n)"
  shows "db_ok E (d\<lparr>t_nodes := (t_nodes d)(n_id n \<mapsto> row_insert n)\<rparr>)"
proof (rule db_ok_upd [OF assms(1) _ _ assms(3)])
  have "node_ok E (stored None n)" using assms(2) by (rule node_ok_stored)
  then show "node_ok E (fromEnt (row_insert n))"
    by (rule iffD1 [OF node_ok_cong, rotated 2]) (simp_all add: fromEnt_def row_insert_def stored_def)
qed (simp add: row_insert_def)

lemma db_ok_update_row:
  assumes "db_ok E d" "node_ok E n" "valid_node_row (row_insert n)" "t_nodes d (n_id n) = Some old"
  shows "db_ok E (d\<lparr>t_nodes := (t_nodes d)(n_id n \<mapsto> row_update old n)\<rparr>)"
proof (rule db_ok_upd [OF assms(1)])
  have "node_ok E (stored None n)" using assms(2) by (rule node_ok_stored)
  then show "node_ok E (fromEnt (row_update old n))"
    by (rule iffD1 [OF node_ok_cong, rotated 2]) (simp_all add: fromEnt_def row_update_def stored_def)
  show "en_id (row_update old n) = n_id n"
    using assms(1,4) by (simp add: db_ok_def nodes_ok_def ids_ok_def row_update_def)
  show "valid_node_row (row_update old n)"
    using assms(3) by (simp add: valid_node_row_def row_insert_def row_update_def)
qed

lemma db_ok_del_row:
  assumes "db_ok E d"
  shows "db_ok E (d\<lparr>t_nodes := (t_nodes d)(i := None)\<rparr>)"
proof (rule db_ok_nodes [OF assms])
  show "nodes_ok E (d\<lparr>t_nodes := (t_nodes d)(i := None)\<rparr>)"
    using assms by (auto simp: db_ok_def nodes_ok_def ids_ok_def node_at_def split: if_splits)
qed

lemma node_ok_at:
  assumes "db_ok E d" "t_nodes d i = Some r"
  shows "node_ok E (fromEnt r) \<and> n_id (fromEnt r) = i"
proof -
  have "node_at d i = Some (fromEnt r)" using assms(2) by (simp add: node_at_def)
  then show ?thesis using assms(1) node_at_id [of d i "fromEnt r"] by (auto simp: db_ok_def nodes_ok_def)
qed

lemma safe_seq: "safe E m (\<lambda>_. True) \<Longrightarrow> safe E k R \<Longrightarrow> safe E (seqM m k) R"
  by (rule safe_seqM)

lemma safe_ensure_seq: "(b \<Longrightarrow> safe E k Q) \<Longrightarrow> safe E (seqM (ensureM b e) k) Q"
  unfolding seqM_def by (rule safe_bindM [OF safe_ensureM])

lemma safe_get_client_bind: "(\<And>d. db_ok E d \<Longrightarrow> safe E (f d) Q) \<Longrightarrow> safe E (bindM get_client f) Q"
  by (rule safe_bindM [OF safe_get_client(1)])

lemma safe_get_committed_bind: "(\<And>d. db_ok E d \<Longrightarrow> safe E (f d) Q) \<Longrightarrow> safe E (bindM get_committed f) Q"
  by (rule safe_bindM [OF safe_get_client(2)])

lemma safe_draw_bind:
  "(\<And>x. safe E (f x) Q) \<Longrightarrow> safe E (bindM (time_Now E) f) Q" "(\<And>x. safe E (g x) Q) \<Longrightarrow> safe E (bindM (ulid_Make E) g) Q"
  "(\<And>x. safe E (h x) Q) \<Longrightarrow> safe E (bindM (uuid_New E) h) Q"
  by (rule safe_bindM [OF safe_draws(2)] safe_bindM [OF safe_draws(4)] safe_bindM [OF safe_draws(3)], simp)+

lemma safe_lift_bind: "(\<And>x. r = Inr x \<Longrightarrow> safe E (f x) Q) \<Longrightarrow> safe E (bindM (liftM r) f) Q"
  by (rule safe_bindM [OF safe_liftM]) auto

lemma safe_wrap_lift_bind: "(\<And>x. r = Inr x \<Longrightarrow> safe E (f x) Q) \<Longrightarrow> safe E (bindM (wrapM ks s (liftM r)) f) Q"
  by (rule safe_bindM [OF safe_wrapM [OF safe_liftM]]) auto

text \<open>The rules in the order in which they are tried.\<close>

lemmas safe_steps = safe_ensure_seq safe_seq safe_get_client_bind safe_get_committed_bind safe_draw_bind
  safe_lift_bind safe_wrap_lift_bind safe_failM safe_draws(5) safe_cases safe_put_client safe_put_committed safe_with_tx

lemma safe_repo_get [safe_intros]: "safe E (repo_get E i) (\<lambda>n. node_ok E n \<and> n_id n = i)"
  unfolding repo_get_def by (rule safe_steps safe_retM node_ok_at | assumption)+

lemma safe_existsTx [safe_intros]: "safe E (existsTx E i) (\<lambda>_. True)"
  unfolding existsTx_def by (rule safe_steps safe_retM TrueI)+

lemma safe_insert_node: "node_ok E n \<Longrightarrow> safe E (insert_node E n) (node_ok E)"
  unfolding insert_node_def by (rule safe_steps safe_retM db_ok_insert_row | assumption | simp)+

lemma safe_update_node: "node_ok E n \<Longrightarrow> safe E (update_node E n) (node_ok E)"
  unfolding update_node_def by (rule safe_steps safe_retM db_ok_update_row | assumption | simp)+

lemma safe_repo_save [safe_intros]: "node_ok E n \<Longrightarrow> safe E (repo_save E n) (node_ok E)"
  unfolding repo_save_def
  by (rule safe_bindM [OF safe_existsTx] safe_cases safe_insert_node safe_update_node | assumption)+

lemma safe_repo_delete [safe_intros]: "safe E (repo_delete E i) (\<lambda>_. True)"
  unfolding repo_delete_def by (rule safe_steps db_ok_del_row | assumption)+

end
