(* ===== verification/SafeOps.thy ===== *)
theory SafeOps
  imports Safe
begin

text \<open>
  The operations on inodes keep the invariant: first the in-memory ones, which return well-formed
  nodes, then those of operation.go over the repository. Names are required to be valid UTF-8
  where an operation stores them.
\<close>

section \<open>In memory\<close>

lemma safe_post:
  assumes "safe E m (\<lambda>_. True)" and "\<And>w x w'. m w = (Inr x, w') \<Longrightarrow> Q x"
  shows "safe E m Q"
  using assms unfolding safe_def by blast

lemma safe_node_write: "safe E (node_write E c sz n) (\<lambda>_. True)"
  unfolding node_write_def by (rule safe_steps safe_retM TrueI)+

lemma safe_newNode: "safe E (newNode E k) (\<lambda>_. True)"
  unfolding newNode_def by (rule safe_steps safe_retM TrueI)+

lemma safe_newInlineNode: "safe E (newInlineNode E k c sz) (\<lambda>_. True)"
  unfolding newInlineNode_def by (rule safe_steps safe_bindM [OF safe_newNode] safe_node_write)+

lemma node_ok_fresh: "fresh_node k c sz n \<Longrightarrow> k \<le> 4 \<Longrightarrow> k \<noteq> NodeKindDirectory \<Longrightarrow> node_ok E n"
  by (rule node_ok_other) (simp_all add: fresh_node_def)

lemma node_ok_inline:
  "newInlineNode E k c sz w = (Inr n, w') \<Longrightarrow> k \<le> 4 \<Longrightarrow> k \<noteq> NodeKindDirectory \<Longrightarrow> node_ok E n"
  by (drule newInlineNode_Inr) (rule node_ok_fresh)

lemma safe_inline [safe_intros]:
  "k \<le> 4 \<Longrightarrow> k \<noteq> NodeKindDirectory \<Longrightarrow> safe E (newInlineNode E k c sz) (node_ok E)"
  by (rule safe_post [OF safe_newInlineNode node_ok_inline])

lemma safe_constructors [safe_intros]:
  "safe E (NewFile E raw) (node_ok E)" "safe E (NewSymlink E t) (node_ok E)" "safe E (NewObject E oc n) (node_ok E)"
  "safe E (NewMount E d) (node_ok E)"
  unfolding NewFile_def NewSymlink_def NewObject_def NewMount_def
  by (rule safe_cases safe_failM safe_inline | simp)+

lemma safe_NewDirectory [safe_intros]:
  assumes "uuid_codec E"
  shows "safe E (NewDirectory E) (node_ok E)"
proof (rule safe_post)
  show "safe E (NewDirectory E) (\<lambda>_. True)"
    unfolding NewDirectory_def by (rule safe_bindM [OF safe_newNode] safe_node_write)+
  fix w n w' assume "NewDirectory E w = (Inr n, w')"
  then have "fresh_node NodeKindDirectory (dir_marshal E None) 0 n"
    unfolding NewDirectory_def by (rule new_then_write_Inr)
  then show "node_ok E n" using assms
    by (intro node_ok_listing [of E n None]) (simp_all add: holds_dir_def fresh_node_def dir_exact_def names_distinct_def)
qed

lemma node_ok_rewritten: "rewritten n c sz n' \<Longrightarrow> node_ok E n \<Longrightarrow> n_kind n \<noteq> NodeKindDirectory \<Longrightarrow> node_ok E n'"
  using rewrittenD(4) [of n c sz n'] node_ok_kind [of E n] by (intro node_ok_other) simp_all

lemma safe_WriteFile [safe_intros]:
  assumes "node_ok E n" "is_file n"
  shows "safe E (WriteFile E raw n) (\<lambda>m. node_ok E m \<and> n_id m = n_id n)"
proof (rule safe_post)
  show "safe E (WriteFile E raw n) (\<lambda>_. True)"
    unfolding WriteFile_def by (rule safe_steps safe_node_write)+
  fix w m w' assume "WriteFile E raw n w = (Inr m, w')"
  then have "rewritten n (file_marshal raw) (int (length raw)) m"
    by (auto simp: WriteFile_def Let_def split: if_splits dest: node_write_Inr)
  then show "node_ok E m \<and> n_id m = n_id n"
    using node_ok_rewritten assms rewrittenD(3) by (auto simp: is_file_def)
qed

section \<open>Directory listings\<close>

lemma safe_WriteDir_True: "safe E (WriteDir E dc n) (\<lambda>_. True)"
  unfolding WriteDir_def by (rule safe_steps safe_node_write)+

lemma safe_WriteDir:
  assumes "dir_exact E dc" "names_distinct dc"
  shows "safe E (WriteDir E dc n) (\<lambda>m. node_ok E m \<and> n_id m = n_id n)"
  by (rule safe_post [OF safe_WriteDir_True]) (use WriteDir_holds [OF _ assms(1)] node_ok_listing assms(2) in blast)

lemma dir_of:
  assumes "node_ok E n" "n_kind n = NodeKindDirectory"
  obtains dc where "holds_dir E n dc" "names_distinct dc" "read_dir E n = Inr dc"
  using assms node_ok_dir [of E n] holds_dir_read by (auto simp: dir_ok_def)

lemma entry_op_dir:
  "AddEntry E name c n w = (Inr n', w') \<Longrightarrow> n_kind n = NodeKindDirectory"
  "RemoveEntry E name n w = (Inr n', w') \<Longrightarrow> n_kind n = NodeKindDirectory"
  "RemoveEntries E names n w = (Inr n', w') \<Longrightarrow> n_kind n = NodeKindDirectory"
  "AddEntries E es n w = (Inr n', w') \<Longrightarrow> n_kind n = NodeKindDirectory"
  by (auto simp: AddEntry_def RemoveEntry_def RemoveEntries_def AddEntries_def split: if_splits)

lemma safe_AddEntry [safe_intros]:
  assumes "node_ok E n" "valid_utf8 name"
  shows "safe E (AddEntry E name c n) (\<lambda>m. node_ok E m \<and> n_id m = n_id n)"
proof (rule safe_post)
  show "safe E (AddEntry E name c n) (\<lambda>_. True)"
    unfolding AddEntry_def by (rule safe_steps safe_WriteDir_True)+
  fix w m w' assume a: "AddEntry E name c n w = (Inr m, w')"
  obtain dc where d: "holds_dir E n dc" "names_distinct dc" by (rule dir_of [OF assms(1) entry_op_dir(1) [OF a]])
  show "node_ok E m \<and> n_id m = n_id n"
    using AddEntry_refines [OF d assms(2) a] AddEntry_holds(2) [OF d(1) assms(2) a] node_ok_listing by blast
qed

lemma safe_RemoveEntry [safe_intros]:
  assumes "node_ok E n"
  shows "safe E (RemoveEntry E name n) (\<lambda>m. node_ok E m \<and> n_id m = n_id n)"
proof (rule safe_post)
  show "safe E (RemoveEntry E name n) (\<lambda>_. True)"
    unfolding RemoveEntry_def by (rule safe_steps safe_WriteDir_True)+
  fix w m w' assume a: "RemoveEntry E name n w = (Inr m, w')"
  obtain dc where d: "holds_dir E n dc" "names_distinct dc" by (rule dir_of [OF assms(1) entry_op_dir(2) [OF a]])
  show "node_ok E m \<and> n_id m = n_id n"
    using RemoveEntry_refines [OF d a] RemoveEntry_holds [OF d(1) a] node_ok_listing by metis
qed

lemma safe_RemoveEntries [safe_intros]:
  assumes "node_ok E n"
  shows "safe E (RemoveEntries E names n) (\<lambda>m. node_ok E m \<and> n_id m = n_id n)"
proof (rule safe_post)
  show "safe E (RemoveEntries E names n) (\<lambda>_. True)"
    unfolding RemoveEntries_def by (rule safe_steps safe_WriteDir_True safe_retM TrueI)+
  fix w m w' assume a: "RemoveEntries E names n w = (Inr m, w')"
  obtain dc where d: "holds_dir E n dc" "names_distinct dc" by (rule dir_of [OF assms(1) entry_op_dir(3) [OF a]])
  show "node_ok E m \<and> n_id m = n_id n"
    using RemoveEntries_refines [OF d a] RemoveEntries_holds(2) [OF d(1) a] node_ok_listing by blast
qed

lemma safe_AddEntries [safe_intros]:
  assumes "node_ok E n" "distinct (map fst es)" "\<forall>k\<in>fst ` set es. valid_utf8 k"
  shows "safe E (AddEntries E es n) (\<lambda>m. node_ok E m \<and> n_id m = n_id n)"
proof (rule safe_post)
  show "safe E (AddEntries E es n) (\<lambda>_. True)"
    unfolding AddEntries_def by (rule safe_steps safe_WriteDir_True safe_retM TrueI)+
  fix w m w' assume a: "AddEntries E es n w = (Inr m, w')"
  have k: "n_kind n = NodeKindDirectory" by (rule entry_op_dir(4) [OF a])
  obtain dc where d: "holds_dir E n dc" "names_distinct dc" by (rule dir_of [OF assms(1) k])
  have "n_id m = n_id n"
    using a AddEntries_holds(5) [OF d(1) _ assms(3) a] k by (cases "es = []") (simp_all add: AddEntries_def)
  then show "node_ok E m \<and> n_id m = n_id n"
    using AddEntries_refines [OF d assms(2,3) a] node_ok_listing by blast
qed

section \<open>operation.go\<close>

lemma safe_create [safe_intros]: "safe E f (node_ok E) \<Longrightarrow> safe E (create E k f) (node_ok E)"
  unfolding create_def by (rule safe_tryM safe_failM safe_wrapM safe_repo_save | assumption)+

lemma safe_creates [safe_intros]:
  "safe E (CreateFile E c) (node_ok E)" "safe E (CreateSymlink E t) (node_ok E)"
  "safe E (CreateObject E oc sz) (node_ok E)" "safe E (CreateMount E d) (node_ok E)"
  "uuid_codec E \<Longrightarrow> safe E (CreateDirectory E) (node_ok E)"
  unfolding CreateFile_def CreateDirectory_def CreateSymlink_def CreateObject_def CreateMount_def
  by (rule safe_create safe_constructors safe_NewDirectory | assumption)+

lemma safe_GetByID [safe_intros]: "safe E (GetByID E i) (\<lambda>n. node_ok E n \<and> n_id n = i)"
  unfolding GetByID_def by (rule safe_wrapM safe_repo_get)+

lemma safe_Save_op [safe_intros]: "node_ok E n \<Longrightarrow> safe E (Save_op E (Some n)) (node_ok E)"
  by (simp add: Save_op_def safe_wrapM safe_repo_save)

lemma safe_Delete_op [safe_intros]: "safe E (Delete_op E i) (\<lambda>_. True)"
  unfolding Delete_op_def by (rule safe_wrapM safe_repo_delete)+

definition both_ok :: "env \<Rightarrow> node \<times> node \<Rightarrow> bool" where
  "both_ok E p \<longleftrightarrow> node_ok E (fst p) \<and> node_ok E (snd p)"

lemma both_ok_pair [simp]: "both_ok E (a, b) \<longleftrightarrow> node_ok E a \<and> node_ok E b"
  by (simp add: both_ok_def)

lemma safe_link_body [safe_intros]:
  "node_ok E p \<Longrightarrow> node_ok E c \<Longrightarrow> valid_utf8 name \<Longrightarrow> safe E (link_body E p name c) (both_ok E)"
  unfolding link_body_def
  by (rule safe_draw_bind safe_wrapM safe_AddEntry safe_repo_save safe_bindM safe_retM | erule conjE | assumption | simp)+

lemma safe_Link [safe_intros]:
  "node_ok E p \<Longrightarrow> node_ok E c \<Longrightarrow> valid_utf8 name \<Longrightarrow> safe E (Link E (Some p) name (Some c)) (both_ok E)"
  unfolding Link_def by (simp add: safe_with_tx safe_link_body)

lemma safe_bulk_link_child:
  assumes "\<forall>c. snd p = Some c \<longrightarrow> node_ok E c" "list_all (node_ok E) saved"
  shows "safe E (bulk_link_child E now p saved) (list_all (node_ok E))"
  unfolding bulk_link_child_def
  by (rule safe_cases safe_draw_bind safe_wrapM safe_repo_save safe_bindM safe_retM | (insert assms, simp; fail))+

lemma safe_BulkLink:
  assumes "node_ok E p" "distinct (map fst es)" "\<forall>k\<in>fst ` set es. valid_utf8 k"
    "\<forall>x\<in>set es'. \<forall>c. snd x = Some c \<longrightarrow> node_ok E c"
  shows "safe E (BulkLink E (Some p) es es') (\<lambda>(q, cs). node_ok E q \<and> list_all (node_ok E) cs)"
proof -
  have f: "safe E (foldM (bulk_link_child E now) es' []) (list_all (node_ok E))" for now
    using assms(4) by (intro safe_foldM safe_bulk_link_child) auto
  show ?thesis unfolding BulkLink_def option.case
    by (rule safe_cases safe_with_tx safe_draw_bind safe_wrapM safe_AddEntries [OF assms(1-3)] safe_repo_save f safe_bindM safe_retM
      | erule conjE | assumption | (insert assms, simp; fail))+
qed

text \<open>The inode that an unlink deletes, when it does.\<close>

definition opt_ok :: "env \<Rightarrow> node option \<Rightarrow> bool" where
  "opt_ok E x \<longleftrightarrow> (\<forall>n. x = Some n \<longrightarrow> node_ok E n)"

lemma opt_ok_simps [simp]: "opt_ok E None" "opt_ok E (Some n) \<longleftrightarrow> node_ok E n"
  by (simp_all add: opt_ok_def)

lemma safe_unlink_child: "safe E (unlink_child E name i) (opt_ok E)"
  unfolding unlink_child_def
  by (rule safe_cases safe_draw_bind safe_wrapM safe_GetByID safe_repo_save safe_repo_delete safe_bindM safe_retM
      | erule conjE | assumption | simp)+

lemma safe_unlink_body [safe_intros]:
  "node_ok E p \<Longrightarrow> safe E (unlink_body E p name) (\<lambda>(q, d). node_ok E q \<and> opt_ok E d)"
  unfolding unlink_body_def
  by (rule safe_wrap_lift_bind safe_failM safe_cases safe_draw_bind safe_wrapM safe_RemoveEntry safe_repo_save
      safe_unlink_child safe_bindM safe_retM | erule conjE | assumption | simp)+

lemma safe_Unlink [safe_intros]:
  "node_ok E p \<Longrightarrow> safe E (Unlink E (Some p) name) (\<lambda>(q, d). node_ok E q \<and> opt_ok E d)"
  unfolding Unlink_def by (simp add: safe_with_tx safe_unlink_body)

lemma safe_UnlinkOrReplace:
  "node_ok E p \<Longrightarrow> safe E (UnlinkOrReplace E (Some p) name) (\<lambda>(q, d). opt_ok E q \<and> opt_ok E d)"
  unfolding UnlinkOrReplace_def option.case
  by (rule safe_lift_bind safe_failM safe_cases safe_wrapM safe_GetByID safe_Unlink safe_bindM safe_retM
      | erule conjE | assumption | (clarsimp; fail))+

section \<open>Moves\<close>

lemma safe_WriteDir_if:
  assumes "n_kind n = NodeKindDirectory \<Longrightarrow> dir_exact E dc \<and> names_distinct dc"
  shows "safe E (WriteDir E dc n) (\<lambda>m. node_ok E m \<and> n_id m = n_id n)"
proof (cases "n_kind n = NodeKindDirectory")
  case True
  then show ?thesis using assms safe_WriteDir by blast
next
  case False
  then show ?thesis unfolding WriteDir_def by (simp add: safe_failM)
qed

lemma safe_move_overwrite: "safe E (move_overwrite E i) (\<lambda>_. True)"
  unfolding move_overwrite_def
  by (rule safe_cases safe_bindM [OF safe_draws(4)] safe_wrapM safe_GetByID safe_repo_save safe_repo_delete safe_bindM safe_retM TrueI
      | erule conjE | assumption | simp)+

lemma safe_move_same:
  assumes "n_kind sp = NodeKindDirectory \<Longrightarrow> dir_exact E (Some es) \<and> names_distinct (Some es)"
  shows "safe E (move_same E sp es) (node_ok E)"
  unfolding move_same_def
  by (rule safe_wrapM safe_WriteDir_if [OF assms] safe_repo_save safe_bindM | erule conjE | assumption)+

lemma safe_move_across:
  assumes "n_kind sp = NodeKindDirectory \<Longrightarrow> dir_exact E (Some ses) \<and> names_distinct (Some ses)"
    "n_kind dp = NodeKindDirectory \<Longrightarrow> dir_exact E (Some des) \<and> names_distinct (Some des)"
  shows "safe E (move_across E sp ses dp des) (both_ok E)"
  unfolding move_across_def
  by (rule safe_wrapM safe_WriteDir_if [OF assms(1)] safe_WriteDir_if [OF assms(2)] safe_repo_save safe_bindM safe_retM
      | erule conjE | assumption | simp)+

lemma listing_of:
  assumes "node_ok E n" "n_kind n = NodeKindDirectory" "read_dir E n = Inr dc"
  shows "dir_exact E dc" "names_distinct dc"
  using dir_of [OF assms(1,2)] assms(3) by (metis holds_dir_def sum.inject(2))+

lemma dir_exact_filter: "dir_exact E dc \<Longrightarrow> dir_exact E (Some (filter P (entries dc)))"
  by (auto simp: dir_exact_def names_ok_filter)

lemma safe_move_body:
  assumes "node_ok E sp" "node_ok E dp" "valid_utf8 dst" "dst \<noteq> []" "uuid_codec E"
  shows "safe E (move_body E sp src dp dst) (both_ok E)"
proof -
  let ?moved = "\<lambda>se. \<lparr>de_ino = de_ino se, de_name = dst, de_kind = de_kind se\<rparr>"
  have same: "dir_exact E (Some (renamed src dst (?moved se) (entries dc))) \<and> names_distinct (Some (renamed src dst (?moved se) (entries dc)))"
    if "n_kind sp = NodeKindDirectory" "read_dir E sp = Inr dc" "src \<noteq> dst" for dc se
    using listing_of [OF assms(1) that(1,2)] dir_exact_renamed names_distinct_renamed that(3) assms(3,4) by simp
  have kept: "dir_exact E (Some (filter (\<lambda>e. de_name e \<noteq> src) (entries dc))) \<and> names_distinct (Some (filter (\<lambda>e. de_name e \<noteq> src) (entries dc)))"
    if "n_kind sp = NodeKindDirectory" "read_dir E sp = Inr dc" for dc
    using listing_of [OF assms(1) that] dir_exact_filter names_distinct_filter by blast
  have one: "dir_exact E (Some [?moved se]) \<and> names_distinct (Some [?moved se])" for se
    using assms(3-5) by (simp add: dir_exact_def names_distinct_def)
  have w: "safe E (if n_id sp = n_id dp
        then bindM (move_same E sp (if n_id sp = n_id dp \<and> \<not> rpl then kept @ [?moved se] else kept)) (\<lambda>sp1. retM (sp1, dp))
        else move_across E sp (if n_id sp = n_id dp \<and> \<not> rpl then kept @ [?moved se] else kept) dp
          (move_dst_entries dst (entries dstDC) @ [?moved se])) (both_ok E)"
    if "read_dir E sp = Inr dc" "\<not> (n_id sp = n_id dp \<and> src = dst)"
      "move_src_entries (n_id sp = n_id dp) src dst (?moved se) (entries dc) = (kept, rpl)" for dc dstDC se kept rpl
  proof (cases "n_id sp = n_id dp")
    case True
    then have e: "(if n_id sp = n_id dp \<and> \<not> rpl then kept @ [?moved se] else kept) = renamed src dst (?moved se) (entries dc)"
      using that(3) by (auto simp: move_src_entries_eq renamed_def)
    have "safe E (move_same E sp (renamed src dst (?moved se) (entries dc))) (node_ok E)"
      using same that True by (intro safe_move_same) auto
    then have "safe E (bindM (move_same E sp (renamed src dst (?moved se) (entries dc))) (\<lambda>sp1. retM (sp1, dp))) (both_ok E)"
      by (rule safe_bindM) (rule safe_retM, simp add: assms(2))
    then show ?thesis unfolding e using True by simp
  next
    case False
    then have "kept = filter (\<lambda>e. de_name e \<noteq> src) (entries dc)" using that(3) by (auto simp: move_src_entries_eq)
    then show ?thesis using safe_move_across [OF kept [OF _ that(1)] one] False by simp
  qed
  have b: "both_ok E (sp, dp)" using assms by simp
  show ?thesis unfolding move_body_def Let_def
    by (rule safe_wrap_lift_bind safe_failM safe_cases w safe_bindM [OF w] safe_move_overwrite TrueI
        safe_retM b | assumption | (rule safe_bindM [where Q = "\<lambda>_. True"]))+
qed

lemma safe_MoveEntry [safe_intros]:
  "node_ok E sp \<Longrightarrow> node_ok E dp \<Longrightarrow> valid_utf8 dst \<Longrightarrow> dst \<noteq> [] \<Longrightarrow> uuid_codec E \<Longrightarrow>
   safe E (MoveEntry E (Some sp) src (Some dp) dst) (both_ok E)"
  unfolding MoveEntry_def by (simp add: safe_with_tx safe_move_body)

lemma safe_bulk_unlink_child:
  "list_all (node_ok E) deleted \<Longrightarrow> safe E (bulk_unlink_child E now i deleted) (list_all (node_ok E))"
  unfolding bulk_unlink_child_def
  by (rule safe_tryM [OF safe_GetByID] safe_cases safe_draw_bind safe_failM safe_retM | erule conjE | assumption
      | (rule safe_bindM [where Q = "\<lambda>_. True"], rule safe_weaken, (rule safe_wrapM safe_repo_save safe_repo_delete | simp)+) | simp)+

lemma safe_BulkUnlink:
  assumes "node_ok E p"
  shows "safe E (BulkUnlink E (Some p) names) (\<lambda>(q, ds). node_ok E q \<and> list_all (node_ok E) ds)"
proof -
  have f: "safe E (foldM (bulk_unlink_child E now) plan []) (list_all (node_ok E))" for now plan
    by (rule safe_foldM) (simp_all add: safe_bulk_unlink_child)
  show ?thesis unfolding BulkUnlink_def option.case
    by (rule safe_cases safe_with_tx safe_wrap_lift_bind safe_draw_bind safe_wrapM safe_RemoveEntries [OF assms] safe_repo_save f
        safe_bindM safe_retM | erule conjE | assumption | (insert assms, simp; fail))+
qed

end
