(* ===== verification/SafeVfs.thy ===== *)
theory SafeVfs
  imports SafeOps
begin

text \<open>
  The path resolver returns well-formed nodes, and every operation of the virtual file system
  keeps the invariant when the names in its paths are valid UTF-8.
\<close>

section \<open>The resolver\<close>

definition cached_ok :: "env \<Rightarrow> (uuid \<rightharpoonup> node) \<Rightarrow> bool" where
  "cached_ok E c \<longleftrightarrow> (\<forall>i n. c i = Some n \<longrightarrow> node_ok E n)"

lemma cached_ok_upd: "cached_ok E c \<Longrightarrow> node_ok E n \<Longrightarrow> cached_ok E (c(i \<mapsto> n))"
  by (simp add: cached_ok_def)

lemma safe_cache [safe_intros]:
  "safe E get_cache (cached_ok E)" "cached_ok E c \<Longrightarrow> safe E (put_cache c) (\<lambda>_. True)" "safe E newResolver (\<lambda>_. True)"
  by (auto simp: safe_def world_ok_def cached_ok_def get_cache_def put_cache_def newResolver_def)

lemma safe_loadByID [safe_intros]: "safe E (loadByID E i) (node_ok E)"
  unfolding loadByID_def
proof (rule safe_bindM [OF safe_cache(1)])
  fix c assume c: "cached_ok E c"
  have n: "node_ok E n" if "c i = Some n" for n using c that by (simp add: cached_ok_def)
  show "safe E (case c i of Some n \<Rightarrow> retM n
        | None \<Rightarrow> bindM (GetByID E i) (\<lambda>n. bindM get_cache (\<lambda>c1. seqM (put_cache (c1(i \<mapsto> n))) (retM n)))) (node_ok E)"
    by (rule safe_cases safe_bindM [OF safe_GetByID] safe_bindM [OF safe_cache(1)] safe_seq safe_cache(2) cached_ok_upd safe_retM
        | erule conjE | assumption | erule n)+
qed

text \<open>Where a walk stops.\<close>

fun walk_out_ok :: "env \<Rightarrow> walk_out \<Rightarrow> bool" where
  "walk_out_ok E (AtNode n) = node_ok E n"
| "walk_out_ok E (AtMount m rest) = node_ok E m"
| "walk_out_ok E (AtLink c before rest) = node_ok E c"

lemma safe_walk: "node_ok E cur \<Longrightarrow> list_all (node_ok E) ups \<Longrightarrow> safe E (walk E follow cur ups before parts) (walk_out_ok E)"
proof (induction parts arbitrary: cur ups before)
  case Nil
  then show ?case unfolding walk.simps by (intro safe_retM) simp
next
  case (Cons p ps)
  have up: "safe E (case ups of [] \<Rightarrow> failM vfs_invalid_path | u # us \<Rightarrow> walk E follow u us (before @ [p]) ps) (walk_out_ok E)"
    using Cons.prems(2) by (cases ups) (simp_all add: safe_failM Cons.IH)
  show ?case unfolding walk.simps
    by (rule safe_cases up safe_lift_bind safe_failM safe_tryM [OF safe_loadByID] safe_retM Cons.IH
        | (insert Cons.prems, simp; fail))+
qed

lemma safe_resolve_inner: "safe E (resolve_inner E rootID follow visited p) (\<lambda>r. node_ok E (wr_node r))"
proof (induction E rootID follow visited p rule: resolve_inner.induct)
  case (1 E rootID follow visited p)
  have "safe E (case r of
               AtNode n \<Rightarrow> retM \<lparr>wr_node = n, wr_remaining = []\<rparr>
             | AtMount m rest \<Rightarrow> retM \<lparr>wr_node = m, wr_remaining = rest\<rparr>
             | AtLink child before rest \<Rightarrow>
                 if length visited \<ge> maxSymlinkDepth then failM symlink_cycle
                 else if n_id child \<in> set visited then failM symlink_cycle
                 else
                   bindM (liftM (readlink child)) (\<lambda>target.
                     resolve_inner E rootID follow (n_id child # visited) (splice_target before target rest))) (\<lambda>r. node_ok E (wr_node r))"
    if "cleanPath p \<noteq> []" "cleanPath p \<noteq> ''/''" "walk_out_ok E r" for r
  proof (cases r)
    case (AtLink child before rest)
    then show ?thesis unfolding AtLink walk_out.case
      by (intro safe_cases safe_failM safe_lift_bind 1) (use that(1,2) in auto)
  next
    case (AtNode n)
    then show ?thesis unfolding AtNode walk_out.case by (intro safe_retM) (use that AtNode in simp)
  next
    case (AtMount m rest)
    then show ?thesis unfolding AtMount walk_out.case by (intro safe_retM) (use that AtMount in simp)
  qed
  note r = this
  show ?case
    by (subst resolve_inner.simps, unfold Let_def)
      (rule safe_cases safe_bindM [OF safe_loadByID] safe_tryM [OF safe_loadByID] safe_failM safe_retM safe_bindM [OF safe_walk] r
        | assumption | (simp; fail))+
qed

lemma safe_resolvePath [safe_intros]: "safe E (resolvePath E rootID p follow) (\<lambda>r. node_ok E (wr_node r))"
  unfolding resolvePath_def by (rule safe_resolve_inner)

text \<open>A path whose components are valid UTF-8 once it is cleaned.\<close>

definition utf8_path :: "string \<Rightarrow> bool" where
  "utf8_path p \<longleftrightarrow> list_all valid_utf8 (splitPath (cleanPath p))"

lemma split_last_utf8:
  assumes "utf8_path p" "split_last (cleanPath p) = Some (q, name)"
  shows "valid_utf8 name"
proof (cases "splitPath (cleanPath p)" rule: rev_cases)
  case Nil
  then show ?thesis using split_last_root [of p] assms(2) by simp
next
  case (snoc cs x)
  then show ?thesis using split_last_cleanPath [OF snoc] assms by (simp add: utf8_path_def)
qed

definition parent_ok :: "env \<Rightarrow> node \<times> string \<Rightarrow> bool" where
  "parent_ok E p \<longleftrightarrow> node_ok E (fst p) \<and> valid_utf8 (snd p) \<and> snd p \<noteq> []"

lemma parent_ok_pair [simp]: "parent_ok E (n, x) \<longleftrightarrow> node_ok E n \<and> valid_utf8 x \<and> x \<noteq> []"
  by (simp add: parent_ok_def)

lemma safe_resolveParent [safe_intros]: "utf8_path p \<Longrightarrow> safe E (resolveParent E rootID p) (parent_ok E)"
  unfolding resolveParent_def
  by (rule safe_cases safe_failM safe_bindM [OF safe_resolvePath] safe_retM | (insert split_last_utf8, simp; fail))+

definition dir_pair_ok :: "env \<Rightarrow> node \<times> string \<Rightarrow> bool" where
  "dir_pair_ok E p \<longleftrightarrow> node_ok E (fst p)"

lemma dir_pair_ok_pair [simp]: "dir_pair_ok E (n, x) \<longleftrightarrow> node_ok E n"
  by (simp add: dir_pair_ok_def)

lemma safe_resolveParent_any: "safe E (resolveParent E rootID p) (dir_pair_ok E)"
  unfolding resolveParent_def
  by (rule safe_cases safe_failM safe_bindM [OF safe_resolvePath] safe_retM | (simp; fail))+

lemma safe_drepo_query [safe_intros]: "safe E (drepo_query E P) (\<lambda>_. True)"
  unfolding drepo_query_def by (rule safe_steps safe_retM TrueI)+

lemma safe_DriveGetByID [safe_intros]: "safe E (DriveGetByID E d) (\<lambda>_. True)"
  unfolding DriveGetByID_def drepo_get_by_id_def
  by (rule safe_bindM [OF safe_wrapM [OF safe_drepo_query]] safe_cases safe_failM safe_retM TrueI)+

lemma safe_GetRootNodeID [safe_intros]: "safe E (GetRootNodeID E d) (\<lambda>_. True)"
  unfolding GetRootNodeID_def
  by (rule safe_bindM [OF safe_wrapM [OF safe_DriveGetByID]] safe_cases safe_failM safe_retM TrueI)+

lemma safe_mount_hops: "safe E (mount_hops E follow k visited d p) (\<lambda>r. node_ok E (snd r))"
proof (induction k arbitrary: visited d p)
  case 0
  show ?case unfolding mount_hops.simps by (rule safe_failM)
next
  case (Suc k)
  show ?case unfolding mount_hops.simps
    by (rule safe_seqM [OF safe_cache(3)] safe_bindM [OF safe_GetRootNodeID] safe_bindM [OF safe_resolvePath] safe_cases
        safe_retM safe_lift_bind safe_failM Suc.IH | (simp; fail))+
qed

lemma safe_resolveWithMounts [safe_intros]: "safe E (resolveWithMounts E d p follow) (\<lambda>r. node_ok E (snd r))"
  unfolding resolveWithMounts_def by (rule safe_mount_hops)

lemma safe_resolveEditableParent [safe_intros]:
  "utf8_path p \<Longrightarrow> safe E (resolveEditableParent E d p) (parent_ok E)"
  unfolding resolveEditableParent_def
  by (rule safe_bindM [OF safe_GetRootNodeID] safe_cases safe_failM safe_seqM [OF safe_cache(3)]
      safe_bindM [OF safe_resolveParent] safe_retM | assumption | (simp; fail))+

section \<open>The operations\<close>

lemma safe_Link_pair:
  "parent_ok E (p, name) \<Longrightarrow> node_ok E c \<Longrightarrow> safe E (Link E (Some p) name (Some c)) (both_ok E)"
  by (simp add: safe_Link)

lemma safe_Unlink_pair:
  "dir_pair_ok E (p, name) \<Longrightarrow> safe E (Unlink E (Some p) name) (\<lambda>(q, d). node_ok E q \<and> opt_ok E d)"
  by (simp add: safe_Unlink)

lemmas safe_create_steps = safe_cases safe_failM safe_seqM [OF safe_cache(3)] safe_bindM [OF safe_GetRootNodeID]
  safe_bindM [OF safe_wrapM [OF safe_resolveEditableParent]] safe_bindM [OF safe_wrapM [OF safe_resolveParent]]
  safe_bindM [OF safe_wrapM [OF safe_resolvePath]] safe_bindM [OF safe_wrapM [OF safe_constructors(1)]]
  safe_bindM [OF safe_wrapM [OF safe_constructors(2)]] safe_bindM [OF safe_wrapM [OF safe_constructors(3)]]
  safe_bindM [OF safe_wrapM [OF safe_constructors(4)]] safe_bindM [OF safe_wrapM [OF safe_NewDirectory]]
  safe_bindM [OF safe_wrapM [OF safe_Link_pair]] safe_bindM [OF safe_Link_pair]
  safe_bindM [OF safe_wrapM [OF safe_Unlink_pair]] safe_bindM [OF safe_wrapM [OF safe_DriveGetByID]]
  safe_wrap_lift_bind safe_retM

lemma safe_Mkdir: "uuid_codec E \<Longrightarrow> utf8_path p \<Longrightarrow> safe E (Mkdir E d p) (node_ok E)"
  unfolding Mkdir_def by (rule safe_create_steps | assumption | (clarsimp; fail))+

lemma safe_Touch: "utf8_path p \<Longrightarrow> safe E (Touch E d p) (node_ok E)"
  unfolding Touch_def by (rule safe_create_steps | assumption | (clarsimp; fail))+

lemma safe_Symlink: "utf8_path p \<Longrightarrow> safe E (Symlink E d t p) (node_ok E)"
  unfolding Symlink_def by (rule safe_create_steps | assumption | (clarsimp; fail))+

lemma safe_Hardlink: "utf8_path p \<Longrightarrow> safe E (Hardlink E d src p) (node_ok E)"
  unfolding Hardlink_def by (rule safe_create_steps | assumption | (clarsimp; fail))+

lemma safe_WriteLarge: "utf8_path p \<Longrightarrow> safe E (WriteLarge E d p oc sz) (\<lambda>_. True)"
  unfolding WriteLarge_def by (rule safe_create_steps | assumption | (clarsimp; fail))+

lemma safe_Mount: "utf8_path p \<Longrightarrow> safe E (Mount E d p src) (\<lambda>_. True)"
  unfolding Mount_def by (rule safe_create_steps | assumption | (clarsimp; fail))+

lemma safe_Write: "utf8_path p \<Longrightarrow> safe E (Write E d p content) (\<lambda>_. True)"
  unfolding Write_def
  by (rule safe_create_steps safe_tryM [OF safe_resolvePath] safe_bindM [OF safe_wrapM [OF safe_WriteFile]]
      safe_bindM [OF safe_wrapM [OF safe_Save_op]] | assumption | (clarsimp; fail))+

section \<open>Removal\<close>

lemmas safe_unlink_steps = safe_cases safe_failM safe_seqM [OF safe_cache(3)] safe_bindM [OF safe_GetRootNodeID]
  safe_bindM [OF safe_wrapM [OF safe_resolveParent_any]] safe_bindM [OF safe_wrapM [OF safe_resolvePath]]
  safe_bindM [OF safe_wrapM [OF safe_Unlink_pair]] safe_wrap_lift_bind safe_retM

lemma safe_Unmount: "safe E (Unmount E d p) (\<lambda>_. True)"
  unfolding Unmount_def Let_def by (rule safe_unlink_steps | assumption | (clarsimp; fail))+

lemma safe_rm: "safe E (rm E rootID n p) (\<lambda>_. True)"
  unfolding rm_def by (rule safe_unlink_steps | assumption | (clarsimp; fail))+

lemma safe_rmRecursive: "safe E (rmRecursive E rootID k n p) (\<lambda>_. True)"
proof (induction k arbitrary: n p)
  case 0
  show ?case unfolding rmRecursive.simps by (rule safe_failM)
next
  case (Suc k)
  show ?case unfolding rmRecursive.simps
    by (rule safe_wrap_lift_bind safe_bindM [OF safe_foldM [where Q = "\<lambda>_. True"]] safe_bindM [OF safe_wrapM [OF safe_GetByID]]
        safe_bindM [OF safe_cases(1) [OF Suc.IH safe_rm]] safe_bindM [OF safe_rm] safe_retM TrueI)+
qed

lemma safe_rmPath: "safe E (rmPath E k rootID p recursive) (\<lambda>_. True)"
  unfolding rmPath_def Let_def
  by (rule safe_seqM [OF safe_cache(3)] safe_bindM [OF safe_wrapM [OF safe_resolvePath]] safe_cases safe_failM safe_rmRecursive safe_rm)+

section \<open>The garbage recorder\<close>

lemma safe_stamped: "safe E (stamped E refs) (\<lambda>_. True)"
  unfolding stamped_def stamp_def
  by (rule safe_foldM [where Q = "\<lambda>_. True"] safe_draw_bind safe_retM TrueI)+

lemma db_ok_tombs: "db_ok E d \<Longrightarrow> tombs_ok (d\<lparr>t_tombs := ts\<rparr>) \<Longrightarrow> db_ok E (d\<lparr>t_tombs := ts\<rparr>)"
  by (simp add: db_ok_def nodes_ok_def ids_ok_def node_at_def drive_tables_ok_def drives_ok_def user_table_ok_def users_ok_def)

lemma db_ok_new_tombs:
  assumes "db_ok E d" "list_all valid_tomb_row (tomb_rows 0 rs)"
  shows "db_ok E (d\<lparr>t_tombs := t_tombs d @ tomb_rows (next_tomb_id (t_tombs d)) rs\<rparr>)"
proof (rule db_ok_tombs [OF assms(1)])
  have t: "tombs_ok d" using assms(1) by (simp add: db_ok_def)
  then have "distinct (map et_id (t_tombs d @ tomb_rows (next_tomb_id (t_tombs d)) rs))"
    using next_tomb_id_above by (fastforce simp: tombs_ok_def tomb_rows_ids)
  then show "tombs_ok (d\<lparr>t_tombs := t_tombs d @ tomb_rows (next_tomb_id (t_tombs d)) rs\<rparr>)"
    using t assms(2) by (simp add: tombs_ok_def tomb_rows_valid)
qed

lemma safe_RecordGarbage [safe_intros]: "safe E (RecordGarbage E refs) (\<lambda>_. True)"
  unfolding RecordGarbage_def
  by (rule safe_cases safe_retM TrueI safe_wrapM safe_bindM [OF safe_stamped] safe_ensure_seq safe_seqM [OF safe_draws(5)]
      safe_get_client_bind safe_put_client db_ok_new_tombs | assumption)+

definition recorder_safe :: "env \<Rightarrow> (garbage_ref list \<Rightarrow> unit W) option \<Rightarrow> bool" where
  "recorder_safe E gc \<longleftrightarrow> (\<forall>g refs. gc = Some g \<longrightarrow> safe E (g refs) (\<lambda>_. True))"

lemma recorder_safe_RecordGarbage: "recorder_safe E (Some (RecordGarbage E))" "recorder_safe E None"
  by (simp_all add: recorder_safe_def safe_RecordGarbage)

lemma safe_record_refs_opt: "recorder_safe E gc \<Longrightarrow> safe E (record_refs_opt gc what d refs) (\<lambda>_. True)"
  unfolding record_refs_opt_def
  by (rule safe_cases safe_retM TrueI safe_wrapM | (simp add: recorder_safe_def; fail))+

lemma safe_Rm: "recorder_safe E gc \<Longrightarrow> safe E (Rm E k gc d paths recursive) (\<lambda>_. True)"
  unfolding Rm_def
  by (rule safe_with_tx safe_bindM [OF safe_GetRootNodeID] safe_bindM [OF safe_foldM [where Q = "\<lambda>_. True"]]
      safe_bindM [OF safe_rmPath] safe_record_refs_opt safe_retM TrueI | assumption)+

section \<open>Moves\<close>

lemma safe_captureOverwriteRef: "safe E (captureOverwriteRef E dp name) (\<lambda>_. True)"
  unfolding captureOverwriteRef_def
  by (rule safe_cases safe_tryM [OF safe_GetByID] safe_retM TrueI)+

lemma safe_applyMoveEntry:
  "node_ok E sp \<Longrightarrow> node_ok E dp \<Longrightarrow> valid_utf8 dst \<Longrightarrow> dst \<noteq> [] \<Longrightarrow> uuid_codec E \<Longrightarrow>
   safe E (applyMoveEntry E sp src dp dst) (\<lambda>(rs, p). both_ok E p)"
  unfolding applyMoveEntry_def
  by (rule safe_bindM [OF safe_captureOverwriteRef] safe_bindM [OF safe_wrapM [OF safe_MoveEntry]] safe_cases safe_retM
      | assumption | (clarsimp; fail))+

lemma safe_mvOne: "utf8_path dst \<Longrightarrow> uuid_codec E \<Longrightarrow> safe E (mvOne E d src dst) (\<lambda>_. True)"
  unfolding mvOne_def
  by (rule safe_bindM [OF safe_GetRootNodeID] safe_seqM [OF safe_cache(3)] safe_bindM [OF safe_wrapM [OF safe_resolvePath]]
      safe_cases safe_failM safe_bindM [OF safe_applyMoveEntry] safe_retM TrueI | assumption | (clarsimp; fail)
      | (rule safe_bindM [OF safe_wrapM [OF safe_resolveParent]], assumption) | rule safe_bindM [OF safe_wrapM [OF safe_resolveParent_any]])+

definition source_ok :: "env \<Rightarrow> src_info \<Rightarrow> bool" where
  "source_ok E si \<longleftrightarrow> node_ok E (si_parent si) \<and> valid_utf8 (si_name si) \<and> si_name si \<noteq> []"

lemma safe_mv_source:
  "utf8_path p \<Longrightarrow> list_all (source_ok E) ss \<Longrightarrow> safe E (mv_source E rootID p ss) (list_all (source_ok E))"
  unfolding mv_source_def
  by (rule safe_bindM [OF safe_wrapM [OF safe_resolvePath]] safe_bindM [OF safe_wrapM [OF safe_resolveParent]]
      safe_cases safe_failM safe_retM | assumption | (clarsimp simp: source_ok_def; fail))+

lemma safe_deref: "node_ok E n \<Longrightarrow> safe E (deref n) (node_ok E)"
  unfolding deref_def
  by (rule safe_bindM [OF safe_cache(1)] safe_retM | (auto simp: cached_ok_def split: option.splits; fail))+

lemma safe_assign_ptr: "node_ok E n \<Longrightarrow> safe E (assign_ptr n) (\<lambda>_. True)"
  unfolding assign_ptr_def by (rule safe_bindM [OF safe_cache(1)] safe_cache(2) cached_ok_upd | assumption)+

lemma safe_mv_apply:
  "node_ok E dp \<Longrightarrow> source_ok E si \<Longrightarrow> uuid_codec E \<Longrightarrow> safe E (mv_apply E dp si refs) (\<lambda>_. True)"
  unfolding mv_apply_def
  by (rule safe_bindM [OF safe_deref] safe_bindM [OF safe_applyMoveEntry] safe_cases safe_seq safe_assign_ptr safe_retM TrueI
      | assumption | (clarsimp simp: source_ok_def; fail))+

lemma safe_mvBatch:
  assumes "\<forall>p\<in>set srcs. utf8_path p" "uuid_codec E"
  shows "safe E (mvBatch E d srcs dst) (\<lambda>_. True)"
proof -
  have a: "safe E (foldM (mv_source E rootID) srcs []) (list_all (source_ok E))" for rootID
    using assms(1) by (intro safe_foldM safe_mv_source) auto
  have b: "safe E (foldM (mv_apply E dp) ss []) (\<lambda>_. True)" if "node_ok E dp" "list_all (source_ok E) ss" for dp ss
    using that assms(2) by (intro safe_foldM safe_mv_apply) (auto simp: list_all_iff)
  show ?thesis unfolding mvBatch_def Let_def
    by (rule safe_bindM [OF safe_GetRootNodeID] safe_seqM [OF safe_cache(3)] safe_bindM [OF safe_wrapM [OF safe_resolvePath]]
        safe_cases safe_failM safe_bindM [OF a] b | assumption)+
qed

lemma safe_Mv:
  assumes "\<forall>p\<in>set srcs. utf8_path p" "utf8_path dst" "uuid_codec E" "recorder_safe E gc"
  shows "safe E (Mv E gc d srcs d' dst) (\<lambda>_. True)"
proof -
  have "safe E (case srcs of [p] \<Rightarrow> mvOne E d p dst | _ \<Rightarrow> mvBatch E d srcs dst) (\<lambda>_. True)"
    using safe_mvBatch [OF assms(1,3)] safe_mvOne [OF assms(2,3)] by (auto split: list.splits)
  then show ?thesis unfolding Mv_def
    by (rule safe_cases(1) [OF safe_failM safe_with_tx [OF safe_bindM [OF _ safe_record_refs_opt [OF assms(4)]]]])
qed

section \<open>Drives\<close>

lemma db_ok_drive_tables:
  "db_ok E d \<Longrightarrow> drive_tables_ok (d\<lparr>t_drives := x, t_storages := y\<rparr>) \<Longrightarrow> db_ok E (d\<lparr>t_drives := x, t_storages := y\<rparr>)"
  by (simp add: db_ok_def nodes_ok_def ids_ok_def node_at_def tombs_ok_def user_table_ok_def users_ok_def)

lemma db_ok_drives:
  "db_ok E d \<Longrightarrow> drive_tables_ok (d\<lparr>t_drives := x\<rparr>) \<Longrightarrow> db_ok E (d\<lparr>t_drives := x\<rparr>)"
  using db_ok_drive_tables [where d = d and x = x and y = "t_storages d" and E = E] by simp

lemma db_ok_storages:
  "db_ok E d \<Longrightarrow> drive_tables_ok (d\<lparr>t_storages := y\<rparr>) \<Longrightarrow> db_ok E (d\<lparr>t_storages := y\<rparr>)"
  using db_ok_drive_tables [where d = d and x = "t_drives d" and y = y and E = E] by simp

lemma db_ok_new_drive:
  assumes "db_ok E d" "valid_drive_row r" "\<not> (\<exists>s\<in>set (t_drives d). ed_id s = ed_id r \<or> ed_public_id s = ed_public_id r)"
  shows "db_ok E (d\<lparr>t_drives := t_drives d @ [r]\<rparr>)"
  by (rule db_ok_drives [OF assms(1)]) (use assms in \<open>auto simp: db_ok_def drive_tables_ok_def drives_ok_def\<close>)

lemma db_ok_new_storage:
  assumes "db_ok E d" "valid_storage_row r"
    "\<not> ((\<exists>s\<in>set (t_storages d). es_drive_id s = es_drive_id r) \<or> \<not> (\<exists>s\<in>set (t_drives d). ed_id s = es_drive_id r))"
  shows "db_ok E (d\<lparr>t_storages := t_storages d @ [r]\<rparr>)"
proof (rule db_ok_storages [OF assms(1)])
  have "es_drive_id r \<in> ed_id ` set (t_drives d)" using assms(3) by force
  then show "drive_tables_ok (d\<lparr>t_storages := t_storages d @ [r]\<rparr>)"
    using assms by (auto simp: db_ok_def drive_tables_ok_def drives_ok_def)
qed

lemma safe_insert_drive: "safe E (insert_drive E x) (\<lambda>_. True)"
  unfolding insert_drive_def Let_def
  by (rule safe_draw_bind safe_ensure_seq safe_seqM [OF safe_draws(5)] safe_get_client_bind safe_cases safe_failM
      safe_put_client db_ok_new_drive | assumption | simp)+

lemma safe_insert_storage: "safe E (insert_storage E s x) (\<lambda>_. True)"
  unfolding insert_storage_def Let_def
  by (rule safe_ensure_seq safe_seqM [OF safe_draws(5)] safe_get_client_bind safe_cases safe_failM
      safe_put_client db_ok_new_storage | assumption | simp)+

lemma set_map_first: "set (map_first P f xs) \<subseteq> f ` set xs \<union> set xs"
  by (induction xs) auto

lemma db_ok_update_drive:
  assumes "db_ok E d" "\<And>r. ed_id (f r) = ed_id r" "\<And>r. ed_public_id (f r) = ed_public_id r"
    "\<And>r. valid_drive_row r \<Longrightarrow> valid_drive_row (f r)"
  shows "db_ok E (d\<lparr>t_drives := map_first P f (t_drives d)\<rparr>)"
proof (rule db_ok_drives [OF assms(1)])
  have d: "drive_tables_ok d" using assms(1) by (simp add: db_ok_def)
  have "list_all valid_drive_row (map_first P f (t_drives d))"
    using d set_map_first [of P f "t_drives d"] assms(4) by (auto simp: drive_tables_ok_def list_all_iff)
  moreover have "ed_id ` set (map_first P f (t_drives d)) = ed_id ` set (t_drives d)"
    using map_first_map [of ed_id f P "t_drives d"] assms(2) by (metis set_map)
  ultimately show "drive_tables_ok (d\<lparr>t_drives := map_first P f (t_drives d)\<rparr>)"
    using d assms(2,3) by (simp add: drive_tables_ok_def drives_ok_def map_first_map)
qed

lemma safe_update_one_drive:
  assumes "\<And>t r. ed_id (f t r) = ed_id r" "\<And>t r. ed_public_id (f t r) = ed_public_id r"
    "\<And>t r. v \<Longrightarrow> valid_drive_row r \<Longrightarrow> valid_drive_row (f t r)"
  shows "safe E (update_one_drive E i v f) (\<lambda>_. True)"
  unfolding update_one_drive_def
  by (rule safe_draw_bind safe_ensure_seq safe_seqM [OF safe_draws(5)] safe_seqM [OF safe_put_client] safe_get_client_bind
      safe_cases safe_failM db_ok_update_drive safe_retM TrueI assms | assumption)+

lemma drive_set_keeps:
  "ed_id (drive_set d t r) = ed_id r" "ed_public_id (drive_set d t r) = ed_public_id r"
  "length (d_name d) \<le> 64 \<and> length (case d_description d of None \<Rightarrow> [] | Some x \<Rightarrow> x) \<le> 255 \<Longrightarrow>
   valid_drive_row r \<Longrightarrow> valid_drive_row (drive_set d t r)"
  by (auto simp: drive_set_def valid_drive_row_def keep_none_def split: option.splits)

lemma safe_drepo_update: "safe E (drepo_update E d) (\<lambda>_. True)"
  unfolding drepo_update_def by (rule safe_wrapM safe_update_one_drive drive_set_keeps | assumption)+

lemma safe_drepo_mark:
  "safe E (drepo_soft_delete E i) (\<lambda>_. True)" "safe E (drepo_restore E i) (\<lambda>_. True)"
  unfolding drepo_soft_delete_def drepo_restore_def
  by (rule safe_draw_bind safe_wrapM safe_bindM [OF safe_update_one_drive] safe_retM TrueI | (simp add: valid_drive_row_def; fail))+

lemma safe_rand_bytes: "safe E (rand_bytes E k) (\<lambda>_. True)"
  unfolding rand_bytes_def by (auto simp: safe_def io_def split: option.splits)

lemma safe_Encrypt: "safe E (Encrypt E c x) (\<lambda>_. True)"
  unfolding Encrypt_def
  by (cases c) (auto intro!: safe_bindM [OF safe_wrapM [OF safe_rand_bytes]] safe_retM)

lemma safe_create_drive_tx: "safe E (create_drive_tx E c d s root) (\<lambda>_. True)"
  unfolding create_drive_tx_def drepo_create_def
  by (rule safe_seqM safe_wrapM safe_insert_drive safe_insert_storage safe_drepo_update safe_bindM [OF safe_wrapM [OF safe_Encrypt]])+

text \<open>A purge removes the storage row before the drive row it refers to.\<close>

lemma list_all_filter: "list_all P xs \<Longrightarrow> list_all P (filter Q xs)"
  by (simp add: list_all_iff)

lemma drive_tables_parts:
  "drive_tables_ok (d\<lparr>t_storages := y, t_drives := x\<rparr>) \<longleftrightarrow> distinct (map ed_id x) \<and> distinct (map ed_public_id x) \<and>
     list_all valid_drive_row x \<and> distinct (map es_drive_id y) \<and> list_all valid_storage_row y \<and> es_drive_id ` set y \<subseteq> ed_id ` set x"
  by (simp add: drive_tables_ok_def drives_ok_def)

lemma drive_tables_parts0:
  "drive_tables_ok d \<longleftrightarrow> distinct (map ed_id (t_drives d)) \<and> distinct (map ed_public_id (t_drives d)) \<and>
     list_all valid_drive_row (t_drives d) \<and> distinct (map es_drive_id (t_storages d)) \<and>
     list_all valid_storage_row (t_storages d) \<and> es_drive_id ` set (t_storages d) \<subseteq> ed_id ` set (t_drives d)"
  by (simp add: drive_tables_ok_def drives_ok_def)

lemma db_ok_filter_drives:
  assumes "db_ok E d" "es_drive_id ` set (filter P (t_storages d)) \<subseteq> ed_id ` set (filter Q (t_drives d))"
  shows "db_ok E (d\<lparr>t_storages := filter P (t_storages d), t_drives := filter Q (t_drives d)\<rparr>)"
proof -
  have "drive_tables_ok d" using assms(1) by (simp add: db_ok_def)
  then have "drive_tables_ok (d\<lparr>t_storages := filter P (t_storages d), t_drives := filter Q (t_drives d)\<rparr>)"
    unfolding drive_tables_parts drive_tables_parts0 [of d]
    by (intro conjI assms(2)) (blast intro: distinct_map_filter list_all_filter)+
  then show ?thesis using assms(1)
    by (simp add: db_ok_def nodes_ok_def ids_ok_def node_at_def tombs_ok_def user_table_ok_def users_ok_def)
qed

lemma db_ok_without_storage:
  assumes "db_ok E d"
  shows "db_ok E (d\<lparr>t_storages := filter P (t_storages d)\<rparr>)"
proof -
  have "es_drive_id ` set (t_storages d) \<subseteq> ed_id ` set (t_drives d)"
    using assms by (simp add: db_ok_def drive_tables_ok_def)
  then have "es_drive_id ` set (filter P (t_storages d)) \<subseteq> ed_id ` set (filter (\<lambda>_. True) (t_drives d))" by auto
  from db_ok_filter_drives [OF assms this] show ?thesis by simp
qed

lemma db_ok_without_drive:
  assumes "db_ok E d"
  shows "db_ok E (d\<lparr>t_storages := filter (\<lambda>r. es_drive_id r \<noteq> i) (t_storages d),
     t_drives := filter (\<lambda>r. ed_id r \<noteq> i) (t_drives d)\<rparr>)"
proof (rule db_ok_filter_drives [OF assms], rule subsetI)
  fix x assume "x \<in> es_drive_id ` set (filter (\<lambda>r. es_drive_id r \<noteq> i) (t_storages d))"
  then have "x \<noteq> i" "x \<in> es_drive_id ` set (t_storages d)" by auto
  moreover have "es_drive_id ` set (t_storages d) \<subseteq> ed_id ` set (t_drives d)"
    using assms by (simp add: db_ok_def drive_tables_ok_def)
  ultimately show "x \<in> ed_id ` set (filter (\<lambda>r. ed_id r \<noteq> i) (t_drives d))" by auto
qed

lemma world_ok_put_db: "world_ok E w \<Longrightarrow> db_ok E d \<Longrightarrow> world_ok E (put_db d w)"
  using safe_put_client [of E d] unfolding safe_def by simp

lemma safe_drepo_delete: "safe E (drepo_delete E i) (\<lambda>_. True)"
  unfolding safe_def
proof (intro allI impI)
  fix w r w' assume w: "world_ok E w" and d: "drepo_delete E i w = (r, w')"
  let ?s = "(client w)\<lparr>t_storages := filter (\<lambda>r. es_drive_id r \<noteq> i) (t_storages (client w))\<rparr>"
  have ok: "db_ok E (client w)" using w by (simp add: world_ok_def)
  have "world_ok E w'"
  proof (cases "io E w")
    case (Pair q w1)
    show ?thesis
    proof (cases q)
      case (Inl e)
      then show ?thesis using Pair d w io_Inl [of E w e w1] by (auto simp: drepo_delete_def seqM_def bindM_def wrapM_def)
    next
      case (Inr u)
      have w1: "world_ok E w1" "client w1 = client w" using Pair Inr w io_Inr [of E w u w1] by auto
      let ?w2 = "put_db ?s w1"
      have w2: "world_ok E ?w2" using w1 db_ok_without_storage [OF ok] by (intro world_ok_put_db)
      obtain q3 w3 where i3: "io E ?w2 = (q3, w3)" by fastforce
      have w3: "world_ok E w3" "client w3 = ?s" using i3 w2 io_Inr io_Inl by (cases q3; fastforce)+
      have "db_ok E (?s\<lparr>t_drives := filter (\<lambda>r. ed_id r \<noteq> i) (t_drives (client w))\<rparr>)"
        using db_ok_without_drive [OF ok, of i] by simp
      then show ?thesis using d Pair Inr w1(2) w2 i3 w3 world_ok_put_db [OF w3(1)]
        by (cases q3) (auto simp: drepo_delete_def seqM_def bindM_def wrapM_def split: if_splits)
    qed
  qed
  then show "world_ok E w' \<and> (\<forall>x. r = Inr x \<longrightarrow> True)" by simp
qed

end
