(* ===== verification/DirSize.thy ===== *)
theory DirSize
  imports Safe DemoTree
begin

text \<open>
  How much a directory can list. The listing is stored as JSON in the node's inline content,
  which is limited to \<open>MaxContentSize\<close> bytes, and every entry costs the text of a UUID, the
  name and 30 bytes of syntax.
\<close>

lemma byte_utf8_len: "utf8_len (a # s) \<le> Suc (length s)"
  using utf8_len_le [of "a # s"] by simp

lemma length_esc_ascii: "1 \<le> length (esc_ascii c)"
  by (simp add: esc_ascii_def)

lemma length_json_esc: "length s \<le> length (json_esc s)"
proof (induction s rule: json_esc.induct)
  case 1
  show ?case by simp
next
  case (2 a s)
  let ?n = "utf8_len (a # s)"
  show ?case
  proof (cases "byte_in 0 0x7F a")
    case True
    then show ?thesis using 2(1) length_esc_ascii [of a] by (simp add: json_esc.simps(2))
  next
    case False
    show ?thesis
    proof (cases "?n = 0")
      case True
      then show ?thesis using False 2(2) by (simp add: json_esc.simps(2) Let_def)
    next
      case n: False
      let ?r = "json_esc (drop (?n - 1) s)"
      have le: "?n \<le> Suc (length s)" by (rule byte_utf8_len)
      have "length (drop (?n - 1) s) \<le> length ?r" using 2(3) False n by simp
      then have ih: "Suc (length s) \<le> ?n + length ?r" using le n by simp
      have q: "length (take ?n (a # s)) = ?n" using le by simp
      have "?n \<le> 6" if "take ?n (a # s) = [x, y, z]" for x y z using that q by simp
      then show ?thesis using False n ih q by (force simp: json_esc.simps(2) Let_def)
    qed
  qed
qed

lemma length_json_elems:
  "length (json_elems vs) = (\<Sum>v\<leftarrow>vs. Suc (length (json_print v))) - 1"
proof (induction vs)
  case (Cons v vs)
  then show ?case by (cases vs) (simp_all add: json_elems.simps)
qed (simp add: json_elems.simps)

lemma length_dec_nat: "1 \<le> length (dec_nat n)"
  by (subst dec_nat.simps) simp

text \<open>The bytes of one entry, with the comma.\<close>

definition entry_size :: "env \<Rightarrow> dir_entry \<Rightarrow> nat" where
  "entry_size E e = 29 + length (json_esc (uuid_text E (de_ino e))) + length (json_esc (de_name e)) +
     length (dec_nat (unat (de_kind e)))"

lemma esc_keys:
  "json_quote ''ino'' = CHR 0x22 # ''ino'' @ [CHR 0x22]" "json_quote ''name'' = CHR 0x22 # ''name'' @ [CHR 0x22]"
  "json_quote ''kind'' = CHR 0x22 # ''kind'' @ [CHR 0x22]" "json_quote ''items'' = CHR 0x22 # ''items'' @ [CHR 0x22]"
  by (simp_all add: json_quote_def json_esc.simps(2) byte_in_def esc_ascii_def)

lemma length_entry: "Suc (length (json_print (entry_json E e))) = entry_size E e"
  by (simp add: entry_json_def json_print.simps json_members.simps esc_keys entry_size_def) (simp add: json_quote_def)

lemma length_dir_marshal:
  "length (dir_marshal E (Some es)) = 12 + ((\<Sum>e\<leftarrow>es. entry_size E e) - 1)"
  by (simp add: dir_marshal_def json_print.simps json_members.simps esc_keys length_json_elems length_entry comp_def)

lemma entry_size_min:
  "\<forall>u. L \<le> length (uuid_text E u) \<Longrightarrow> 30 + L + length (de_name e) \<le> entry_size E e"
proof -
  assume "\<forall>u. L \<le> length (uuid_text E u)"
  then have "L \<le> length (json_esc (uuid_text E (de_ino e)))" using length_json_esc le_trans by blast
  then show ?thesis using length_json_esc [of "de_name e"] length_dec_nat [of "unat (de_kind e)"]
    by (simp add: entry_size_def)
qed

lemma dir_marshal_min:
  assumes "\<forall>u. L \<le> length (uuid_text E u)"
  shows "11 + (\<Sum>e\<leftarrow>es. 30 + L + length (de_name e)) \<le> length (dir_marshal E (Some es))"
proof -
  have "(\<Sum>e\<leftarrow>es. 30 + L + length (de_name e)) \<le> (\<Sum>e\<leftarrow>es. entry_size E e)"
    by (rule sum_list_mono) (rule entry_size_min [OF assms])
  then show ?thesis by (simp add: length_dir_marshal)
qed

text \<open>
  C34. The capacity of a directory: the listing of a stored directory takes 11 bytes, and 30 bytes,
  a UUID text and the name for every entry, within the 4096 bytes of inline content; with the 36
  bytes of a UUID text that is at most 60 entries.
\<close>

theorem directory_capacity:
  assumes u: "\<forall>u. L \<le> length (uuid_text E u)" and n: "nodes_ok E d" "node_at d i = Some n" "is_dir n"
  shows "\<exists>dc. read_dir E n = Inr dc \<and> 11 + (\<Sum>e\<leftarrow>entries dc. 30 + L + length (de_name e)) \<le> MaxContentSize \<and>
    (L = 36 \<longrightarrow> length (entries dc) \<le> 60)"
proof -
  obtain r where r: "t_nodes d i = Some r" "n = fromEnt r" using n(2) by (auto simp: node_at_def)
  have "length (case en_content r of None \<Rightarrow> [] | Some c \<Rightarrow> c) \<le> 4096"
    using n(1) r(1) by (auto simp: nodes_ok_def valid_node_row_def)
  then have c: "length (case n_content n of None \<Rightarrow> [] | Some c \<Rightarrow> c) \<le> 4096"
    using r(2) by (simp add: fromEnt_def split: option.splits)
  have "node_ok E n" using n(1,2) by (auto simp: nodes_ok_def)
  then obtain dc where dc: "holds_dir E n dc" "names_distinct dc" using n(3) by (auto simp: node_ok_def dir_ok_def)
  have s: "11 + (\<Sum>e\<leftarrow>entries dc. 30 + L + length (de_name e)) \<le> 4096"
  proof (cases dc)
    case (Some es)
    then show ?thesis using c dc(1) dir_marshal_min [OF u, of es] by (simp add: holds_dir_def)
  qed simp
  have "length (entries dc) * (31 + L) = (\<Sum>e\<leftarrow>entries dc. 31 + L)" by (simp add: sum_list_triv)
  also have "\<dots> \<le> (\<Sum>e\<leftarrow>entries dc. 30 + L + length (de_name e))"
    using dc(2) by (intro sum_list_mono) (auto simp: names_distinct_def Suc_le_eq)
  finally have "length (entries dc) * (31 + L) \<le> 4085" using s by linarith
  then have "L = 36 \<Longrightarrow> length (entries dc) \<le> 60" by simp
  then show ?thesis using holds_dir_read [OF dc(1)] s by (auto simp: MaxContentSize_def)
qed

section \<open>A demonstration tree that satisfies the invariant\<close>

lemma tree_at_iff: "node_at tree_db i = Some n \<longleftrightarrow>
    (i, n) \<in> {(1, tree_root), (2, tree_link 2 ''/d''), (3, tree_sub), (4, tree_link 4 ''/l/t''), (5, tree_file 5),
      (6, tree_mount 6 ''d2''), (7, tree_file 7), (20, tree_root2), (21, tree_file 21)}"
proof
  assume a: "node_at tree_db i = Some n"
  then have "i \<in> {1, 2, 3, 4, 5, 6, 7, 20, 21}"
    by (auto simp: node_at_def tree_db_def empty_db_def split: if_splits)
  then show "(i, n) \<in> {(1, tree_root), (2, tree_link 2 ''/d''), (3, tree_sub), (4, tree_link 4 ''/l/t''), (5, tree_file 5),
      (6, tree_mount 6 ''d2''), (7, tree_file 7), (20, tree_root2), (21, tree_file 21)}"
    using a by (elim insertE) simp_all
qed auto

lemma tree_nodes_ok: "nodes_ok demo tree_db"
  unfolding nodes_ok_def
proof (intro conjI allI impI)
  show "ids_ok tree_db" by (rule tree_ids)
  fix i n assume "node_at tree_db i = Some n"
  then have "n \<in> {tree_root, tree_sub, tree_root2} \<or> n \<in> {tree_link 2 ''/d'', tree_link 4 ''/l/t'', tree_file 5,
      tree_mount 6 ''d2'', tree_file 7, tree_file 21}" using tree_at_iff by auto
  then show "node_ok demo n"
  proof
    assume "n \<in> {tree_root, tree_sub, tree_root2}"
    then obtain j es where "n = tree_dir j es" "names_ok es" "names_distinct (Some es)"
      by (auto simp: tree_root_def tree_sub_def tree_root2_def names_distinct_def)
    then show ?thesis using node_ok_listing [OF tree_dir_holds] by simp
  qed (auto intro!: node_ok_other)
next
  fix i r assume "t_nodes tree_db i = Some r"
  then show "valid_node_row r"
    by (auto simp: tree_db_def empty_db_def valid_node_row_def row_insert_def tree_root_def tree_sub_def tree_root2_def
        tree_dir_def tree_link_def tree_mount_def tree_file_def demo_node_def entKind_def encode_eval split: if_splits)
qed

theorem directory_capacity_witness:
  "\<exists>dc. read_dir demo tree_root = Inr dc \<and> 11 + (\<Sum>e\<leftarrow>entries dc. 31 + length (de_name e)) \<le> MaxContentSize"
  using directory_capacity [of 1 demo tree_db 1 tree_root] tree_nodes_ok length_dec_nat tree_kinds2 by auto

end
