(* ===== verification/VfsSpec.thy ===== *)
theory VfsSpec
  imports SafeVfs DirSize
begin

text \<open>
  What the operations of the virtual file system do: every one is atomic; the creating ones add
  exactly one entry to the directory that the path's parent part means, and one node; writing
  replaces the content of one file; unmounting removes one entry.
\<close>

section \<open>Atomicity\<close>

lemma atomic_then_ret2: "atomic m \<Longrightarrow> atomic (bindM m (\<lambda>(a, b). retM (f a b)))"
proof -
  have e: "(\<lambda>(a, b). retM (f a b)) = (\<lambda>x. retM (f (fst x) (snd x)))" by (simp add: fun_eq_iff)
  show "atomic m \<Longrightarrow> atomic (bindM m (\<lambda>(a, b). retM (f a b)))" unfolding e by (rule atomic_then_ret)
qed

lemma atomic_Save_op: "atomic (Save_op E n)"
  unfolding Save_op_def by (intro atomic_intros)

lemmas vfs_atomic = atomic_then_ret2 atomic_then_ret atomic_intros quiet_intros

lemma atomic_Mkdir: "atomic (Mkdir E d p)"
  unfolding Mkdir_def by (rule vfs_atomic | rule atomic_ops)+

lemma atomic_Touch: "atomic (Touch E d p)"
  unfolding Touch_def by (rule vfs_atomic | rule atomic_ops)+

lemma atomic_Symlink: "atomic (Symlink E d t p)"
  unfolding Symlink_def by (rule vfs_atomic | rule atomic_ops)+

lemma atomic_Hardlink: "atomic (Hardlink E d s p)"
  unfolding Hardlink_def Let_def by (rule vfs_atomic | rule atomic_ops)+

lemma atomic_WriteLarge: "atomic (WriteLarge E d p oc sz)"
  unfolding WriteLarge_def by (rule vfs_atomic | rule atomic_ops)+

lemma atomic_Write: "atomic (Write E d p s)"
  unfolding Write_def Let_def by (rule atomic_Save_op vfs_atomic | rule atomic_ops)+

lemma atomic_Mount: "atomic (Mount E d p s)"
  unfolding Mount_def by (rule vfs_atomic | rule atomic_ops)+

lemma atomic_Unmount: "atomic (Unmount E d p)"
  unfolding Unmount_def Let_def by (rule vfs_atomic | rule atomic_ops)+

text \<open>Removal and moves run inside one transaction; the recorder must join it.\<close>

definition recorder_joins :: "(garbage_ref list \<Rightarrow> unit W) option \<Rightarrow> bool" where
  "recorder_joins gc \<longleftrightarrow> (\<forall>g refs. gc = Some g \<longrightarrow> tx_safe (g refs))"

lemma recorder_joins_RecordGarbage: "recorder_joins (Some (RecordGarbage E))" "recorder_joins None"
  by (simp_all add: recorder_joins_def tombs.record_tx_safe)

lemma tx_safe_record_refs_opt: "recorder_joins gc \<Longrightarrow> tx_safe (record_refs_opt gc what d refs)"
  unfolding record_refs_opt_def
  by (intro txsafe_intros) (simp_all add: recorder_joins_def)

lemma tx_safe_resolvers [txsafe_intros]:
  "tx_safe newResolver" "tx_safe (resolvePath E r p f)" "tx_safe (resolveParent E r p)" "tx_safe (GetRootNodeID E d)"
  "tx_safe (get_cache)" "tx_safe (put_cache c)"
  by (intro tx_safe_quiet quiet_intros)+

lemma tx_safe_rm [txsafe_intros]: "tx_safe (rm E rootID n p)"
  unfolding rm_def by (intro txsafe_intros)

lemma tx_safe_rmRecursive [txsafe_intros]: "tx_safe (rmRecursive E rootID k n p)"
proof (induction k arbitrary: n p)
  case 0
  show ?case unfolding rmRecursive.simps by (intro txsafe_intros)
next
  case (Suc k)
  show ?case unfolding rmRecursive.simps by (intro txsafe_intros Suc.IH)
qed

lemma tx_safe_rmPath [txsafe_intros]: "tx_safe (rmPath E k rootID p rec)"
  unfolding rmPath_def Let_def by (intro txsafe_intros)

lemma tx_safe_moves [txsafe_intros]:
  "tx_safe (captureOverwriteRef E dp name)" "tx_safe (applyMoveEntry E sp s dp t)" "tx_safe (deref n)" "tx_safe (assign_ptr n)"
  unfolding captureOverwriteRef_def applyMoveEntry_def deref_def assign_ptr_def
  by (intro txsafe_intros)+

lemma tx_safe_mvs [txsafe_intros]: "tx_safe (mvOne E d s t)" "tx_safe (mvBatch E d ss t)"
  unfolding mvOne_def mvBatch_def mv_source_def mv_apply_def Let_def by (intro txsafe_intros)+

lemma atomic_Rm: "recorder_joins gc \<Longrightarrow> atomic (Rm E k gc d ps rec)"
  unfolding Rm_def by (intro with_tx_atomic txsafe_intros tx_safe_record_refs_opt)

lemma atomic_Mv: "recorder_joins gc \<Longrightarrow> atomic (Mv E gc d ss d' t)"
proof -
  assume "recorder_joins gc"
  moreover have "tx_safe (case ss of [p] \<Rightarrow> mvOne E d p t | _ \<Rightarrow> mvBatch E d ss t)"
    by (auto intro: tx_safe_mvs split: list.splits)
  ultimately show ?thesis unfolding Mv_def
    by (intro atomic_cases(1) atomic_basic with_tx_atomic tx_safe_bindM tx_safe_record_refs_opt)
qed

section \<open>Parents\<close>

lemma descends_stored: "descends E d follow n cs k \<Longrightarrow> \<exists>i. node_at d i = Some n \<Longrightarrow> \<exists>i. node_at d i = Some k"
  by (induction rule: descends.induct) (auto simp: entry_at_lookup)

lemma resolves_stored: "resolves E d root follow p ls r \<Longrightarrow> \<exists>i. node_at d i = Some (wr_node r)"
proof (induction rule: resolves_induct)
  case (resolves_node root p n)
  then show ?case using descends_stored by fastforce
next
  case (resolves_mount root p cs c rest dir m)
  then show ?case by (auto simp: entry_at_lookup)
next
  case (resolves_link root p cs c rest dir m target ls r)
  then show ?case by simp
qed

lemma parent_stored:
  assumes "ids_ok d" "parent_of E d root p dir name"
  shows "node_at d (n_id dir) = Some dir" "name \<noteq> []"
proof -
  obtain i where "node_at d i = Some dir" using assms(2) resolves_stored by (fastforce simp: parent_of_def)
  then show "node_at d (n_id dir) = Some dir" using node_at_id [OF assms(1)] by auto
  show "name \<noteq> []" using assms(2) by (auto simp: parent_of_def plain_def)
qed

lemma resolveEditableParent_Inr:
  assumes "w_tx w = None" "resolveEditableParent E d p w = (Inr (dir, name), w')"
  obtains root where "drive_root (w_db w) d root" "parent_of E (w_db w) root p dir name" "is_dir dir" "same_store w' w"
proof -
  obtain root w1 where g: "GetRootNodeID E d w = (Inr root, w1)"
    and r: "resolveParent E root p (w1\<lparr>w_cache := Map.empty\<rparr>) = (Inr (dir, name), w')" "is_dir dir"
    using assms(2) by (auto simp: resolveEditableParent_def bindM_Inr_iff seqM_Inr_iff split: if_splits)
  have s: "same_store w1 w" "drive_root (w_db w) d root" using GetRootNodeID_Inr [OF g] assms(1) by (simp_all add: client_no_tx)
  note q = resolveParent_Inr [OF cache_ok_empty r(1)]
  have "w_db w1 = w_db w" using s(1) by (simp add: same_store_def)
  then show thesis using that [OF s(2)] q(1) r(2) same_store_trans [OF q(3)] s(1) by (simp add: same_store_def)
qed

lemma resolveParent_finds:
  assumes "no_faults E" "cache_ok w" "parent_of E (w_db w) root p dir name"
  obtains w' where "resolveParent E root p w = (Inr (dir, name), w')" "cache_ok w'" "same_store w' w"
proof -
  obtain cs ls r where c: "splitPath (cleanPath p) = cs @ [name]" "plain name"
    "resolves E (w_db w) root True (CHR ''/'' # joinParts cs) ls r" "links_fit ls []" "dir = wr_node r"
    using assms(3) by (auto simp: parent_of_def)
  obtain w' where w': "resolvePath E root (CHR ''/'' # joinParts cs) True w = (Inr r, w')"
    using resolve_complete [OF assms(1) c(3) assms(2) refl, of "[]"] c(4) by (auto simp: resolvePath_def)
  have "cleanPath [] = ''/''" by (simp add: cleanPath_def trim_space_def Let_def)
  then have "splitPath (cleanPath []) = []" using clean_root_iff by blast
  then have "p \<noteq> []" using c(1) by (cases "p = []") simp_all
  then have "resolveParent E root p w = (Inr (dir, name), w')"
    using w' c split_last_cleanPath [OF c(1)] by (simp add: resolveParent_def plain_def)
  then show thesis using that resolvePath_Inr [OF assms(2) w'] by blast
qed

lemma resolveEditableParent_finds:
  assumes "no_faults E" "w_tx w = None" "drives_ok (w_db w)" "drive_root (w_db w) d root" "root \<noteq> uuid_Nil"
    "parent_of E (w_db w) root p dir name" "is_dir dir"
  obtains w' where "resolveEditableParent E d p w = (Inr (dir, name), w')" "same_store w' w"
proof -
  let ?w1 = "w\<lparr>w_tick := Suc (w_tick w)\<rparr>"
  let ?w2 = "?w1\<lparr>w_cache := Map.empty\<rparr>"
  have g: "GetRootNodeID E d w = (Inr root, ?w1)"
    using assms by (intro GetRootNodeID_finds) (simp_all add: client_no_tx)
  have "parent_of E (w_db ?w2) root p dir name" using assms(6) by simp
  then obtain w' where w': "resolveParent E root p ?w2 = (Inr (dir, name), w')" "same_store w' ?w2"
    using resolveParent_finds [OF assms(1) cache_ok_empty] by metis
  then have "resolveEditableParent E d p w = (Inr (dir, name), w')"
    using g assms(5,7) by (simp add: resolveEditableParent_def)
  moreover have "same_store w' w" using w'(2) by (simp add: same_store_def)
  ultimately show thesis using that by blast
qed

section \<open>Creation\<close>

text \<open>
  \<open>added d root p n d'\<close>: \<open>d'\<close> is \<open>d\<close> with the new node \<open>n\<close>, as it is stored, and one more entry for it, at the end of
  the directory that the parent part of \<open>p\<close> leads to, under a name that was free. No other table differs.
\<close>

definition added :: "env \<Rightarrow> db \<Rightarrow> uuid \<Rightarrow> string \<Rightarrow> node \<Rightarrow> db \<Rightarrow> bool" where
  "added E d root p n d' \<longleftrightarrow>
     (\<exists>dir name dc dir'. parent_of E d root p dir name \<and> holds_dir E dir dc \<and> find_entry dc name = None \<and>
        n_id dir' = n_id dir \<and> holds_dir E dir' (Some (entries dc @ [entry_of name n])) \<and>
        node_at d (n_id n) = None \<and> node_at d' = (node_at d)(n_id dir \<mapsto> dir', n_id n \<mapsto> stored None n) \<and>
        d' = d\<lparr>t_nodes := t_nodes d'\<rparr>)"

text \<open>The node made by a creation at a path of a drive: kind, content, size and one link.\<close>

definition created ::
  "env \<Rightarrow> string \<Rightarrow> string \<Rightarrow> node_kind \<Rightarrow> string \<Rightarrow> int \<Rightarrow> world \<Rightarrow> node \<Rightarrow> world \<Rightarrow> bool" where
  "created E d p k c sz w n w' \<longleftrightarrow>
     (\<exists>root. drive_root (w_db w) d root \<and> added E (w_db w) root p n (w_db w')) \<and> w_tx w' = None \<and>
     n_kind n = k \<and> n_content n = Some c \<and> n_size n = sz \<and> n_nlink n = 1"

text \<open>Every row has a revision, since no ULID is empty.\<close>

definition revised :: "env \<Rightarrow> db \<Rightarrow> bool" where
  "revised E d \<longleftrightarrow> (\<forall>k. ulid_gen E k \<noteq> []) \<and> (\<forall>i r. t_nodes d i = Some r \<longrightarrow> en_revision r \<noteq> [])"

lemma current_new:
  assumes "revised E d" "current d n" "n_stale n = []"
  shows "node_at d (n_id n) = None"
  using assms by (auto simp: revised_def current_def node_at_def split: option.splits)

lemma AddEntry_rev:
  assumes "holds_dir E p dc" "AddEntry E name c p w = (Inr p1, w1)"
  obtains k where "n_rev p1 = ulid_gen E k"
  using assms by (auto simp: AddEntry_Inr_iff WriteDir_def node_write_run Let_def split: if_splits)

lemma current_set_self: "current (set_node p d) c \<Longrightarrow> n_id p = n_id c \<Longrightarrow> n_rev p = n_stale c"
  by (auto simp: current_def set_node_def row_insert_def row_update_def split: option.splits)

lemma Link_new:
  assumes w: "w_tx w = None" "nodes_ok E (w_db w)" "revised E (w_db w)"
    and p: "holds_dir E p dc" "valid_utf8 name" and n: "fresh_node k c sz n" "k \<le> 4"
    and l: "Link E (Some p) name (Some n) w = (Inr (p', n'), w')"
  shows "find_entry dc name = None \<and> node_at (w_db w) (n_id n) = None \<and> w_tx w' = None \<and> n_id n' = n_id n \<and>
    n_kind n' = k \<and> n_content n' = Some c \<and> n_size n' = sz \<and> n_nlink n' = 1 \<and>
    w_db w' = (w_db w)\<lparr>t_nodes := t_nodes (w_db w')\<rparr> \<and>
    (\<exists>dir'. n_id dir' = n_id p \<and> holds_dir E dir' (Some (entries dc @ [entry_of name n])) \<and>
      node_at (w_db w') = (node_at (w_db w))(n_id p \<mapsto> dir', n_id n \<mapsto> stored None n'))"
proof -
  have id: "ids_ok (w_db w)" using w(2) by (simp add: nodes_ok_def)
  have f: "n_kind n = k" "n_content n = Some c" "n_size n = sz" "n_nlink n = 0" "n_stale n = []"
    using n(1) by (simp_all add: fresh_node_def)
  have "with_tx E (link_body E p name n) w = (Inr (p', n'), w')" using l by (simp add: Link_def)
  then obtain v v' where b: "link_body E p name n v = (Inr (p', n'), v')" "client v = w_db w" "w_tx w' = None" "w_db w' = client v'"
    by (rule committed_body [OF tx_safe_link_body w(1)])
  obtain p1 w1 now r where a: "AddEntry E name n p v = (Inr p1, w1)" "p' = p1\<lparr>n_stale := n_rev p1\<rparr>"
    "n' = (relinked (n_nlink n + 1) now r n)\<lparr>n_stale := r\<rparr>" "current (set_node p' (client v)) n"
    and cl: "client v' = set_node n' (set_node p' (client v))"
    by (rule link_body_Inr [OF b(1)])
  have i: "n_id p' = n_id p" using AddEntry_holds [OF p a(1)] a(2) by simp
  obtain j where "n_rev p1 = ulid_gen E j" by (rule AddEntry_rev [OF p(1) a(1)])
  then have "n_rev p' \<noteq> []" using a(2) w(3) by (simp add: revised_def)
  then have ne: "n_id p \<noteq> n_id n" using current_set_self [OF a(4)] i f(5) by auto
  have "current (w_db w) n" using a(4) i ne b(2) by (simp add: current_set_other)
  then have fresh: "node_at (w_db w) (n_id n) = None" using current_new [OF w(3)] f(5) by blast
  note h = Link_Inr [OF w(1) id p ne l]
  have "w_db w' = (w_db w)\<lparr>t_nodes := t_nodes (w_db w')\<rparr>" using b(2,4) cl by (simp add: set_node_def)
  then show ?thesis using h fresh b(3) a(3) f i
    by (auto simp: relinked_def intro!: exI [of _ "stored (node_at (w_db w) (n_id p)) p'"] holds_dir_stored)
qed

lemma create_at:
  assumes w: "w_tx w = None" "nodes_ok E (w_db w)" "revised E (w_db w)" "utf8_path p"
    and r: "resolveEditableParent E d p w = (Inr (dir, name), w1)" "new w1 = (Inr n, w2)" "quiet new"
    and n: "fresh_node k c sz n" "k \<le> 4" and l: "Link E (Some dir) name (Some n) w2 = (Inr (dir1, n1), w')"
  shows "created E d p k c sz w n1 w'"
proof -
  obtain root where pr: "drive_root (w_db w) d root" "parent_of E (w_db w) root p dir name" "is_dir dir" "same_store w1 w"
    by (rule resolveEditableParent_Inr [OF w(1) r(1)])
  have s: "w_db w2 = w_db w" "w_tx w2 = None"
    using quietD [OF r(3,2)] pr(4) w(1) by (simp_all add: same_store_def)
  have id: "ids_ok (w_db w)" using w(2) by (simp add: nodes_ok_def)
  have "node_ok E dir" using parent_stored(1) [OF id pr(2)] w(2) by (auto simp: nodes_ok_def)
  then obtain dc where dc: "holds_dir E dir dc" using pr(3) by (auto simp: node_ok_def dir_ok_def)
  have v: "valid_utf8 name" using pr(2) w(4) by (auto simp: parent_of_def utf8_path_def)
  have "nodes_ok E (w_db w2)" "revised E (w_db w2)" using w s by simp_all
  note L = Link_new [OF s(2) this dc v n l]
  then obtain dir' where dir': "n_id dir' = n_id dir" "holds_dir E dir' (Some (entries dc @ [entry_of name n]))"
    "node_at (w_db w') = (node_at (w_db w))(n_id dir \<mapsto> dir', n_id n \<mapsto> stored None n1)" using s by auto
  have "n_kind n = k" using n(1) by (simp add: fresh_node_def)
  then have "entry_of name n1 = entry_of name n" using L by (simp add: entry_of_def)
  then have "added E (w_db w) root p n1 (w_db w')"
    unfolding added_def using pr(2) dc dir' L s
    by (intro exI [of _ dir] exI [of _ name] exI [of _ dc] exI [of _ dir']) simp
  then show ?thesis using L pr(1) by (auto simp: created_def)
qed

text \<open>The three calls every creation is made of.\<close>

definition create_run :: "env \<Rightarrow> string \<Rightarrow> string \<Rightarrow> node W \<Rightarrow> world \<Rightarrow> node \<Rightarrow> world \<Rightarrow> bool" where
  "create_run E d p new w n w' \<longleftrightarrow>
     (\<exists>dir name w1 m w2 dir1. resolveEditableParent E d p w = (Inr (dir, name), w1) \<and> new w1 = (Inr m, w2) \<and>
        Link E (Some dir) name (Some m) w2 = (Inr (dir1, n), w'))"

lemma create_run_created:
  assumes "create_run E d p new w n w'" "w_tx w = None" "nodes_ok E (w_db w)" "revised E (w_db w)" "utf8_path p"
    and "quiet new" "\<And>v n v'. new v = (Inr n, v') \<Longrightarrow> fresh_node k c sz n" "k \<le> 4"
  shows "created E d p k c sz w n w'"
  using create_at assms unfolding create_run_def by metis

lemma create_runs:
  "Mkdir E d p w = (Inr n, w') \<Longrightarrow> create_run E d p (NewDirectory E) w n w'"
  "Touch E d p w = (Inr n, w') \<Longrightarrow> create_run E d p (NewFile E []) w n w'"
  "Symlink E d t p w = (Inr n, w') \<Longrightarrow> create_run E d p (NewSymlink E t) w n w'"
  "WriteLarge E d p oc sz w = (Inr (), w') \<Longrightarrow> \<exists>m. create_run E d p (NewObject E oc sz) w m w'"
  by (auto simp: create_run_def Mkdir_def Touch_def Symlink_def WriteLarge_def bindM_Inr_iff wrapM_Inr_iff)

lemma quiet_DriveGetByID: "quiet (DriveGetByID E d)"
  by (intro quiet_intros)

lemma create_run_Mount:
  assumes "Mount E d p src w = (Inr (), w')"
  shows "d \<noteq> src \<and> (\<exists>m v. same_store v w \<and> create_run E d p (NewMount E src) v m w')"
  using assms quietD [OF quiet_DriveGetByID]
  by (fastforce simp: create_run_def Mount_def bindM_Inr_iff wrapM_Inr_iff split: if_splits)

lemma NewDirectory_fresh: "NewDirectory E v = (Inr n, v') \<Longrightarrow> fresh_node NodeKindDirectory (dir_marshal E None) 0 n"
  unfolding NewDirectory_def by (rule new_then_write_Inr)

lemma NewFile_fresh: "NewFile E raw v = (Inr n, v') \<Longrightarrow> fresh_node NodeKindFile (file_marshal raw) (int (length raw)) n"
  unfolding NewFile_def by (rule newInlineNode_Inr)

lemma NewSymlink_fresh:
  "NewSymlink E t v = (Inr n, v') \<Longrightarrow> fresh_node NodeKindSymlink (symlink_marshal t) (int (length t)) n"
  unfolding NewSymlink_def by (auto split: if_splits dest: newInlineNode_Inr)

lemma NewMount_fresh: "NewMount E s v = (Inr n, v') \<Longrightarrow> fresh_node NodeKindMount (mount_marshal s) 0 n"
  unfolding NewMount_def by (auto split: if_splits dest: newInlineNode_Inr)

lemma NewObject_fresh: "NewObject E oc sz v = (Inr n, v') \<Longrightarrow> fresh_node NodeKindObject (object_marshal oc) sz n"
  unfolding NewObject_def by (auto split: if_splits dest: newInlineNode_Inr)

text \<open>
  C9. Every operation of the file service is atomic: outside a transaction, an error of any of
  them leaves the database exactly as it was, and no transaction stays open. For \<open>Rm\<close> and
  \<open>Mv\<close> this includes the errors of the garbage recorder, which joins their transaction.
\<close>

theorem vfs_operations_atomic:
  assumes "w_tx w = None"
  shows "rolls_back (Mkdir E d p) w \<and> rolls_back (Touch E d p) w \<and> rolls_back (Symlink E d t p) w \<and>
    rolls_back (Hardlink E d t p) w \<and> rolls_back (Write E d p s) w \<and> rolls_back (WriteLarge E d p oc sz) w \<and>
    rolls_back (Mount E d p t) w \<and> rolls_back (Unmount E d p) w \<and>
    rolls_back (Rm E k (Some (RecordGarbage E)) d ps rec) w \<and> rolls_back (Mv E (Some (RecordGarbage E)) d ps t p) w"
  by (intro conjI atomic_rolls_back assms atomic_Mkdir atomic_Touch atomic_Symlink atomic_Hardlink atomic_Write
      atomic_WriteLarge atomic_Mount atomic_Unmount atomic_Rm atomic_Mv recorder_joins_RecordGarbage)

text \<open>
  C13. A creation that succeeds makes exactly one node, of the kind and with the content asked for
  and one link, and lists it once more, under a name that was free, at the end of the directory
  the path's parent part leads to; every other node keeps its value and every other table is as it was. An identifier
  that is already in use makes the creation fail, as every row has a revision. So \<open>Touch\<close> of an existing file
  fails, though the document (api/endpoints/fs.yaml) says that it updates the file's mtime.
\<close>

theorem vfs_creations:
  assumes w: "w_tx w = None" "nodes_ok E (w_db w)" "revised E (w_db w)" "utf8_path p"
  shows "(Mkdir E d p w = (Inr n, w') \<longrightarrow> created E d p NodeKindDirectory (dir_marshal E None) 0 w n w') \<and>
    (Touch E d p w = (Inr n, w') \<longrightarrow> created E d p NodeKindFile (file_marshal []) 0 w n w') \<and>
    (Symlink E d t p w = (Inr n, w') \<longrightarrow> created E d p NodeKindSymlink (symlink_marshal t) (int (length t)) w n w') \<and>
    (WriteLarge E d p oc sz w = (Inr (), w') \<longrightarrow> (\<exists>m. created E d p NodeKindObject (object_marshal oc) sz w m w')) \<and>
    (Mount E d p src w = (Inr (), w') \<longrightarrow> d \<noteq> src \<and> (\<exists>m. created E d p NodeKindMount (mount_marshal src) 0 w m w'))"
proof (intro conjI impI)
  note made = create_run_created [OF _ w]
  show "created E d p NodeKindDirectory (dir_marshal E None) 0 w n w'" if "Mkdir E d p w = (Inr n, w')"
    by (rule made [OF create_runs(1) [OF that] _ NewDirectory_fresh]) (auto intro: quiet_intros)
  show "created E d p NodeKindFile (file_marshal []) 0 w n w'" if "Touch E d p w = (Inr n, w')"
    by (rule made [OF create_runs(2) [OF that] _ NewFile_fresh [of _ "[]", simplified]]) (auto intro: quiet_intros)
  show "created E d p NodeKindSymlink (symlink_marshal t) (int (length t)) w n w'" if "Symlink E d t p w = (Inr n, w')"
    by (rule made [OF create_runs(3) [OF that] _ NewSymlink_fresh]) (auto intro: quiet_intros)
  show "\<exists>m. created E d p NodeKindObject (object_marshal oc) sz w m w'" if l: "WriteLarge E d p oc sz w = (Inr (), w')"
  proof -
    obtain m where "create_run E d p (NewObject E oc sz) w m w'" using create_runs(4) [OF l] by blast
    then have "created E d p NodeKindObject (object_marshal oc) sz w m w'"
      by (rule made [OF _ _ NewObject_fresh]) (auto intro: quiet_intros)
    then show ?thesis by blast
  qed
next
  assume m: "Mount E d p src w = (Inr (), w')"
  then show "d \<noteq> src" using create_run_Mount by blast
  obtain n v where v: "same_store v w" "create_run E d p (NewMount E src) v n w'" using create_run_Mount [OF m] by blast
  then have "created E d p NodeKindMount (mount_marshal src) 0 v n w'"
    using w by (intro create_run_created [OF _ _ _ _ _ _ NewMount_fresh]) (auto simp: same_store_def intro: quiet_intros)
  then show "\<exists>m. created E d p NodeKindMount (mount_marshal src) 0 w m w'"
    using v(1) by (auto simp: created_def same_store_def)
qed

section \<open>When a creation succeeds\<close>

lemma NewDirectory_succeeds:
  obtains k n w' where "NewDirectory E w = (Inr n, w')" "n_id n = uuid_gen E k"
    "fresh_node NodeKindDirectory (dir_marshal E None) 0 n"
proof -
  have "length (dir_marshal E None) \<le> MaxContentSize"
    by (simp add: dir_marshal_def json_print.simps json_members.simps esc_keys MaxContentSize_def)
  then obtain n w' where n: "NewDirectory E w = (Inr n, w')" "n_id n = uuid_gen E (Suc (w_tick w))"
    by (auto simp: NewDirectory_def newNode_run node_write_run)
  show thesis by (rule that [OF n NewDirectory_fresh [OF n(1)]])
qed

lemma current_stored: "node_at d (n_id n) = Some n \<Longrightarrow> current d n"
  by (auto simp: node_at_def current_def fromEnt_def)

lemma Mkdir_finds:
  assumes e: "no_faults E" "ulids_ok E" "\<forall>k. node_at (w_db w) (uuid_gen E k) = None"
    and w: "w_tx w = None" "nodes_ok E (w_db w)" "drives_ok (w_db w)"
    and p: "drive_root (w_db w) d root" "root \<noteq> uuid_Nil" "parent_of E (w_db w) root p dir name"
    and n: "holds_dir E dir dc" "find_entry dc name = None"
      "\<forall>k. length (dir_marshal E (Some (entries dc @
        [\<lparr>de_ino = uuid_gen E k, de_name = name, de_kind = NodeKindDirectory\<rparr>]))) \<le> MaxContentSize"
  shows "\<exists>n w'. Mkdir E d p w = (Inr n, w')"
proof -
  have id: "ids_ok (w_db w)" using w(2) by (simp add: nodes_ok_def)
  note st = parent_stored [OF id p(3)]
  have "is_dir dir" using n(1) by (simp add: holds_dir_def is_dir_def)
  then obtain w1 where w1: "resolveEditableParent E d p w = (Inr (dir, name), w1)" "same_store w1 w"
    using resolveEditableParent_finds [OF e(1) w(1,3) p] by blast
  obtain k c w2 where c: "NewDirectory E w1 = (Inr c, w2)" "n_id c = uuid_gen E k"
    "fresh_node NodeKindDirectory (dir_marshal E None) 0 c" by (rule NewDirectory_succeeds)
  have "quiet (NewDirectory E)" by (intro quiet_intros)
  then have "same_store w2 w1" using c(1) by (rule quietD)
  then have s: "w_db w2 = w_db w" "w_tx w2 = None" using w1(2) w(1) by (simp_all add: same_store_def)
  have fresh: "node_at (w_db w) (n_id c) = None" using e(3) c(2) by simp
  then have cc: "current (w_db w2) c" using s by (simp add: node_at_def current_def)
  have ne: "n_id dir \<noteq> n_id c" using st(1) fresh by auto
  have "entry_of name c = \<lparr>de_ino = uuid_gen E k, de_name = name, de_kind = NodeKindDirectory\<rparr>"
    using c(2,3) by (simp add: entry_of_def fresh_node_def)
  then have fits: "length (dir_marshal E (Some (entries dc @ [entry_of name c]))) \<le> MaxContentSize" using n(3) by simp
  have cd: "current (w_db w2) dir" using current_stored [OF st(1)] s by simp
  obtain r w' where "Link E (Some dir) name (Some c) w2 = (Inr r, w')"
    using Link_succeeds [OF e(1,2) s(2) n(1) cd fresh_node_content_ok [OF c(3)] cc ne st(2) n(2) fits] by blast
  then show ?thesis using w1(1) c(1) by (cases r) (auto simp: Mkdir_def)
qed

text \<open>In the demonstration tree: a new name, and one that is taken.\<close>

lemma tree_parents:
  "splitPath (cleanPath ''/n'') = [''n'']" "splitPath (cleanPath ''/'') = []" "utf8_path ''/n''"
  "parent_of demo tree_db 1 ''/n'' tree_root ''n''" "parent_of demo tree_db 1 ''/f'' tree_root ''f''"
proof -
  show s: "splitPath (cleanPath ''/n'') = [''n'']" "splitPath (cleanPath ''/'') = []"
    by (simp_all add: splitPath_cleanPath clean_parts_def trim_space_def space_seqs_def has_prefix_def upt_rec)
  show "utf8_path ''/n''" using s by (simp add: utf8_path_def ascii_valid byte_in_def)
  have "resolves demo tree_db 1 True ''/'' [] \<lparr>wr_node = tree_root, wr_remaining = []\<rparr>"
    by (rule resolves_node [OF tree_at(1)]) (simp add: s descends_here)
  then have "resolves demo tree_db 1 True (CHR ''/'' # joinParts []) [] \<lparr>wr_node = tree_root, wr_remaining = []\<rparr>"
    by (simp add: joinParts_def)
  then show "parent_of demo tree_db 1 ''/n'' tree_root ''n''" "parent_of demo tree_db 1 ''/f'' tree_root ''f''"
    using s tree_splits(8) unfolding parent_of_def by (fastforce simp: plain_def links_fit_def)+
qed

definition tree_list :: "dir_entry list" where
  "tree_list = [\<lparr>de_ino = 2, de_name = ''l'', de_kind = NodeKindSymlink\<rparr>,
     \<lparr>de_ino = 3, de_name = ''d'', de_kind = NodeKindDirectory\<rparr>, \<lparr>de_ino = 6, de_name = ''m'', de_kind = NodeKindMount\<rparr>,
     \<lparr>de_ino = 7, de_name = ''f'', de_kind = NodeKindFile\<rparr>]"

lemma tree_root_holds: "holds_dir demo tree_root (Some tree_list)"
  unfolding tree_root_def tree_list_def by (rule tree_dir_holds) simp

lemma digit_neq: "is_digit c \<Longrightarrow> \<not> is_digit d \<Longrightarrow> c \<noteq> d"
  by auto

lemma not_digits:
  "\<not> is_digit CHR 0x5C" "\<not> is_digit CHR 0x22" "\<not> is_digit CHR 0x08" "\<not> is_digit CHR 0x0C" "\<not> is_digit CHR 0x0A"
  "\<not> is_digit CHR 0x0D" "\<not> is_digit CHR 0x09" "\<not> is_digit CHR ''<''" "\<not> is_digit CHR ''>''" "\<not> is_digit CHR ''&''"
  by (simp_all add: is_digit_def byte_in_def)

lemma esc_digit: "is_digit c \<Longrightarrow> esc_ascii c = [c] \<and> byte_in 0 0x7F c"
proof -
  assume d: "is_digit c"
  then have "\<not> byte_in 0 0x1F c" "byte_in 0 0x7F c" by (simp_all add: is_digit_def byte_in_def)
  then show ?thesis unfolding esc_ascii_def using not_digits [THEN digit_neq [OF d]] by (simp only: if_False simp_thms)
qed

lemma json_esc_digits: "\<forall>c\<in>set s. is_digit c \<Longrightarrow> json_esc s = s"
proof (induction s)
  case (Cons c s)
  then show ?case using esc_digit [of c] by (simp add: json_esc.simps(2))
qed simp

lemma length_dec_nat_Suc:
  assumes "\<forall>m<b. length (dec_nat m) \<le> k" "1 \<le> k" "n < 10 * b"
  shows "length (dec_nat n) \<le> Suc k"
proof (cases "n < 10")
  case True
  then show ?thesis by (simp add: dec_nat_digit)
next
  case False
  have "n div 10 < b" using assms(3) by (simp add: less_mult_imp_div_less mult.commute)
  then have "length (dec_nat (n div 10)) \<le> k" using assms(1) by blast
  then show ?thesis using dec_nat_two [OF False] by simp
qed

lemma length_dec_nat3: "n < 1000 \<Longrightarrow> length (dec_nat n) \<le> 3"
proof -
  have "\<forall>m<10. length (dec_nat m) \<le> 1" by (simp add: dec_nat_digit)
  then have "\<forall>m<100. length (dec_nat m) \<le> 2" using length_dec_nat_Suc [of 10 1] by (simp add: numeral_2_eq_2)
  then show "n < 1000 \<Longrightarrow> length (dec_nat n) \<le> 3" using length_dec_nat_Suc [of 100 2 n] by (simp add: numeral_3_eq_3 numeral_2_eq_2)
qed

lemma unat_small: "n < 1000 \<Longrightarrow> unat (of_nat n :: uuid) = n"
  by (simp add: unsigned_of_nat take_bit_nat_eq_self_iff)

lemma demo_uuid_nat: "unat (uuid_gen demo k) = 100 + k mod 900"
  unfolding demo_simps by (rule unat_small) (use mod_less_divisor [of 900 k] in linarith)

lemma demo_uuid_digits: "length (json_esc (uuid_text demo (uuid_gen demo k))) \<le> 3"
proof -
  have "100 + k mod 900 < 1000" using mod_less_divisor [of 900 k] by linarith
  then have "length (dec_nat (unat (uuid_gen demo k))) \<le> 3" unfolding demo_uuid_nat by (rule length_dec_nat3)
  then show ?thesis using json_esc_digits [OF dec_nat_digits] by (simp only: demo_simps(1))
qed

lemma tree_fits:
  "length (dir_marshal demo (Some (entries (Some tree_list) @
     [\<lparr>de_ino = uuid_gen demo k, de_name = ''n'', de_kind = NodeKindDirectory\<rparr>]))) \<le> MaxContentSize"
  using demo_uuid_digits [of k]
  by (simp add: length_dir_marshal tree_list_def entry_size_def json_esc_digits dec_nat_digits dec_nat_digit
      json_esc.simps(2) byte_in_def esc_ascii_def MaxContentSize_def del: demo_simps(2))

lemma tree_above: "100 \<le> unat x \<Longrightarrow> node_at tree_db x = None"
  by (auto simp: node_at_def tree_db_def empty_db_def)

lemma tree_fresh: "node_at tree_db (uuid_gen demo k) = None"
  by (rule tree_above) (simp only: demo_uuid_nat le_add1)

lemma tree_revised: "revised demo tree_db"
  unfolding revised_def
proof (intro conjI allI impI)
  show "ulid_gen demo k \<noteq> []" for k using length_dec_nat [of k] by auto
  show "en_revision r \<noteq> []" if "t_nodes tree_db i = Some r" for i r
    using that by (auto simp: tree_db_def empty_db_def row_insert_def tree_root_def tree_sub_def tree_root2_def
      tree_dir_def tree_link_def tree_mount_def tree_file_def demo_node_def split: if_splits)
qed

lemma tree_mkdir: obtains n w' where "Mkdir demo ''d1'' ''/n'' tree = (Inr n, w')"
  using Mkdir_finds [OF demo_no_faults demo_ulids, of tree "''d1''" 1 "''/n''" tree_root "''n''" "Some tree_list"]
    tree_fresh tree_nodes_ok tree_roots tree_parents(4) tree_root_holds tree_fits
  by (auto simp: find_entry_def tree_list_def)

lemma tree_mkdir_taken: obtains e w' where "Mkdir demo ''d1'' ''/f'' tree = (Inl e, w')"
proof (cases "fst (Mkdir demo ''d1'' ''/f'' tree)")
  case (Inl e)
  then show thesis using that by (cases "Mkdir demo ''d1'' ''/f'' tree") auto
next
  case (Inr n)
  then obtain w' where "Mkdir demo ''d1'' ''/f'' tree = (Inr n, w')" by (cases "Mkdir demo ''d1'' ''/f'' tree") auto
  then obtain dir name w1 m w2 dir1 where r: "resolveEditableParent demo ''d1'' ''/f'' tree = (Inr (dir, name), w1)"
    "NewDirectory demo w1 = (Inr m, w2)" "Link demo (Some dir) name (Some m) w2 = (Inr (dir1, n), w')"
    using create_runs(1) unfolding create_run_def by blast
  obtain v where v: "resolveEditableParent demo ''d1'' ''/f'' tree = (Inr (tree_root, ''f''), v)" "same_store v tree"
    using resolveEditableParent_finds [OF demo_no_faults tree_simps(2), of "''d1''" 1 "''/f''" tree_root "''f''"]
      tree_roots tree_parents(5) tree_kinds2(1) by auto
  have "quiet (NewDirectory demo)" by (intro quiet_intros)
  then have "same_store w2 w1" using r(2) by (rule quietD)
  then have s: "w_db w2 = tree_db" "w_tx w2 = None" using v r(1) by (auto simp: same_store_def)
  have "find_entry (Some tree_list) ''f'' = None"
    using Link_new [OF s(2) _ _ tree_root_holds _ NewDirectory_fresh [OF r(2)]] r(1,3) v(1) s(1) tree_nodes_ok tree_revised by auto
  then show thesis by (simp add: find_entry_def tree_list_def)
qed

text \<open>
  C33. Without faults, \<open>Mkdir\<close> succeeds whenever the parent part of the path leads to a directory of
  the drive in which the name is free and the longer listing still fits the inline content; the
  identifiers drawn are new.
\<close>

theorem Mkdir_succeeds:
  assumes e: "no_faults E" "ulids_ok E" "\<forall>k. node_at (w_db w) (uuid_gen E k) = None"
    and w: "w_tx w = None" "nodes_ok E (w_db w)" "drives_ok (w_db w)"
    and p: "drive_root (w_db w) d root" "root \<noteq> uuid_Nil" "parent_of E (w_db w) root p dir name"
    and n: "holds_dir E dir dc" "find_entry dc name = None"
      "\<forall>k. length (dir_marshal E (Some (entries dc @
        [\<lparr>de_ino = uuid_gen E k, de_name = name, de_kind = NodeKindDirectory\<rparr>]))) \<le> MaxContentSize"
  shows "\<exists>n w'. Mkdir E d p w = (Inr n, w')"
  by (rule Mkdir_finds [OF assms])

theorem Mkdir_succeeds_witness: "\<exists>n w'. Mkdir demo ''d1'' ''/n'' tree = (Inr n, w')"
  using Mkdir_succeeds [OF demo_no_faults demo_ulids, of tree "''d1''" 1 "''/n''" tree_root "''n''" "Some tree_list"]
    tree_fresh tree_nodes_ok tree_roots tree_parents(4) tree_root_holds tree_fits
  by (auto simp: find_entry_def tree_list_def)

theorem vfs_creations_witness:
  "\<exists>n w'. Mkdir demo ''d1'' ''/n'' tree = (Inr n, w') \<and> n_nlink n = 1 \<and> (\<exists>root. added demo tree_db root ''/n'' n (w_db w'))"
proof -
  obtain n w' where m: "Mkdir demo ''d1'' ''/n'' tree = (Inr n, w')" by (rule tree_mkdir)
  then have "created demo ''d1'' ''/n'' NodeKindDirectory (dir_marshal demo None) 0 tree n w'"
    using vfs_creations [of tree demo "''/n''" "''d1''" n w'] tree_nodes_ok tree_revised tree_parents(3) by simp
  then show ?thesis using m by (auto simp: created_def)
qed

theorem vfs_operations_atomic_witness:
  "\<exists>e w'. Mkdir demo ''d1'' ''/f'' tree = (Inl e, w') \<and> w_db w' = tree_db"
proof -
  obtain e w' where m: "Mkdir demo ''d1'' ''/f'' tree = (Inl e, w')" by (rule tree_mkdir_taken)
  then show ?thesis
    using vfs_operations_atomic [OF tree_simps(2), of demo "''d1''" "''/f''"] by (auto simp: rolls_back_def)
qed

end
