(* ===== verification/RmTerm.thy ===== *)
theory RmTerm
  imports VfsSpec
begin

text \<open>
  The recursion of rm -r ends. Its calls go from a directory to a subdirectory as the committed table has
  them (the repository reads outside the transaction), so when no directory lies below itself there are at most as many
  nested calls as nodes, and the fuel of the model is not what stops it.
\<close>

section \<open>The directories below a directory\<close>

definition subdirs :: "env \<Rightarrow> db \<Rightarrow> (uuid \<times> uuid) set" where
  "subdirs E d = {(i, j). \<exists>n dc e c. node_at d i = Some n \<and> is_dir n \<and> read_dir E n = Inr dc \<and> e \<in> set (entries dc) \<and> de_ino e = j \<and>
     node_at d j = Some c \<and> is_dir c}"

definition below :: "env \<Rightarrow> db \<Rightarrow> uuid \<Rightarrow> nat" where
  "below E d i = card ((subdirs E d)\<^sup>+ `` {i})"

lemma below_less:
  assumes "acyclic (subdirs E d)" "(i, j) \<in> subdirs E d"
  shows "below E d j < below E d i"
proof -
  have "(subdirs E d)\<^sup>+ `` {j} \<subset> (subdirs E d)\<^sup>+ `` {i}"
    using assms trancl_into_trancl2 by (auto simp: acyclic_def)
  then show ?thesis unfolding below_def by (intro psubset_card_mono) simp_all
qed

lemma below_bound: "below E d i \<le> card (dom (t_nodes d))"
proof -
  have "(subdirs E d)\<^sup>+ `` {i} \<subseteq> dom (t_nodes d)"
    by (auto simp: subdirs_def node_at_def elim: tranclE)
  then show ?thesis unfolding below_def by (intro card_mono) simp_all
qed

section \<open>Folds over states that keep a condition\<close>

lemma foldM_same:
  assumes "\<And>x a w. x \<in> set xs \<Longrightarrow> P w \<Longrightarrow> f x a w = g x a w"
    and "\<And>x a w r w'. x \<in> set xs \<Longrightarrow> P w \<Longrightarrow> f x a w = (r, w') \<Longrightarrow> P w'" and "P w"
  shows "foldM f xs acc w = foldM g xs acc w"
  using assms
proof (induction xs arbitrary: acc w)
  case (Cons x xs)
  have e: "f x acc w = g x acc w" using Cons.prems(1) [of x w acc] Cons.prems(3) by simp
  obtain r v where v: "f x acc w = (r, v)" by fastforce
  have g: "g x acc w = (r, v)" using e v by simp
  have p: "P v" by (rule Cons.prems(2) [OF _ Cons.prems(3) v]) simp
  show ?case
  proof (cases r)
    case (Inl z)
    then show ?thesis using g v by (simp add: bindM_def)
  next
    case (Inr y)
    have "foldM f xs y v = foldM g xs y v"
      by (rule Cons.IH [OF Cons.prems(1) [OF list.set_intros(2)] Cons.prems(2) [OF list.set_intros(2)] p])
    then show ?thesis using g v Inr by (simp add: bindM_def)
  qed
qed simp

definition in_tx :: "db \<Rightarrow> world \<Rightarrow> bool" where
  "in_tx d w \<longleftrightarrow> w_db w = d \<and> w_tx w \<noteq> None"

lemma in_tx_step: "tx_safe m \<Longrightarrow> in_tx d w \<Longrightarrow> m w = (r, w') \<Longrightarrow> in_tx d w'"
  unfolding tx_safe_def in_tx_def by (metis snd_conv)

section \<open>Enough fuel\<close>

lemma rmRecursive_enough:
  assumes "acyclic (subdirs E d)" "node_at d i = Some n \<and> is_dir n" "below E d i < k" "below E d i < k'" "in_tx d w"
  shows "rmRecursive E root k n p w = rmRecursive E root k' n p w"
  using assms(2-)
proof (induction k arbitrary: k' i n p w)
  case (Suc k)
  obtain j where k': "k' = Suc j" using Suc.prems(3) by (cases k') auto
  show ?case
  proof (cases "read_dir E n")
    case (Inl e)
    then show ?thesis by (simp add: k' bindM_def wrapM_def)
  next
    case (Inr dc)
    let ?f = "\<lambda>k e refs. bindM (wrapM [] (''vfs: rm get child (path='' @ p @ '', child_id='' @ uuid_text E (de_ino e) @ '')'')
                  (GetByID E (de_ino e))) (\<lambda>child.
         bindM (if is_dir child then rmRecursive E root k child (child_path p (de_name e))
                else rm E root child (child_path p (de_name e))) (\<lambda>rs. retM (refs @ rs)))"
    have "foldM (?f k) (entries dc) [] w = foldM (?f j) (entries dc) [] w"
    proof (rule foldM_same [where P = "in_tx d"])
      fix e refs v assume e: "e \<in> set (entries dc)" and v: "in_tx d v"
      obtain q v1 where g: "GetByID E (de_ino e) v = (q, v1)" by fastforce
      have "quiet (GetByID E (de_ino e))" by (rule quiet_GetByID)
      then have v1: "in_tx d v1" using g v by (auto intro: in_tx_step tx_safe_quiet)
      have "rmRecursive E root k c p' v1 = rmRecursive E root j c p' v1" if c: "q = Inr c" "is_dir c" for c p'
      proof -
        have "GetByID E (de_ino e) v = (Inr c, v1)" using g c(1) by simp
        from GetByID_Inr [OF this] have "node_at d (de_ino e) = Some c" using v by (simp add: in_tx_def)
        then have "(i, de_ino e) \<in> subdirs E d" using Suc.prems(1) Inr e c(2) by (auto simp: subdirs_def)
        then have "below E d (de_ino e) < below E d i" using below_less assms(1) by blast
        then show ?thesis
          using Suc.IH [of "de_ino e" c j v1 p'] \<open>node_at d (de_ino e) = Some c\<close> c(2) v1 Suc.prems(2,3) k' by simp
      qed
      then show "?f k e refs v = ?f j e refs v" using g by (cases q) (auto simp: bindM_def wrapM_def)
    next
      fix e refs v r v' assume "in_tx d v" "?f k e refs v = (r, v')"
      moreover have "tx_safe (?f k e refs)" by (intro txsafe_intros)
      ultimately show "in_tx d v'" using in_tx_step by blast
    qed (rule Suc.prems(4))
    then show ?thesis using Inr by (simp add: k' bindM_def wrapM_def)
  qed
qed simp

text \<open>With enough fuel no error is the one of the model.\<close>

lemma foldM_never:
  assumes "\<And>x a w e w'. x \<in> set xs \<Longrightarrow> P w \<Longrightarrow> f x a w = (Inl e, w') \<Longrightarrow> e \<noteq> z"
    and "\<And>x a w r w'. x \<in> set xs \<Longrightarrow> P w \<Longrightarrow> f x a w = (r, w') \<Longrightarrow> P w'" and "P w"
  shows "foldM f xs acc w = (Inl e, w') \<Longrightarrow> e \<noteq> z"
  using assms
proof (induction xs arbitrary: acc w)
  case Nil
  show ?case using Nil.prems(1) by simp
next
  case (Cons x xs)
  from Cons.prems(1) consider "f x acc w = (Inl e, w')" | y v where "f x acc w = (Inr y, v)" "foldM f xs y v = (Inl e, w')"
    by (auto simp: bindM_Inl_iff)
  then show ?case
  proof cases
    case 1
    then show ?thesis using Cons.prems(2) [of x w acc] Cons.prems(4) by simp
  next
    case 2
    have "P v" by (rule Cons.prems(3) [OF _ Cons.prems(4) 2(1)]) simp
    show ?thesis
      by (rule Cons.IH [OF 2(2) Cons.prems(2) [OF list.set_intros(2)] Cons.prems(3) [OF list.set_intros(2)] \<open>P v\<close>])
  qed
qed

lemma wrapM_never: "wrapM ks s m w = (Inl e, w') \<Longrightarrow> e \<noteq> stack_exhausted"
  by (auto simp: wrapM_def wrap_with_eq stack_exhausted_def split: prod.splits sum.splits)

lemma rm_never: "rm E root n p w = (Inl e, w') \<Longrightarrow> e \<noteq> stack_exhausted"
  by (auto simp: rm_def seqM_def bindM_Inl_iff newResolver_def split: if_splits dest!: wrapM_never)

lemma rmRecursive_never:
  assumes "acyclic (subdirs E d)" "node_at d i = Some n \<and> is_dir n" "below E d i < k" "in_tx d w"
    and "rmRecursive E root k n p w = (Inl e, w')"
  shows "e \<noteq> stack_exhausted"
  using assms(2-)
proof (induction k arbitrary: i n p w e w')
  case (Suc k)
  let ?f = "\<lambda>e refs. bindM (wrapM [] (''vfs: rm get child (path='' @ p @ '', child_id='' @ uuid_text E (de_ino e) @ '')'')
                  (GetByID E (de_ino e))) (\<lambda>child.
         bindM (if is_dir child then rmRecursive E root k child (child_path p (de_name e))
                else rm E root child (child_path p (de_name e))) (\<lambda>rs. retM (refs @ rs)))"
  from Suc.prems(4) consider "wrapM [] (''vfs: rm read dir (path='' @ p @ '')'') (liftM (read_dir E n)) w = (Inl e, w')"
    | dc where "read_dir E n = Inr dc" "foldM ?f (entries dc) [] w = (Inl e, w')"
    | v where "rm E root n p v = (Inl e, w')"
    by (auto simp: bindM_Inl_iff wrapM_Inr_iff)
  then show ?case
  proof cases
    case (2 dc)
    note rd = 2(1)
    show ?thesis
    proof (rule foldM_never [OF _ _ _ 2(2), where P = "in_tx d"])
      fix x refs v e1 v' assume x: "x \<in> set (entries dc)" and v: "in_tx d v" and b: "?f x refs v = (Inl e1, v')"
      consider s where "wrapM [] s (GetByID E (de_ino x)) v = (Inl e1, v')"
        | c v1 where "GetByID E (de_ino x) v = (Inr c, v1)"
          "(if is_dir c then rmRecursive E root k c (child_path p (de_name x)) else rm E root c (child_path p (de_name x))) v1 = (Inl e1, v')"
        using b by (auto simp only: bindM_Inl_iff wrapM_Inr_iff retM_apply prod.inject sum.distinct)
      then show "e1 \<noteq> stack_exhausted"
      proof cases
        case (2 c v1)
        show ?thesis
        proof (cases "is_dir c")
        case True
        have c: "node_at d (de_ino x) = Some c" using GetByID_Inr [OF 2(1)] v by (simp add: in_tx_def)
        then have "(i, de_ino x) \<in> subdirs E d" using Suc.prems(1) rd x True by (auto simp: subdirs_def)
        then have "below E d (de_ino x) < below E d i" using below_less assms(1) by blast
        moreover have "quiet (GetByID E (de_ino x))" by (rule quiet_GetByID)
        then have "in_tx d v1" using 2(1) v by (auto intro: in_tx_step tx_safe_quiet)
        ultimately show ?thesis using Suc.IH [of "de_ino x" c v1 "child_path p (de_name x)" e1 v'] c 2(2) True Suc.prems(2) by simp
        qed (use 2(2) rm_never in simp)
      next
        case 1
        then show ?thesis by (rule wrapM_never)
      qed
    next
      fix x refs v r v' assume "in_tx d v" "?f x refs v = (r, v')"
      moreover have "tx_safe (?f x refs)" by (intro txsafe_intros)
      ultimately show "in_tx d v'" using in_tx_step by blast
    qed (rule Suc.prems(3))
  next
    case 1
    then show ?thesis by (rule wrapM_never)
  next
    case 3
    then show ?thesis by (rule rm_never)
  qed
qed simp

lemma rmPath_enough:
  assumes "acyclic (subdirs E d)" "card (dom (t_nodes d)) < k" "card (dom (t_nodes d)) < k'" "in_tx d w"
  shows "rmPath E k root p rec w = rmPath E k' root p rec w"
    "rmPath E k root p rec w = (Inl e, w') \<Longrightarrow> e \<noteq> stack_exhausted"
proof -
  let ?w0 = "w\<lparr>w_cache := Map.empty\<rparr>"
  obtain q w1 where r: "resolvePath E root p True ?w0 = (q, w1)" by fastforce
  have w0: "in_tx d ?w0" using assms(4) by (simp add: in_tx_def)
  have w1: "in_tx d w1" using in_tx_step [OF tx_safe_resolvers(2) w0 r] .
  have n: "\<exists>i. node_at d i = Some (wr_node out) \<and> below E d i < k \<and> below E d i < k'" if "q = Inr out" for out
  proof -
    have "cache_ok ?w0" by (simp add: cache_ok_def)
    from resolvePath_Inr [OF this, of E root p True out w1] obtain ls where "resolves E (w_db ?w0) root True p ls out"
      using r \<open>q = Inr out\<close> by blast
    then have "resolves E d root True p ls out" using w0 by (simp add: in_tx_def)
    then obtain i where "node_at d i = Some (wr_node out)" using resolves_stored by blast
    then show ?thesis using below_bound [of E d i] assms(2,3) by (auto intro: le_less_trans)
  qed
  show "rmPath E k root p rec w = rmPath E k' root p rec w"
  proof (cases q)
    case (Inl z)
    then show ?thesis using r by (simp add: rmPath_def newResolver_def seqM_def bindM_def wrapM_def)
  next
    case (Inr out)
    obtain i where i: "node_at d i = Some (wr_node out)" "below E d i < k" "below E d i < k'" using n [OF Inr] by blast
    show ?thesis using r Inr rmRecursive_enough [OF assms(1) _ i(2,3) w1, of "wr_node out" root p] i(1)
      by (simp add: rmPath_def newResolver_def seqM_def bindM_def wrapM_def Let_def)
  qed
  show "rmPath E k root p rec w = (Inl e, w') \<Longrightarrow> e \<noteq> stack_exhausted"
  proof (cases q)
    case (Inl z)
    assume "rmPath E k root p rec w = (Inl e, w')"
    then show ?thesis using r Inl by (auto simp: rmPath_def newResolver_def seqM_def bindM_def wrapM_def wrap_with_eq stack_exhausted_def)
  next
    case (Inr out)
    assume "rmPath E k root p rec w = (Inl e, w')"
    then consider "e = New KindFailedPrecondition (''vfs: rm target is a directory (path='' @ p @ '', use -r)'')"
      | "is_dir (wr_node out)" "rmRecursive E root k (wr_node out) p w1 = (Inl e, w')" | "rm E root (wr_node out) p w1 = (Inl e, w')"
      using r Inr by (auto simp: rmPath_def newResolver_def seqM_def bindM_def wrapM_def Let_def split: if_splits)
    then show ?thesis
    proof cases
      case 2
      then show ?thesis using n [OF Inr] rmRecursive_never [OF assms(1) _ _ w1 2(2)] by blast
    qed (auto simp: New_def stack_exhausted_def dest: rm_never)
  qed
qed


section \<open>The property\<close>

text \<open>
  C17. rm -r returns. When no directory lies below itself, the removal of any paths takes at most as many
  nested calls as there are nodes: from that fuel on the result and the final state do not depend
  on it, and the removal of a path never fails for want of it. So Go's unbounded recursion ends, with this result.
\<close>

theorem Rm_terminates:
  assumes a: "acyclic (subdirs E (w_db w))" and k: "card (dom (t_nodes (w_db w))) < k"
  shows "(card (dom (t_nodes (w_db w))) < k' \<longrightarrow> Rm E k' gc drive paths rec w = Rm E k gc drive paths rec w) \<and>
    (\<forall>v root p e w'. w_db v = w_db w \<longrightarrow> w_tx v \<noteq> None \<longrightarrow> rmPath E k root p rec v = (Inl e, w') \<longrightarrow> e \<noteq> stack_exhausted)"
proof (intro conjI allI impI)
  assume k': "card (dom (t_nodes (w_db w))) < k'"
  let ?body = "\<lambda>k. bindM (GetRootNodeID E drive) (\<lambda>rootID.
       bindM (foldM (\<lambda>p refs. bindM (rmPath E k rootID p rec) (\<lambda>rs. retM (refs @ rs))) paths []) (\<lambda>allRefs.
         record_refs_opt gc ''vfs: rm tombstone enqueue'' drive allRefs))"
  have same: "?body k' v = ?body k v" if v: "in_tx (w_db w) v" for v
  proof -
    obtain q v1 where g: "GetRootNodeID E drive v = (q, v1)" by fastforce
    have v1: "in_tx (w_db w) v1" using in_tx_step [OF tx_safe_resolvers(4) v g] .
    have "foldM (\<lambda>p refs. bindM (rmPath E k' root p rec) (\<lambda>rs. retM (refs @ rs))) paths [] v1 =
        foldM (\<lambda>p refs. bindM (rmPath E k root p rec) (\<lambda>rs. retM (refs @ rs))) paths [] v1" for root
    proof (rule foldM_same [where P = "in_tx (w_db w)", OF _ _ v1])
      fix p refs u assume "in_tx (w_db w) u"
      then show "bindM (rmPath E k' root p rec) (\<lambda>rs. retM (refs @ rs)) u = bindM (rmPath E k root p rec) (\<lambda>rs. retM (refs @ rs)) u"
        using rmPath_enough(1) [OF a k' k] by (simp add: bindM_def)
    next
      fix p refs u r u' assume "in_tx (w_db w) u" "bindM (rmPath E k' root p rec) (\<lambda>rs. retM (refs @ rs)) u = (r, u')"
      moreover have "tx_safe (bindM (rmPath E k' root p rec) (\<lambda>rs. retM (refs @ rs)))" by (intro txsafe_intros)
      ultimately show "in_tx (w_db w) u'" using in_tx_step by blast
    qed
    then show ?thesis using g by (cases q) (simp_all add: bindM_def)
  qed
  show "Rm E k' gc drive paths rec w = Rm E k gc drive paths rec w"
  proof (cases "w_tx w")
    case None
    have it: "in_tx (w_db w) (w\<lparr>w_tx := Some (w_db w), w_tick := t\<rparr>)" for t by (simp add: in_tx_def)
    show ?thesis by (simp only: Rm_def with_tx_fresh [OF None] same [OF it])
  next
    case (Some d)
    then have "in_tx (w_db w) w" by (simp add: in_tx_def)
    from same [OF this] show ?thesis using Some by (simp add: Rm_def with_tx_def)
  qed
next
  fix v root p e w' assume "w_db v = w_db w" "w_tx v \<noteq> None" "rmPath E k root p rec v = (Inl e, w')"
  then show "e \<noteq> stack_exhausted" using rmPath_enough(2) [OF a k k, of v] by (simp add: in_tx_def)
qed

text \<open>In the demonstration tree each subdirectory has a larger id than its directory.\<close>

lemma tree_dirs:
  assumes "node_at tree_db i = Some n" "is_dir n"
  shows "(i, n) \<in> {(1, tree_root), (3, tree_sub), (20, tree_root2)}"
proof -
  have "i \<in> dom (t_nodes tree_db)" using assms(1) by (auto simp: node_at_def)
  then have "i \<in> {1, 2, 3, 4, 5, 6, 7, 20, 21}" by (auto simp: tree_db_def empty_db_def split: if_splits)
  then show ?thesis using assms by (auto simp: kind_tests)
qed

lemma tree_listings: "read_dir demo tree_root = Inr dc \<Longrightarrow> de_ino ` set (entries dc) = {2, 3, 6, 7}"
  "read_dir demo tree_sub = Inr dc \<Longrightarrow> de_ino ` set (entries dc) = {4, 5}"
  "read_dir demo tree_root2 = Inr dc \<Longrightarrow> de_ino ` set (entries dc) = {21}"
  using holds_dir_read [OF tree_dir_holds]
  by (auto simp: tree_root_def tree_sub_def tree_root2_def)

lemma tree_subdirs: "acyclic (subdirs demo tree_db)"
proof -
  have "(i, j) \<in> {(1, 3)}" if ij: "(i, j) \<in> subdirs demo tree_db" for i j
  proof -
    obtain n dc e c where e: "node_at tree_db i = Some n" "is_dir n" "read_dir demo n = Inr dc" "e \<in> set (entries dc)" "de_ino e = j"
      "node_at tree_db j = Some c" "is_dir c" using ij by (auto simp: subdirs_def)
    have j: "j \<in> de_ino ` set (entries dc)" "j \<in> {1, 3, 20}" using e(4,5) tree_dirs [OF e(6,7)] by auto
    have "i = 1 \<and> n = tree_root \<or> i = 3 \<and> n = tree_sub \<or> i = 20 \<and> n = tree_root2" using tree_dirs [OF e(1,2)] by simp
    then have "i = 1 \<and> j \<in> {2, 3, 6, 7} \<or> i = 3 \<and> j \<in> {4, 5} \<or> i = 20 \<and> j \<in> {21}"
      using tree_listings [of dc] e(3) j(1) by (elim disjE) simp_all
    then show ?thesis using j(2) by auto
  qed
  then have "subdirs demo tree_db \<subseteq> {(1, 3)}" by auto
  moreover have "acyclic {(1::uuid, 3::uuid)}" by (simp add: acyclic_insert, simp add: acyclic_def)
  ultimately show ?thesis by (rule acyclic_subset [rotated])
qed

theorem Rm_terminates_witness:
  "Rm demo 100 None ''d1'' [''/d''] True tree = Rm demo 10 None ''d1'' [''/d''] True tree"
proof -
  have "dom (t_nodes tree_db) = {1, 2, 3, 4, 5, 6, 7, 20, 21}" by (auto simp: tree_db_def split: if_splits)
  then have "card (dom (t_nodes (w_db tree))) = 9" by simp
  then show ?thesis using Rm_terminates [of demo tree 10 100 None "''d1''" "[''/d'']" True] tree_subdirs by simp
qed

end
