(* ===== verification/RmMany.thy ===== *)
theory RmMany
  imports RmTerm
begin

text \<open>
  rm of several entries of one directory. Each unlink saves the directory under a new revision in the transaction, and
  the next one starts from the committed copy, which \<open>Get\<close> reads outside the transaction, so its save finds another
  revision and fails.
\<close>

section \<open>What an unlink leaves in the transaction\<close>

lemma unlink_child_other:
  assumes "unlink_child E name i w = (Inr del, w')" "ids_ok (w_db w)" "j \<noteq> i"
  shows "t_nodes (client w') j = t_nodes (client w) j"
proof (cases "i = uuid_Nil")
  case True
  then show ?thesis using assms(1) by (auto simp: unlink_child_def)
next
  case False
  then obtain c w1 where g: "GetByID E i w = (Inr c, w1)"
    and r: "(if n_nlink c > 1 then
            bindM (time_Now E) (\<lambda>now. bindM (ulid_Make E) (\<lambda>rev.
              bindM (wrapM [] ''node: unlink decrement child nlink''
                      (repo_save E (relinked (n_nlink c - 1) now rev c))) (\<lambda>_. retM None)))
          else
            bindM (wrapM [] (''node: unlink delete child (child_id='' @ uuid_text E i @ '')'')
                    (repo_delete E i)) (\<lambda>_. retM (Some c))) w1 = (Inr del, w')"
    using assms(1) by (auto simp: unlink_child_def monad_simps)
  have id: "n_id c = i" using node_at_id [OF assms(2) GetByID_Inr [OF g]] by simp
  have q: "client w1 = client w" by (rule quiet_client [OF quiet_GetByID g])
  show ?thesis
  proof (cases "n_nlink c > 1")
    case True
    then obtain now rv m w2 where "repo_save E (relinked (n_nlink c - 1) now rv c) w2 = (Inr m, w')" "client w2 = client w"
      using r q by (auto simp: monad_simps)
    then show ?thesis using save_client id assms(3) by (fastforce simp: set_node_def relinked_def)
  next
    case False
    then obtain u where "repo_delete E i w1 = (Inr u, w')" using r by (auto simp: monad_simps)
    then show ?thesis using delete_client [of E i w1 u w'] q assms(3) by (simp add: del_node_def)
  qed
qed

lemma RemoveEntry_rev:
  assumes "RemoveEntry E name n w = (Inr n', w')"
  obtains t where "n_rev n' = ulid_gen E t"
  using assms by (auto simp: RemoveEntry_def WriteDir_def node_write_run Let_def monad_simps split: option.splits if_splits)

lemma Unlink_in_tx: "in_tx d w \<Longrightarrow> Unlink E (Some dir) name w = unlink_body E dir name w"
  by (auto simp: Unlink_def with_tx_def in_tx_def)

lemma Unlink_revises:
  assumes "in_tx d w" "ids_ok d" "holds_dir E dir dc" "\<forall>e\<in>set (entries dc). de_ino e \<noteq> n_id dir"
    "Unlink E (Some dir) name w = (Inr r, w')"
  shows "\<exists>row t. t_nodes (client w') (n_id dir) = Some row \<and> en_revision row = ulid_gen E t"
proof -
  obtain p' del where r: "unlink_body E dir name w = (Inr (p', del), w')" using assms(5) Unlink_in_tx [OF assms(1)] by (cases r) auto
  have tx: "w_tx w \<noteq> None" using assms(1) by (simp add: in_tx_def)
  from unlink_body_Inr [OF r assms(3) tx] obtain e p1 w1 w2 where u: "find_entry dc name = Some e" "RemoveEntry E name dir w = (Inr p1, w1)"
    "p' = p1\<lparr>n_stale := n_rev p1\<rparr>" "client w2 = set_node p' (client w)" "w_db w2 = w_db w"
    "unlink_child E name (de_ino e) w2 = (Inr del, w')" by blast
  have "e \<in> set (entries dc)" using u(1) by (auto simp: find_entry_def dest: find_Some_set)
  then have e: "de_ino e \<noteq> n_id dir" using assms(4) by blast
  have id: "n_id p1 = n_id dir" by (rule RemoveEntry_holds [OF assms(3) u(2)])
  obtain t where t: "n_rev p1 = ulid_gen E t" by (rule RemoveEntry_rev [OF u(2)])
  have "t_nodes (client w') (n_id dir) = t_nodes (client w2) (n_id dir)"
    by (rule unlink_child_other [OF u(6) _ e [symmetric]]) (simp add: u(5) assms(1) [unfolded in_tx_def] assms(2))
  moreover have "\<exists>row. t_nodes (client w2) (n_id dir) = Some row \<and> en_revision row = n_rev p1"
    using u(3,4) id by (simp add: set_node_def row_insert_def row_update_def split: option.splits)
  ultimately show ?thesis using t by auto
qed

lemma Unlink_current:
  assumes "in_tx d w" "holds_dir E dir dc" "t_nodes (client w) (n_id dir) = Some row"
    "Unlink E (Some dir) name w = (Inr r, w')"
  shows "en_revision row = n_stale dir"
proof -
  obtain p' del where "unlink_body E dir name w = (Inr (p', del), w')" using assms(4) Unlink_in_tx [OF assms(1)] by (cases r) auto
  then obtain p1 w1 w2 where u: "RemoveEntry E name dir w = (Inr p1, w1)" "repo_save E p1 w1 = (Inr p', w2)"
    by (auto simp: unlink_body_def monad_simps split: option.splits)
  have "n_id p1 = n_id dir \<and> n_stale p1 = n_stale dir" by (rule RemoveEntry_holds [OF assms(2) u(1)]) simp
  moreover have "client w1 = client w" by (rule quiet_client [OF quiet_entry_ops(3) u(1)])
  moreover have "current (client w1) p1" using save_client [OF u(2)] by blast
  ultimately show ?thesis using assms(3) by (simp add: current_def)
qed

section \<open>One path after another\<close>

lemma rm_unlinks:
  assumes "in_tx d w" "no_faults E" "ids_ok d" "parent_of E d root p dir name" "rm E root n p w = (Inr rs, w')"
  obtains v r where "in_tx d v" "client v = client w" "Unlink E (Some dir) name v = (Inr r, w')" "in_tx d w'"
proof -
  have "w_db (w\<lparr>w_cache := Map.empty\<rparr>) = d" using assms(1) by (simp add: in_tx_def)
  then have "parent_of E (w_db (w\<lparr>w_cache := Map.empty\<rparr>)) root p dir name" using assms(4) by simp
  from resolveParent_finds [OF assms(2) cache_ok_empty this] obtain v where
    v: "resolveParent E root p (w\<lparr>w_cache := Map.empty\<rparr>) = (Inr (dir, name), v)" "same_store v (w\<lparr>w_cache := Map.empty\<rparr>)" by blast
  obtain r where u: "Unlink E (Some dir) name v = (Inr r, w')"
    using assms(5) v(1) parent_stored(2) [OF assms(3,4)] by (auto simp: rm_def monad_simps)
  have t: "in_tx d v" "client v = client w" using v(2) assms(1) by (auto simp: same_store_def in_tx_def client_def)
  have "in_tx d w'" by (rule in_tx_step [OF tx_safe_rm assms(1,5)])
  then show thesis using that t u by blast
qed

text \<open>Two entries of \<open>dir\<close>, one removed after the other, whatever was read in between.\<close>

lemma rms_conflict:
  assumes w: "in_tx d w" and E: "no_faults E" "ids_ok d" and p: "parent_of E d root p1 dir n1" "parent_of E d root p2 dir n2"
    and dir: "holds_dir E dir dc" "\<forall>e\<in>set (entries dc). de_ino e \<noteq> n_id dir" "\<forall>t. ulid_gen E t \<noteq> n_rev dir"
    and r1: "rm E root a p1 w = (Inr x, u)" and s: "same_store u1 u" and r2: "rm E root b p2 u1 = (Inr y, u')"
  shows False
proof -
  obtain v r where v: "in_tx d v" "Unlink E (Some dir) n1 v = (Inr r, u)" "in_tx d u"
    by (rule rm_unlinks [OF w E p(1) r1])
  obtain row t where row: "t_nodes (client u) (n_id dir) = Some row" "en_revision row = ulid_gen E t"
    using Unlink_revises [OF v(1) E(2) dir(1,2) v(2)] by blast
  have u1: "in_tx d u1" "client u1 = client u" using v(3) s by (auto simp: in_tx_def same_store_def client_def)
  obtain v2 q where v2: "in_tx d v2" "client v2 = client u1" "Unlink E (Some dir) n2 v2 = (Inr q, u')"
    by (rule rm_unlinks [OF u1(1) E p(2) r2])
  have "t_nodes (client v2) (n_id dir) = Some row" using row(1) v2(2) u1(2) by simp
  then have "en_revision row = n_stale dir" by (rule Unlink_current [OF v2(1) dir(1) _ v2(3)])
  moreover have "n_stale dir = n_rev dir"
    using parent_stored(1) [OF E(2) p(1)] by (auto simp: node_at_def fromEnt_def)
  ultimately show False using row(2) dir(3) by simp
qed

lemma rmPath_runs:
  assumes "rmPath E k root p rec w = (Inr rs, w')"
  obtains out w1 where "resolvePath E root p True (w\<lparr>w_cache := Map.empty\<rparr>) = (Inr out, w1)" "same_store w1 w"
    "if is_dir (wr_node out) then rec \<and> rmRecursive E root k (wr_node out) p w1 = (Inr rs, w')
     else rm E root (wr_node out) p w1 = (Inr rs, w')"
proof -
  obtain out w1 where o: "resolvePath E root p True (w\<lparr>w_cache := Map.empty\<rparr>) = (Inr out, w1)"
    "if is_dir (wr_node out) then rec \<and> rmRecursive E root k (wr_node out) p w1 = (Inr rs, w')
     else rm E root (wr_node out) p w1 = (Inr rs, w')"
    using assms by (auto simp: rmPath_def monad_simps Let_def split: if_splits)
  moreover have "same_store w1 (w\<lparr>w_cache := Map.empty\<rparr>)" using resolvePath_Inr [OF cache_ok_empty o(1)] by blast
  ultimately show thesis using that same_store_trans same_store_simps(3) by blast
qed

lemma rmPaths_conflict:
  assumes w: "in_tx d w" and E: "no_faults E" "ids_ok d" and p: "parent_of E d root p1 dir n1" "parent_of E d root p2 dir n2"
    and dir: "holds_dir E dir dc" "\<forall>e\<in>set (entries dc). de_ino e \<noteq> n_id dir" "\<forall>t. ulid_gen E t \<noteq> n_rev dir"
    and r1: "rmPath E k root p1 False w = (Inr x, u)" and r2: "rmPath E k' root p2 False u = (Inr y, u')"
  shows False
proof -
  obtain a v where v: "same_store v w" "rm E root a p1 v = (Inr x, u)" by (rule rmPath_runs [OF r1]) (auto split: if_splits)
  obtain b v' where v': "same_store v' u" "rm E root b p2 v' = (Inr y, u')" by (rule rmPath_runs [OF r2]) (auto split: if_splits)
  have "in_tx d v" using w v(1) by (simp add: in_tx_def same_store_def)
  then show False by (rule rms_conflict [OF _ E p dir v(2) v'])
qed

text \<open>The two first entries of a directory that rm -r empties.\<close>

lemma rmRecursive_conflict:
  assumes w: "in_tx d w" and E: "no_faults E" "ids_ok d" and dir: "holds_dir E dir (Some (e1 # e2 # es))"
    "\<forall>e\<in>set (e1 # e2 # es). de_ino e \<noteq> n_id dir" "\<forall>t. ulid_gen E t \<noteq> n_rev dir"
    and p: "parent_of E d root (child_path p (de_name e1)) dir n1" "parent_of E d root (child_path p (de_name e2)) dir n2"
    and c: "node_at d (de_ino e1) = Some c1" "\<not> is_dir c1" "node_at d (de_ino e2) = Some c2" "\<not> is_dir c2"
  shows "rmRecursive E root k dir p w \<noteq> (Inr rs, w')"
proof
  assume r: "rmRecursive E root k dir p w = (Inr rs, w')"
  then obtain j where j: "k = Suc j" by (cases k) auto
  obtain a1 v1 x u a2 v2 y u' where s: "GetByID E (de_ino e1) w = (Inr a1, v1)"
    "(if is_dir a1 then rmRecursive E root j a1 (child_path p (de_name e1)) else rm E root a1 (child_path p (de_name e1))) v1 = (Inr x, u)"
    "GetByID E (de_ino e2) u = (Inr a2, v2)"
    "(if is_dir a2 then rmRecursive E root j a2 (child_path p (de_name e2)) else rm E root a2 (child_path p (de_name e2))) v2 = (Inr y, u')"
    using r unfolding j rmRecursive.simps by (auto simp: monad_simps holds_dir_read [OF dir(1)])
  have v1: "in_tx d v1" using in_tx_step [OF tx_safe_quiet [OF quiet_GetByID] w s(1)] .
  have a1: "a1 = c1" using GetByID_Inr [OF s(1)] w c(1) by (simp add: in_tx_def)
  have r1: "rm E root c1 (child_path p (de_name e1)) v1 = (Inr x, u)" using s(2) a1 c(2) by simp
  have "in_tx d u" by (rule in_tx_step [OF tx_safe_rm v1 r1])
  then have a2: "a2 = c2" using GetByID_Inr [OF s(3)] c(3) by (simp add: in_tx_def)
  have r2: "rm E root c2 (child_path p (de_name e2)) v2 = (Inr y, u')" using s(4) a2 c(4) by simp
  have d2: "\<forall>e\<in>set (entries (Some (e1 # e2 # es))). de_ino e \<noteq> n_id dir" using dir(2) by simp
  show False by (rule rms_conflict [OF v1 E p dir(1) d2 dir(3) r1 quietD [OF quiet_GetByID s(3)] r2])
qed

text \<open>What fails in the transaction makes the request fail, and then nothing is removed.\<close>

lemma Rm_refused:
  assumes "recorder_joins gc" "w_tx w = None" "drive_root (w_db w) drive root"
    and no: "\<And>v refs v'. in_tx (w_db w) v \<Longrightarrow>
      foldM (\<lambda>p refs. bindM (rmPath E k root p rec) (\<lambda>rs. retM (refs @ rs))) ps [] v \<noteq> (Inr refs, v')"
  shows "\<exists>e w'. Rm E k gc drive ps rec w = (Inl e, w') \<and> w_db w' = w_db w"
proof -
  have ok: "Rm E k gc drive ps rec w \<noteq> (Inr u, w')" for u w'
  proof
    assume rm: "Rm E k gc drive ps rec w = (Inr u, w')"
    let ?step = "\<lambda>rootID p refs. bindM (rmPath E k rootID p rec) (\<lambda>rs. retM (refs @ rs))"
    let ?body = "bindM (GetRootNodeID E drive) (\<lambda>rootID. bindM (foldM (?step rootID) ps []) (\<lambda>allRefs.
         record_refs_opt gc ''vfs: rm tombstone enqueue'' drive allRefs))"
    have "tx_safe ?body" by (intro txsafe_intros tx_safe_record_refs_opt assms(1))
    from committed_body [OF this assms(2) rm [unfolded Rm_def]] obtain v v' where
      b: "?body v = (Inr u, v')" "w_tx v \<noteq> None" "w_db v = w_db w" "client v = w_db w" by blast
    obtain i v0 refs v1 where r: "GetRootNodeID E drive v = (Inr i, v0)" "foldM (?step i) ps [] v0 = (Inr refs, v1)"
      using b(1) by (auto simp: bindM_Inr_iff)
    have "i = root" using GetRootNodeID_Inr(1) [OF r(1)] b(4) assms(3) by (auto simp: drive_root_def)
    moreover have "in_tx (w_db w) v0" using in_tx_step [OF tx_safe_resolvers(4) _ r(1)] b(2,3) by (simp add: in_tx_def)
    ultimately show False using no r(2) by blast
  qed
  obtain q w' where q: "Rm E k gc drive ps rec w = (q, w')" by fastforce
  then obtain e where e: "Rm E k gc drive ps rec w = (Inl e, w')" using ok by (cases q) auto
  then show ?thesis using atomicD [OF atomic_Rm [OF assms(1)] assms(2) e] by blast
qed

text \<open>
  C19. rm of two entries of one directory fails, whatever they are and whatever follows, and removes nothing. No
  fault is needed for that: the second removal starts from the committed directory, whose revision the first has replaced.
\<close>

theorem Rm_of_siblings_fails:
  assumes E: "no_faults E" "recorder_joins gc" and w: "w_tx w = None" "ids_ok (w_db w)" "drive_root (w_db w) drive root"
    and p: "parent_of E (w_db w) root p1 dir n1" "parent_of E (w_db w) root p2 dir n2"
    and dir: "holds_dir E dir dc" "\<forall>e\<in>set (entries dc). de_ino e \<noteq> n_id dir" "\<forall>t. ulid_gen E t \<noteq> n_rev dir"
  shows "\<exists>e w'. Rm E k gc drive (p1 # p2 # rest) False w = (Inl e, w') \<and> w_db w' = w_db w"
proof (rule Rm_refused [OF E(2) w(1,3)])
  fix v refs v' assume "in_tx (w_db w) v"
  then show "foldM (\<lambda>p refs. bindM (rmPath E k root p False) (\<lambda>rs. retM (refs @ rs))) (p1 # p2 # rest) [] v \<noteq> (Inr refs, v')"
    using rmPaths_conflict [OF _ E(1) w(2) p dir] by (auto simp: monad_simps)
qed

text \<open>
  C18. rm -r of a directory whose first two entries are no directories fails and removes nothing: \<open>p\<close> leads to the
  directory and the paths of the two entries, \<open>p\<close> with their names, lead back to it.
\<close>

theorem Rm_r_of_two_files_fails:
  assumes E: "no_faults E" "recorder_joins gc" and w: "w_tx w = None" "ids_ok (w_db w)" "drive_root (w_db w) drive root"
    and p: "resolves E (w_db w) root True p ls r" "links_fit ls []" "wr_node r = dir"
      "parent_of E (w_db w) root (child_path p (de_name e1)) dir n1" "parent_of E (w_db w) root (child_path p (de_name e2)) dir n2"
    and dir: "is_dir dir" "holds_dir E dir (Some (e1 # e2 # es))" "\<forall>e\<in>set (e1 # e2 # es). de_ino e \<noteq> n_id dir"
      "\<forall>t. ulid_gen E t \<noteq> n_rev dir"
    and c: "node_at (w_db w) (de_ino e1) = Some c1" "\<not> is_dir c1" "node_at (w_db w) (de_ino e2) = Some c2" "\<not> is_dir c2"
  shows "\<exists>e w'. Rm E k gc drive (p # ps) True w = (Inl e, w') \<and> w_db w' = w_db w"
proof (rule Rm_refused [OF E(2) w(1,3)], rule notI)
  fix v refs v' assume v: "in_tx (w_db w) v"
    and "foldM (\<lambda>p refs. bindM (rmPath E k root p True) (\<lambda>rs. retM (refs @ rs))) (p # ps) [] v = (Inr refs, v')"
  then obtain x u where "rmPath E k root p True v = (Inr x, u)" by (auto simp: monad_simps)
  from rmPath_runs [OF this] obtain out v1 where o: "resolvePath E root p True (v\<lparr>w_cache := Map.empty\<rparr>) = (Inr out, v1)"
    "same_store v1 v" "is_dir (wr_node out) \<Longrightarrow> rmRecursive E root k (wr_node out) p v1 = (Inr x, u)" by metis
  have "w_db (v\<lparr>w_cache := Map.empty\<rparr>) = w_db w" using v by (simp add: in_tx_def)
  from resolve_complete [OF E(1) p(1) cache_ok_empty this, of "[]"] have "out = r" using o(1) p(2) by (auto simp: resolvePath_def)
  then have "rmRecursive E root k dir p v1 = (Inr x, u)" using o(3) p(3) dir(1) by simp
  moreover have "in_tx (w_db w) v1" using v o(2) by (simp add: in_tx_def same_store_def)
  ultimately show False using rmRecursive_conflict [OF _ E(1) w(2) dir(2,3,4) p(4,5) c] by blast
qed

section \<open>In the demonstration tree\<close>

lemma demo_rev: "take 26 (dec_nat t) \<noteq> ''r''"
proof -
  have "\<not> is_digit CHR ''r''" by (simp add: is_digit_def byte_in_def)
  then have "CHR ''r'' \<notin> set (take 26 (dec_nat t))" using dec_nat_digits [of t] by (auto dest: in_set_takeD)
  then show ?thesis by (metis list.set_intros(1))
qed

lemma tree_unlink_f:
  assumes "w_tx v = Some tree_db" "w_db v = tree_db"
  shows "\<exists>p v'. Unlink demo (Some tree_root) ''f'' v = (Inr (p, Some (tree_file 7)), v')"
proof -
  have x: "read_dir demo tree_root = Inr (Some tree_list)" by (rule holds_dir_read [OF tree_root_holds])
  have k: "n_kind tree_root = NodeKindDirectory" by (simp add: tree_root_def)
  let ?es = "butlast tree_list"
  have m: "length (dir_marshal demo (Some ?es)) \<le> MaxContentSize"
    by (simp add: tree_list_def encode_eval)
  have "\<exists>p1 v1. RemoveEntry demo ''f'' tree_root v = (Inr p1, v1)"
    using m by (simp add: RemoveEntry_def x tree_list_def k WriteDir_run node_write_run)
  then obtain p1 v1 where a: "RemoveEntry demo ''f'' tree_root v = (Inr p1, v1)" by blast
  obtain t where t: "n_rev p1 = ulid_gen demo t" by (rule RemoveEntry_rev [OF a])
  have id: "n_id p1 = 1" "n_stale p1 = ''r''" using RemoveEntry_holds [OF tree_root_holds a] by (auto simp: tree_root_def)
  have q: "client v1 = tree_db" "w_db v1 = tree_db" "w_tx v1 \<noteq> None"
    using quiet_client [OF quiet_entry_ops(3) a] quiet_db [OF quiet_entry_ops(3) a] assms by (auto simp: client_def)
  have "content_ok p1" using a m by (auto simp: RemoveEntry_def x tree_list_def k WriteDir_run node_write_run content_ok_def)
  moreover have "length (n_rev p1) \<le> 26" using t by simp
  moreover have "current (client v1) p1"
  proof -
    have "current tree_db tree_root" "n_id tree_root = 1" "n_stale tree_root = ''r''"
      using current_stored [of tree_db tree_root] by (simp_all add: tree_root_def)
    then show ?thesis using id q(1) by (simp add: current_def split: option.splits)
  qed
  ultimately obtain p2 v2 where s: "repo_save demo p1 v1 = (Inr p2, v2)"
    using save_succeeds [OF demo_no_faults] by blast
  have v2: "w_db v2 = tree_db" "w_tx v2 \<noteq> None" using save_in_tx [OF s q(3)] q(2) by simp_all
  have "t_nodes (client v2) 7 = t_nodes tree_db 7" using save_client [OF s] id q(1) by (auto simp: set_node_def)
  moreover have "t_nodes tree_db 7 \<noteq> None" using tree_at(7) by (auto simp: node_at_def)
  ultimately have c: "t_nodes (client v2) 7 \<noteq> None" by simp
  have "\<exists>v'. unlink_child demo ''f'' 7 v2 = (Inr (Some (tree_file 7)), v')"
  proof -
    obtain v3 where g: "GetByID demo 7 v2 = (Inr (tree_file 7), v3)"
      using GetByID_no_faults [OF demo_no_faults] v2(1) by simp
    have "client v3 = client v2" by (rule quiet_client [OF quiet_GetByID g])
    then show ?thesis using g c by (simp add: unlink_child_def bindM_def wrapM_def repo_delete_no_faults)
  qed
  then obtain v' where u: "unlink_child demo ''f'' 7 v2 = (Inr (Some (tree_file 7)), v')" by blast
  have "find_entry (Some tree_list) ''f'' = Some \<lparr>de_ino = 7, de_name = ''f'', de_kind = NodeKindFile\<rparr>"
    by (simp add: find_entry_def tree_list_def)
  then have "Unlink demo (Some tree_root) ''f'' v = (Inr (p2, Some (tree_file 7)), v')"
    using assms a s u by (simp add: Unlink_def with_tx_def unlink_body_def x bindM_def wrapM_def)
  then show ?thesis by blast
qed

lemma tree_rm_f: "\<exists>w'. Rm demo 10 None ''d1'' [''/f''] False tree = (Inr (), w')"
proof -
  let ?v = "tree\<lparr>w_tx := Some tree_db, w_tick := Suc 0\<rparr>"
  have g: "GetRootNodeID demo ''d1'' ?v = (Inr 1, ?v\<lparr>w_tick := 2\<rparr>)"
    using GetRootNodeID_finds [OF demo_no_faults, of ?v "''d1''" 1] tree_roots by (simp add: numeral_2_eq_2)
  let ?u = "?v\<lparr>w_tick := 2, w_cache := Map.empty\<rparr>"
  have r: "resolves demo tree_db 1 True ''/f'' [] \<lparr>wr_node = tree_file 7, wr_remaining = []\<rparr>"
    by (rule resolves_node [OF tree_at(1)])
      (use descends_into [OF tree_entries(7) _ _ descends_here] in \<open>simp add: tree_splits tree_kinds2 kind_tests\<close>)
  have "\<exists>w'. resolvePath demo 1 ''/f'' True ?u = (Inr \<lparr>wr_node = tree_file 7, wr_remaining = []\<rparr>, w')"
    using resolve_complete [OF demo_no_faults r, of ?u "[]"] by (auto simp: resolvePath_def links_fit_def cache_ok_def)
  then obtain u1 where u1: "resolvePath demo 1 ''/f'' True ?u = (Inr \<lparr>wr_node = tree_file 7, wr_remaining = []\<rparr>, u1)" by blast
  have s1: "same_store u1 ?u" using resolvePath_Inr [OF _ u1] by (simp add: cache_ok_def)
  let ?u2 = "u1\<lparr>w_cache := Map.empty\<rparr>"
  have "w_db ?u2 = tree_db" using s1 by (simp add: same_store_def)
  then have "parent_of demo (w_db ?u2) 1 ''/f'' tree_root ''f''" using tree_parents(5) by simp
  from resolveParent_finds [OF demo_no_faults cache_ok_empty this] obtain u3 where
    u3: "resolveParent demo 1 ''/f'' ?u2 = (Inr (tree_root, ''f''), u3)" "same_store u3 ?u2" by blast
  have t: "w_tx u3 = Some tree_db" "w_db u3 = tree_db" using s1 u3(2) by (simp_all add: same_store_def)
  obtain p u4 where u4: "Unlink demo (Some tree_root) ''f'' u3 = (Inr (p, Some (tree_file 7)), u4)"
    using tree_unlink_f [OF t] by blast
  have "rmPath demo 10 1 ''/f'' False (?v\<lparr>w_tick := 2\<rparr>) = (Inr [], u4)"
    using u1 u3(1) u4 by (simp add: object_refs_def rmPath_def rm_def seqM_def bindM_def wrapM_def kind_tests Let_def)
  then show ?thesis
    using g by (simp add: Rm_def with_tx_fresh bindM_def record_refs_opt_def demo_no_faults [unfolded no_faults_def])
qed

text \<open>In the demonstration tree /f can be removed, but not /f and /m at once.\<close>
theorem Rm_of_siblings_fails_witness:
  "(\<exists>w'. Rm demo 10 None ''d1'' [''/f''] False tree = (Inr (), w')) \<and>
   (\<exists>e w'. Rm demo 10 None ''d1'' [''/f'', ''/m''] False tree = (Inl e, w') \<and> w_db w' = tree_db)"
proof -
  have m: "parent_of demo tree_db 1 ''/m'' tree_root ''m''"
    using tree_parents(5) tree_splits(6,8) unfolding parent_of_def by (fastforce simp: plain_def)
  have r: "n_rev tree_root = ''r''" "n_id tree_root = 1" by (simp_all add: tree_root_def)
  show ?thesis
    using Rm_of_siblings_fails [OF demo_no_faults recorder_joins_RecordGarbage(2), of tree "''d1''" 1 "''/f''" tree_root "''f''" "''/m''" "''m''" "Some tree_list" 10 "[]"]
      tree_rm_f tree_ids tree_roots tree_parents(5) tree_root_holds m r demo_rev by (simp add: tree_list_def)
qed

text \<open>The directory /d, with the entries s and t, cannot be removed.\<close>

theorem Rm_r_of_two_files_fails_witness:
  "\<exists>e w'. Rm demo 10 None ''d1'' [''/d''] True tree = (Inl e, w') \<and> w_db w' = tree_db"
proof -
  let ?s = "\<lparr>de_ino = 4, de_name = ''s'', de_kind = NodeKindSymlink\<rparr>" and ?t = "\<lparr>de_ino = 5, de_name = ''t'', de_kind = NodeKindFile\<rparr>"
  have sp: "splitPath (cleanPath ''/d'') = [''d'']"
    by (simp add: splitPath_cleanPath clean_parts_def trim_space_def space_seqs_def has_prefix_def upt_rec)
  have d: "resolves demo tree_db 1 True ''/d'' [] \<lparr>wr_node = tree_sub, wr_remaining = []\<rparr>"
    by (rule resolves_node [OF tree_at(1)])
      (use descends_into [OF tree_entries(2) _ _ descends_here] in \<open>simp add: sp tree_kinds2\<close>)
  then have "resolves demo tree_db 1 True (CHR ''/'' # joinParts [''d'']) [] \<lparr>wr_node = tree_sub, wr_remaining = []\<rparr>"
    by (simp add: joinParts_def)
  then have p: "parent_of demo tree_db 1 ''/d/s'' tree_sub ''s''" "parent_of demo tree_db 1 ''/d/t'' tree_sub ''t''"
    unfolding parent_of_def by (fastforce simp: tree_splits plain_def links_fit_def)+
  have c: "child_path ''/d'' ''s'' = ''/d/s''" "child_path ''/d'' ''t'' = ''/d/t''" by (simp_all add: child_path_def trim_right_char_def)
  have h: "holds_dir demo tree_sub (Some [?s, ?t])" unfolding tree_sub_def by (rule tree_dir_holds) simp
  have k: "n_id tree_sub = 3" "n_rev tree_sub = ''r''" "\<not> is_dir (tree_link 4 ''/l/t'')" "\<not> is_dir (tree_file 5)"
    by (simp_all add: tree_sub_def kind_tests)
  show ?thesis
    using Rm_r_of_two_files_fails [OF demo_no_faults recorder_joins_RecordGarbage(2), of tree "''d1''" 1 "''/d''" "[]" "\<lparr>wr_node = tree_sub, wr_remaining = []\<rparr>"
        tree_sub ?s "''s''" ?t "''t''" "[]" "tree_link 4 ''/l/t''" "tree_file 5" 10 "[]"]
      tree_ids tree_roots d p c h k demo_rev tree_kinds2(2) by (simp add: links_fit_def)
qed

end
