(* ===== verification/SafeSvc.thy ===== *)
theory SafeSvc
  imports SafeVfs
begin

text \<open>The drive and user services keep the invariant.\<close>

section \<open>Drives\<close>

lemma safe_drive_reads:
  "safe E (drepo_get_by_id E i) (\<lambda>_. True)" "safe E (user_exist E i) (\<lambda>_. True)"
  unfolding drepo_get_by_id_def user_exist_def user_get_by_id_def user_query_def
  by (rule safe_drepo_query safe_wrapM safe_steps safe_retM TrueI safe_bindM)+

lemma safe_set_root_node_id: "safe E (set_root_node_id E u d) (\<lambda>_. True)"
  unfolding set_root_node_id_def by (rule safe_draw_bind safe_retM TrueI)+

lemma safe_CreateRootDirectory: "uuid_codec E \<Longrightarrow> safe E (CreateRootDirectory E) (\<lambda>_. True)"
  unfolding CreateRootDirectory_def by (rule safe_bindM [OF safe_creates(5)] safe_retM TrueI | assumption)+

lemma safe_CreateDrive: "uuid_codec E \<Longrightarrow> safe E (CreateDrive E c actor name desc cfg) (\<lambda>_. True)"
  unfolding CreateDrive_def
  by (rule safe_cases safe_failM safe_draw_bind safe_bindM [OF safe_wrapM [OF safe_drive_reads(2)]]
      safe_bindM [OF safe_wrapM [OF safe_CreateRootDirectory]] safe_bindM [OF safe_set_root_node_id]
      safe_bindM [OF safe_wrapM [OF safe_with_tx [OF safe_create_drive_tx]]] safe_retM TrueI | assumption)+

lemma safe_drive_ops:
  "safe E (DriveUpdate E i name desc) (\<lambda>_. True)" "safe E (DriveDelete E i) (\<lambda>_. True)"
  "safe E (DriveRestore E i) (\<lambda>_. True)" "safe E (DrivePurge E i) (\<lambda>_. True)"
  unfolding DriveUpdate_def DriveDelete_def DriveRestore_def DrivePurge_def
  by (rule safe_cases safe_failM safe_draw_bind safe_bindM [OF safe_wrapM [OF safe_drive_reads(1)]]
      safe_bindM [OF safe_DriveGetByID] safe_DriveGetByID safe_seq safe_wrapM safe_drepo_update safe_drepo_mark safe_drepo_delete)+

section \<open>Users\<close>

lemma db_ok_users: "db_ok E d \<Longrightarrow> user_table_ok (d\<lparr>t_users := us\<rparr>) \<Longrightarrow> db_ok E (d\<lparr>t_users := us\<rparr>)"
  by (simp add: db_ok_def nodes_ok_def ids_ok_def node_at_def tombs_ok_def drive_tables_ok_def drives_ok_def)

lemma user_table_parts:
  "user_table_ok (d\<lparr>t_users := us\<rparr>) \<longleftrightarrow> distinct (map eu_id us) \<and> distinct (map eu_public_id us) \<and>
     distinct (map user_key us) \<and> list_all valid_user_row us"
  by (simp add: user_table_ok_def users_ok_def)

lemma db_ok_user_table:
  "db_ok E d \<Longrightarrow> distinct (map eu_id (t_users d)) \<and> distinct (map eu_public_id (t_users d)) \<and>
     distinct (map user_key (t_users d)) \<and> list_all valid_user_row (t_users d)"
  by (simp add: db_ok_def user_table_ok_def users_ok_def)

lemma db_ok_new_user:
  assumes "db_ok E d" "valid_user_row r" "\<not> (\<exists>s\<in>set (t_users d). user_clash r s)"
  shows "db_ok E (d\<lparr>t_users := t_users d @ [r]\<rparr>)"
  using db_ok_user_table [OF assms(1)] assms(2,3)
  by (intro db_ok_users [OF assms(1)]) (auto simp: user_table_parts user_clash_def user_key_def)

lemma safe_user_create: "safe E (user_create E cmd) (\<lambda>_. True)"
  unfolding user_create_def Let_def
  by (rule safe_draw_bind safe_wrapM safe_ensure_seq safe_seqM [OF safe_draws(5)] safe_seqM [OF safe_put_committed]
      safe_get_committed_bind safe_cases safe_failM db_ok_new_user safe_retM TrueI | assumption)+

lemma db_ok_update_user:
  assumes "db_ok E d" "length (u_name u) \<le> 255 \<and> length (case u_email u of None \<Rightarrow> [] | Some e \<Rightarrow> e) \<le> 255"
  shows "db_ok E (d\<lparr>t_users := map_first P (user_set u ut) (t_users d)\<rparr>)"
proof (rule db_ok_users [OF assms(1)])
  have k: "eu_id (user_set u ut r) = eu_id r" "eu_public_id (user_set u ut r) = eu_public_id r"
    "user_key (user_set u ut r) = user_key r" "valid_user_row r \<Longrightarrow> valid_user_row (user_set u ut r)" for r
    using assms(2) by (auto simp: user_set_def user_key_def valid_user_row_def split: option.splits)
  have "list_all valid_user_row (map_first P (user_set u ut) (t_users d))"
    using db_ok_user_table [OF assms(1)] set_map_first [of P "user_set u ut" "t_users d"] k(4) by (auto simp: list_all_iff)
  then show "user_table_ok (d\<lparr>t_users := map_first P (user_set u ut) (t_users d)\<rparr>)"
    using db_ok_user_table [OF assms(1)] k(1-3) by (simp add: user_table_parts map_first_map)
qed

lemma safe_user_update: "safe E (user_update E u) (\<lambda>_. True)"
  unfolding user_update_def
  by (rule safe_draw_bind safe_wrapM safe_ensure_seq safe_seqM [OF safe_draws(5)] safe_seqM [OF safe_put_committed]
      safe_get_committed_bind safe_cases safe_failM db_ok_update_user safe_retM TrueI | assumption)+

lemma safe_user_delete: "safe E (user_delete E i) (\<lambda>_. True)"
proof -
  have "db_ok E (d\<lparr>t_users := filter (\<lambda>r. eu_id r \<noteq> i) (t_users d)\<rparr>)" if "db_ok E d" for d
    using db_ok_user_table [OF that]
    by (intro db_ok_users [OF that], unfold user_table_parts) (blast intro: distinct_map_filter list_all_filter)
  then show ?thesis unfolding user_delete_def
    by (intro safe_wrapM safe_seqM [OF safe_draws(5)] safe_get_committed_bind safe_cases safe_failM safe_put_committed)
qed

lemma safe_user_query: "safe E (user_query E what P) (\<lambda>_. True)"
  unfolding user_query_def by (rule safe_wrapM safe_steps safe_retM TrueI)+

lemma safe_UpsertFromOIDC: "safe E (UpsertFromOIDC E cmd) (\<lambda>_. True)"
  unfolding UpsertFromOIDC_def user_get_by_provider_id_def
  by (rule safe_cases safe_failM safe_bindM [OF safe_wrapM [OF safe_user_query]] safe_draw_bind safe_wrapM
      safe_user_update safe_user_create safe_retM TrueI)+

lemma safe_UserUpdate: "safe E (UserUpdate E u) (\<lambda>_. True)"
  unfolding UserUpdate_def by (rule safe_cases safe_failM safe_wrapM safe_user_update)+

end
