(* ===== verification/Upload.thy ===== *)
theory Upload
  imports SafeSvc
begin

text \<open>
  Package internal/upload: the token of an upload in progress with its JSON form (meta.go), the
  two registries of tokens (memory.go and valkey.go), the S3 client (s3/client.go) and the service
  that starts and completes uploads (service.go). The locale \<open>token_registry\<close> is the interface
  \<open>TokenRegistry\<close>; both registries are interpretations. Locks and the cancellation of contexts are
  not modelled.
\<close>

section \<open>The token's JSON form\<close>

definition time_codec :: "env \<Rightarrow> bool" where
  "time_codec E \<longleftrightarrow> (\<forall>t\<ge>0. time_parse E (time_text E t) = Some t \<and> ascii (time_text E t))"

definition meta_marshal :: "env \<Rightarrow> presign_meta \<Rightarrow> string" where
  "meta_marshal E m = json_print (JObj
     ([(''upload_id'', JStr (pm_upload_id m)), (''drive_id'', JStr (pm_drive_id m)), (''user_id'', JStr (pm_user_id m)),
       (''path'', JStr (pm_path m)), (''bucket'', JStr (pm_bucket m)), (''key'', JStr (pm_key m))] @
      (case pm_content_type m of None \<Rightarrow> [] | Some c \<Rightarrow> [(''content_type'', JStr c)]) @
      (case pm_size m of None \<Rightarrow> [] | Some n \<Rightarrow> [(''size'', JNum (itoa_int n))]) @
      [(''expires_at'', JStr (time_text E (pm_expires_at m)))]))"

text \<open>Pointer fields: null resets the pointer. A time field is read from a string; null leaves it.\<close>

fun opt_str_field :: "string \<Rightarrow> string option \<Rightarrow> (string \<times> json) list \<Rightarrow> string option option" where
  "opt_str_field f acc [] = Some acc"
| "opt_str_field f acc ((k, v) # ms) =
     (if fold_name k = f then
        (case v of
           JStr x \<Rightarrow> opt_str_field f (Some x) ms
         | JNull \<Rightarrow> opt_str_field f None ms
         | _ \<Rightarrow> None)
      else opt_str_field f acc ms)"

definition parse_int64 :: "string \<Rightarrow> int option" where
  "parse_int64 l =
     (case l of
        [] \<Rightarrow> None
      | c # r \<Rightarrow>
          if c = CHR ''-'' then
            (case parse_uint r of Some n \<Rightarrow> if n \<le> 2 ^ 63 then Some (- int n) else None | None \<Rightarrow> None)
          else (case parse_uint l of Some n \<Rightarrow> if n < 2 ^ 63 then Some (int n) else None | None \<Rightarrow> None))"

fun opt_int_field :: "string \<Rightarrow> int option \<Rightarrow> (string \<times> json) list \<Rightarrow> int option option" where
  "opt_int_field f acc [] = Some acc"
| "opt_int_field f acc ((k, v) # ms) =
     (if fold_name k = f then
        (case v of
           JNum l \<Rightarrow> (case parse_int64 l of Some n \<Rightarrow> opt_int_field f (Some n) ms | None \<Rightarrow> None)
         | JNull \<Rightarrow> opt_int_field f None ms
         | _ \<Rightarrow> None)
      else opt_int_field f acc ms)"

fun time_field :: "env \<Rightarrow> string \<Rightarrow> time \<Rightarrow> (string \<times> json) list \<Rightarrow> time option" where
  "time_field E f acc [] = Some acc"
| "time_field E f acc ((k, v) # ms) =
     (if fold_name k = f then
        (case v of
           JStr x \<Rightarrow> (case time_parse E x of Some t \<Rightarrow> time_field E f t ms | None \<Rightarrow> None)
         | JNull \<Rightarrow> time_field E f acc ms
         | _ \<Rightarrow> None)
      else time_field E f acc ms)"

definition meta_fields :: "env \<Rightarrow> (string \<times> json) list \<Rightarrow> presign_meta option" where
  "meta_fields E ms =
     (case (str_field ''upload_id'' [] ms, str_field ''drive_id'' [] ms, str_field ''user_id'' [] ms,
            str_field ''path'' [] ms, str_field ''bucket'' [] ms, str_field ''key'' [] ms,
            opt_str_field ''content_type'' None ms, opt_int_field ''size'' None ms,
            time_field E ''expires_at'' zero_time ms) of
        (Some i, Some d, Some u, Some p, Some b, Some k, Some c, Some s, Some t) \<Rightarrow>
          Some \<lparr>pm_upload_id = i, pm_drive_id = d, pm_user_id = u, pm_path = p, pm_bucket = b, pm_key = k,
                pm_content_type = c, pm_size = s, pm_expires_at = t\<rparr>
      | _ \<Rightarrow> None)"

definition meta_unmarshal :: "env \<Rightarrow> string \<Rightarrow> presign_meta option" where
  "meta_unmarshal E s =
     (case json_parse s of
        Some (JObj ms) \<Rightarrow> meta_fields E ms
      | Some JNull \<Rightarrow> meta_fields E []
      | _ \<Rightarrow> None)"

definition meta_exact :: "env \<Rightarrow> presign_meta \<Rightarrow> bool" where
  "meta_exact E m \<longleftrightarrow> time_codec E \<and> valid_utf8 (pm_upload_id m) \<and> valid_utf8 (pm_drive_id m) \<and> valid_utf8 (pm_user_id m) \<and>
     valid_utf8 (pm_path m) \<and> valid_utf8 (pm_bucket m) \<and> valid_utf8 (pm_key m) \<and>
     (case pm_content_type m of None \<Rightarrow> True | Some c \<Rightarrow> valid_utf8 c) \<and>
     (case pm_size m of None \<Rightarrow> True | Some n \<Rightarrow> 0 \<le> n \<and> n < 2 ^ 63) \<and> 0 \<le> pm_expires_at m"

text \<open>\<open>Encode\<close> and \<open>DecodePresignMeta\<close>. Marshaling strings, numbers and an instant before the year
  10000 does not fail.\<close>

definition meta_Encode :: "env \<Rightarrow> presign_meta \<Rightarrow> gerror + string" where
  "meta_Encode E m = Inr (meta_marshal E m)"

definition DecodePresignMeta :: "env \<Rightarrow> string \<Rightarrow> gerror + presign_meta" where
  "DecodePresignMeta E data =
     (case meta_unmarshal E data of
        None \<Rightarrow> Inl (wrap_with [KindInternal] ''decode_presign_meta failed'' json_error)
      | Some m \<Rightarrow> Inr m)"

definition IsExpired :: "env \<Rightarrow> presign_meta \<Rightarrow> bool W" where
  "IsExpired E m = bindM (time_Now E) (\<lambda>now. retM (pm_expires_at m < now))"

lemma meta_keys:
  "to_valid ''upload_id'' = ''upload_id''" "to_valid ''drive_id'' = ''drive_id''" "to_valid ''user_id'' = ''user_id''"
  "to_valid ''path'' = ''path''" "to_valid ''content_type'' = ''content_type''" "to_valid ''size'' = ''size''"
  "to_valid ''expires_at'' = ''expires_at''"
  by (auto intro!: valid_utf8_to_valid ascii_valid simp: byte_in_def)

lemma parse_int64_dec: "n < 2 ^ 63 \<Longrightarrow> parse_int64 (dec_nat n) = Some (int n)"
proof -
  obtain c r where d: "dec_nat n = c # r" using dec_nat_nonempty [of n] by (cases "dec_nat n") auto
  have "is_digit c" using dec_nat_digits [of n] d by simp
  then have "c \<noteq> CHR ''-''" by (auto simp: is_digit_def byte_in_def)
  then show "n < 2 ^ 63 \<Longrightarrow> ?thesis" using parse_uint_dec [of n] d by (simp add: parse_int64_def)
qed

lemma dec_nat_ex [simp]: "\<exists>m. dec_nat n = dec_nat m"
  by blast

lemma meta_unmarshal_marshal:
  assumes "meta_exact E m"
  shows "meta_unmarshal E (meta_marshal E m) = Some m"
proof -
  have t: "time_parse E (time_text E (pm_expires_at m)) = Some (pm_expires_at m)" "valid_utf8 (time_text E (pm_expires_at m))"
    using assms by (auto simp: meta_exact_def time_codec_def ascii_valid)
  note v = valid_utf8_to_valid meta_keys ascii_keys
  have s: "itoa_int n = dec_nat (nat n)" "parse_int64 (dec_nat (nat n)) = Some n" if "pm_size m = Some n" for n
    using assms that parse_int64_dec [of "nat n"] by (auto simp: meta_exact_def itoa_int_def)
  show ?thesis
    using assms t s
    by (cases "pm_content_type m"; cases "pm_size m")
      (simp_all add: meta_unmarshal_def meta_marshal_def json_parse_print meta_fields_def v byte_in_def meta_exact_def)
qed

interpretation meta_codec: codec "meta_marshal E" "meta_unmarshal E" "meta_exact E" for E
  by unfold_locales (rule meta_unmarshal_marshal)

section \<open>Operations that keep a part of the world\<close>

text \<open>\<open>db_of\<close>: the tables, the open transaction and the resolver's cache. \<open>ext_of\<close>: the stores outside.\<close>

definition keeps :: "(world \<Rightarrow> 'b) \<Rightarrow> 'a W \<Rightarrow> bool" where
  "keeps P m \<longleftrightarrow> (\<forall>w. P (snd (m w)) = P w)"

definition db_of :: "world \<Rightarrow> db \<times> db option \<times> (uuid \<rightharpoonup> node)" where
  "db_of w = (w_db w, w_tx w, w_cache w)"

definition ext_of :: "world \<Rightarrow> (string \<rightharpoonup> string \<times> time) \<times> (string \<rightharpoonup> presign_meta \<times> time) \<times> (string \<times> string) set" where
  "ext_of w = (w_kv w, w_mem w, w_objs w)"

named_theorems keeps_intros \<open>operations that keep a part of the world\<close>

lemma keepsD: "keeps P m \<Longrightarrow> m w = (r, w') \<Longrightarrow> P w' = P w"
  by (metis keeps_def snd_conv)

lemma keeps_basic [keeps_intros]:
  "keeps P (retM x)" "keeps P (failM e)" "keeps P (liftM r)" "keeps P (ensureM b e)"
  "keeps P get_client" "keeps P get_committed"
  by (auto simp: keeps_def get_client_def get_committed_def)

lemma keeps_draws [keeps_intros]:
  "keeps db_of (time_Now E)" "keeps db_of (uuid_New E)" "keeps db_of (io E)"
  "keeps ext_of (time_Now E)" "keeps ext_of (uuid_New E)" "keeps ext_of (io E)" "keeps ext_of (ulid_Make E)"
  by (auto simp: keeps_def draw_def time_Now_def uuid_New_def ulid_Make_def io_def db_of_def ext_of_def)

lemma keeps_tryM [keeps_intros]:
  assumes "keeps P m" "\<And>e. keeps P (h e)" "\<And>x. keeps P (f x)"
  shows "keeps P (tryM m h f)"
  unfolding keeps_def
proof
  fix w :: world
  obtain r v where m: "m w = (r, v)" by (cases "m w")
  obtain r2 u where u: "tryM m h f w = (r2, u)" by (cases "tryM m h f w")
  then have "(\<exists>e. h e v = (r2, u)) \<or> (\<exists>x. f x v = (r2, u))" using m by (cases r) auto
  then show "P (snd (tryM m h f w)) = P w"
    using keepsD [OF assms(1) m] keepsD [OF assms(2)] keepsD [OF assms(3)] u by auto
qed

lemma keeps_comb [keeps_intros]:
  "keeps P m \<Longrightarrow> (\<And>x. keeps P (f x)) \<Longrightarrow> keeps P (bindM m f)"
  "keeps P m \<Longrightarrow> keeps P k \<Longrightarrow> keeps P (seqM m k)" "keeps P m \<Longrightarrow> keeps P (wrapM ks s m)"
  unfolding seqM_def bindM_tryM wrapM_tryM by (intro keeps_tryM keeps_basic; assumption)+

lemma keeps_cases [keeps_intros]:
  "(b \<Longrightarrow> keeps P m) \<Longrightarrow> (\<not> b \<Longrightarrow> keeps P k) \<Longrightarrow> keeps P (if b then m else k)"
  "(x = None \<Longrightarrow> keeps P m) \<Longrightarrow> (\<And>y. x = Some y \<Longrightarrow> keeps P (f y)) \<Longrightarrow> keeps P (case x of None \<Rightarrow> m | Some y \<Rightarrow> f y)"
  "(\<And>a c. p = (a, c) \<Longrightarrow> keeps P (q a c)) \<Longrightarrow> keeps P (case p of (a, c) \<Rightarrow> q a c)"
  by (auto split: option.splits prod.splits)

lemma keeps_foldM: "(\<And>x a. keeps P (f x a)) \<Longrightarrow> keeps P (foldM f xs acc)"
  by (induction xs arbitrary: acc) (auto intro!: keeps_intros)

lemma keeps_quiet: "quiet m \<Longrightarrow> keeps ext_of m"
  by (auto simp: quiet_def keeps_def ext_of_def same_store_def)

lemma keeps_put [keeps_intros]: "keeps ext_of (put_client d)" "keeps ext_of (put_committed d)"
  by (auto simp: keeps_def put_client_def ext_of_def split: option.splits)

lemma keeps_with_tx [keeps_intros]:
  assumes "keeps ext_of m"
  shows "keeps ext_of (with_tx E m)"
  unfolding keeps_def
proof
  fix w :: world
  show "ext_of (snd (with_tx E m w)) = ext_of w"
  proof (cases "w_tx w")
    case (Some d)
    then show ?thesis using assms by (simp add: with_tx_def keeps_def)
  next
    case None
    obtain q v where b: "m (w\<lparr>w_tx := Some (w_db w), w_tick := Suc (w_tick w)\<rparr>) = (q, v)" by fastforce
    have "ext_of v = ext_of w" using keepsD [OF assms b] by (simp add: ext_of_def)
    then show ?thesis using b with_tx_fresh [OF None, of E m]
      by (cases "fault E (w_tick w)"; cases q; cases "fault E (w_tick v)") (auto simp: ext_of_def)
  qed
qed

lemma safe_keeps: "keeps db_of m \<Longrightarrow> safe E m (\<lambda>_. True)"
  using keepsD by (fastforce simp: safe_def world_ok_def client_def db_of_def split: option.splits)

section \<open>The in-memory registry\<close>

definition token_not_found :: gerror where
  "token_not_found = New KindInvalidArgument ''upload: token not found''"

definition set_mem :: "(string \<rightharpoonup> presign_meta \<times> time) \<Rightarrow> unit W" where
  "set_mem f = (\<lambda>w. (Inr (), w\<lparr>w_mem := f\<rparr>))"

definition get_mem :: "(string \<rightharpoonup> presign_meta \<times> time) W" where
  "get_mem = (\<lambda>w. (Inr (w_mem w), w))"

definition mem_Put :: "env \<Rightarrow> presign_meta \<Rightarrow> int \<Rightarrow> unit W" where
  "mem_Put E m ttl =
     bindM (time_Now E) (\<lambda>now. bindM get_mem (\<lambda>items.
       set_mem (items(pm_upload_id m \<mapsto> (m, now + ttl)))))"

definition mem_Get :: "env \<Rightarrow> string \<Rightarrow> presign_meta W" where
  "mem_Get E i =
     bindM get_mem (\<lambda>items.
       (case items i of
          None \<Rightarrow> failM token_not_found
        | Some (m, t) \<Rightarrow> bindM (time_Now E) (\<lambda>now. if t < now then failM token_not_found else retM m)))"

definition mem_Delete :: "env \<Rightarrow> string \<Rightarrow> unit W" where
  "mem_Delete E i = bindM get_mem (\<lambda>items. set_mem (items(i := None)))"

section \<open>The Valkey registry\<close>

text \<open>
  The server's commands on string keys: SET with an expiry in seconds, which must be positive, GET,
  DEL. \<open>w_kv\<close> holds each value with the instant its key expires.
\<close>

definition set_kv :: "(string \<rightharpoonup> string \<times> time) \<Rightarrow> unit W" where
  "set_kv f = (\<lambda>w. (Inr (), w\<lparr>w_kv := f\<rparr>))"

definition get_kv :: "(string \<rightharpoonup> string \<times> time) W" where
  "get_kv = (\<lambda>w. (Inr (w_kv w), w))"

definition kv_SET :: "env \<Rightarrow> string \<Rightarrow> string \<Rightarrow> int \<Rightarrow> unit W" where
  "kv_SET E key v secs =
     seqM (io E) (if secs \<le> 0 then failM (Foreign ''ERR invalid expire time in 'set' command'' None)
       else bindM (time_Now E) (\<lambda>now. bindM get_kv (\<lambda>kv. set_kv (kv(key \<mapsto> (v, now + secs * 1000000000))))))"

definition kv_GET :: "env \<Rightarrow> string \<Rightarrow> string option W" where
  "kv_GET E key =
     seqM (io E) (bindM (time_Now E) (\<lambda>now. bindM get_kv (\<lambda>kv.
       retM (case kv key of None \<Rightarrow> None | Some (v, t) \<Rightarrow> if now < t then Some v else None))))"

definition kv_DEL :: "env \<Rightarrow> string \<Rightarrow> unit W" where
  "kv_DEL E key = seqM (io E) (bindM get_kv (\<lambda>kv. set_kv (kv(key := None))))"

definition DefaultKeyPrefix :: string where
  "DefaultKeyPrefix = ''mdrive:upload:''"

definition DefaultKey :: "string \<Rightarrow> string" where
  "DefaultKey i = DefaultKeyPrefix @ i"

text \<open>\<open>keyFunc\<close> is a field of the registry. \<open>int64(ttl.Seconds())\<close> drops the fraction.\<close>

definition valkey_Put :: "env \<Rightarrow> (string \<Rightarrow> string) \<Rightarrow> presign_meta \<Rightarrow> int \<Rightarrow> unit W" where
  "valkey_Put E keyFunc m ttl =
     bindM (liftM (meta_Encode E m)) (\<lambda>data.
       wrapM [] (''upload: valkey set (upload_id='' @ pm_upload_id m @ '')'')
         (kv_SET E (keyFunc (pm_upload_id m)) data (ttl div 1000000000)))"

definition valkey_Delete :: "env \<Rightarrow> (string \<Rightarrow> string) \<Rightarrow> string \<Rightarrow> unit W" where
  "valkey_Delete E keyFunc i =
     wrapM [] (''upload: valkey del (upload_id='' @ i @ '')'') (kv_DEL E (keyFunc i))"

definition valkey_Get :: "env \<Rightarrow> (string \<Rightarrow> string) \<Rightarrow> string \<Rightarrow> presign_meta W" where
  "valkey_Get E keyFunc i =
     bindM (wrapM [] (''upload: valkey get (upload_id='' @ i @ '')'') (kv_GET E (keyFunc i))) (\<lambda>r.
       (case r of
          None \<Rightarrow> failM token_not_found
        | Some data \<Rightarrow>
            bindM (liftM (DecodePresignMeta E data)) (\<lambda>m.
            bindM (IsExpired E m) (\<lambda>expired.
              if expired
              then tryM (valkey_Delete E keyFunc i) (\<lambda>_. failM token_not_found) (\<lambda>_. failM token_not_found)
              else retM m))))"

text \<open>
  \<open>Scan\<close>: SCAN replies with pages of keys until the cursor is 0 again. What the server puts in the
  pages is the argument \<open>pages\<close>; \<open>s\<close> is what the callback \<open>fn\<close> captures, which outlives an error, so
  that the error is part of the result.
\<close>

fun scan_page :: "(string \<Rightarrow> 's \<Rightarrow> (gerror option \<times> 's) W) \<Rightarrow> string list \<Rightarrow> 's \<Rightarrow> (gerror option \<times> 's) W" where
  "scan_page fn [] s = retM (None, s)"
| "scan_page fn (k # ks) s =
     bindM (fn (trim_prefix k DefaultKeyPrefix) s) (\<lambda>(e, s1).
       (case e of Some x \<Rightarrow> retM (Some x, s1) | None \<Rightarrow> scan_page fn ks s1))"

fun valkey_scan_pages ::
  "env \<Rightarrow> string list list \<Rightarrow> (string \<Rightarrow> 's \<Rightarrow> (gerror option \<times> 's) W) \<Rightarrow> 's \<Rightarrow> (gerror option \<times> 's) W" where
  "valkey_scan_pages E [] fn s = retM (None, s)"
| "valkey_scan_pages E (page # pages) fn s =
     tryM (io E) (\<lambda>e. retM (Some (wrap_with [] (''upload: valkey scan (prefix='' @ DefaultKeyPrefix @ '')'') e), s))
       (\<lambda>_. bindM (scan_page fn page s) (\<lambda>(e, s1).
         (case e of Some x \<Rightarrow> retM (Some x, s1) | None \<Rightarrow> valkey_scan_pages E pages fn s1)))"

definition valkey_Scan ::
  "env \<Rightarrow> (string \<Rightarrow> string) \<Rightarrow> string list list \<Rightarrow> (string \<Rightarrow> 's \<Rightarrow> (gerror option \<times> 's) W) \<Rightarrow> 's \<Rightarrow> (gerror option \<times> 's) W" where
  "valkey_Scan E keyFunc pages fn s =
     (if keyFunc [] \<noteq> DefaultKeyPrefix
      then retM (Some (Foreign ''upload: Scan requires the default keyFunc (use NewValkeyRegistry)'' None), s)
      else valkey_scan_pages E pages fn s)"

section \<open>The interface TokenRegistry\<close>

record registry =
  rg_Put :: "presign_meta \<Rightarrow> int \<Rightarrow> unit W"
  rg_Get :: "string \<Rightarrow> presign_meta W"
  rg_Delete :: "string \<Rightarrow> unit W"

definition NewMemoryRegistry :: "env \<Rightarrow> registry" where
  "NewMemoryRegistry E = \<lparr>rg_Put = mem_Put E, rg_Get = mem_Get E, rg_Delete = mem_Delete E\<rparr>"

definition NewValkeyRegistryWithKeyer :: "env \<Rightarrow> (string \<Rightarrow> string) \<Rightarrow> registry" where
  "NewValkeyRegistryWithKeyer E keyFunc =
     \<lparr>rg_Put = valkey_Put E keyFunc, rg_Get = valkey_Get E keyFunc, rg_Delete = valkey_Delete E keyFunc\<rparr>"

definition NewValkeyRegistry :: "env \<Rightarrow> registry" where
  "NewValkeyRegistry E = NewValkeyRegistryWithKeyer E DefaultKey"

text \<open>
  What the services rely on. \<open>tok\<close> is what the registry holds, expired or not: a stored token that
  the encoding represents exactly is held, what Get returns was held, and Get drops at most the
  token asked for; Delete removes its token and no other. The database is not involved.
\<close>

locale token_registry =
  fixes R :: registry
    and tok :: "world \<Rightarrow> string \<rightharpoonup> presign_meta"
    and exact :: "presign_meta \<Rightarrow> bool"
  assumes keeps_reg: "keeps db_of (rg_Put R m ttl)" "keeps db_of (rg_Get R i)" "keeps db_of (rg_Delete R i)"
    and keeps_objs: "keeps w_objs (rg_Put R m ttl)" "keeps w_objs (rg_Get R i)" "keeps w_objs (rg_Delete R i)"
    and tok_ext: "ext_of v = ext_of w \<Longrightarrow> tok v = tok w"
    and put_held: "exact m \<Longrightarrow> rg_Put R m ttl w = (Inr (), w') \<Longrightarrow> tok w' = (tok w)(pm_upload_id m \<mapsto> m)"
    and get_held: "rg_Get R i w = (Inr m, w') \<Longrightarrow> tok w i = Some m \<and> tok w' = tok w"
    and get_drops: "rg_Get R i w = (Inl e, w') \<Longrightarrow> tok w' = tok w \<or> tok w' = (tok w)(i := None)"
    and delete_gone: "rg_Delete R i w = (Inr (), w') \<Longrightarrow> tok w' = (tok w)(i := None)"
begin

lemma get_unheld: "tok w i = None \<Longrightarrow> \<exists>e w'. rg_Get R i w = (Inl e, w')"
  using get_held [of i w] by (cases "rg_Get R i w"; cases "fst (rg_Get R i w)") auto

lemma get_only_held: "ran (tok (snd (rg_Get R i w))) \<subseteq> ran (tok w)"
proof (cases "rg_Get R i w")
  case (Pair r w')
  then show ?thesis using get_held [of i w] get_drops [of i w] by (cases r) (auto simp: ran_def split: if_splits)
qed

end

lemma keeps_mem [keeps_intros]:
  "keeps db_of get_mem" "keeps db_of (set_mem f)" "keeps w_objs get_mem" "keeps w_objs (set_mem f)"
  "keeps db_of get_kv" "keeps db_of (set_kv g)" "keeps w_objs get_kv" "keeps w_objs (set_kv g)"
  "keeps w_objs (time_Now E)" "keeps w_objs (io E)"
  by (auto simp: keeps_def get_mem_def set_mem_def get_kv_def set_kv_def db_of_def time_Now_def draw_def io_def)

lemma keeps_mem_ops:
  "keeps db_of (mem_Put E m ttl)" "keeps db_of (mem_Get E i)" "keeps db_of (mem_Delete E i)"
  "keeps w_objs (mem_Put E m ttl)" "keeps w_objs (mem_Get E i)" "keeps w_objs (mem_Delete E i)"
  unfolding mem_Put_def mem_Get_def mem_Delete_def by (intro keeps_intros)+

lemma keeps_kv_ops [keeps_intros]:
  "keeps db_of (kv_SET E k v s)" "keeps db_of (kv_GET E k)" "keeps db_of (kv_DEL E k)"
  "keeps w_objs (kv_SET E k v s)" "keeps w_objs (kv_GET E k)" "keeps w_objs (kv_DEL E k)"
  unfolding kv_SET_def kv_GET_def kv_DEL_def by (intro keeps_intros)+

lemma keeps_valkey_ops:
  "keeps db_of (valkey_Put E f m ttl)" "keeps db_of (valkey_Get E f i)" "keeps db_of (valkey_Delete E f i)"
  "keeps w_objs (valkey_Put E f m ttl)" "keeps w_objs (valkey_Get E f i)" "keeps w_objs (valkey_Delete E f i)"
  unfolding valkey_Put_def valkey_Get_def valkey_Delete_def IsExpired_def by (intro keeps_intros)+

lemma mem_Get_run:
  "mem_Get E i w =
     (case w_mem w i of
        None \<Rightarrow> (Inl token_not_found, w)
      | Some (m, t) \<Rightarrow> (if t < clock E (w_tick w) then Inl token_not_found else Inr m, w\<lparr>w_tick := Suc (w_tick w)\<rparr>))"
  by (simp add: mem_Get_def bindM_def get_mem_def time_Now_def draw_def split: option.splits)

definition mem_tok :: "world \<Rightarrow> string \<rightharpoonup> presign_meta" where
  "mem_tok w i = map_option fst (w_mem w i)"

interpretation mem: token_registry "NewMemoryRegistry E" mem_tok "\<lambda>_. True" for E
proof unfold_locales
  show "mem_tok v = mem_tok w" if "ext_of v = ext_of w" for v w :: world
    using that by (simp add: ext_of_def mem_tok_def fun_eq_iff)
  show "mem_tok w' = (mem_tok w)(pm_upload_id m \<mapsto> m)" if "rg_Put (NewMemoryRegistry E) m ttl w = (Inr (), w')" for m ttl w w'
    using that by (auto simp: NewMemoryRegistry_def mem_Put_def monad_simps get_mem_def set_mem_def time_Now_def draw_def
        mem_tok_def fun_eq_iff)
  show "mem_tok w i = Some m \<and> mem_tok w' = mem_tok w" if "rg_Get (NewMemoryRegistry E) i w = (Inr m, w')" for i w m w'
    using that by (cases "w_mem w i") (auto simp: NewMemoryRegistry_def mem_Get_run mem_tok_def fun_eq_iff split: if_splits)
  show "mem_tok w' = mem_tok w \<or> mem_tok w' = (mem_tok w)(i := None)"
    if "rg_Get (NewMemoryRegistry E) i w = (Inl e, w')" for i w e w'
    using that by (cases "w_mem w i") (auto simp: NewMemoryRegistry_def mem_Get_run mem_tok_def fun_eq_iff split: if_splits)
  show "mem_tok w' = (mem_tok w)(i := None)" if "rg_Delete (NewMemoryRegistry E) i w = (Inr (), w')" for i w w'
    using that by (auto simp: NewMemoryRegistry_def mem_Delete_def monad_simps get_mem_def set_mem_def mem_tok_def fun_eq_iff)
qed (simp_all add: NewMemoryRegistry_def keeps_mem_ops)

definition valkey_tok :: "env \<Rightarrow> (string \<Rightarrow> string) \<Rightarrow> world \<Rightarrow> string \<rightharpoonup> presign_meta" where
  "valkey_tok E keyFunc w i = (case w_kv w (keyFunc i) of None \<Rightarrow> None | Some (v, t) \<Rightarrow> meta_unmarshal E v)"

lemma kv_run:
  "kv_GET E k w = (Inr r, w') \<Longrightarrow> w_kv w' = w_kv w \<and> (\<forall>v. r = Some v \<longrightarrow> (\<exists>t. w_kv w k = Some (v, t)))"
  "kv_GET E k w = (Inl e, w') \<Longrightarrow> w_kv w' = w_kv w"
  "kv_DEL E k w = (Inr u, w') \<Longrightarrow> w_kv w' = (w_kv w)(k := None)"
  "kv_DEL E k w = (Inl e, w') \<Longrightarrow> w_kv w' = w_kv w"
  "kv_SET E k v secs w = (Inr u, w') \<Longrightarrow> \<exists>t. w_kv w' = (w_kv w)(k \<mapsto> (v, t))"
  by (auto simp: kv_GET_def kv_DEL_def kv_SET_def monad_simps get_kv_def set_kv_def io_def time_Now_def draw_def
      split: option.splits if_splits)

lemma kv_GET_cases:
  obtains (err) e w1 where "kv_GET E k w = (Inl e, w1)" | (ok) r w1 where "kv_GET E k w = (Inr r, w1)"
  by (metis old.sum.exhaust surj_pair)

lemma valkey_Get_run:
  "kv_GET E (f i) w = (Inl e, w1) \<Longrightarrow>
     valkey_Get E f i w = (Inl (wrap_with [] (''upload: valkey get (upload_id='' @ i @ '')'') e), w1)"
  "kv_GET E (f i) w = (Inr r, w1) \<Longrightarrow> valkey_Get E f i w =
     (case r of
        None \<Rightarrow> (Inl token_not_found, w1)
      | Some data \<Rightarrow>
          (case DecodePresignMeta E data of
             Inl e \<Rightarrow> (Inl e, w1)
           | Inr m \<Rightarrow>
               if pm_expires_at m < clock E (w_tick w1)
               then tryM (valkey_Delete E f i) (\<lambda>_. failM token_not_found) (\<lambda>_. failM token_not_found) (w1\<lparr>w_tick := Suc (w_tick w1)\<rparr>)
               else (Inr m, w1\<lparr>w_tick := Suc (w_tick w1)\<rparr>)))"
  by (simp_all add: valkey_Get_def IsExpired_def bindM_def wrapM_def time_Now_def draw_def split: option.splits sum.splits)

lemma DecodePresignMeta_Inr: "DecodePresignMeta E data = Inr m \<longleftrightarrow> meta_unmarshal E data = Some m"
  by (simp add: DecodePresignMeta_def split: option.splits)

lemma valkey_Get_Inr:
  assumes "valkey_Get E f i w = (Inr m, w')"
  shows "valkey_tok E f w i = Some m \<and> w_kv w' = w_kv w"
proof (cases rule: kv_GET_cases [of E "f i" w])
  case (err e w1)
  then show ?thesis using assms valkey_Get_run(1) [of E f i w, OF err] by simp
next
  case (ok r w1)
  have "\<exists>data. r = Some data \<and> meta_unmarshal E data = Some m \<and> w_kv w' = w_kv w1"
    using assms valkey_Get_run(2) [of E f i w, OF ok] by (auto simp: DecodePresignMeta_Inr tryM_iff split: option.splits sum.splits if_splits)
  then show ?thesis using kv_run(1) [OF ok] by (auto simp: valkey_tok_def)
qed

lemma valkey_Delete_kv:
  "valkey_Delete E f i w = (Inr u, w') \<Longrightarrow> w_kv w' = (w_kv w)(f i := None)"
  "valkey_Delete E f i w = (Inl e, w') \<Longrightarrow> w_kv w' = w_kv w"
  by (auto simp: valkey_Delete_def monad_simps dest: kv_run)

lemma valkey_Get_Inl:
  assumes "valkey_Get E f i w = (Inl e, w')"
  shows "w_kv w' = w_kv w \<or> w_kv w' = (w_kv w)(f i := None)"
proof (cases rule: kv_GET_cases [of E "f i" w])
  case (err e w1)
  then show ?thesis using assms valkey_Get_run(1) [of E f i w, OF err] kv_run(2) [OF err] by simp
next
  case (ok r w1)
  have kv: "w_kv w1 = w_kv w" using kv_run(1) [OF ok] by simp
  consider "w' = w1" | q where "valkey_Delete E f i (w1\<lparr>w_tick := Suc (w_tick w1)\<rparr>) = (q, w')"
    using assms valkey_Get_run(2) [of E f i w, OF ok] by (auto simp: tryM_iff split: option.splits sum.splits if_splits)
  then show ?thesis
  proof cases
    case (2 q)
    then show ?thesis using kv valkey_Delete_kv [of E f i "w1\<lparr>w_tick := Suc (w_tick w1)\<rparr>"] by (cases q) auto
  qed (simp add: kv)
qed

interpretation valkey: token_registry "NewValkeyRegistry E" "valkey_tok E DefaultKey" "meta_exact E" for E
proof unfold_locales
  have inj: "DefaultKey i = DefaultKey j \<longleftrightarrow> i = j" for i j by (simp add: DefaultKey_def)
  have set: "valkey_tok E DefaultKey w' = (valkey_tok E DefaultKey w)(i := None)"
    if "w_kv w' = (w_kv w)(DefaultKey i := None)" for w w' i
    using that inj by (auto simp: valkey_tok_def fun_eq_iff)
  have same: "valkey_tok E DefaultKey w' = valkey_tok E DefaultKey w" if "w_kv w' = w_kv w" for w w'
    using that by (simp add: valkey_tok_def fun_eq_iff)
  note d = NewValkeyRegistry_def NewValkeyRegistryWithKeyer_def
  show "valkey_tok E DefaultKey v = valkey_tok E DefaultKey w" if "ext_of v = ext_of w" for v w :: world
    using that by (intro same) (simp add: ext_of_def)
  show "valkey_tok E DefaultKey w' = (valkey_tok E DefaultKey w)(pm_upload_id m \<mapsto> m)"
    if "meta_exact E m" "rg_Put (NewValkeyRegistry E) m ttl w = (Inr (), w')" for m ttl w w'
  proof -
    have "kv_SET E (DefaultKey (pm_upload_id m)) (meta_marshal E m) (ttl div 1000000000) w = (Inr (), w')"
      using that(2) by (auto simp: d valkey_Put_def meta_Encode_def monad_simps)
    then obtain t where "w_kv w' = (w_kv w)(DefaultKey (pm_upload_id m) \<mapsto> (meta_marshal E m, t))" using kv_run(5) by blast
    then show ?thesis using inj meta_unmarshal_marshal [OF that(1)] by (auto simp: valkey_tok_def fun_eq_iff)
  qed
  show "valkey_tok E DefaultKey w i = Some m \<and> valkey_tok E DefaultKey w' = valkey_tok E DefaultKey w"
    if "rg_Get (NewValkeyRegistry E) i w = (Inr m, w')" for i w m w'
  proof -
    have "valkey_Get E DefaultKey i w = (Inr m, w')" using that by (simp add: d)
    from valkey_Get_Inr [OF this] show ?thesis using same by blast
  qed
  show "valkey_tok E DefaultKey w' = valkey_tok E DefaultKey w \<or> valkey_tok E DefaultKey w' = (valkey_tok E DefaultKey w)(i := None)"
    if "rg_Get (NewValkeyRegistry E) i w = (Inl e, w')" for i w e w'
  proof -
    have "valkey_Get E DefaultKey i w = (Inl e, w')" using that by (simp add: d)
    from valkey_Get_Inl [OF this] show ?thesis using same set by blast
  qed
  show "valkey_tok E DefaultKey w' = (valkey_tok E DefaultKey w)(i := None)"
    if "rg_Delete (NewValkeyRegistry E) i w = (Inr (), w')" for i w w'
  proof -
    have "valkey_Delete E DefaultKey i w = (Inr (), w')" using that by (simp add: d)
    from valkey_Delete_kv(1) [OF this] show ?thesis using set by blast
  qed
qed (simp_all add: NewValkeyRegistry_def NewValkeyRegistryWithKeyer_def keeps_valkey_ops)

end
