(* ===== verification/UploadSvc.thy ===== *)
theory UploadSvc
  imports Upload VfsSpec Crypto
begin

text \<open>
  The upload service (internal/upload/service.go) over its three collaborators: a registry of
  tokens, the object store and the inode operations; and the S3 client that is its object store in
  production (internal/upload/s3/client.go). The path service is taken to be present.
\<close>

section \<open>The object store\<close>

record object_store =
  os_PresignPut :: "string \<Rightarrow> string \<Rightarrow> int \<Rightarrow> string W"
  os_PresignGet :: "string \<Rightarrow> string \<Rightarrow> int \<Rightarrow> string W"
  os_Exists :: "string \<Rightarrow> string \<Rightarrow> bool W"
  os_Delete :: "string \<Rightarrow> string \<Rightarrow> unit W"

text \<open>
  What the AWS SDK contributes: the presigned URLs, and the keys a batch deletion reports as not
  deleted at the n-th draw. The objects are the set \<open>w_objs\<close>; a call that does not reach the service or is
  refused there fails.
\<close>

record s3_env =
  s3_put_url :: "string \<Rightarrow> string \<Rightarrow> int \<Rightarrow> string"
  s3_get_url :: "string \<Rightarrow> string \<Rightarrow> int \<Rightarrow> string"
  s3_refused :: "nat \<Rightarrow> string \<Rightarrow> bool"

text \<open>\<open>s3.Config\<close> and the client built from it.\<close>

record s3_config =
  s3c_region :: string
  s3c_endpoint :: "string option"
  s3c_access_key :: string
  s3c_secret_key :: string
  s3c_path_style :: bool

record s3_client =
  s3l_region :: string
  s3l_endpoint :: "string option"
  s3l_credentials :: "(string \<times> string) option"
  s3l_path_style :: bool

definition s3_NewClient :: "env \<Rightarrow> s3_config \<Rightarrow> s3_client W" where
  "s3_NewClient E cfg =
     (if s3c_region cfg = [] then failM (Foreign ''s3: region is required'' None)
      else seqM (wrapM [] ''s3: load aws config'' (io E))
        (retM \<lparr>s3l_region = s3c_region cfg,
               s3l_endpoint = (case s3c_endpoint cfg of None \<Rightarrow> None | Some e \<Rightarrow> if e \<noteq> [] then Some e else None),
               s3l_credentials = (if s3c_access_key cfg \<noteq> [] \<and> s3c_secret_key cfg \<noteq> []
                                  then Some (s3c_access_key cfg, s3c_secret_key cfg) else None),
               s3l_path_style = s3c_path_style cfg\<rparr>))"

definition get_objs :: "(string \<times> string) set W" where
  "get_objs = (\<lambda>w. (Inr (w_objs w), w))"

definition set_objs :: "(string \<times> string) set \<Rightarrow> unit W" where
  "set_objs s = (\<lambda>w. (Inr (), w\<lparr>w_objs := s\<rparr>))"

definition s3_DeleteObject :: "env \<Rightarrow> string \<Rightarrow> string \<Rightarrow> unit W" where
  "s3_DeleteObject E bucket key = seqM (io E) (bindM get_objs (\<lambda>s. set_objs (s - {(bucket, key)})))"

text \<open>The reply of the batch deletion lists the keys that were not deleted; the client drops the reply.\<close>

definition s3_DeleteObjects :: "env \<Rightarrow> s3_env \<Rightarrow> string \<Rightarrow> string list \<Rightarrow> unit W" where
  "s3_DeleteObjects E X bucket keys =
     (if keys = [] then retM ()
      else bindM (draw (s3_refused X)) (\<lambda>refused. seqM (io E) (bindM get_objs (\<lambda>s.
        set_objs (s - {(bucket, k) | k. k \<in> set keys \<and> \<not> refused k})))))"

definition s3_ObjectExists :: "env \<Rightarrow> string \<Rightarrow> string \<Rightarrow> bool W" where
  "s3_ObjectExists E bucket key =
     seqM (wrapM [] ''s3: head object'' (io E)) (bindM get_objs (\<lambda>s. retM ((bucket, key) \<in> s)))"

definition s3_GetPresignedUploadURL :: "env \<Rightarrow> s3_env \<Rightarrow> string \<Rightarrow> string \<Rightarrow> int \<Rightarrow> string W" where
  "s3_GetPresignedUploadURL E X bucket key expiry = seqM (io E) (retM (s3_put_url X bucket key expiry))"

definition s3_GetPresignedDownloadURL :: "env \<Rightarrow> s3_env \<Rightarrow> string \<Rightarrow> string \<Rightarrow> int \<Rightarrow> string W" where
  "s3_GetPresignedDownloadURL E X bucket key expiry = seqM (io E) (retM (s3_get_url X bucket key expiry))"

definition s3_store :: "env \<Rightarrow> s3_env \<Rightarrow> object_store" where
  "s3_store E X = \<lparr>os_PresignPut = s3_GetPresignedUploadURL E X, os_PresignGet = s3_GetPresignedDownloadURL E X,
     os_Exists = s3_ObjectExists E, os_Delete = s3_DeleteObject E\<rparr>"

section \<open>service.go\<close>

record presign_info =
  pi_upload_id :: string
  pi_method :: string
  pi_url :: string
  pi_key :: string
  pi_expires_at :: time

text \<open>\<open>path.Join\<close>: the elements that are not empty, joined and cleaned.\<close>

definition path_Join :: "string list \<Rightarrow> string" where
  "path_Join es =
     (let ne = filter (\<lambda>e. e \<noteq> []) es in if ne = [] then [] else path_Clean (join_char CHR ''/'' ne))"

definition upload_key :: "string \<Rightarrow> string \<Rightarrow> string" where
  "upload_key driveID uploadID = path_Join [''drives'', driveID, ''uploads'', uploadID]"

definition InitiateUpload ::
  "env \<Rightarrow> cipher \<Rightarrow> registry \<Rightarrow> object_store \<Rightarrow> string \<Rightarrow> string \<Rightarrow> string \<Rightarrow> string option \<Rightarrow> int option \<Rightarrow> int \<Rightarrow> presign_info W" where
  "InitiateUpload E c R S userID driveID destPath contentType contentLength expiry =
     bindM (wrapM [] (''upload: initiate storage lookup (drive_id='' @ driveID @ '')'') (DriveGetStorage E c driveID)) (\<lambda>storage.
     let bucket = s_bucket storage in
     if bucket = [] then failM (New KindFailedPrecondition (''upload: drive has no bucket configured (drive_id='' @ driveID @ '')''))
     else
       bindM (uuid_New E) (\<lambda>u. bindM (time_Now E) (\<lambda>now.
       let uploadID = uuid_text E u; key = upload_key driveID uploadID;
           ids = '' (drive_id='' @ driveID @ '', upload_id='' @ uploadID @ '')'';
           meta = \<lparr>pm_upload_id = uploadID, pm_drive_id = driveID, pm_user_id = userID, pm_path = destPath, pm_bucket = bucket,
                   pm_key = key, pm_content_type = contentType, pm_size = contentLength, pm_expires_at = now + expiry\<rparr>
       in
       seqM (wrapM [] (''upload: initiate registry put'' @ ids) (rg_Put R meta expiry))
         (tryM (os_PresignPut S bucket key expiry)
            (\<lambda>e. tryM (rg_Delete R uploadID)
              (\<lambda>_. failM (wrap_with [] (''upload: initiate presign'' @ ids) e))
              (\<lambda>_. failM (wrap_with [] (''upload: initiate presign'' @ ids) e)))
            (\<lambda>url. retM \<lparr>pi_upload_id = uploadID, pi_method = ''PUT'', pi_url = url, pi_key = key,
                         pi_expires_at = pm_expires_at meta\<rparr>)))))"

text \<open>The object that a completed upload puts at its path.\<close>

definition upload_content :: "presign_meta \<Rightarrow> string option \<Rightarrow> object_content" where
  "upload_content meta checksum =
     \<lparr>o_bucket = pm_bucket meta, o_key = pm_key meta,
      o_mime = (case pm_content_type meta of None \<Rightarrow> [] | Some ct \<Rightarrow> ct),
      o_checksum = (case checksum of None \<Rightarrow> [] | Some cs \<Rightarrow> cs)\<rparr>"

text \<open>The body of the transaction. When Link fails, the created node is deleted again.\<close>

definition complete_tx :: "env \<Rightarrow> presign_meta \<Rightarrow> string \<Rightarrow> int \<Rightarrow> string option \<Rightarrow> node W" where
  "complete_tx E meta driveID contentLength checksum =
     bindM (wrapM [] (''upload: complete resolve parent (path='' @ pm_path meta @ '')'')
              (ResolveParentNodeID E driveID (pm_path meta))) (\<lambda>(parentID, name).
     bindM (wrapM [] (''upload: complete load parent (parent_id='' @ uuid_text E parentID @ '')'') (GetByID E parentID)) (\<lambda>parent.
     bindM (CreateObject E (upload_content meta checksum) contentLength) (\<lambda>created.
       tryM (Link E (Some parent) name (Some created))
         (\<lambda>lerr.
           let id = ''upload: complete link (node_id='' @ uuid_text E (n_id created) in
           tryM (Delete_op E (n_id created))
             (\<lambda>derr. failM (wrap_with [] (id @ '', cleanup_err='' @ error_text derr @ '')'') lerr))
             (\<lambda>_. failM (wrap_with [] (id @ '')'') lerr)))
         (\<lambda>(p, n). retM n))))"

text \<open>The checks of a token against the request, in the order of the code.\<close>

definition token_check :: "presign_meta \<Rightarrow> string \<Rightarrow> string \<Rightarrow> int \<Rightarrow> gerror option" where
  "token_check meta userID driveID contentLength =
     (if pm_user_id meta \<noteq> userID then Some (New KindPermissionDenied ''upload: token does not match user'')
      else if pm_drive_id meta \<noteq> driveID then Some (New KindInvalidArgument ''upload: token does not match drive'')
      else (case pm_size meta of
              None \<Rightarrow> None
            | Some s \<Rightarrow>
                if s \<noteq> contentLength
                then Some (New KindInvalidArgument (''upload: complete size mismatch (expected='' @ itoa_int s @
                       '', got='' @ itoa_int contentLength @ '')''))
                else None))"

lemma token_check_None:
  "token_check m u d len = None \<longleftrightarrow> pm_user_id m = u \<and> pm_drive_id m = d \<and> (pm_size m = None \<or> pm_size m = Some len)"
  by (auto simp: token_check_def split: option.splits)

definition CompleteUpload ::
  "env \<Rightarrow> registry \<Rightarrow> object_store \<Rightarrow> string \<Rightarrow> string \<Rightarrow> string \<Rightarrow> int \<Rightarrow> string option \<Rightarrow> node W" where
  "CompleteUpload E R S userID driveID uploadID contentLength checksum =
     bindM (wrapM [] (''upload: complete token get (upload_id='' @ uploadID @ '')'') (rg_Get R uploadID)) (\<lambda>meta.
       (case token_check meta userID driveID contentLength of
          Some e \<Rightarrow> failM e
        | None \<Rightarrow>
            bindM (wrapM [] (''upload: complete object exists check (bucket='' @ pm_bucket meta @ '', key='' @ pm_key meta @ '')'')
                     (os_Exists S (pm_bucket meta) (pm_key meta))) (\<lambda>exists.
            if \<not> exists then failM (New KindNotFound ''upload: S3 object was not uploaded'')
            else
              bindM (with_tx E (complete_tx E meta driveID contentLength checksum)) (\<lambda>n.
                seqM (wrapM [] (''upload: complete cleanup token (upload_id='' @ uploadID @ '')'') (rg_Delete R uploadID))
                  (retM n)))))"

definition PresignDownload :: "env \<Rightarrow> object_store \<Rightarrow> string \<Rightarrow> string \<Rightarrow> string \<Rightarrow> int \<Rightarrow> presign_info W" where
  "PresignDownload E S userID driveID filePath expiry =
     bindM (wrapM [] (''upload: presign download resolve (path='' @ filePath @ '')'') (ResolveNodeID E driveID filePath)) (\<lambda>nodeID.
     bindM (wrapM [] (''upload: presign download load node (node_id='' @ uuid_text E nodeID @ '')'') (GetByID E nodeID)) (\<lambda>n.
       if \<not> is_object n then
         failM (New KindInvalidArgument (''upload: presign download target is not an object (type='' @ kind_rune (n_kind n) @ '')''))
       else
         bindM (wrapM [] (''upload: presign download read object (node_id='' @ uuid_text E nodeID @ '')'') (liftM (read_object n))) (\<lambda>oc.
         bindM (wrapM [] (''upload: presign download s3 url (bucket='' @ o_bucket oc @ '', key='' @ o_key oc @ '')'')
                  (os_PresignGet S (o_bucket oc) (o_key oc) expiry)) (\<lambda>url.
         bindM (time_Now E) (\<lambda>now.
           retM \<lparr>pi_upload_id = [], pi_method = ''GET'', pi_url = url, pi_key = [], pi_expires_at = now + expiry\<rparr>)))))"

definition upload_DeleteObject :: "object_store \<Rightarrow> string \<Rightarrow> string \<Rightarrow> unit W" where
  "upload_DeleteObject S bucket key =
     wrapM [] (''upload: delete object (bucket='' @ bucket @ '', key='' @ key @ '')'') (os_Delete S bucket key)"

section \<open>The interface ObjectStore\<close>

text \<open>
  What the service relies on: the store does not touch the database or the tokens; Exists reports
  what is there, Delete removes exactly its object, and nothing else changes the objects.
\<close>

definition tokens_of :: "world \<Rightarrow> (string \<rightharpoonup> string \<times> time) \<times> (string \<rightharpoonup> presign_meta \<times> time)" where
  "tokens_of w = (w_kv w, w_mem w)"

locale object_service =
  fixes S :: object_store
  assumes keeps_db: "keeps db_of (os_PresignPut S b k x)" "keeps db_of (os_PresignGet S b k x)"
      "keeps db_of (os_Exists S b k)" "keeps db_of (os_Delete S b k)"
    and keeps_tokens: "keeps tokens_of (os_PresignPut S b k x)" "keeps tokens_of (os_PresignGet S b k x)"
      "keeps tokens_of (os_Exists S b k)" "keeps tokens_of (os_Delete S b k)"
    and keeps_objects: "keeps w_objs (os_PresignPut S b k x)" "keeps w_objs (os_PresignGet S b k x)" "keeps w_objs (os_Exists S b k)"
    and exists_iff: "os_Exists S b k w = (Inr r, w') \<Longrightarrow> r \<longleftrightarrow> (b, k) \<in> w_objs w"
    and obj_deleted: "os_Delete S b k w = (Inr u, w') \<Longrightarrow> w_objs w' = w_objs w - {(b, k)}"
    and obj_delete_fails: "os_Delete S b k w = (Inl e, w') \<Longrightarrow> w_objs w' = w_objs w"
begin

lemma delete_subset: "w_objs (snd (os_Delete S b k w)) \<subseteq> w_objs w"
  by (cases "os_Delete S b k w"; cases "fst (os_Delete S b k w)") (auto dest: obj_deleted obj_delete_fails)

end

lemma keeps_objs_ops [keeps_intros]:
  "keeps db_of get_objs" "keeps db_of (set_objs s)" "keeps tokens_of get_objs" "keeps tokens_of (set_objs s)"
  "keeps w_objs get_objs" "keeps tokens_of (io E)" "keeps db_of (draw g)" "keeps tokens_of (draw g)" "keeps w_objs (draw g)"
  by (auto simp: keeps_def get_objs_def set_objs_def db_of_def tokens_of_def io_def draw_def)

interpretation s3: object_service "s3_store E X" for E X
proof unfold_locales
  show "r \<longleftrightarrow> (b, k) \<in> w_objs w" if "os_Exists (s3_store E X) b k w = (Inr r, w')" for b k w r w'
    using that by (auto simp: s3_store_def s3_ObjectExists_def monad_simps get_objs_def io_def split: option.splits)
  show "w_objs w' = w_objs w - {(b, k)}" if "os_Delete (s3_store E X) b k w = (Inr u, w')" for b k w u w'
    using that by (auto simp: s3_store_def s3_DeleteObject_def monad_simps get_objs_def set_objs_def io_def split: option.splits)
  show "w_objs w' = w_objs w" if "os_Delete (s3_store E X) b k w = (Inl e, w')" for b k w e w'
    using that by (auto simp: s3_store_def s3_DeleteObject_def monad_simps get_objs_def set_objs_def io_def split: option.splits)
qed (simp_all add: s3_store_def s3_GetPresignedUploadURL_def s3_GetPresignedDownloadURL_def s3_ObjectExists_def
    s3_DeleteObject_def keeps_intros)

section \<open>The transaction of a completion\<close>

lemma complete_tx_safe [txsafe_intros]: "tx_safe (complete_tx E meta d len cs)"
proof -
  have "tx_safe (ResolveParentNodeID E d p)" for p by (intro tx_safe_quiet quiet_vfs_reads)
  then show ?thesis unfolding complete_tx_def Let_def Delete_op_def by (intro txsafe_intros)
qed

lemma ResolveParentNodeID_Inr:
  assumes "ResolveParentNodeID E d p w = (Inr (i, name), w')" "client w = w_db w"
  obtains root dir where "drive_root (w_db w) d root" "parent_of E (w_db w) root p dir name" "n_id dir = i" "same_store w' w"
proof -
  obtain root w1 dir where g: "GetRootNodeID E d w = (Inr root, w1)"
    and r: "resolveParent E root p (w1\<lparr>w_cache := Map.empty\<rparr>) = (Inr (dir, name), w')" "n_id dir = i"
    using assms(1) by (auto simp: ResolveParentNodeID_def bindM_Inr_iff seqM_Inr_iff)
  have s: "same_store w1 w" "drive_root (w_db w) d root" using GetRootNodeID_Inr [OF g] assms(2) by simp_all
  note q = resolveParent_Inr [OF cache_ok_empty r(1)]
  have "w_db w1 = w_db w" using s(1) by (simp add: same_store_def)
  then show thesis using that [OF s(2)] q(1) r(2) same_store_trans [OF q(3)] s(1) by (simp add: same_store_def)
qed

text \<open>The object node as it is stored: created with no link, then linked once.\<close>

lemma created_then_linked:
  assumes "ids_ok d" "fresh_node k c sz n0" "k \<le> 4" "node_at d (n_id n0) = None" "n_id p \<noteq> n_id n0"
    "n = (relinked (n_nlink n0 + 1) now r n0)\<lparr>n_stale := r\<rparr>"
  shows "node_at (set_node n (set_node p (set_node n0 d))) =
    (node_at d)(n_id p \<mapsto> stored (node_at d (n_id p)) p, n_id n0 \<mapsto> stored None n)"
proof -
  have "stored (Some (stored None n0)) n = stored None n"
    using assms(2,3,6) by (simp add: stored_def relinked_def fresh_node_def parse_entKind)
  moreover have "n_id n = n_id n0" using assms(6) by (simp add: relinked_def)
  ultimately show ?thesis using assms(1,4,5) by (auto simp: node_at_set ids_ok_set fun_eq_iff)
qed

lemma CreateObject_Inr:
  assumes "CreateObject E oc sz w = (Inr n, w')"
  obtains n0 where "fresh_node NodeKindObject (object_marshal oc) sz n0" "n = n0\<lparr>n_stale := n_rev n0\<rparr>"
    "client w' = set_node n0 (client w)" "current (client w) n0"
proof -
  obtain n0 w1 where n0: "NewObject E oc sz w = (Inr n0, w1)" "repo_save E n0 w1 = (Inr n, w')"
    using assms by (auto simp: CreateObject_def create_def tryM_iff wrapM_Inr_iff)
  have "quiet (NewObject E oc sz)" by (intro quiet_intros)
  then have "client w1 = client w" using n0(1) by (rule quiet_client)
  then show thesis using that [OF NewObject_fresh [OF n0(1)]] save_client [OF n0(2)] by simp
qed

lemma complete_tx_created:
  assumes w: "w_tx w = None" "nodes_ok E (w_db w)" "revised E (w_db w)" "utf8_path (pm_path meta)"
    and c: "with_tx E (complete_tx E meta d len cs) w = (Inr n, w')"
  shows "created E d (pm_path meta) NodeKindObject (object_marshal (upload_content meta cs)) len w n w'"
proof -
  let ?c = "object_marshal (upload_content meta cs)"
  have id: "ids_ok (w_db w)" using w(2) by (simp add: nodes_ok_def)
  obtain v v' where b: "complete_tx E meta d len cs v = (Inr n, v')" "w_tx v \<noteq> None" "w_db v = w_db w" "client v = w_db w"
    "w_db w' = client v'" "w_tx w' = None" by (rule committed_body [OF complete_tx_safe w(1) c])
  obtain i name v1 parent v2 n1 v3 p2 where r: "ResolveParentNodeID E d (pm_path meta) v = (Inr (i, name), v1)"
    and g: "GetByID E i v1 = (Inr parent, v2)" and o: "CreateObject E (upload_content meta cs) len v2 = (Inr n1, v3)"
    and l: "Link E (Some parent) name (Some n1) v3 = (Inr (p2, n), v')"
    using b(1) by (fastforce simp: complete_tx_def bindM_Inr_iff wrapM_Inr_iff tryM_iff Let_def)
  obtain root dir where pr: "drive_root (w_db w) d root" "parent_of E (w_db w) root (pm_path meta) dir name" "n_id dir = i"
    and s1: "same_store v1 v" using ResolveParentNodeID_Inr [OF r] b(3,4) by auto
  have v1: "w_db v1 = w_db w" "client v1 = w_db w" "w_tx v1 \<noteq> None"
    using s1 b(2-4) by (auto simp: same_store_def client_def split: option.splits)
  have "node_at (w_db w) i = Some parent" using GetByID_Inr [OF g] v1 by simp
  then have par: "parent = dir" "node_at (w_db w) (n_id parent) = Some parent" using parent_stored(1) [OF id pr(2)] pr(3) by auto
  have v2: "client v2 = w_db w" "w_tx v2 \<noteq> None"
    using quiet_client [OF quiet_GetByID g] quiet_db [OF quiet_GetByID g] v1 by simp_all
  obtain n0 where n0: "fresh_node NodeKindObject ?c len n0" "n1 = n0\<lparr>n_stale := n_rev n0\<rparr>"
    "client v3 = set_node n0 (w_db w)" "current (w_db w) n0"
    using CreateObject_Inr [OF o] v2 by metis
  have f: "n_kind n0 = NodeKindObject" "n_content n0 = Some ?c" "n_size n0 = len" "n_nlink n0 = 0" "n_stale n0 = []"
    using n0(1) by (simp_all add: fresh_node_def)
  have fresh: "node_at (w_db w) (n_id n0) = None" using current_new [OF w(3) n0(4)] f(5) by simp
  have ne: "n_id parent \<noteq> n_id n0" using par(2) fresh by auto
  have "tx_safe (CreateObject E (upload_content meta cs) len)" by (intro txsafe_intros)
  then have "w_tx v3 \<noteq> None" using o v2(2) unfolding tx_safe_def by (metis snd_conv)
  then have lb: "link_body E parent name n1 v3 = (Inr (p2, n), v')" using l by (simp add: Link_def tx.run_nested)
  obtain p1 w1 now rr where a: "AddEntry E name n1 parent v3 = (Inr p1, w1)" "p2 = p1\<lparr>n_stale := n_rev p1\<rparr>"
    "n = (relinked (n_nlink n1 + 1) now rr n1)\<lparr>n_stale := rr\<rparr>" "client v' = set_node n (set_node p2 (client v3))"
    by (rule link_body_Inr [OF lb])
  have "node_ok E parent" using par(2) w(2) by (auto simp: nodes_ok_def)
  moreover have "is_dir parent" using a(1) by (auto simp: AddEntry_def is_dir_def split: if_splits)
  ultimately obtain dc where dc: "holds_dir E parent dc" by (auto simp: node_ok_def dir_ok_def)
  have v: "valid_utf8 name" using pr(2) w(4) by (auto simp: parent_of_def utf8_path_def)
  note h = AddEntry_holds [OF dc v a(1)]
  have "find_entry dc name = None" using a(1) AddEntry_Inr_iff [OF dc] by blast
  moreover have "n = (relinked (n_nlink n0 + 1) now rr n0)\<lparr>n_stale := rr\<rparr>" using a(3) n0(2) by (simp add: relinked_def)
  moreover have i2: "n_id p2 = n_id parent" using h a(2) by simp
  ultimately have at: "node_at (w_db w') = (node_at (w_db w))(n_id parent \<mapsto> stored (node_at (w_db w) (n_id parent)) p2, n_id n0 \<mapsto> stored None n)"
    using created_then_linked [OF id n0(1) _ fresh, where p = p2 and n = n and now = now and r = rr] ne b(5) a(4) n0(3) by simp
  have nn: "n_id n = n_id n0" "n_kind n = NodeKindObject" "n_content n = Some ?c" "n_size n = len" "n_nlink n = 1"
    using a(3) n0(2) f by (simp_all add: relinked_def)
  have "entry_of name n = entry_of name n1" using nn f n0(2) by (simp add: entry_of_def)
  then have hd: "holds_dir E (stored (node_at (w_db w) (n_id parent)) p2) (Some (entries dc @ [entry_of name n]))"
    using h a(2) by (intro holds_dir_stored) simp
  have others: "w_db w' = (w_db w)\<lparr>t_nodes := t_nodes (w_db w')\<rparr>" using b(5) a(4) n0(3) by (simp add: set_node_def)
  have "added E (w_db w) root (pm_path meta) n (w_db w')"
    unfolding added_def
    by (rule exI [of _ dir], rule exI [of _ name], rule exI [of _ dc], rule exI [of _ "stored (node_at (w_db w) (n_id parent)) p2"],
        intro conjI others)
      (use pr(2) dc hd at par(1) \<open>find_entry dc name = None\<close> fresh nn(1) i2 in simp_all)
  then show ?thesis using pr(1) b(6) nn by (auto simp: created_def)
qed

section \<open>What the service does\<close>

lemma keeps_repo [keeps_intros]: "keeps ext_of (repo_save E n)" "keeps ext_of (repo_delete E i)"
  unfolding repo_save_def repo_delete_def existsTx_def update_node_def insert_node_def by (intro keeps_intros)+

lemma keeps_complete_tx: "keeps ext_of (complete_tx E meta d len cs)"
proof -
  have "keeps ext_of (ResolveParentNodeID E d p)" "keeps ext_of (GetByID E i)" "keeps ext_of (NewObject E oc sz)"
    "keeps ext_of (AddEntry E name c n)" for p i oc sz name c n
    by (intro keeps_quiet quiet_vfs_reads quiet_GetByID quiet_intros)+
  note k = this
  have "keeps ext_of (link_body E p name c)" for p name c
    unfolding link_body_def by (intro keeps_intros k)
  then have "keeps ext_of (Link E p name c)" for p name c
    unfolding Link_def by (auto intro!: keeps_intros split: option.splits)
  moreover have "keeps ext_of (CreateObject E oc sz)" for oc sz
    unfolding CreateObject_def create_def by (intro keeps_intros k)
  ultimately show ?thesis unfolding complete_tx_def Let_def Delete_op_def by (intro keeps_intros k)
qed

lemma created_cong: "w_db v = w_db w \<Longrightarrow> db_of v' = db_of w' \<Longrightarrow> created E d p k c sz v n v' = created E d p k c sz w n w'"
  by (simp add: created_def db_of_def)

locale upload_flow = token_registry R tok exact + object_service S
  for R :: registry and tok :: "world \<Rightarrow> string \<rightharpoonup> presign_meta" and exact :: "presign_meta \<Rightarrow> bool" and S :: object_store
begin

text \<open>The steps of a completion up to its transaction.\<close>

lemma complete_start:
  assumes "CompleteUpload E R S u d i len cs w = (r, w')"
  obtains (refused) e where "r = Inl e" "db_of w' = db_of w"
  | (checked) m w2 where "tok w i = Some m" "token_check m u d len = None" "(pm_bucket m, pm_key m) \<in> w_objs w"
      "db_of w2 = db_of w" "tok w2 = tok w"
      "bindM (with_tx E (complete_tx E m d len cs)) (\<lambda>n. seqM
        (wrapM [] (''upload: complete cleanup token (upload_id='' @ i @ '')'') (rg_Delete R i)) (retM n)) w2 = (r, w')"
proof (cases "rg_Get R i w")
  case (Pair g w1)
  have k1: "db_of w1 = db_of w" "w_objs w1 = w_objs w"
    using keepsD [OF keeps_reg(2) Pair] keepsD [OF keeps_objs(2) Pair] by simp_all
  show thesis
  proof (cases g)
    case (Inl e)
    then have "\<exists>e. r = Inl e" "w' = w1" using assms Pair by (auto simp: CompleteUpload_def)
    then show thesis using refused k1 by blast
  next
    case (Inr m)
    have held: "tok w i = Some m" "tok w1 = tok w" using get_held Pair Inr by auto
    show thesis
    proof (cases "token_check m u d len")
      case (Some e)
      then have "\<exists>e. r = Inl e" "w' = w1" using assms Pair Inr by (auto simp: CompleteUpload_def)
      then show thesis using refused k1 by blast
    next
      case None
      obtain x w2 where x: "os_Exists S (pm_bucket m) (pm_key m) w1 = (x, w2)" by fastforce
      have k2: "db_of w2 = db_of w" "ext_of w2 = ext_of w1"
        using keepsD [OF keeps_db(3) x] k1 keepsD [OF keeps_tokens(3) x] keepsD [OF keeps_objects(3) x]
        by (simp_all add: ext_of_def tokens_of_def)
      have t2: "tok w2 = tok w" using tok_ext [OF k2(2)] held(2) by simp
      show thesis
      proof (cases x)
        case (Inl e)
        then have "\<exists>e. r = Inl e" "w' = w2" using assms Pair Inr None x by (auto simp: CompleteUpload_def)
        then show thesis using refused k2 by blast
      next
        case ex: (Inr b)
        then have b: "b \<longleftrightarrow> (pm_bucket m, pm_key m) \<in> w_objs w" using exists_iff [of "pm_bucket m" "pm_key m" w1 b w2] x k1 by simp
        show thesis
        proof (cases b)
          case True
          then show thesis using checked [OF held(1) None _ k2(1) t2] assms Pair Inr None x ex b by (simp add: CompleteUpload_def)
        next
          case False
          then have "\<exists>e. r = Inl e" "w' = w2" using assms Pair Inr None x ex by (auto simp: CompleteUpload_def)
          then show thesis using refused k2 by blast
        qed
      qed
    qed
  qed
qed

lemma complete_Inr:
  assumes w: "w_tx w = None" "nodes_ok E (w_db w)" "revised E (w_db w)"
    and p: "\<And>m. tok w i = Some m \<Longrightarrow> utf8_path (pm_path m)"
    and c: "CompleteUpload E R S u d i len cs w = (Inr n, w')"
  shows "\<exists>m. tok w i = Some m \<and> token_check m u d len = None \<and> (pm_bucket m, pm_key m) \<in> w_objs w \<and>
    created E d (pm_path m) NodeKindObject (object_marshal (upload_content m cs)) len w n w' \<and>
    tok w' = (tok w)(i := None)"
proof (cases rule: complete_start [OF c])
  case (2 m w2)
  obtain w3 where t: "with_tx E (complete_tx E m d len cs) w2 = (Inr n, w3)" and d: "rg_Delete R i w3 = (Inr (), w')"
    using 2(6) by (auto simp: bindM_Inr_iff seqM_Inr_iff wrapM_Inr_iff)
  have w2: "w_tx w2 = None" "w_db w2 = w_db w" using 2(4) w(1) by (simp_all add: db_of_def)
  have "created E d (pm_path m) NodeKindObject (object_marshal (upload_content m cs)) len w2 n w3"
    using w w2 p [OF 2(1)] by (intro complete_tx_created t) simp_all
  moreover have "db_of w' = db_of w3" by (rule keepsD [OF keeps_reg(3) d])
  ultimately have cr: "created E d (pm_path m) NodeKindObject (object_marshal (upload_content m cs)) len w n w'"
    using created_cong [OF w2(2)] by metis
  have "tok w3 = tok w2" by (rule tok_ext) (rule keepsD [OF keeps_with_tx [OF keeps_complete_tx] t])
  then have "tok w' = (tok w)(i := None)" using delete_gone [of i w3 w'] d 2(5) by simp
  then show ?thesis using 2 cr by blast
qed simp

lemma complete_Inl:
  assumes w: "w_tx w = None" and c: "CompleteUpload E R S u d i len cs w = (Inl e, w')"
  shows "w_tx w' = None \<and> (w_db w' = w_db w \<or> (\<exists>v e0. rg_Delete R i v = (Inl e0, w') \<and>
    e = wrap_with [] (''upload: complete cleanup token (upload_id='' @ i @ '')'') e0))"
proof (cases rule: complete_start [OF c])
  case 1
  then show ?thesis using w by (simp add: db_of_def)
next
  case (2 m w2)
  have w2: "w_tx w2 = None" "w_db w2 = w_db w" using 2(4) w by (simp_all add: db_of_def)
  have at: "atomic (with_tx E (complete_tx E m d len cs))" by (intro with_tx_atomic complete_tx_safe)
  consider "with_tx E (complete_tx E m d len cs) w2 = (Inl e, w')"
    | n w3 e0 where "with_tx E (complete_tx E m d len cs) w2 = (Inr n, w3)" "rg_Delete R i w3 = (Inl e0, w')"
        "e = wrap_with [] (''upload: complete cleanup token (upload_id='' @ i @ '')'') e0"
    using 2(6) by (auto simp: bindM_Inl_iff seqM_Inl_iff wrapM_Inl_iff)
  then show ?thesis
  proof cases
    case 1
    then show ?thesis using atomicD [OF at w2(1)] w2(2) by metis
  next
    case (2 n w3 e0)
    have "w_tx w3 = None" using at w2(1) 2(1) unfolding atomic_def by (metis snd_conv)
    then have "w_tx w' = None" using keepsD [OF keeps_reg(3) 2(2)] by (simp add: db_of_def)
    then show ?thesis using 2 by blast
  qed
qed

lemma complete_without_token:
  assumes "tok w i = None"
  shows "\<exists>e w'. CompleteUpload E R S u d i len cs w = (Inl e, w') \<and> db_of w' = db_of w"
proof -
  obtain r w' where c: "CompleteUpload E R S u d i len cs w = (r, w')" by fastforce
  then show ?thesis using assms by (cases rule: complete_start [OF c]) auto
qed

end

interpretation mem_flow: upload_flow "NewMemoryRegistry E" mem_tok "\<lambda>_. True" "s3_store E X" for E X
  by unfold_locales

interpretation valkey_flow: upload_flow "NewValkeyRegistry E" "valkey_tok E DefaultKey" "meta_exact E" "s3_store E X" for E X
  by unfold_locales

section \<open>Properties\<close>

text \<open>
  C23. The completion of an upload that succeeds, over either registry: the token was held and was
  issued to that user for that drive, with that size if it names one; the object is in its bucket, the drive's path now
  has a new object node that refers to it, and the token is gone.
\<close>

theorem CompleteUpload_spec:
  assumes w: "w_tx w = None" "nodes_ok E (w_db w)" "revised E (w_db w)"
    and r: "(R = NewMemoryRegistry E \<and> tok = mem_tok) \<or> (R = NewValkeyRegistry E \<and> tok = valkey_tok E DefaultKey)"
    and p: "\<forall>m. tok w i = Some m \<longrightarrow> utf8_path (pm_path m)"
    and c: "CompleteUpload E R (s3_store E X) u d i len cs w = (Inr n, w')"
  shows "\<exists>m. tok w i = Some m \<and> pm_user_id m = u \<and> pm_drive_id m = d \<and> (pm_size m = None \<or> pm_size m = Some len) \<and>
    (pm_bucket m, pm_key m) \<in> w_objs w \<and>
    created E d (pm_path m) NodeKindObject (object_marshal \<lparr>o_bucket = pm_bucket m, o_key = pm_key m,
      o_mime = (case pm_content_type m of None \<Rightarrow> [] | Some ct \<Rightarrow> ct), o_checksum = (case cs of None \<Rightarrow> [] | Some c \<Rightarrow> c)\<rparr>) len w n w' \<and>
    tok w' = (tok w)(i := None)"
proof -
  have "\<exists>m. tok w i = Some m \<and> token_check m u d len = None \<and> (pm_bucket m, pm_key m) \<in> w_objs w \<and>
    created E d (pm_path m) NodeKindObject (object_marshal (upload_content m cs)) len w n w' \<and> tok w' = (tok w)(i := None)"
    using r mem_flow.complete_Inr [OF w, of i E X u d len cs n w'] valkey_flow.complete_Inr [OF w, of E i X u d len cs n w'] p c
    by blast
  then show ?thesis by (simp add: token_check_None upload_content_def conj_assoc)
qed

text \<open>
  C22. A token completes one upload: after a completion that succeeds, another with the same
  upload id fails and leaves the database as it is, whoever asks and for whatever drive.
\<close>

theorem upload_completes_once:
  assumes w: "w_tx w = None" "nodes_ok E (w_db w)" "revised E (w_db w)"
    and p: "\<forall>m. valkey_tok E DefaultKey w i = Some m \<longrightarrow> utf8_path (pm_path m)"
    and c: "CompleteUpload E (NewValkeyRegistry E) (s3_store E X) u d i len cs w = (Inr n, w')"
  shows "\<exists>e v. CompleteUpload E (NewValkeyRegistry E) (s3_store E X) u' d' i len' cs' w' = (Inl e, v) \<and> w_db v = w_db w'"
proof -
  have "valkey_tok E DefaultKey w' i = None" using valkey_flow.complete_Inr [OF w _ c] p by auto
  then obtain e v where "CompleteUpload E (NewValkeyRegistry E) (s3_store E X) u' d' i len' cs' w' = (Inl e, v)" "db_of v = db_of w'"
    using valkey_flow.complete_without_token by blast
  then show ?thesis by (auto simp: db_of_def)
qed

text \<open>
  The errors of a completion. The database stays as it was and no transaction stays open,
  with one exception: when the deletion of the token fails, the error is reported although the
  node has been committed.
\<close>

theorem CompleteUpload_error:
  assumes "w_tx w = None" "CompleteUpload E (NewValkeyRegistry E) (s3_store E X) u d i len cs w = (Inl e, w')"
  shows "w_tx w' = None \<and> (w_db w' = w_db w \<or> (\<exists>v e0. valkey_Delete E DefaultKey i v = (Inl e0, w') \<and>
    e = wrap_with [] (''upload: complete cleanup token (upload_id='' @ i @ '')'') e0))"
  using valkey_flow.complete_Inl [OF assms] by (simp add: NewValkeyRegistry_def NewValkeyRegistryWithKeyer_def)

section \<open>An upload into the demonstration tree\<close>

definition demo_meta :: presign_meta where
  "demo_meta = \<lparr>pm_upload_id = ''u'', pm_drive_id = ''d1'', pm_user_id = ''u1'', pm_path = ''/n'', pm_bucket = ''b'',
     pm_key = ''k'', pm_content_type = None, pm_size = Some 5, pm_expires_at = 1000000\<rparr>"

definition demo_s3 :: s3_env where
  "demo_s3 = \<lparr>s3_put_url = (\<lambda>b k x. b @ k), s3_get_url = (\<lambda>b k x. b @ k), s3_refused = (\<lambda>n k. False)\<rparr>"

text \<open>Token and object are there.\<close>

definition tree_up :: world where
  "tree_up = tree\<lparr>w_kv := [''mdrive:upload:u'' \<mapsto> (meta_marshal demo demo_meta, 1000000)], w_objs := {(''b'', ''k'')},
     w_mem := [''u'' \<mapsto> (demo_meta, 1000000)]\<rparr>"

lemma tree_up_simps [simp]:
  "w_db tree_up = tree_db" "w_tx tree_up = None" "w_tick tree_up = 0" "w_objs tree_up = {(''b'', ''k'')}"
  "w_kv tree_up = [''mdrive:upload:u'' \<mapsto> (meta_marshal demo demo_meta, 1000000)]"
  by (simp_all add: tree_up_def)

lemma demo_time_codec: "time_codec demo"
proof -
  have "ascii (dec_nat n)" for n
    using dec_nat_digits [of n] by (auto simp: ascii_def list_all_iff is_digit_def byte_in_def)
  then show ?thesis by (auto simp: time_codec_def demo_def itoa_int_def parse_uint_dec)
qed

lemma demo_meta_exact: "meta_exact demo demo_meta"
  by (simp add: meta_exact_def demo_meta_def demo_time_codec ascii_valid byte_in_def)

lemma tree_up_tok: "valkey_tok demo DefaultKey tree_up ''u'' = Some demo_meta"
  by (simp add: valkey_tok_def DefaultKey_def DefaultKeyPrefix_def meta_unmarshal_marshal [OF demo_meta_exact])

lemma NewObject_succeeds:
  assumes "length (object_marshal oc) \<le> MaxContentSize" "o_bucket oc \<noteq> []" "o_key oc \<noteq> []" "0 \<le> sz"
  obtains j n k where "NewObject E oc sz w = (Inr n, w\<lparr>w_tick := k\<rparr>)" "n_id n = uuid_gen E j"
    "n_rev n \<in> range (ulid_gen E)"
  using assms by (auto simp: NewObject_def newInlineNode_def newNode_run node_write_run)

lemma complete_tx_succeeds:
  assumes e: "no_faults E" "ulids_ok E" "\<forall>k. node_at (w_db w) (uuid_gen E k) = None"
    and w: "w_tx w = Some (w_db w)" "nodes_ok E (w_db w)" "drives_ok (w_db w)"
    and p: "drive_root (w_db w) d root" "root \<noteq> uuid_Nil" "parent_of E (w_db w) root (pm_path m) dir name"
    and n: "holds_dir E dir dc" "find_entry dc name = None"
      "\<forall>k. length (dir_marshal E (Some (entries dc @
        [\<lparr>de_ino = uuid_gen E k, de_name = name, de_kind = NodeKindObject\<rparr>]))) \<le> MaxContentSize"
    and o: "length (object_marshal (upload_content m cs)) \<le> MaxContentSize" "pm_bucket m \<noteq> []" "pm_key m \<noteq> []" "0 \<le> len"
  shows "\<exists>x w'. complete_tx E m d len cs w = (Inr x, w')"
proof -
  have id: "ids_ok (w_db w)" using w(2) by (simp add: nodes_ok_def)
  note st = parent_stored [OF id p(3)]
  let ?w1 = "w\<lparr>w_tick := Suc (w_tick w), w_cache := Map.empty\<rparr>"
  have g: "GetRootNodeID E d w = (Inr root, w\<lparr>w_tick := Suc (w_tick w)\<rparr>)"
    using e(1) w p(1,2) by (intro GetRootNodeID_finds) (simp_all add: client_def)
  have "parent_of E (w_db ?w1) root (pm_path m) dir name" using p(3) by simp
  then obtain w2 where r: "resolveParent E root (pm_path m) ?w1 = (Inr (dir, name), w2)" "same_store w2 ?w1"
    using resolveParent_finds [OF e(1)] by (metis cache_ok_empty)
  have rp: "ResolveParentNodeID E d (pm_path m) w = (Inr (n_id dir, name), w2)"
    using g r(1) by (simp add: ResolveParentNodeID_def)
  have w2: "w_db w2 = w_db w" "client w2 = w_db w" "w_tx w2 = Some (w_db w)"
    using r(2) w(1) by (simp_all add: same_store_def client_def)
  let ?w3 = "w2\<lparr>w_tick := Suc (w_tick w2)\<rparr>"
  have gb: "GetByID E (n_id dir) w2 = (Inr dir, ?w3)"
    using st(1) w2(1) by (simp add: GetByID_def repo_get_no_faults [OF e(1)])
  obtain j c k where c: "NewObject E (upload_content m cs) len ?w3 = (Inr c, ?w3\<lparr>w_tick := k\<rparr>)"
    "n_id c = uuid_gen E j" "n_rev c \<in> range (ulid_gen E)"
    by (rule NewObject_succeeds [of "upload_content m cs" len E ?w3]) (use o in \<open>simp_all add: upload_content_def\<close>)
  note fr = NewObject_fresh [OF c(1)]
  let ?w4 = "?w3\<lparr>w_tick := k\<rparr>"
  have fresh: "node_at (w_db w) (n_id c) = None" using e(3) c(2) by simp
  have cc: "current (client ?w4) c" using fresh w2 by (simp add: node_at_def current_def)
  have rv: "length (n_rev c) \<le> 26" using c(3) e(2) by (auto simp: ulids_ok_def)
  let ?w5 = "put_db (set_node c (client ?w4)) (?w4\<lparr>w_tick := Suc (Suc (w_tick ?w4))\<rparr>)"
  have "repo_save E c ?w4 = (Inr (c\<lparr>n_stale := n_rev c\<rparr>), ?w5)"
    by (rule save_succeeds [OF e(1) fresh_node_content_ok [OF fr] rv cc])
  then have co: "CreateObject E (upload_content m cs) len ?w3 = (Inr (c\<lparr>n_stale := n_rev c\<rparr>), ?w5)"
    using c(1) by (simp add: CreateObject_def create_def)
  have ne: "n_id dir \<noteq> n_id c" using st(1) fresh by auto
  have cl: "client ?w5 = set_node c (w_db w)" using w2 by simp
  have "current (set_node c (w_db w)) dir = current (w_db w) dir" using ne by (intro current_set_other) simp
  then have cd: "current (client ?w5) dir" using current_stored [OF st(1)] cl by simp
  have c5: "current (client ?w5) (c\<lparr>n_stale := n_rev c\<rparr>)"
    unfolding cl by (auto simp: current_def set_node_def row_insert_def row_update_def split: option.splits)
  have "entry_of name (c\<lparr>n_stale := n_rev c\<rparr>) = \<lparr>de_ino = uuid_gen E j, de_name = name, de_kind = NodeKindObject\<rparr>"
    using c(2) fr by (simp add: entry_of_def fresh_node_def)
  then have fits: "length (dir_marshal E (Some (entries dc @ [entry_of name (c\<lparr>n_stale := n_rev c\<rparr>)]))) \<le> MaxContentSize"
    using n(3) by simp
  have "content_ok (c\<lparr>n_stale := n_rev c\<rparr>)" using fresh_node_content_ok [OF fr] by (simp add: content_ok_def)
  then obtain q w6 where "link_body E dir name (c\<lparr>n_stale := n_rev c\<rparr>) ?w5 = (Inr q, w6)"
    using link_body_succeeds [OF e(1,2) n(1) cd _ c5 _ st(2) n(2) fits] ne by auto
  moreover have "w_tx ?w5 \<noteq> None" using w2(3) by simp
  ultimately have "Link E (Some dir) name (Some (c\<lparr>n_stale := n_rev c\<rparr>)) ?w5 = (Inr q, w6)"
    by (simp add: Link_def tx.run_nested)
  then show ?thesis using rp gb co by (cases q) (simp add: complete_tx_def)
qed

lemma tree_fits_obj:
  "length (dir_marshal demo (Some (entries (Some tree_list) @
     [\<lparr>de_ino = uuid_gen demo k, de_name = ''n'', de_kind = NodeKindObject\<rparr>]))) \<le> MaxContentSize"
  using demo_uuid_digits [of k]
  by (simp add: length_dir_marshal tree_list_def entry_size_def json_esc_digits dec_nat_digits dec_nat_digit
      json_esc.simps(2) byte_in_def esc_ascii_def MaxContentSize_def del: demo_simps(2))

lemma tree_complete:
  obtains n w' where "CompleteUpload demo (NewValkeyRegistry demo) (s3_store demo demo_s3) ''u1'' ''d1'' ''u'' 5 None tree_up = (Inr n, w')"
proof -
  have kg: "kv_GET demo (DefaultKey ''u'') tree_up = (Inr (Some (meta_marshal demo demo_meta)), tree_up\<lparr>w_tick := 2\<rparr>)"
    by (simp add: kv_GET_def io_def get_kv_def time_Now_def draw_def bindM_def seqM_def DefaultKey_def DefaultKeyPrefix_def)
  have g: "rg_Get (NewValkeyRegistry demo) ''u'' tree_up = (Inr demo_meta, tree_up\<lparr>w_tick := 3\<rparr>)"
    using valkey_Get_run(2) [of demo DefaultKey "''u''", OF kg]
    by (simp add: NewValkeyRegistry_def NewValkeyRegistryWithKeyer_def DecodePresignMeta_def meta_unmarshal_marshal [OF demo_meta_exact])
      (simp add: demo_meta_def)
  have x: "os_Exists (s3_store demo demo_s3) ''b'' ''k'' (tree_up\<lparr>w_tick := 3\<rparr>) = (Inr True, tree_up\<lparr>w_tick := 4\<rparr>)"
    by (simp add: s3_store_def s3_ObjectExists_def io_def get_objs_def bindM_def seqM_def wrapM_def)
  let ?v = "tree_up\<lparr>w_tick := 4, w_tx := Some tree_db, w_tick := Suc 4\<rparr>"
  have "\<exists>n v. complete_tx demo demo_meta ''d1'' 5 None ?v = (Inr n, v)"
    by (rule complete_tx_succeeds [where root = 1 and dir = tree_root and name = "''n''" and dc = "Some tree_list"])
      (use tree_fresh tree_nodes_ok tree_roots tree_parents(4) tree_root_holds tree_fits_obj in
        \<open>simp_all add: demo_meta_def find_entry_def tree_list_def upload_content_def encode_eval\<close>)
  then obtain n v where t: "complete_tx demo demo_meta ''d1'' 5 None ?v = (Inr n, v)" by blast
  have "\<exists>v'. with_tx demo (complete_tx demo demo_meta ''d1'' 5 None) (tree_up\<lparr>w_tick := 4\<rparr>) = (Inr n, v')"
    using with_tx_succeeds [OF demo_no_faults, of "tree_up\<lparr>w_tick := 4\<rparr>"] t by simp
  then obtain v' where t': "with_tx demo (complete_tx demo demo_meta ''d1'' 5 None) (tree_up\<lparr>w_tick := 4\<rparr>) = (Inr n, v')" by blast
  have "\<exists>v2. rg_Delete (NewValkeyRegistry demo) ''u'' v' = (Inr (), v2)"
    by (simp add: NewValkeyRegistry_def NewValkeyRegistryWithKeyer_def valkey_Delete_def kv_DEL_def io_def get_kv_def set_kv_def
        bindM_def seqM_def wrapM_def)
  then obtain v2 where d: "rg_Delete (NewValkeyRegistry demo) ''u'' v' = (Inr (), v2)" by blast
  have "token_check demo_meta ''u1'' ''d1'' 5 = None" "pm_bucket demo_meta = ''b''" "pm_key demo_meta = ''k''"
    by (simp_all add: token_check_def demo_meta_def)
  then have "CompleteUpload demo (NewValkeyRegistry demo) (s3_store demo demo_s3) ''u1'' ''d1'' ''u'' 5 None tree_up = (Inr n, v2)"
    using g x t' d by (simp add: CompleteUpload_def)
  then show thesis by (rule that)
qed

theorem CompleteUpload_spec_witness:
  "\<exists>n w'. CompleteUpload demo (NewValkeyRegistry demo) (s3_store demo demo_s3) ''u1'' ''d1'' ''u'' 5 None tree_up = (Inr n, w') \<and>
     valkey_tok demo DefaultKey w' ''u'' = None"
proof -
  obtain n w' where c: "CompleteUpload demo (NewValkeyRegistry demo) (s3_store demo demo_s3) ''u1'' ''d1'' ''u'' 5 None tree_up = (Inr n, w')"
    by (rule tree_complete)
  show ?thesis
    using CompleteUpload_spec [OF _ _ _ disjI2 [OF conjI [OF refl refl]] _ c] c tree_nodes_ok tree_revised tree_up_tok tree_parents(3)
    by (auto simp: demo_meta_def)
qed

theorem upload_completes_once_witness:
  "\<exists>n w' e v. CompleteUpload demo (NewValkeyRegistry demo) (s3_store demo demo_s3) ''u1'' ''d1'' ''u'' 5 None tree_up = (Inr n, w') \<and>
     CompleteUpload demo (NewValkeyRegistry demo) (s3_store demo demo_s3) ''u1'' ''d1'' ''u'' 5 None w' = (Inl e, v)"
proof -
  obtain n w' where c: "CompleteUpload demo (NewValkeyRegistry demo) (s3_store demo demo_s3) ''u1'' ''d1'' ''u'' 5 None tree_up = (Inr n, w')"
    by (rule tree_complete)
  show ?thesis
    using upload_completes_once [OF _ _ _ _ c, of "''u1''" "''d1''" 5 None] c tree_nodes_ok tree_revised tree_up_tok tree_parents(3)
    by (auto simp: demo_meta_def)
qed

theorem CompleteUpload_error_witness:
  "\<exists>e w'. CompleteUpload demo (NewValkeyRegistry demo) (s3_store demo demo_s3) ''u1'' ''d1'' ''zz'' 5 None tree_up = (Inl e, w') \<and>
     w_tx w' = None"
proof -
  have "valkey_tok demo DefaultKey tree_up ''zz'' = None" by (simp add: valkey_tok_def DefaultKey_def DefaultKeyPrefix_def)
  then obtain e w' where "CompleteUpload demo (NewValkeyRegistry demo) (s3_store demo demo_s3) ''u1'' ''d1'' ''zz'' 5 None tree_up = (Inl e, w')"
    using valkey_flow.complete_without_token by blast
  then show ?thesis using CompleteUpload_error [OF tree_up_simps(2)] by blast
qed

end
