(* ===== verification/Gc.thy ===== *)
theory Gc
  imports UploadSvc
begin

text \<open>
  The garbage collection jobs (internal/app/gc/runner.go): the cleaner of tombstones, the purger of
  drives deleted long ago, and the expirer of uploads never completed. Logging is left out.
\<close>

definition defaultProcessLimit :: nat where
  "defaultProcessLimit = 1000"

definition stringPtr :: "string \<Rightarrow> string option" where
  "stringPtr s = (if s = [] then None else Some s)"

section \<open>Tombstones\<close>

definition processGroup :: "env \<Rightarrow> s3_env \<Rightarrow> tombstone_group \<Rightarrow> unit W" where
  "processGroup E X g =
     bindM (wrapM [] (''gc: tombstone find storage (bucket='' @ tg_bucket g @ '')'') (FindStorageByBucket E (tg_bucket g))) (\<lambda>st.
     bindM (wrapM [] (''gc: tombstone s3 client (bucket='' @ tg_bucket g @ '', region='' @ sb_region st @ '')'')
              (s3_NewClient E \<lparr>s3c_region = sb_region st, s3c_endpoint = stringPtr (sb_endpoint st), s3c_access_key = sb_access_key st,
                 s3c_secret_key = sb_secret_key st, s3c_path_style = sb_use_path_style st\<rparr>)) (\<lambda>client.
       wrapM [] (''gc: tombstone delete objects (bucket='' @ tg_bucket g @ '', count='' @ itoa_nat (length (tg_keys g)) @ '')'')
         (s3_DeleteObjects E X (tg_bucket g) (tg_keys g))))"

text \<open>One round of the loop: errors are logged and the loop goes on.\<close>

definition clean_group :: "env \<Rightarrow> s3_env \<Rightarrow> tombstone_group \<Rightarrow> unit W" where
  "clean_group E X g =
     tryM (processGroup E X g) (\<lambda>_. retM ()) (\<lambda>_.
       tryM (DeleteTombstones E (tg_ids g)) (\<lambda>_. retM ()) (\<lambda>_. retM ()))"

definition TombstoneCleaner_Run :: "env \<Rightarrow> s3_env \<Rightarrow> (tombstone_group list \<Rightarrow> tombstone_group list) \<Rightarrow> unit W" where
  "TombstoneCleaner_Run E X order =
     bindM (wrapM [] (''gc: tombstone query (limit='' @ itoa_nat defaultProcessLimit @ '')'')
              (QueryTombstones E order defaultProcessLimit)) (\<lambda>groups.
       foldM (\<lambda>g u. clean_group E X g) groups ())"

section \<open>Drives\<close>

text \<open>A retention that is not positive becomes seven days. \<open>fmt\<close> is \<open>Time.Format(time.RFC3339)\<close>.\<close>

definition NewDrivePurger :: "int \<Rightarrow> int" where
  "NewDrivePurger retention = (if retention \<le> 0 then 7 * 24 * 3600 * 1000000000 else retention)"

definition purge_one :: "env \<Rightarrow> drive \<Rightarrow> unit W" where
  "purge_one E d = tryM (DrivePurge E (d_id d)) (\<lambda>_. retM ()) (\<lambda>_. retM ())"

definition DrivePurger_Run :: "env \<Rightarrow> (time \<Rightarrow> string) \<Rightarrow> int \<Rightarrow> unit W" where
  "DrivePurger_Run E fmt retention =
     bindM (time_Now E) (\<lambda>now.
     let before = now - retention in
     bindM (wrapM [] (''gc: list deleted drives (before='' @ fmt before @ '', limit='' @ itoa_nat defaultProcessLimit @ '')'')
              (ListDeletedForAdmin E True before (int defaultProcessLimit))) (\<lambda>drives.
       foldM (\<lambda>d u. purge_one E d) drives ()))"

section \<open>Uploads\<close>

text \<open>
  The callback of the scan, with the counters it captures (scanned, deleted, s3 errors). A token
  that cannot be read is deleted; for one that has expired the object is deleted, or recorded as
  garbage when that fails, and then the token.
\<close>

type_synonym counters = "nat \<times> nat \<times> nat"

definition expire_object :: "object_store option \<Rightarrow> (garbage_ref list \<Rightarrow> unit W) option \<Rightarrow> presign_meta \<Rightarrow> nat W" where
  "expire_object S gc m =
     (case S of
        None \<Rightarrow> retM 0
      | Some s \<Rightarrow>
          if pm_bucket m = [] \<or> pm_key m = [] then retM 0
          else tryM (upload_DeleteObject s (pm_bucket m) (pm_key m))
            (\<lambda>_. (case gc of
                     None \<Rightarrow> retM 1
                   | Some g \<Rightarrow> tryM (g [\<lparr>gr_bucket = pm_bucket m, gr_key = pm_key m\<rparr>]) (\<lambda>_. retM 1) (\<lambda>_. retM 1)))
            (\<lambda>_. retM 0))"

definition expire_one ::
  "env \<Rightarrow> registry \<Rightarrow> object_store option \<Rightarrow> (garbage_ref list \<Rightarrow> unit W) option \<Rightarrow> string \<Rightarrow> counters \<Rightarrow>
     (gerror option \<times> counters) W" where
  "expire_one E R S gc i c =
     (case c of (scanned, deleted, s3err) \<Rightarrow>
        tryM (rg_Get R i)
          (\<lambda>_. tryM (rg_Delete R i) (\<lambda>_. retM (None, Suc scanned, deleted, s3err)) (\<lambda>_. retM (None, Suc scanned, deleted, s3err)))
          (\<lambda>m. bindM (IsExpired E m) (\<lambda>expired.
             if \<not> expired then retM (None, Suc scanned, deleted, s3err)
             else
               bindM (expire_object S gc m) (\<lambda>bad.
                 tryM (rg_Delete R i) (\<lambda>_. retM (None, Suc scanned, deleted, s3err + bad))
                   (\<lambda>_. retM (None, Suc scanned, Suc deleted, s3err + bad))))))"

text \<open>\<open>scan\<close> is the registry's \<open>Scan\<close>, if it has one.\<close>

definition UploadExpirer_Run ::
  "env \<Rightarrow> registry \<Rightarrow> ((string \<Rightarrow> counters \<Rightarrow> (gerror option \<times> counters) W) \<Rightarrow> counters \<Rightarrow> (gerror option \<times> counters) W) option \<Rightarrow>
     object_store option \<Rightarrow> (garbage_ref list \<Rightarrow> unit W) option \<Rightarrow> unit W" where
  "UploadExpirer_Run E R scan S gc =
     (case scan of
        None \<Rightarrow> retM ()
      | Some sc \<Rightarrow>
          bindM (sc (expire_one E R S gc) (0, 0, 0)) (\<lambda>(err, scanned, deleted, s3err).
            (case err of
               Some e \<Rightarrow> failM (wrap_with [] (''gc: upload scan (scanned='' @ itoa_nat scanned @ '', deleted='' @ itoa_nat deleted @
                           '', s3_errors='' @ itoa_nat s3err @ '')'') e)
             | None \<Rightarrow> retM ())))"

section \<open>The groups\<close>

text \<open>What grouping means: one group per bucket, with the keys and ids of its rows in their order.\<close>

definition group_of :: "ent_tomb list \<Rightarrow> string \<Rightarrow> tombstone_group" where
  "group_of rows b = (let rs = filter (\<lambda>r. et_bucket r = b) rows in
     \<lparr>tg_bucket = b, tg_keys = map et_key rs, tg_ids = map et_id rs\<rparr>)"

lemma map_first_unique:
  "distinct (map f xs) \<Longrightarrow> map_first (\<lambda>x. f x = b) g xs = map (\<lambda>x. if f x = b then g x else x) xs"
  by (induction xs) (auto simp: image_iff intro!: map_idI [symmetric])

lemma group_of_bucket [simp]: "tg_bucket (group_of rows b) = b"
  by (simp add: group_of_def Let_def)

lemma group_of_snoc:
  "group_of (rows @ [r]) b = (if et_bucket r = b
     then (group_of rows b)\<lparr>tg_keys := tg_keys (group_of rows b) @ [et_key r], tg_ids := tg_ids (group_of rows b) @ [et_id r]\<rparr>
     else group_of rows b)"
  by (simp add: group_of_def Let_def)

lemma group_of_absent: "b \<notin> set (map et_bucket rows) \<Longrightarrow> group_of rows b = \<lparr>tg_bucket = b, tg_keys = [], tg_ids = []\<rparr>"
  by (auto simp: group_of_def Let_def filter_empty_conv)

lemma group_tombs_eq: "group_tombs rows = map (group_of rows) (rev (remdups (rev (map et_bucket rows))))"
proof (induction rows rule: rev_induct)
  case Nil
  show ?case by (simp add: group_tombs_def)
next
  case (snoc r rows)
  let ?bs = "rev (remdups (rev (map et_bucket rows)))"
  have g: "group_tombs (rows @ [r]) = add_to_group r (map (group_of rows) ?bs)"
    using snoc.IH by (simp add: group_tombs_def)
  have d: "distinct (map tg_bucket (map (group_of rows) ?bs))" by (simp add: comp_def)
  show ?case
  proof (cases "et_bucket r \<in> set (map et_bucket rows)")
    case True
    then have e: "\<exists>x\<in>set (map (group_of rows) ?bs). tg_bucket x = et_bucket r" by auto
    have "rev (remdups (rev (map et_bucket (rows @ [r])))) = ?bs" using True by simp
    then show ?thesis using g e by (simp add: add_to_group_def map_first_unique [OF d] group_of_snoc)
  next
    case False
    then have e: "\<not> (\<exists>x\<in>set (map (group_of rows) ?bs). tg_bucket x = et_bucket r)" by auto
    have "rev (remdups (rev (map et_bucket (rows @ [r])))) = ?bs @ [et_bucket r]" using False by simp
    then show ?thesis using g e False group_of_absent [of "et_bucket r" rows]
      by (auto simp: add_to_group_def group_of_snoc)
  qed
qed

section \<open>What the cleaner does\<close>

definition ref_of :: "ent_tomb \<Rightarrow> string \<times> string" where
  "ref_of r = (et_bucket r, et_key r)"

text \<open>
  From \<open>w\<close> to \<open>w'\<close> the rows with the ids \<open>D\<close> are gone and the objects \<open>G\<close>. Only objects of tombstones
  are gone, and the object of every row that is gone unless S3 refused its key in a batch in between. No
  object is gone whose key S3 always refuses.
\<close>

definition refused_in :: "s3_env \<Rightarrow> world \<Rightarrow> world \<Rightarrow> string \<Rightarrow> bool" where
  "refused_in X w w' k \<longleftrightarrow> (\<exists>n. w_tick w \<le> n \<and> n < w_tick w' \<and> s3_refused X n k)"

definition cleans :: "s3_env \<Rightarrow> ent_tomb list \<Rightarrow> world \<Rightarrow> world \<Rightarrow> bool" where
  "cleans X T w w' \<longleftrightarrow> (\<exists>D G. w_db w' = (w_db w)\<lparr>t_tombs := filter (\<lambda>r. et_id r \<notin> D) (t_tombs (w_db w))\<rparr> \<and>
     w_objs w' = w_objs w - G \<and> G \<subseteq> ref_of ` set T \<and> (\<forall>p\<in>G. \<exists>n. \<not> s3_refused X n (snd p)) \<and>
     (\<forall>r\<in>set T. et_id r \<in> D \<longrightarrow> ref_of r \<in> G \<or> refused_in X w w' (et_key r))) \<and> w_tx w' = w_tx w \<and> w_tick w \<le> w_tick w'"

lemma cleans_refl:
  "w_db w' = w_db w \<Longrightarrow> w_objs w' = w_objs w \<Longrightarrow> w_tx w' = w_tx w \<Longrightarrow> w_tick w \<le> w_tick w' \<Longrightarrow> cleans X T w w'"
  unfolding cleans_def by (intro conjI exI [of _ "{}"]) simp_all

lemma refused_in_mono: "refused_in X v u k \<Longrightarrow> w_tick w \<le> w_tick v \<Longrightarrow> w_tick u \<le> w_tick x \<Longrightarrow> refused_in X w x k"
  unfolding refused_in_def by (meson le_trans less_le_trans)

lemma cleans_trans: "cleans X T w v \<Longrightarrow> cleans X T v u \<Longrightarrow> cleans X T w u"
proof -
  assume "cleans X T w v" "cleans X T v u"
  then obtain D G D' G' where
    a: "w_db v = (w_db w)\<lparr>t_tombs := filter (\<lambda>r. et_id r \<notin> D) (t_tombs (w_db w))\<rparr>" "w_objs v = w_objs w - G"
      "G \<subseteq> ref_of ` set T" "\<forall>p\<in>G. \<exists>n. \<not> s3_refused X n (snd p)"
      "\<forall>r\<in>set T. et_id r \<in> D \<longrightarrow> ref_of r \<in> G \<or> refused_in X w v (et_key r)" "w_tx v = w_tx w" "w_tick w \<le> w_tick v"
    and b: "w_db u = (w_db v)\<lparr>t_tombs := filter (\<lambda>r. et_id r \<notin> D') (t_tombs (w_db v))\<rparr>" "w_objs u = w_objs v - G'"
      "G' \<subseteq> ref_of ` set T" "\<forall>p\<in>G'. \<exists>n. \<not> s3_refused X n (snd p)"
      "\<forall>r\<in>set T. et_id r \<in> D' \<longrightarrow> ref_of r \<in> G' \<or> refused_in X v u (et_key r)" "w_tx u = w_tx v" "w_tick v \<le> w_tick u"
    unfolding cleans_def by blast
  have "filter (\<lambda>r. et_id r \<notin> D') (filter (\<lambda>r. et_id r \<notin> D) xs) = filter (\<lambda>r. et_id r \<notin> D \<union> D') xs" for xs :: "ent_tomb list"
    by (induction xs) auto
  then have "w_db u = (w_db w)\<lparr>t_tombs := filter (\<lambda>r. et_id r \<notin> D \<union> D') (t_tombs (w_db w))\<rparr>" using a(1) b(1) by simp
  moreover have "w_objs u = w_objs w - (G \<union> G')" using a(2) b(2) by auto
  moreover have "ref_of r \<in> G \<union> G' \<or> refused_in X w u (et_key r)" if "r \<in> set T" "et_id r \<in> D \<union> D'" for r
    using that a(5) b(5) refused_in_mono [of X w v "et_key r" w u] refused_in_mono [of X v u "et_key r" w u] a(7) b(7) by auto
  ultimately show "cleans X T w u" unfolding cleans_def
    using a(3,4,6,7) b(3,4,6,7) by (intro conjI exI [of _ "D \<union> D'"] exI [of _ "G \<union> G'"]) (simp_all, blast)
qed

text \<open>A group whose ids are ids of its keys.\<close>

definition good_group :: "ent_tomb list \<Rightarrow> tombstone_group \<Rightarrow> bool" where
  "good_group T g \<longleftrightarrow> (\<forall>k\<in>set (tg_keys g). (tg_bucket g, k) \<in> ref_of ` set T) \<and>
     (\<forall>r\<in>set T. et_id r \<in> set (tg_ids g) \<longrightarrow> et_bucket r = tg_bucket g \<and> et_key r \<in> set (tg_keys g))"

lemma good_group_of:
  assumes "distinct (map et_id T)" "set rows \<subseteq> set T"
  shows "good_group T (group_of rows b)"
proof -
  have "r = r'" if "r \<in> set T" "r' \<in> set rows" "et_id r = et_id r'" for r r'
    using assms that by (meson distinct_map inj_onD subsetD)
  then show ?thesis using assms(2) unfolding good_group_def
    by (fastforce simp: group_of_def Let_def ref_of_def image_iff)
qed

lemma FindStorageByBucket_keeps: "keeps db_of (FindStorageByBucket E b)" "keeps w_objs (FindStorageByBucket E b)"
  unfolding FindStorageByBucket_def by (intro keeps_intros)+

lemma s3_NewClient_keeps: "keeps db_of (s3_NewClient E c)" "keeps w_objs (s3_NewClient E c)"
  unfolding s3_NewClient_def by (intro keeps_intros)+

lemma FindStorageByBucket_tick: "FindStorageByBucket E b w = (r, w') \<Longrightarrow> w_tick w \<le> w_tick w'"
  by (auto simp: FindStorageByBucket_def wrapM_def seqM_def bindM_def io_def get_committed_def retM_def failM_def
      split: option.splits)

lemma s3_NewClient_tick: "s3_NewClient E c w = (r, w') \<Longrightarrow> w_tick w \<le> w_tick w'"
  by (cases "fault E (w_tick w)") (auto simp: s3_NewClient_def seqM_def bindM_def wrapM_def io_def retM_def failM_def split: if_splits)

text \<open>What a batch deletes: the keys that S3 does not refuse.\<close>

lemma s3_DeleteObjects_run:
  assumes "s3_DeleteObjects E X b ks w = (r, w')"
  shows "db_of w' = db_of w \<and> w_tick w \<le> w_tick w' \<and>
    (\<exists>G. w_objs w' = w_objs w - G \<and> G \<subseteq> {b} \<times> set ks \<and> (\<forall>p\<in>G. \<exists>n. \<not> s3_refused X n (snd p)) \<and>
      (r = Inr () \<longrightarrow> (\<forall>k\<in>set ks. (b, k) \<in> G \<or> refused_in X w w' k)))"
proof -
  let ?G = "{(b, k) | k. k \<in> set ks \<and> \<not> s3_refused X (w_tick w) k}"
  consider (none) "ks = []" "r = Inr ()" "w' = w"
    | (fail) e where "r = Inl e" "w' = w\<lparr>w_tick := Suc (Suc (w_tick w))\<rparr>"
    | (reply) "r = Inr ()" "w' = w\<lparr>w_tick := Suc (Suc (w_tick w)), w_objs := w_objs w - ?G\<rparr>"
    using assms by (cases "fault E (Suc (w_tick w))")
      (auto simp: s3_DeleteObjects_def bindM_def seqM_def draw_def io_def get_objs_def set_objs_def split: if_splits)
  then show ?thesis
  proof cases
    case reply
    have "\<forall>k\<in>set ks. (b, k) \<in> ?G \<or> refused_in X w w' k" using reply by (auto simp: refused_in_def)
    then show ?thesis using reply by (intro conjI exI [of _ ?G]) (auto simp: db_of_def)
  qed (auto simp: db_of_def intro: exI [of _ "{}"])
qed

lemma processGroup_run:
  assumes p: "processGroup E X g w = (r, w')"
  shows "db_of w' = db_of w \<and> w_tick w \<le> w_tick w' \<and>
    (\<exists>G. w_objs w' = w_objs w - G \<and> G \<subseteq> {tg_bucket g} \<times> set (tg_keys g) \<and> (\<forall>p\<in>G. \<exists>n. \<not> s3_refused X n (snd p)) \<and>
      (r = Inr () \<longrightarrow> (\<forall>k\<in>set (tg_keys g). (tg_bucket g, k) \<in> G \<or> refused_in X w w' k)))"
proof -
  obtain q1 w1 where f: "FindStorageByBucket E (tg_bucket g) w = (q1, w1)" by fastforce
  have k1: "db_of w1 = db_of w" "w_objs w1 = w_objs w" "w_tick w \<le> w_tick w1"
    using keepsD [OF FindStorageByBucket_keeps(1) f] keepsD [OF FindStorageByBucket_keeps(2) f] FindStorageByBucket_tick [OF f] by simp_all
  show ?thesis
  proof (cases q1)
    case (Inl e)
    then show ?thesis using p f k1 by (auto simp: processGroup_def intro: exI [of _ "{}"])
  next
    case (Inr st)
    let ?cfg = "\<lparr>s3c_region = sb_region st, s3c_endpoint = stringPtr (sb_endpoint st), s3c_access_key = sb_access_key st,
                 s3c_secret_key = sb_secret_key st, s3c_path_style = sb_use_path_style st\<rparr>"
    obtain q2 w2 where c: "s3_NewClient E ?cfg w1 = (q2, w2)" by fastforce
    have k2: "db_of w2 = db_of w" "w_objs w2 = w_objs w" "w_tick w \<le> w_tick w2"
      using keepsD [OF s3_NewClient_keeps(1) c] keepsD [OF s3_NewClient_keeps(2) c] k1 s3_NewClient_tick [OF c] by simp_all
    show ?thesis
    proof (cases q2)
      case (Inl e)
      then show ?thesis using p f Inr c k2 by (auto simp: processGroup_def intro: exI [of _ "{}"])
    next
      case cl: (Inr cl)
      obtain q3 w3 where d: "s3_DeleteObjects E X (tg_bucket g) (tg_keys g) w2 = (q3, w3)" by fastforce
      have w': "w' = w3" "r = Inr () \<Longrightarrow> q3 = Inr ()" using p f Inr c cl d by (cases q3; simp add: processGroup_def)+
      obtain G where "db_of w3 = db_of w2" "w_tick w2 \<le> w_tick w3" "w_objs w3 = w_objs w2 - G"
        "G \<subseteq> {tg_bucket g} \<times> set (tg_keys g)" "\<forall>p\<in>G. \<exists>n. \<not> s3_refused X n (snd p)"
        "q3 = Inr () \<longrightarrow> (\<forall>k\<in>set (tg_keys g). (tg_bucket g, k) \<in> G \<or> refused_in X w2 w3 k)"
        using s3_DeleteObjects_run [OF d] by blast
      then show ?thesis using w' k2 refused_in_mono [of X w2 w3 _ w w3] by (intro conjI exI [of _ G]) auto
    qed
  qed
qed

lemma DeleteTombstones_run:
  assumes "DeleteTombstones E ids w = (r, w')"
  shows "w_objs w' = w_objs w \<and> w_tx w' = w_tx w \<and>
    (r = Inr () \<longrightarrow> w_db w' = (w_db w)\<lparr>t_tombs := filter (\<lambda>x. et_id x \<notin> set ids) (t_tombs (w_db w))\<rparr>) \<and>
    (\<forall>e. r = Inl e \<longrightarrow> w_db w' = w_db w) \<and> w_tick w \<le> w_tick w'"
  using assms by (cases "fault E (w_tick w)") (auto simp: DeleteTombstones_def wrapM_def bindM_def seqM_def io_def split: if_splits)

lemma clean_group_cleans:
  assumes g: "good_group T g"
  obtains w' where "clean_group E X g w = (Inr (), w')" "cleans X T w w'"
proof -
  obtain q w1 where p: "processGroup E X g w = (q, w1)" by fastforce
  obtain G where P: "db_of w1 = db_of w" "w_tick w \<le> w_tick w1" "w_objs w1 = w_objs w - G"
    "G \<subseteq> {tg_bucket g} \<times> set (tg_keys g)" "\<forall>p\<in>G. \<exists>n. \<not> s3_refused X n (snd p)"
    "q = Inr () \<longrightarrow> (\<forall>k\<in>set (tg_keys g). (tg_bucket g, k) \<in> G \<or> refused_in X w w1 k)"
    using processGroup_run [OF p] by blast
  have G: "G \<subseteq> ref_of ` set T" using g P(4) by (auto simp: good_group_def)
  have keep: "cleans X T w w1" unfolding cleans_def using P G
    by (intro conjI exI [of _ "{}"] exI [of _ G]) (simp_all add: db_of_def)
  show thesis
  proof (cases q)
    case (Inl e)
    then have "clean_group E X g w = (Inr (), w1)" using p by (simp add: clean_group_def)
    then show thesis using keep by (rule that)
  next
    case (Inr u)
    obtain q2 w2 where d: "DeleteTombstones E (tg_ids g) w1 = (q2, w2)" by fastforce
    note D = DeleteTombstones_run [OF d]
    have run: "clean_group E X g w = (Inr (), w2)" using p Inr d by (cases q2) (simp_all add: clean_group_def)
    show thesis
    proof (cases q2)
      case (Inl e)
      then have "cleans X T w1 w2" using D by (intro cleans_refl) simp_all
      then show thesis using that [OF run] cleans_trans [OF keep] by blast
    next
      case i: (Inr u')
      have "ref_of r \<in> G \<or> refused_in X w w2 (et_key r)" if "r \<in> set T" "et_id r \<in> set (tg_ids g)" for r
        using g that P(6) Inr D refused_in_mono [of X w w1 "et_key r" w w2] by (auto simp: good_group_def ref_of_def)
      then have "cleans X T w w2" unfolding cleans_def using D i P(1,2,3,5) G
        by (intro conjI exI [of _ "set (tg_ids g)"] exI [of _ G]) (simp_all add: db_of_def)
      then show thesis using that [OF run] by blast
    qed
  qed
qed

lemma clean_groups:
  assumes "\<forall>g\<in>set gs. good_group T g"
  shows "\<exists>w'. foldM (\<lambda>g u. clean_group E X g) gs () w = (Inr (), w') \<and> cleans X T w w'"
  using assms
proof (induction gs arbitrary: w)
  case Nil
  show ?case by (simp add: cleans_refl)
next
  case (Cons g gs)
  have "good_group T g" using Cons.prems by simp
  from clean_group_cleans [OF this] obtain w1 where w1: "clean_group E X g w = (Inr (), w1)" "cleans X T w w1" .
  obtain w' where "foldM (\<lambda>g u. clean_group E X g) gs () w1 = (Inr (), w')" "cleans X T w1 w'"
    using Cons.IH [of w1] Cons.prems by auto
  then show ?case using w1 cleans_trans by (auto simp: bindM_run_Inr)
qed

lemma QueryTombstones_tick: "QueryTombstones E order k w = (r, w') \<Longrightarrow>
    w_tick w \<le> w_tick w' \<and> db_of w' = db_of w \<and> w_objs w' = w_objs w"
  by (auto simp: QueryTombstones_def wrapM_def seqM_def bindM_def io_def get_committed_def retM_def db_of_def split: option.splits)

lemma QueryTombstones_Inr:
  assumes "QueryTombstones E order k w = (Inr gs, w')"
  shows "gs = order (group_tombs (take k (sort_key et_create_time (t_tombs (w_db w)))))" "db_of w' = db_of w" "w_objs w' = w_objs w"
  using assms by (auto simp: QueryTombstones_def monad_simps db_of_def dest!: io_Inr)

section \<open>What the purger does\<close>

text \<open>Rows of drives and storages with the ids \<open>D\<close> are gone; nothing else changed.\<close>

definition purged :: "string set \<Rightarrow> db \<Rightarrow> db \<Rightarrow> bool" where
  "purged D d d' \<longleftrightarrow> (\<exists>A B. A \<subseteq> D \<and> B \<subseteq> D \<and> d' = d\<lparr>t_drives := filter (\<lambda>r. ed_id r \<notin> A) (t_drives d),
     t_storages := filter (\<lambda>r. es_drive_id r \<notin> B) (t_storages d)\<rparr>)"

lemma purged_refl: "purged D d d"
  unfolding purged_def by (intro exI [of _ "{}"]) simp

lemma purged_one:
  "i \<in> D \<Longrightarrow> purged D d (d\<lparr>t_storages := filter (\<lambda>r. es_drive_id r \<noteq> i) (t_storages d)\<rparr>)"
  "i \<in> D \<Longrightarrow> purged D d (d\<lparr>t_storages := filter (\<lambda>r. es_drive_id r \<noteq> i) (t_storages d),
     t_drives := filter (\<lambda>r. ed_id r \<noteq> i) (t_drives d)\<rparr>)"
  unfolding purged_def
  by (cases d, intro exI [of _ "{}"] exI [of _ "{i}"], simp) (cases d, intro exI [of _ "{i}"], simp)

lemma purged_trans: "purged D d d1 \<Longrightarrow> purged D d1 d2 \<Longrightarrow> purged D d d2"
proof -
  assume "purged D d d1" "purged D d1 d2"
  then obtain A B A' B' where
    s: "A \<subseteq> D" "B \<subseteq> D" "A' \<subseteq> D" "B' \<subseteq> D"
    and a: "d1 = d\<lparr>t_drives := filter (\<lambda>r. ed_id r \<notin> A) (t_drives d), t_storages := filter (\<lambda>r. es_drive_id r \<notin> B) (t_storages d)\<rparr>"
    and b: "d2 = d1\<lparr>t_drives := filter (\<lambda>r. ed_id r \<notin> A') (t_drives d1), t_storages := filter (\<lambda>r. es_drive_id r \<notin> B') (t_storages d1)\<rparr>"
    unfolding purged_def by blast
  have "d2 = d\<lparr>t_drives := filter (\<lambda>r. ed_id r \<notin> A \<union> A') (t_drives d), t_storages := filter (\<lambda>r. es_drive_id r \<notin> B \<union> B') (t_storages d)\<rparr>"
    using a b by simp
  then show "purged D d d2" unfolding purged_def using s by (intro exI [of _ "A \<union> A'"] exI [of _ "B \<union> B'"]) simp
qed

lemma drepo_delete_purges:
  assumes "drepo_delete E i w = (r, w')" "w_tx w = None" "i \<in> D"
  shows "w_tx w' = None \<and> purged D (w_db w) (w_db w') \<and> w_objs w' = w_objs w"
proof -
  let ?d1 = "(w_db w)\<lparr>t_storages := filter (\<lambda>r. es_drive_id r \<noteq> i) (t_storages (w_db w))\<rparr>"
  let ?d2 = "(w_db w)\<lparr>t_storages := filter (\<lambda>r. es_drive_id r \<noteq> i) (t_storages (w_db w)),
     t_drives := filter (\<lambda>r. ed_id r \<noteq> i) (t_drives (w_db w))\<rparr>"
  have "purged D (w_db w) ?d1" "purged D (w_db w) ?d2" by (intro purged_one assms(3))+
  moreover have "w_db w' \<in> {w_db w, ?d1, ?d2} \<and> w_tx w' = None \<and> w_objs w' = w_objs w"
    using assms(1,2)
    by (cases "fault E (w_tick w)"; cases "fault E (Suc (w_tick w))")
      (auto simp: drepo_delete_def seqM_def bindM_def wrapM_def io_def client_no_tx split: if_splits)
  ultimately show ?thesis using purged_refl by auto
qed

lemma purge_drives:
  assumes "w_tx w = None" "\<forall>d\<in>set ds. d_id d \<in> D"
  shows "\<exists>w'. foldM (\<lambda>d u. purge_one E d) ds () w = (Inr (), w') \<and> w_tx w' = None \<and> purged D (w_db w) (w_db w') \<and> w_objs w' = w_objs w"
  using assms
proof (induction ds arbitrary: w)
  case Nil
  then show ?case by (simp add: purged_refl)
next
  case (Cons d ds)
  obtain q w1 where p: "drepo_delete E (d_id d) w = (q, w1)" by fastforce
  have d: "w_tx w1 = None" "purged D (w_db w) (w_db w1)" "w_objs w1 = w_objs w"
    using drepo_delete_purges [OF p Cons.prems(1), of D] Cons.prems(2) by simp_all
  have "purge_one E d w = (Inr (), w1)" using p by (cases q) (simp_all add: purge_one_def DrivePurge_def)
  moreover obtain w' where "foldM (\<lambda>d u. purge_one E d) ds () w1 = (Inr (), w')" "w_tx w' = None"
    "purged D (w_db w1) (w_db w')" "w_objs w' = w_objs w1"
    using Cons.IH [OF d(1)] Cons.prems(2) by auto
  ultimately show ?case using purged_trans [OF d(2)] d(3) by (auto simp: bindM_run_Inr)
qed

lemma FindDeleted_Inr:
  assumes "FindDeleted E t k w = (Inr ds, w')"
  shows "\<forall>d\<in>set ds. \<exists>r\<in>set (t_drives (client w)). d_id d = ed_id r \<and> (\<exists>x. ed_deleted_at r = Some x \<and> x \<le> t)"
    "db_of w' = db_of w" "w_objs w' = w_objs w"
proof -
  obtain w1 where io: "io E w = (Inr (), w1)" and ds: "ds = map driveFromEnt (take (nat k)
      (filter (\<lambda>r. case ed_deleted_at r of None \<Rightarrow> False | Some x \<Rightarrow> x \<le> t) (t_drives (client w1))))" and w: "w' = w1"
    using assms by (auto simp: FindDeleted_def wrapM_Inr_iff seqM_Inr_iff bindM_Inr_iff split: if_splits)
  have "w1 = w\<lparr>w_tick := Suc (w_tick w)\<rparr>" using io_Inr [OF io] .
  then show "db_of w' = db_of w" "w_objs w' = w_objs w" "\<forall>d\<in>set ds. \<exists>r\<in>set (t_drives (client w)). d_id d = ed_id r \<and>
      (\<exists>x. ed_deleted_at r = Some x \<and> x \<le> t)"
    using w ds by (force simp: db_of_def driveFromEnt_def dest!: in_set_takeD split: option.splits)+
qed

section \<open>What the expirer does\<close>

text \<open>
  A token that expires between one reading of the clock and the next, from reading \<open>n\<close> on, and the
  objects of such tokens among those Valkey holds in \<open>w\<close>.
\<close>

definition expires_between :: "env \<Rightarrow> nat \<Rightarrow> presign_meta \<Rightarrow> bool" where
  "expires_between E n m \<longleftrightarrow> (\<exists>k\<ge>n. \<not> pm_expires_at m < clock E k \<and> pm_expires_at m < clock E (Suc k))"

definition late_refs :: "env \<Rightarrow> world \<Rightarrow> (string \<times> string) set" where
  "late_refs E w = {(pm_bucket m, pm_key m) | i m. valkey_tok E DefaultKey w i = Some m \<and> expires_between E (w_tick w) m}"

text \<open>From \<open>w\<close> to \<open>w'\<close> only such objects are deleted or recorded as garbage.\<close>

definition expired_late :: "env \<Rightarrow> world \<Rightarrow> world \<Rightarrow> bool" where
  "expired_late E w w' \<longleftrightarrow> w_kv w' \<subseteq>\<^sub>m w_kv w \<and> w_tick w \<le> w_tick w' \<and> w_tx w' = w_tx w \<and>
     (\<exists>G H. w_objs w' = w_objs w - G \<and> G \<subseteq> late_refs E w \<and>
        w_db w' = (w_db w)\<lparr>t_tombs := t_tombs (w_db w) @ H\<rparr> \<and> ref_of ` set H \<subseteq> late_refs E w)"

lemma valkey_tok_mono: "valkey_tok E f v i = Some m \<Longrightarrow> w_kv v \<subseteq>\<^sub>m w_kv w \<Longrightarrow> valkey_tok E f w i = Some m"
  by (auto simp: valkey_tok_def map_le_def dom_def split: option.splits)

lemma late_refs_mono: "w_kv v \<subseteq>\<^sub>m w_kv w \<Longrightarrow> w_tick w \<le> w_tick v \<Longrightarrow> late_refs E v \<subseteq> late_refs E w"
  unfolding late_refs_def expires_between_def by (auto dest: valkey_tok_mono intro: order_trans)

lemma expired_late_idle:
  "w_kv w' \<subseteq>\<^sub>m w_kv w \<Longrightarrow> w_tick w \<le> w_tick w' \<Longrightarrow> db_of w' = db_of w \<Longrightarrow> w_objs w' = w_objs w \<Longrightarrow> expired_late E w w'"
  unfolding expired_late_def by (intro conjI exI [of _ "{}"] exI [of _ "[]"]) (simp_all add: db_of_def)

lemma expired_late_trans: "expired_late E w v \<Longrightarrow> expired_late E v u \<Longrightarrow> expired_late E w u"
proof -
  assume "expired_late E w v" "expired_late E v u"
  then obtain G H G' H' where
    a: "w_kv v \<subseteq>\<^sub>m w_kv w" "w_tick w \<le> w_tick v" "w_tx v = w_tx w" "w_objs v = w_objs w - G" "G \<subseteq> late_refs E w"
      "w_db v = (w_db w)\<lparr>t_tombs := t_tombs (w_db w) @ H\<rparr>" "ref_of ` set H \<subseteq> late_refs E w"
    and b: "w_kv u \<subseteq>\<^sub>m w_kv v" "w_tick v \<le> w_tick u" "w_tx u = w_tx v" "w_objs u = w_objs v - G'" "G' \<subseteq> late_refs E v"
      "w_db u = (w_db v)\<lparr>t_tombs := t_tombs (w_db v) @ H'\<rparr>" "ref_of ` set H' \<subseteq> late_refs E v"
    unfolding expired_late_def by (elim conjE exE) (rule that)
  have l: "late_refs E v \<subseteq> late_refs E w" using a(1,2) by (rule late_refs_mono)
  have "w_objs u = w_objs w - (G \<union> G')" using a(4) b(4) by blast
  moreover have "w_db u = (w_db w)\<lparr>t_tombs := t_tombs (w_db w) @ (H @ H')\<rparr>" using a(6) b(6) by simp
  moreover have "G \<union> G' \<subseteq> late_refs E w" using a(5) b(5) l by blast
  moreover have "ref_of ` set (H @ H') \<subseteq> late_refs E w" using a(7) b(7) l by (simp add: image_Un)
  ultimately show "expired_late E w u" unfolding expired_late_def
    using a(1-3) b(1-3) map_le_trans [OF b(1) a(1)] by (intro conjI exI [of _ "G \<union> G'"] exI [of _ "H @ H'"]) (simp_all del: Un_subset_iff set_append)
qed

lemma valkey_ticks:
  "kv_GET E k w = (r, w') \<Longrightarrow> w_tick w \<le> w_tick w'" "kv_DEL E k w = (q, w') \<Longrightarrow> w_tick w \<le> w_tick w'"
  by (cases "fault E (w_tick w)"; auto simp: kv_GET_def kv_DEL_def seqM_def bindM_def io_def time_Now_def draw_def
      get_kv_def set_kv_def)+

lemma valkey_Delete_idle:
  assumes d: "valkey_Delete E DefaultKey i w = (q, w')"
  shows "w_kv w' \<subseteq>\<^sub>m w_kv w" "w_tick w \<le> w_tick w'" "db_of w' = db_of w" "w_objs w' = w_objs w"
proof -
  show "w_kv w' \<subseteq>\<^sub>m w_kv w" using valkey_Delete_kv [of E DefaultKey i w] d by (cases q) (auto simp: map_le_def)
  obtain q1 where "kv_DEL E (DefaultKey i) w = (q1, w')"
    using d by (auto simp: valkey_Delete_def wrapM_def split: prod.splits sum.splits)
  then show "w_tick w \<le> w_tick w'" by (rule valkey_ticks(2))
  show "db_of w' = db_of w" "w_objs w' = w_objs w"
    using keepsD [OF keeps_valkey_ops(3) d] keepsD [OF keeps_valkey_ops(6) d] by simp_all
qed

text \<open>A token that Get returns was held, and had not expired at the last reading of the clock.\<close>

lemma valkey_Get_late:
  assumes g: "valkey_Get E DefaultKey i w = (q, w')"
  shows "w_kv w' \<subseteq>\<^sub>m w_kv w" "w_tick w \<le> w_tick w'" "db_of w' = db_of w" "w_objs w' = w_objs w"
    "q = Inr m \<Longrightarrow> valkey_tok E DefaultKey w i = Some m \<and> (\<exists>k. w_tick w \<le> k \<and> w_tick w' = Suc k \<and> \<not> pm_expires_at m < clock E k)"
proof -
  show "w_kv w' \<subseteq>\<^sub>m w_kv w" using valkey_Get_Inr [of E DefaultKey i w] valkey_Get_Inl [of E DefaultKey i w] g
    by (cases q) (fastforce simp: map_le_def)+
  show "db_of w' = db_of w" "w_objs w' = w_objs w"
    using keepsD [OF keeps_valkey_ops(2) g] keepsD [OF keeps_valkey_ops(5) g] by simp_all
  have "w_tick w \<le> w_tick w' \<and> (q = Inr m \<longrightarrow> (\<exists>k. w_tick w \<le> k \<and> w_tick w' = Suc k \<and> \<not> pm_expires_at m < clock E k))"
  proof (cases rule: kv_GET_cases [of E "DefaultKey i" w])
    case (err e v)
    then show ?thesis using g valkey_Get_run(1) [of E DefaultKey i w, OF err] valkey_ticks(1) [OF err] by auto
  next
    case (ok r v)
    let ?v = "v\<lparr>w_tick := Suc (w_tick v)\<rparr>"
    have "q \<noteq> Inr m \<and> w' = v \<or> (q \<noteq> Inr m \<and> (\<exists>x. valkey_Delete E DefaultKey i ?v = (x, w'))) \<or>
        (\<exists>m'. q = Inr m' \<and> \<not> pm_expires_at m' < clock E (w_tick v) \<and> w' = ?v)"
      using g valkey_Get_run(2) [of E DefaultKey i w, OF ok] by (auto simp: tryM_iff split: option.splits sum.splits if_splits)
    then show ?thesis using valkey_ticks(1) [OF ok] valkey_Delete_idle(2) [of E i ?v] by auto
  qed
  then show "w_tick w \<le> w_tick w'"
    "q = Inr m \<Longrightarrow> valkey_tok E DefaultKey w i = Some m \<and> (\<exists>k. w_tick w \<le> k \<and> w_tick w' = Suc k \<and> \<not> pm_expires_at m < clock E k)"
    using valkey_Get_Inr [of E DefaultKey i w m w'] g by auto
qed

text \<open>From \<open>w\<close> to \<open>w'\<close> at most the object \<open>p\<close> is deleted or recorded as garbage.\<close>

definition only_at :: "string \<times> string \<Rightarrow> world \<Rightarrow> world \<Rightarrow> bool" where
  "only_at p w w' \<longleftrightarrow> w_kv w' = w_kv w \<and> w_tick w \<le> w_tick w' \<and> w_tx w' = w_tx w \<and>
     (\<exists>G H. w_objs w' = w_objs w - G \<and> G \<subseteq> {p} \<and> w_db w' = (w_db w)\<lparr>t_tombs := t_tombs (w_db w) @ H\<rparr> \<and> ref_of ` set H \<subseteq> {p})"

lemma only_at_idle: "w_kv w' = w_kv w \<Longrightarrow> w_tick w \<le> w_tick w' \<Longrightarrow> db_of w' = db_of w \<Longrightarrow> w_objs w' = w_objs w \<Longrightarrow> only_at p w w'"
  unfolding only_at_def by (intro conjI exI [of _ "{}"] exI [of _ "[]"]) (simp_all add: db_of_def)

lemma expired_late_at:
  assumes "expired_late E w v" "w_objs v = w_objs w" "w_db v = w_db w" "p \<in> late_refs E w" "only_at p v u"
  shows "expired_late E w u"
proof -
  obtain G H where "w_objs u = w_objs v - G" "G \<subseteq> {p}" "w_db u = (w_db v)\<lparr>t_tombs := t_tombs (w_db v) @ H\<rparr>" "ref_of ` set H \<subseteq> {p}"
    using assms(5) unfolding only_at_def by (elim conjE exE) (rule that)
  then have "w_objs u = w_objs w - G" "G \<subseteq> late_refs E w" "w_db u = (w_db w)\<lparr>t_tombs := t_tombs (w_db w) @ H\<rparr>"
    "ref_of ` set H \<subseteq> late_refs E w" using assms(2-4) by auto
  then show ?thesis using assms(1,5) unfolding expired_late_def only_at_def by (intro conjI exI [of _ G] exI [of _ H]) simp_all
qed

lemma RecordGarbage_one:
  assumes r: "RecordGarbage E [g] w = (q, w')" and w: "w_tx w = None"
  shows "only_at (gr_bucket g, gr_key g) w w'"
proof -
  let ?x = "\<lparr>et_id = next_tomb_id (t_tombs (w_db w)), et_bucket = gr_bucket g, et_key = gr_key g, et_retries = 0,
    et_create_time = clock E (w_tick w)\<rparr>"
  have s: "stamped E [g] w = (Inr [(g, clock E (w_tick w))], w\<lparr>w_tick := Suc (w_tick w)\<rparr>)"
    by (simp add: stamped_def stamp_run bindM_def)
  have "(\<exists>k. w' = w\<lparr>w_tick := k\<rparr> \<and> w_tick w \<le> k) \<or>
    w' = w\<lparr>w_tick := Suc (Suc (w_tick w)), w_db := (w_db w)\<lparr>t_tombs := t_tombs (w_db w) @ [?x]\<rparr>\<rparr>"
    using r w by (cases "fault E (Suc (w_tick w))")
      (auto simp: RecordGarbage_def wrapM_def seqM_def s bindM_def ensureM_def io_def get_client_def
        put_client_def client_def split: if_splits)
  then show ?thesis
  proof
    assume "\<exists>k. w' = w\<lparr>w_tick := k\<rparr> \<and> w_tick w \<le> k"
    then show ?thesis by (auto intro!: only_at_idle simp: db_of_def)
  next
    assume "w' = w\<lparr>w_tick := Suc (Suc (w_tick w)), w_db := (w_db w)\<lparr>t_tombs := t_tombs (w_db w) @ [?x]\<rparr>\<rparr>"
    then show ?thesis unfolding only_at_def by (intro conjI exI [of _ "{}"] exI [of _ "[?x]"]) (simp_all add: ref_of_def)
  qed
qed

lemma expire_object_run:
  assumes w: "w_tx w = None"
  shows "\<exists>n w'. expire_object (Some (s3_store E X)) (Some (RecordGarbage E)) m w = (Inr n, w') \<and> only_at (pm_bucket m, pm_key m) w w'"
proof -
  let ?p = "(pm_bucket m, pm_key m)" and ?g = "\<lparr>gr_bucket = pm_bucket m, gr_key = pm_key m\<rparr>"
  let ?w1 = "w\<lparr>w_tick := Suc (w_tick w)\<rparr>"
  have run: "expire_object (Some (s3_store E X)) (Some (RecordGarbage E)) m w =
      (if pm_bucket m = [] \<or> pm_key m = [] then (Inr 0, w)
       else case fault E (w_tick w) of
         Some e \<Rightarrow> (Inr 1, snd (RecordGarbage E [?g] ?w1))
       | None \<Rightarrow> (Inr 0, ?w1\<lparr>w_objs := w_objs w - {?p}\<rparr>))"
    by (cases "RecordGarbage E [?g] ?w1"; cases "fst (RecordGarbage E [?g] ?w1)")
      (auto simp: expire_object_def upload_DeleteObject_def s3_store_def s3_DeleteObject_def wrapM_def seqM_def bindM_def
        tryM_def io_def get_objs_def set_objs_def split: option.splits)
  obtain q v where v: "RecordGarbage E [?g] ?w1 = (q, v)" by fastforce
  have "only_at ?p ?w1 v" using RecordGarbage_one [OF v] w by simp
  then have "only_at ?p w v" by (auto simp: only_at_def)
  moreover have "only_at ?p w (?w1\<lparr>w_objs := w_objs w - {?p}\<rparr>)"
    unfolding only_at_def by (intro conjI exI [of _ "{?p}"] exI [of _ "[]"]) simp_all
  moreover have "only_at ?p w w" by (rule only_at_idle) simp_all
  ultimately show ?thesis using v unfolding run by (cases "fault E (w_tick w)") simp_all
qed

lemma expire_one_late:
  assumes w: "w_tx w = None"
  shows "\<exists>c' w'. expire_one E (NewValkeyRegistry E) (Some (s3_store E X)) (Some (RecordGarbage E)) i c w = (Inr (None, c'), w') \<and>
    expired_late E w w'"
proof -
  obtain sc de s3 where c: "c = (sc, de, s3)" by (cases c)
  have R: "rg_Get (NewValkeyRegistry E) i = valkey_Get E DefaultKey i" "rg_Delete (NewValkeyRegistry E) i = valkey_Delete E DefaultKey i"
    by (simp_all add: NewValkeyRegistry_def NewValkeyRegistryWithKeyer_def)
  obtain q w1 where g: "valkey_Get E DefaultKey i w = (q, w1)" by fastforce
  have w1: "expired_late E w w1" by (rule expired_late_idle [OF valkey_Get_late(1-4) [OF g]])
  show ?thesis
  proof (cases q)
    case (Inl e)
    obtain q2 w2 where d: "valkey_Delete E DefaultKey i w1 = (q2, w2)" by fastforce
    have "expired_late E w w2" by (rule expired_late_trans [OF w1 expired_late_idle [OF valkey_Delete_idle [OF d]]])
    then show ?thesis using c g d Inl R by (cases q2) (simp_all add: expire_one_def)
  next
    case (Inr m)
    obtain k where k: "valkey_tok E DefaultKey w i = Some m" "w_tick w \<le> k" "w_tick w1 = Suc k" "\<not> pm_expires_at m < clock E k"
      using valkey_Get_late(5) [OF g Inr] by blast
    let ?w2 = "w1\<lparr>w_tick := Suc (Suc k)\<rparr>"
    have x: "IsExpired E m w1 = (Inr (pm_expires_at m < clock E (Suc k)), ?w2)"
      using k(3) by (simp add: IsExpired_def time_Now_def draw_def bindM_def)
    have w2: "expired_late E w ?w2" using k(3) by (intro expired_late_trans [OF w1 expired_late_idle]) (simp_all add: db_of_def)
    show ?thesis
    proof (cases "pm_expires_at m < clock E (Suc k)")
      case False
      then show ?thesis using c g Inr R w2 by (simp add: expire_one_def bindM_run_Inr [of "IsExpired E m", OF x])
    next
      case True
      then have late: "(pm_bucket m, pm_key m) \<in> late_refs E w" using k by (auto simp: late_refs_def expires_between_def)
      have "w_tx ?w2 = None" using w2 w by (simp add: expired_late_def)
      then obtain n w3 where o: "expire_object (Some (s3_store E X)) (Some (RecordGarbage E)) m ?w2 = (Inr n, w3)"
        and at: "only_at (pm_bucket m, pm_key m) ?w2 w3"
        using expire_object_run by blast
      have "w_objs ?w2 = w_objs w" "w_db ?w2 = w_db w" using valkey_Get_late(3,4) [OF g] by (simp_all add: db_of_def)
      then have l3: "expired_late E w w3" by (rule expired_late_at [OF w2 _ _ late at])
      obtain q4 w4 where d: "valkey_Delete E DefaultKey i w3 = (q4, w4)" by fastforce
      have "expired_late E w w4" by (rule expired_late_trans [OF l3 expired_late_idle [OF valkey_Delete_idle [OF d]]])
      then show ?thesis using c g Inr R True o d
        by (cases q4) (simp_all add: expire_one_def bindM_run_Inr [of "IsExpired E m", OF x] bindM_run_Inr [of "expire_object _ _ _", OF o])
    qed
  qed
qed

lemma scan_page_late:
  assumes fn: "\<And>i c w. w_tx w = None \<Longrightarrow> \<exists>c' w'. fn i c w = (Inr (None, c'), w') \<and> expired_late E w w'"
  shows "w_tx w = None \<Longrightarrow> \<exists>c' w'. scan_page fn ks c w = (Inr (None, c'), w') \<and> expired_late E w w'"
proof (induction ks arbitrary: c w)
  case Nil
  show ?case by (simp add: expired_late_idle)
next
  case (Cons k ks)
  obtain c1 w1 where f: "fn (trim_prefix k DefaultKeyPrefix) c w = (Inr (None, c1), w1)" "expired_late E w w1"
    using fn [OF Cons.prems] by blast
  then have "w_tx w1 = None" using Cons.prems by (simp add: expired_late_def)
  then show ?case using Cons.IH [of w1 c1] f expired_late_trans by fastforce
qed

lemma scan_pages_late:
  assumes fn: "\<And>i c w. w_tx w = None \<Longrightarrow> \<exists>c' w'. fn i c w = (Inr (None, c'), w') \<and> expired_late E w w'"
  shows "w_tx w = None \<Longrightarrow> \<exists>e c' w'. valkey_scan_pages E pages fn c w = (Inr (e, c'), w') \<and> expired_late E w w'"
proof (induction pages arbitrary: c w)
  case Nil
  show ?case by (simp add: expired_late_idle)
next
  case (Cons ks pages)
  let ?w = "w\<lparr>w_tick := Suc (w_tick w)\<rparr>"
  have t: "expired_late E w ?w" by (rule expired_late_idle) (simp_all add: db_of_def)
  show ?case
  proof (cases rule: io_cases [of E w])
    case (1 e)
    then show ?thesis using t by (simp add: tryM_def)
  next
    case 2
    have n: "w_tx ?w = None" using Cons.prems by simp
    obtain c1 w1 where s: "scan_page fn ks c ?w = (Inr (None, c1), w1)" "expired_late E ?w w1"
      using scan_page_late [where fn = fn and E = E and w = ?w and ks = ks and c = c] fn n by blast
    then have "w_tx w1 = None" using n by (simp add: expired_late_def)
    then obtain e c' w' where "valkey_scan_pages E pages fn c1 w1 = (Inr (e, c'), w')" "expired_late E w1 w'" using Cons.IH by blast
    then show ?thesis using s 2 expired_late_trans [OF t expired_late_trans [OF s(2)]] by (auto simp: tryM_def)
  qed
qed

section \<open>Properties\<close>

text \<open>
  C26. The cleaner of tombstones, whatever fails. It deletes only objects that have a tombstone, and changes no other
  table. It drops the row of a tombstone only when the object is gone or S3 refused its key in a batch of
  this run: the reply that lists the refused keys is ignored, and the object of a key that is refused stays
  though no tombstone remembers it any more.
\<close>

theorem TombstoneCleaner_safe:
  assumes t: "tombs_ok (w_db w)" and o: "\<forall>gs. set (order gs) = set gs"
    and r: "TombstoneCleaner_Run E X order w = (q, w')"
  shows "(\<forall>p\<in>w_objs w. p \<notin> w_objs w' \<longrightarrow> p \<in> ref_of ` set (t_tombs (w_db w))) \<and> w_objs w' \<subseteq> w_objs w \<and>
    (\<forall>x\<in>set (t_tombs (w_db w)). x \<notin> set (t_tombs (w_db w')) \<longrightarrow>
      (et_bucket x, et_key x) \<notin> w_objs w' \<or> (\<exists>n. w_tick w \<le> n \<and> n < w_tick w' \<and> s3_refused X n (et_key x))) \<and>
    (\<forall>b k. (b, k) \<in> w_objs w \<longrightarrow> (\<forall>n. s3_refused X n k) \<longrightarrow> (b, k) \<in> w_objs w') \<and>
    w_db w' = (w_db w)\<lparr>t_tombs := t_tombs (w_db w')\<rparr> \<and> set (t_tombs (w_db w')) \<subseteq> set (t_tombs (w_db w))"
proof -
  let ?T = "t_tombs (w_db w)"
  obtain qs w1 where qs: "QueryTombstones E order defaultProcessLimit w = (qs, w1)" by fastforce
  have start: "cleans X ?T w w1" using QueryTombstones_tick [OF qs] by (intro cleans_refl) (simp_all add: db_of_def)
  have "cleans X ?T w w'"
  proof (cases qs)
    case (Inl e)
    then show ?thesis using start r qs by (simp add: TombstoneCleaner_Run_def)
  next
    case (Inr gs)
    let ?rows = "take defaultProcessLimit (sort_key et_create_time ?T)"
    have "set ?rows \<subseteq> set ?T" using set_take_subset [of defaultProcessLimit "sort_key et_create_time ?T"] by simp
    then have "\<forall>g\<in>set gs. good_group ?T g"
      using t good_group_of [of ?T ?rows] o QueryTombstones_Inr(1) [of E order defaultProcessLimit w gs w1] qs Inr
      by (auto simp: group_tombs_eq tombs_ok_def)
    then obtain v where "foldM (\<lambda>g u. clean_group E X g) gs () w1 = (Inr (), v)" "cleans X ?T w1 v"
      using clean_groups [of gs ?T E X w1] by blast
    then show ?thesis using cleans_trans [OF start] r qs Inr by (simp add: TombstoneCleaner_Run_def)
  qed
  then obtain D G where c: "w_db w' = (w_db w)\<lparr>t_tombs := filter (\<lambda>r. et_id r \<notin> D) ?T\<rparr>" "w_objs w' = w_objs w - G"
    "G \<subseteq> ref_of ` set ?T" "\<forall>p\<in>G. \<exists>n. \<not> s3_refused X n (snd p)"
    "\<forall>r\<in>set ?T. et_id r \<in> D \<longrightarrow> ref_of r \<in> G \<or> refused_in X w w' (et_key r)" unfolding cleans_def by blast
  have "(b, k) \<notin> G" if "\<forall>n. s3_refused X n k" for b k using c(4) that by fastforce
  then show ?thesis using c(1,2,3,5) by (auto simp: ref_of_def refused_in_def)
qed

text \<open>
  C27. The purger of drives spares every drive that is not deleted, or was deleted within the
  retention, and no other table but the storages changes: neither the nodes of a purged drive
  nor its objects are removed.
\<close>

theorem DrivePurger_spares:
  assumes w: "w_tx w = None" "drives_ok (w_db w)" and r: "DrivePurger_Run E fmt retention w = (Inr (), w')"
  shows "(\<forall>x\<in>set (t_drives (w_db w)). x \<notin> set (t_drives (w_db w')) \<longrightarrow>
      (\<exists>t. ed_deleted_at x = Some t \<and> t \<le> clock E (w_tick w) - retention)) \<and>
    set (t_drives (w_db w')) \<subseteq> set (t_drives (w_db w)) \<and> t_nodes (w_db w') = t_nodes (w_db w) \<and>
    t_users (w_db w') = t_users (w_db w) \<and> t_tombs (w_db w') = t_tombs (w_db w) \<and> w_objs w' = w_objs w"
proof -
  let ?t = "clock E (w_tick w) - retention" and ?w0 = "w\<lparr>w_tick := Suc (w_tick w)\<rparr>"
  obtain ds w1 where l: "FindDeleted E ?t (int defaultProcessLimit) ?w0 = (Inr ds, w1)"
    and f: "foldM (\<lambda>d u. purge_one E d) ds () w1 = (Inr (), w')"
    using r by (auto simp: DrivePurger_Run_def ListDeletedForAdmin_def Let_def bindM_Inr_iff wrapM_Inr_iff time_Now_def draw_def)
  note F = FindDeleted_Inr [OF l]
  let ?D = "{ed_id x | x. x \<in> set (t_drives (w_db w)) \<and> (\<exists>t. ed_deleted_at x = Some t \<and> t \<le> ?t)}"
  have "w_tx w1 = None" "w_db w1 = w_db w" "w_objs w1 = w_objs w" using F(2,3) w(1) by (simp_all add: db_of_def)
  moreover have "\<forall>d\<in>set ds. d_id d \<in> ?D" using F(1) w(1) by (fastforce simp: client_no_tx)
  ultimately have p: "purged ?D (w_db w) (w_db w')" "w_objs w' = w_objs w"
    using purge_drives [of w1 ds ?D E] f by auto
  then obtain A B where A: "A \<subseteq> ?D" and d: "w_db w' = (w_db w)\<lparr>t_drives := filter (\<lambda>r. ed_id r \<notin> A) (t_drives (w_db w)),
     t_storages := filter (\<lambda>r. es_drive_id r \<notin> B) (t_storages (w_db w))\<rparr>" unfolding purged_def by blast
  have "\<exists>t. ed_deleted_at x = Some t \<and> t \<le> ?t" if x: "x \<in> set (t_drives (w_db w))" "x \<notin> set (t_drives (w_db w'))" for x
  proof -
    have "ed_id x \<in> A" using x d by simp
    then obtain y where y: "y \<in> set (t_drives (w_db w))" "ed_id x = ed_id y" "\<exists>t. ed_deleted_at y = Some t \<and> t \<le> ?t"
      using A by blast
    then have "x = y" using w(2) x(1) by (meson distinct_map drives_ok_def inj_onD)
    then show ?thesis using y(3) by simp
  qed
  then show ?thesis using d p(2) by simp
qed


section \<open>The jobs on concrete states\<close>

definition tomb_world :: world where
  "tomb_world = (world_of (empty_db\<lparr>
     t_storages := [\<lparr>es_drive_id = ''d1'', es_bucket = ''b'', es_endpoint = None, es_region = ''r'', es_access_key = ''a'',
       es_secret_key = ''s'', es_use_path_style = False\<rparr>],
     t_tombs := [\<lparr>et_id = 1, et_bucket = ''b'', et_key = ''k'', et_retries = 0, et_create_time = 1\<rparr>]\<rparr>))\<lparr>w_objs := {(''b'', ''k'')}\<rparr>"

definition refusing_s3 :: s3_env where
  "refusing_s3 = demo_s3\<lparr>s3_refused := (\<lambda>n k. True)\<rparr>"

lemma tomb_world_clean:
  "\<exists>w'. TombstoneCleaner_Run demo X (\<lambda>gs. gs) tomb_world = (Inr (), w') \<and> t_tombs (w_db w') = []"
  by (simp add: TombstoneCleaner_Run_def QueryTombstones_def group_tombs_eq group_of_def Let_def clean_group_def processGroup_def
      FindStorageByBucket_def s3_NewClient_def s3_DeleteObjects_def DeleteTombstones_def tomb_world_def world_of_def empty_db_def
      bindM_def seqM_def wrapM_def tryM_def io_def draw_def get_objs_def set_objs_def stringPtr_def defaultProcessLimit_def)

text \<open>Both cases: the object goes with its tombstone, or S3 refuses and it stays without one.\<close>

theorem TombstoneCleaner_safe_witness:
  "(\<exists>w'. TombstoneCleaner_Run demo demo_s3 (\<lambda>gs. gs) tomb_world = (Inr (), w') \<and> (''b'', ''k'') \<notin> w_objs w') \<and>
   (\<exists>w'. TombstoneCleaner_Run demo refusing_s3 (\<lambda>gs. gs) tomb_world = (Inr (), w') \<and> (''b'', ''k'') \<in> w_objs w' \<and> t_tombs (w_db w') = [])"
proof -
  have t: "tombs_ok (w_db tomb_world)" by (simp add: tombs_ok_def tomb_world_def world_of_def empty_db_def valid_tomb_row_def)
  have T: "t_tombs (w_db tomb_world) = [\<lparr>et_id = 1, et_bucket = ''b'', et_key = ''k'', et_retries = 0, et_create_time = 1\<rparr>]"
    "w_objs tomb_world = {(''b'', ''k'')}" by (simp_all add: tomb_world_def world_of_def empty_db_def)
  obtain w1 where w1: "TombstoneCleaner_Run demo demo_s3 (\<lambda>gs. gs) tomb_world = (Inr (), w1)" "t_tombs (w_db w1) = []"
    using tomb_world_clean by blast
  obtain w2 where w2: "TombstoneCleaner_Run demo refusing_s3 (\<lambda>gs. gs) tomb_world = (Inr (), w2)" "t_tombs (w_db w2) = []"
    using tomb_world_clean by blast
  show ?thesis using TombstoneCleaner_safe [OF t _ w1(1)] TombstoneCleaner_safe [OF t _ w2(1)] w1 w2 T
    by (auto simp: demo_s3_def refusing_s3_def)
qed

theorem DrivePurger_spares_witness:
  "\<exists>w'. DrivePurger_Run demo (\<lambda>t. []) (NewDrivePurger 0) demo_drives = (Inr (), w') \<and> demo_drive_row \<in> set (t_drives (w_db w'))"
proof -
  have d: "w_tx demo_drives = None" "t_drives (w_db demo_drives) = [demo_drive_row]" "ed_deleted_at demo_drive_row = None"
    by (simp_all add: demo_drives_def world_of_def empty_db_def demo_drive_row_def)
  then have "\<exists>w'. DrivePurger_Run demo (\<lambda>t. []) (NewDrivePurger 0) demo_drives = (Inr (), w')"
    by (simp add: DrivePurger_Run_def ListDeletedForAdmin_def FindDeleted_def Let_def bindM_def seqM_def wrapM_def io_def
        time_Now_def draw_def client_no_tx)
  then obtain w' where w': "DrivePurger_Run demo (\<lambda>t. []) (NewDrivePurger 0) demo_drives = (Inr (), w')" by blast
  have "drives_ok (w_db demo_drives)" using d by (simp add: drives_ok_def)
  then show ?thesis using DrivePurger_spares [OF d(1) _ w'] d w' by auto
qed

lemma time_field_clock: "time_field (E\<lparr>clock := c\<rparr>) f t ms = time_field E f t ms"
proof (induction ms arbitrary: t)
  case (Cons p ms)
  then show ?case by (cases p) (simp split: json.splits option.splits)
qed simp

text \<open>A clock that goes on, past the expiry of the only token.\<close>

definition demo_late :: env where
  "demo_late = demo\<lparr>clock := (\<lambda>n. 2000000 + int n)\<rparr>"


end
