(* ===== verification/Perm.thy ===== *)
theory Perm
  imports Upload Demo
begin

text \<open>
  The authorization component (internal/permission): the interface \<open>Authorizer\<close>, its OpenFGA
  implementation \<open>FGAChecker\<close> with the credentials it accepts, and the authorization model
  (model.fga) the OpenFGA server evaluates. The relationship tuples are the part \<open>w_fga\<close> of the
  world; the SDK and the server are described by their documented behaviour.
\<close>

section \<open>authorizer.go\<close>

datatype action = ActionView | ActionEdit | ActionDelete | ActionManage | ActionShare

fun action_string :: "action \<Rightarrow> string" where
  "action_string ActionView = ''can_view''"
| "action_string ActionEdit = ''can_edit''"
| "action_string ActionDelete = ''can_delete''"
| "action_string ActionManage = ''can_manage''"
| "action_string ActionShare = ''can_share''"

definition ObjectTypeDrive :: string where
  "ObjectTypeDrive = ''drive''"

definition ObjectTypeUser :: string where
  "ObjectTypeUser = ''user''"

record authorizer =
  au_Grant :: "string \<Rightarrow> string \<Rightarrow> string \<Rightarrow> string \<Rightarrow> unit W"
  au_Revoke :: "string \<Rightarrow> string \<Rightarrow> string \<Rightarrow> string \<Rightarrow> unit W"
  au_Check :: "string \<Rightarrow> action \<Rightarrow> string \<Rightarrow> string \<Rightarrow> bool W"
  au_ListObjects :: "string \<Rightarrow> action \<Rightarrow> string \<Rightarrow> string list W"

section \<open>The model and the server\<close>

text \<open>
  model.fga, relation by relation: what a list of tuples (user, relation, object) gives a user on
  an object. A relation the model does not define is an error of the server.
\<close>

type_synonym fga_tuple = "string \<times> string \<times> string"

definition fga_owner :: "fga_tuple list \<Rightarrow> string \<Rightarrow> string \<Rightarrow> bool" where
  "fga_owner T u ob \<longleftrightarrow> (u, ''owner'', ob) \<in> set T"

definition fga_editor :: "fga_tuple list \<Rightarrow> string \<Rightarrow> string \<Rightarrow> bool" where
  "fga_editor T u ob \<longleftrightarrow> (u, ''editor'', ob) \<in> set T \<or> fga_owner T u ob"

definition fga_viewer :: "fga_tuple list \<Rightarrow> string \<Rightarrow> string \<Rightarrow> bool" where
  "fga_viewer T u ob \<longleftrightarrow> (u, ''viewer'', ob) \<in> set T \<or> fga_editor T u ob \<or> fga_owner T u ob"

fun fga_allows :: "fga_tuple list \<Rightarrow> string \<Rightarrow> action \<Rightarrow> string \<Rightarrow> bool" where
  "fga_allows T u ActionView ob = fga_viewer T u ob"
| "fga_allows T u ActionEdit ob = fga_editor T u ob"
| "fga_allows T u ActionDelete ob = fga_owner T u ob"
| "fga_allows T u ActionManage ob = fga_owner T u ob"
| "fga_allows T u ActionShare ob = fga_owner T u ob"

definition fga_writable :: "string \<Rightarrow> bool" where
  "fga_writable rel \<longleftrightarrow> rel \<in> {''owner'', ''editor'', ''viewer''}"

definition get_fga :: "fga_tuple list W" where
  "get_fga = (\<lambda>w. (Inr (w_fga w), w))"

definition set_fga :: "fga_tuple list \<Rightarrow> unit W" where
  "set_fga T = (\<lambda>w. (Inr (), w\<lparr>w_fga := T\<rparr>))"

text \<open>A write of a tuple that exists, or a deletion of one that does not, is refused.\<close>

definition fga_Write :: "env \<Rightarrow> fga_tuple \<Rightarrow> unit W" where
  "fga_Write E t =
     seqM (io E) (bindM get_fga (\<lambda>T.
       if \<not> fga_writable (fst (snd t)) \<or> t \<in> set T then failM (Foreign ''write_failed_due_to_invalid_input'' None)
       else set_fga (T @ [t])))"

definition fga_Delete :: "env \<Rightarrow> fga_tuple \<Rightarrow> unit W" where
  "fga_Delete E t =
     seqM (io E) (bindM get_fga (\<lambda>T.
       if t \<notin> set T then failM (Foreign ''write_failed_due_to_invalid_input'' None)
       else set_fga (removeAll t T)))"

section \<open>openfga.go\<close>

definition fga_user :: "string \<Rightarrow> string" where
  "fga_user u = ''user:'' @ u"

definition fga_object :: "string \<Rightarrow> string \<Rightarrow> string" where
  "fga_object typ i = typ @ '':'' @ i"

definition fga_Grant :: "env \<Rightarrow> string \<Rightarrow> string \<Rightarrow> string \<Rightarrow> string \<Rightarrow> unit W" where
  "fga_Grant E u rel typ i = fga_Write E (fga_user u, rel, fga_object typ i)"

definition fga_Revoke :: "env \<Rightarrow> string \<Rightarrow> string \<Rightarrow> string \<Rightarrow> string \<Rightarrow> unit W" where
  "fga_Revoke E u rel typ i = fga_Delete E (fga_user u, rel, fga_object typ i)"

definition fga_Check :: "env \<Rightarrow> string \<Rightarrow> action \<Rightarrow> string \<Rightarrow> string \<Rightarrow> bool W" where
  "fga_Check E u perm typ i =
     seqM (wrapM [] (''openfga: check (user='' @ u @ '', perm='' @ action_string perm @ '', type='' @ typ @ '', id='' @ i @ '')'') (io E))
       (bindM get_fga (\<lambda>T. retM (fga_allows T (fga_user u) perm (fga_object typ i))))"

text \<open>The server answers with the objects of the type, written \<open>type:id\<close>.\<close>

definition fga_ListObjects :: "env \<Rightarrow> string \<Rightarrow> action \<Rightarrow> string \<Rightarrow> string list W" where
  "fga_ListObjects E u perm typ =
     seqM (io E) (bindM get_fga (\<lambda>T.
       retM (filter (\<lambda>ob. has_prefix ob (typ @ '':'') \<and> fga_allows T (fga_user u) perm ob) (remdups (map (\<lambda>t. snd (snd t)) T)))))"

definition FGAChecker :: "env \<Rightarrow> authorizer" where
  "FGAChecker E = \<lparr>au_Grant = fga_Grant E, au_Revoke = fga_Revoke E, au_Check = fga_Check E, au_ListObjects = fga_ListObjects E\<rparr>"

subsection \<open>Configuration\<close>

datatype fga_credentials =
    CredApiToken string
  | CredClientCredentials (cred_id: string) (cred_secret: string) (cred_issuer: string) (cred_audience: string) (cred_scopes: string)

record fga_config =
  fc_mode :: string
  fc_api_url :: string
  fc_store_id :: string
  fc_model_id :: string
  fc_api_token :: string
  fc_client_id :: string
  fc_client_secret :: string
  fc_token_issuer :: string
  fc_audience :: string
  fc_scopes :: "string list"
  fc_timeout :: int

text \<open>
  What the SDK contributes: its own validation of credentials and of the client configuration, the
  decoding of the embedded model, the id of a model written at the n-th draw, and the setter of the id.
\<close>

record fga_sdk =
  sdk_NewCredentials :: "fga_credentials \<Rightarrow> gerror option"
  sdk_NewClient :: "string \<Rightarrow> string \<Rightarrow> string \<Rightarrow> fga_credentials option \<Rightarrow> gerror option"
  sdk_DecodeModel :: "gerror option"
  sdk_model_id :: "nat \<Rightarrow> string"
  sdk_SetModelId :: "string \<Rightarrow> gerror option"

definition bad_mode :: gerror where
  "bad_mode = New KindInvalidArgument ''permission: invalid openfga auth_mode (allowed: api_token, client_credentials, none)''"

definition new_credentials :: "fga_sdk \<Rightarrow> string \<Rightarrow> fga_credentials \<Rightarrow> gerror + fga_credentials option" where
  "new_credentials K mode c =
     (case sdk_NewCredentials K c of
        Some e \<Rightarrow> Inl (wrap_with [] (''openfga: credentials (auth_mode='' @ mode @ '')'') e)
      | None \<Rightarrow> Inr (Some c))"

definition buildCredentials :: "fga_sdk \<Rightarrow> fga_config \<Rightarrow> string \<Rightarrow> gerror + fga_credentials option" where
  "buildCredentials K cfg mode =
     (if mode \<noteq> ''api_token'' \<and> mode \<noteq> ''client_credentials'' \<and> mode \<noteq> ''none'' then Inl bad_mode
      else if mode = ''api_token'' then
        (if fc_api_token cfg = [] then Inl (New KindInvalidArgument ''openfga: auth_mode=api_token requires api_token'')
         else if fc_client_id cfg \<noteq> [] \<or> fc_client_secret cfg \<noteq> []
         then Inl (New KindInvalidArgument ''openfga: auth_mode=api_token does not accept client_id/client_secret'')
         else new_credentials K (fc_mode cfg) (CredApiToken (fc_api_token cfg)))
      else if mode = ''client_credentials'' then
        (if fc_client_id cfg = [] \<or> fc_client_secret cfg = []
         then Inl (New KindInvalidArgument ''openfga: auth_mode=client_credentials requires client_id and client_secret'')
         else if fc_token_issuer cfg = [] \<or> fc_audience cfg = []
         then Inl (New KindInvalidArgument ''openfga: auth_mode=client_credentials requires token_issuer and audience'')
         else if fc_api_token cfg \<noteq> []
         then Inl (New KindInvalidArgument ''openfga: auth_mode=client_credentials does not accept api_token'')
         else new_credentials K (fc_mode cfg)
           (CredClientCredentials (fc_client_id cfg) (fc_client_secret cfg) (fc_token_issuer cfg) (fc_audience cfg)
              (join_char CHR '' '' (fc_scopes cfg))))
      else if fc_api_token cfg \<noteq> [] \<or> fc_client_id cfg \<noteq> [] \<or> fc_client_secret cfg \<noteq> []
      then Inl (New KindInvalidArgument ''openfga: auth_mode=none does not accept any credentials'')
      else Inr None)"

definition writeModel :: "env \<Rightarrow> fga_sdk \<Rightarrow> string W" where
  "writeModel E K =
     (case sdk_DecodeModel K of
        Some e \<Rightarrow> failM (wrap_with [] ''openfga: decode model'' e)
      | None \<Rightarrow> seqM (wrapM [] ''openfga: write model'' (io E)) (draw (sdk_model_id K)))"

text \<open>The client: store, model, credentials and timeout (nanoseconds).\<close>

record fga_client =
  fl_store_id :: string
  fl_model_id :: string
  fl_credentials :: "fga_credentials option"
  fl_timeout :: int

definition NewFGAChecker :: "env \<Rightarrow> fga_sdk \<Rightarrow> fga_config \<Rightarrow> fga_client W" where
  "NewFGAChecker E K cfg =
     (if fc_store_id cfg = []
      then failM (New KindInvalidArgument ''openfga: store_id is required; create one with: fga store create --name \"mdrive\"'')
      else
        let timeout = (if fc_timeout cfg = 0 then 10 * 1000000000 else fc_timeout cfg);
            mode = (if fc_mode cfg = [] then ''api_token'' else fc_mode cfg)
        in bindM (liftM (buildCredentials K cfg mode)) (\<lambda>creds.
           (case sdk_NewClient K (fc_api_url cfg) (fc_store_id cfg) (fc_model_id cfg) creds of
              Some e \<Rightarrow> failM (wrap_with [] (''openfga: create client (api_url='' @ fc_api_url cfg @ '')'') e)
            | None \<Rightarrow>
                seqM (wrapM [] (''openfga: store not found (store_id='' @ fc_store_id cfg @ '')'') (io E))
                  (bindM (if fc_model_id cfg = [] then
                            bindM (writeModel E K) (\<lambda>m.
                              (case sdk_SetModelId K m of
                                 Some e \<Rightarrow> failM (wrap_with [] ''openfga: set model id'' e)
                               | None \<Rightarrow> retM m))
                          else retM (fc_model_id cfg)) (\<lambda>m.
                   retM \<lparr>fl_store_id = fc_store_id cfg, fl_model_id = m, fl_credentials = creds, fl_timeout = timeout\<rparr>)))))"

section \<open>What clients rely on\<close>

text \<open>The contract of \<open>Authorizer\<close>: reads change no store, and they answer by the tuples that were written.\<close>

locale authorization =
  fixes A :: authorizer
  assumes reads_quiet: "quiet (au_Check A u p t i)" "quiet (au_ListObjects A u p t)"
    and check_answers: "au_Check A u p t i w = (Inr b, w') \<Longrightarrow> b \<longleftrightarrow> fga_allows (w_fga w) (fga_user u) p (fga_object t i)"
    and granted: "au_Grant A u r t i w = (Inr x, w') \<Longrightarrow>
      (fga_user u, r, fga_object t i) \<notin> set (w_fga w) \<and> set (w_fga w') = insert (fga_user u, r, fga_object t i) (set (w_fga w))"
    and revoked: "au_Revoke A u r t i w = (Inr x, w') \<Longrightarrow> set (w_fga w') = set (w_fga w) - {(fga_user u, r, fga_object t i)}"
    and writes_keep: "keeps db_of (au_Grant A u r t i)" "keeps db_of (au_Revoke A u r t i)"

text \<open>The actions a relation brings with it.\<close>

definition grants :: "string \<Rightarrow> action \<Rightarrow> bool" where
  "grants rel p \<longleftrightarrow> rel = ''owner'' \<or> rel = ''editor'' \<and> p \<in> {ActionView, ActionEdit} \<or> rel = ''viewer'' \<and> p = ActionView"

lemma fga_allows_iff: "fga_allows T u p ob \<longleftrightarrow> (\<exists>rel. (u, rel, ob) \<in> set T \<and> grants rel p)"
  by (cases p) (auto simp: fga_viewer_def fga_editor_def fga_owner_def grants_def)

lemma fga_refs_inj [simp]:
  "fga_user u = fga_user v \<longleftrightarrow> u = v" "fga_object t i = fga_object t j \<longleftrightarrow> i = j"
  by (simp_all add: fga_user_def fga_object_def)

context authorization
begin

lemma after_grant:
  assumes "au_Grant A u rel t d w = (Inr x, w1)" "au_Check A v p t d' w1 = (Inr b, w2)"
  shows "b \<longleftrightarrow> fga_allows (w_fga w) (fga_user v) p (fga_object t d') \<or> v = u \<and> d' = d \<and> grants rel p"
  using check_answers [OF assms(2)] granted [OF assms(1)] by (auto simp: fga_allows_iff)

lemma after_revoke:
  assumes "au_Grant A u rel t d w = (Inr x, w1)" "au_Revoke A u rel t d w1 = (Inr y, w2)"
  shows "set (w_fga w2) = set (w_fga w)"
  using revoked [OF assms(2)] granted [OF assms(1)] by auto

lemma undone:
  assumes "au_Grant A u rel t d w = (Inr x, w1)" "au_Revoke A u rel t d w1 = (Inr y, w2)"
    and "au_Check A v p t' d' w2 = (Inr b, w3)"
  shows "b \<longleftrightarrow> fga_allows (w_fga w) (fga_user v) p (fga_object t' d')"
  using check_answers [OF assms(3)] after_revoke [OF assms(1,2)] by (auto simp: fga_allows_iff)

end

lemma quiet_get_fga [quiet_intros]: "quiet get_fga"
  by (simp add: quiet_def get_fga_def)

lemma keeps_fga [keeps_intros]: "keeps db_of get_fga" "keeps db_of (set_fga T)"
  by (simp_all add: keeps_def get_fga_def set_fga_def db_of_def)

lemma fga_quiet: "quiet (fga_Check E u p t i)" "quiet (fga_ListObjects E u p t)"
  unfolding fga_Check_def fga_ListObjects_def by (intro quiet_intros)+

interpretation fga: authorization "FGAChecker E" for E
proof unfold_locales
  show "quiet (au_Check (FGAChecker E) u p t i)" "quiet (au_ListObjects (FGAChecker E) u p t)" for u p t i
    by (simp_all add: FGAChecker_def fga_quiet)
  show "b \<longleftrightarrow> fga_allows (w_fga w) (fga_user u) p (fga_object t i)"
    if "au_Check (FGAChecker E) u p t i w = (Inr b, w')" for u p t i w b w'
    using that by (auto simp: FGAChecker_def fga_Check_def monad_simps get_fga_def io_def split: option.splits)
  show "(fga_user u, r, fga_object t i) \<notin> set (w_fga w) \<and> set (w_fga w') = insert (fga_user u, r, fga_object t i) (set (w_fga w))"
    if "au_Grant (FGAChecker E) u r t i w = (Inr x, w')" for u r t i w x w'
    using that by (auto simp: FGAChecker_def fga_Grant_def fga_Write_def monad_simps get_fga_def set_fga_def io_def split: option.splits if_splits)
  show "set (w_fga w') = set (w_fga w) - {(fga_user u, r, fga_object t i)}"
    if "au_Revoke (FGAChecker E) u r t i w = (Inr x, w')" for u r t i w x w'
    using that by (auto simp: FGAChecker_def fga_Revoke_def fga_Delete_def monad_simps get_fga_def set_fga_def io_def split: option.splits if_splits)
  show "keeps db_of (au_Grant (FGAChecker E) u r t i)" "keeps db_of (au_Revoke (FGAChecker E) u r t i)" for u r t i
    unfolding FGAChecker_def fga_Grant_def fga_Write_def fga_Revoke_def fga_Delete_def authorizer.select_convs by (intro keeps_intros)+
qed

section \<open>The properties\<close>

text \<open>
  C31. Granting a relation on a drive adds, for that user and that drive only, exactly the actions the
  relation brings: all five for an owner, view and edit for an editor, view for a viewer.
  Revoking it again restores every answer.
\<close>

theorem grant_then_check:
  assumes "au_Grant (FGAChecker E) u rel ObjectTypeDrive d w = (Inr (), w1)"
    and "au_Check (FGAChecker E) v p ObjectTypeDrive d' w1 = (Inr b, w2)"
    and "au_Revoke (FGAChecker E) u rel ObjectTypeDrive d w1 = (Inr (), w3)"
    and "au_Check (FGAChecker E) v p ObjectTypeDrive d' w3 = (Inr b', w4)"
  shows "(b \<longleftrightarrow> fga_allows (w_fga w) (fga_user v) p (fga_object ObjectTypeDrive d') \<or> v = u \<and> d' = d \<and> grants rel p) \<and>
    (b' \<longleftrightarrow> fga_allows (w_fga w) (fga_user v) p (fga_object ObjectTypeDrive d'))"
  using fga.after_grant [OF assms(1,2)] fga.undone [OF assms(1,3,4)] by blast

text \<open>
  The credentials the checker is built with are exactly those its mode needs: none of another
  mode is accepted, and none is missing.
\<close>

theorem buildCredentials_iff:
  assumes "\<forall>c. sdk_NewCredentials K c = None"
  shows "buildCredentials K cfg mode = Inr c \<longleftrightarrow>
    mode = ''api_token'' \<and> fc_api_token cfg \<noteq> [] \<and> fc_client_id cfg = [] \<and> fc_client_secret cfg = [] \<and>
      c = Some (CredApiToken (fc_api_token cfg)) \<or>
    mode = ''client_credentials'' \<and> fc_api_token cfg = [] \<and> fc_client_id cfg \<noteq> [] \<and> fc_client_secret cfg \<noteq> [] \<and>
      fc_token_issuer cfg \<noteq> [] \<and> fc_audience cfg \<noteq> [] \<and>
      c = Some (CredClientCredentials (fc_client_id cfg) (fc_client_secret cfg) (fc_token_issuer cfg) (fc_audience cfg)
            (join_char CHR '' '' (fc_scopes cfg))) \<or>
    mode = ''none'' \<and> fc_api_token cfg = [] \<and> fc_client_id cfg = [] \<and> fc_client_secret cfg = [] \<and> c = None"
proof -
  have m: "''api_token'' \<noteq> ''client_credentials''" "''api_token'' \<noteq> ''none''" "''client_credentials'' \<noteq> ''none''" by simp_all
  have n: "new_credentials K x y = Inr (Some y)" for x y using assms by (simp add: new_credentials_def)
  consider "mode = ''api_token''" | "mode = ''client_credentials''" | "mode = ''none''"
    | "mode \<noteq> ''api_token''" "mode \<noteq> ''client_credentials''" "mode \<noteq> ''none''" by blast
  then show ?thesis
    by cases (simp add: buildCredentials_def n m bad_mode_def; blast)+
qed

theorem grant_then_check_witness:
  "fst (au_Check (FGAChecker demo) ''u'' ActionEdit ObjectTypeDrive ''d''
     (snd (au_Grant (FGAChecker demo) ''u'' ''editor'' ObjectTypeDrive ''d'' (world_of empty_db)))) = Inr True"
proof -
  let ?A = "FGAChecker demo" and ?w = "world_of empty_db"
  obtain w1 where g: "au_Grant ?A ''u'' ''editor'' ObjectTypeDrive ''d'' ?w = (Inr (), w1)"
      "w_fga w1 = [(fga_user ''u'', ''editor'', fga_object ObjectTypeDrive ''d'')]"
    by (simp add: FGAChecker_def fga_Grant_def fga_Write_def fga_writable_def seqM_def bindM_def io_def get_fga_def set_fga_def world_of_def)
  have c: "\<exists>b w'. au_Check ?A u p t d w = (Inr b, w')" for u p t d w
    by (simp add: FGAChecker_def fga_Check_def seqM_def bindM_def wrapM_def io_def get_fga_def)
  have "\<exists>w'. au_Revoke ?A ''u'' ''editor'' ObjectTypeDrive ''d'' w1 = (Inr (), w')"
    using g(2) by (simp add: FGAChecker_def fga_Revoke_def fga_Delete_def seqM_def bindM_def io_def get_fga_def set_fga_def)
  then obtain w3 where r: "au_Revoke ?A ''u'' ''editor'' ObjectTypeDrive ''d'' w1 = (Inr (), w3)" by blast
  obtain b w2 where b: "au_Check ?A ''u'' ActionEdit ObjectTypeDrive ''d'' w1 = (Inr b, w2)" using c by blast
  obtain b' w4 where b': "au_Check ?A ''u'' ActionEdit ObjectTypeDrive ''d'' w3 = (Inr b', w4)" using c by blast
  show ?thesis using grant_then_check [OF g(1) b r b'] g(1) b by (simp add: grants_def)
qed

definition demo_sdk :: fga_sdk where
  "demo_sdk = \<lparr>sdk_NewCredentials = (\<lambda>c. None), sdk_NewClient = (\<lambda>u s m c. None), sdk_DecodeModel = None,
     sdk_model_id = (\<lambda>n. ''m''), sdk_SetModelId = (\<lambda>m. None)\<rparr>"

theorem buildCredentials_iff_witness:
  "buildCredentials demo_sdk \<lparr>fc_mode = ''none'', fc_api_url = [], fc_store_id = ''s'', fc_model_id = [], fc_api_token = ''t'',
     fc_client_id = [], fc_client_secret = [], fc_token_issuer = [], fc_audience = [], fc_scopes = [], fc_timeout = 0\<rparr> ''none'' \<noteq> Inr None"
  by (simp add: buildCredentials_iff demo_sdk_def)

end
