(* ===== verification/Session.thy ===== *)
theory Session
  imports Upload Crypto
begin

text \<open>
  Sessions (internal/auth/session.go and security.go): the encrypted cookie that carries a session,
  its cipher and JSON form, the cookies the service sets, and the handler that turns a cookie back
  into the session of a request. A Go context is the session it carries, if any.
\<close>

section \<open>Unpadded URL-safe base64\<close>

definition url_char :: "char \<Rightarrow> char" where
  "url_char c = (if c = CHR ''+'' then CHR ''-'' else if c = CHR ''/'' then CHR ''_'' else c)"

definition std_char :: "char \<Rightarrow> char" where
  "std_char c = (if c = CHR ''-'' then CHR ''+'' else if c = CHR ''_'' then CHR ''/'' else c)"

definition b64url_encode :: "string \<Rightarrow> string" where
  "b64url_encode s = map url_char (filter (\<lambda>c. c \<noteq> CHR ''='') (b64_encode s))"

definition b64_padding :: "nat \<Rightarrow> string" where
  "b64_padding n = (if n mod 4 = 2 then ''=='' else if n mod 4 = 3 then ''='' else [])"

definition b64url_decode :: "string \<Rightarrow> string option" where
  "b64url_decode s =
     (let cs = filter (\<lambda>c. c \<noteq> CHR 0x0A \<and> c \<noteq> CHR 0x0D) s in
      if \<exists>c\<in>set cs. c \<in> {CHR ''+'', CHR ''/'', CHR ''=''} then None
      else b64_quanta (map std_char cs @ b64_padding (length cs)))"

lemma b64_char_std: "i < 64 \<Longrightarrow> std_char (url_char (b64_char i)) = b64_char i"
  "i < 64 \<Longrightarrow> url_char (b64_char i) \<notin> {CHR ''+'', CHR ''/'', CHR ''='', CHR 0x0A, CHR 0x0D}"
proof -
  assume "i < 64"
  then have v: "b64_val (b64_char i) = Some i" by simp
  have n: "b64_val (CHR ''='') = None" "b64_val (CHR ''-'') = None" "b64_val (CHR ''_'') = None"
    "b64_val (CHR 0x0A) = None" "b64_val (CHR 0x0D) = None" by (simp_all add: b64_val_def)
  have "b64_char i \<noteq> c" if "b64_val c = None" for c using v that by auto
  note d = this [OF n(1)] this [OF n(2)] this [OF n(3)] this [OF n(4)] this [OF n(5)]
  show "std_char (url_char (b64_char i)) = b64_char i"
    using d by (simp add: std_char_def url_char_def)
  show "url_char (b64_char i) \<notin> {CHR ''+'', CHR ''/'', CHR ''='', CHR 0x0A, CHR 0x0D}"
    using d by (simp add: url_char_def)
qed

text \<open>The standard text is the unpadded one and its padding.\<close>

lemma b64_encode_padded:
  "\<exists>ds. b64_encode s = map b64_char ds @ b64_padding (length ds) \<and> (\<forall>i\<in>set ds. i < 64)"
proof (induction s rule: b64_encode.induct)
  case 1
  then show ?case by (intro exI [of _ "[]"]) (simp add: b64_padding_def)
next
  case (2 a)
  have "\<forall>i\<in>set (take 2 (b64_quad (of_char a) 0 0)). i < 64" by (auto dest!: in_set_takeD intro: b64_quad_bound [rotated 3])
  moreover have "length (take 2 (b64_quad (of_char a) 0 0)) = 2" by (simp add: b64_quad_def)
  ultimately show ?case
    by (intro exI [of _ "take 2 (b64_quad (of_char a) 0 0)"]) (simp add: b64_padding_def)
next
  case (3 a b)
  have "\<forall>i\<in>set (take 3 (b64_quad (of_char a) (of_char b) 0)). i < 64" by (auto dest!: in_set_takeD intro: b64_quad_bound [rotated 3])
  moreover have "length (take 3 (b64_quad (of_char a) (of_char b) 0)) = 3" by (simp add: b64_quad_def)
  ultimately show ?case
    by (intro exI [of _ "take 3 (b64_quad (of_char a) (of_char b) 0)"]) (simp add: b64_padding_def)
next
  case (4 a b c s)
  then obtain ds where "b64_encode s = map b64_char ds @ b64_padding (length ds)" "\<forall>i\<in>set ds. i < 64" by blast
  moreover have "\<forall>i\<in>set (b64_quad (of_char a) (of_char b) (of_char c)). i < 64" by (auto intro: b64_quad_bound [rotated 3])
  moreover have "length (b64_quad (of_char a) (of_char b) (of_char c)) = 4" by (simp add: b64_quad_def)
  ultimately show ?case
    by (intro exI [of _ "b64_quad (of_char a) (of_char b) (of_char c) @ ds"]) (auto simp: b64_padding_def)
qed

lemma b64url_decode_encode: "b64url_decode (b64url_encode s) = Some s"
proof -
  obtain ds where e: "b64_encode s = map b64_char ds @ b64_padding (length ds)" and d: "\<forall>i\<in>set ds. i < 64"
    using b64_encode_padded by blast
  have "filter (\<lambda>c. c \<noteq> CHR ''='') (map b64_char ds) = map b64_char ds" "filter (\<lambda>c. c \<noteq> CHR ''='') (b64_padding k) = []" for k
    using d b64_char_plain(1) by (auto simp: b64_padding_def intro!: filter_True)
  then have u: "b64url_encode s = map (\<lambda>i. url_char (b64_char i)) ds" by (simp add: b64url_encode_def e)
  have "filter (\<lambda>c. c \<noteq> CHR 0x0A \<and> c \<noteq> CHR 0x0D) (b64url_encode s) = b64url_encode s"
    using d b64_char_std(2) by (auto simp: u intro!: filter_True)
  moreover have "\<not> (\<exists>c\<in>set (b64url_encode s). c \<in> {CHR ''+'', CHR ''/'', CHR ''=''})"
    using d b64_char_std(2) by (auto simp: u)
  moreover have "map std_char (b64url_encode s) = map b64_char ds"
    using d b64_char_std(1) by (simp add: u)
  moreover have "length (b64url_encode s) = length ds" by (simp add: u)
  ultimately show ?thesis using b64_quanta_encode [of s] by (simp add: b64url_decode_def e)
qed

lemma b64url_encode_Nil_iff: "b64url_encode s = [] \<longleftrightarrow> s = []"
proof
  assume "b64url_encode s = []"
  then have "b64url_decode [] = Some s" using b64url_decode_encode [of s] by simp
  then show "s = []" by (simp add: b64url_decode_def b64_padding_def)
qed (simp add: b64url_encode_def)

interpretation b64url: codec b64url_encode b64url_decode "\<lambda>_. True"
  by unfold_locales (rule b64url_decode_encode)

section \<open>Encryption\<close>

text \<open>Go's \<open>int\<close> has 64 bits; negating the smallest one gives it back. The digits fill a buffer from its end.\<close>

definition wrap64 :: "int \<Rightarrow> int" where
  "wrap64 i = (i + 2 ^ 63) mod 2 ^ 64 - 2 ^ 63"

function itoa_loop :: "int \<Rightarrow> string \<Rightarrow> string" where
  "itoa_loop i b = (if i > 0 then itoa_loop (i div 10) (digit_char (nat (i mod 10)) # b) else b)"
  by pat_completeness auto
termination
  by (relation "measure (\<lambda>(i, b). nat i)") auto

declare itoa_loop.simps [simp del]

definition itoa :: "int \<Rightarrow> string" where
  "itoa i =
     (if i = 0 then ''0''
      else let neg = i < 0; b = itoa_loop (if neg then wrap64 (- i) else i) []
           in if neg then CHR ''-'' # b else b)"

definition aes_key_ok :: "string \<Rightarrow> bool" where
  "aes_key_ok key \<longleftrightarrow> length key \<in> {16, 24, 32}"

definition new_cipher :: "string \<Rightarrow> gerror + string" where
  "new_cipher key =
     (if aes_key_ok key then Inr key
      else Inl (wrap_with [] (''aes: new cipher (key_len='' @ itoa_nat (length key) @ '')'')
             (Foreign (''crypto/aes: invalid key size '' @ itoa_nat (length key)) None)))"

definition encrypt :: "env \<Rightarrow> string \<Rightarrow> string \<Rightarrow> string W" where
  "encrypt E msg key =
     bindM (liftM (new_cipher key)) (\<lambda>k.
     bindM (wrapM [] ''aes: nonce'' (rand_bytes E nonce_size)) (\<lambda>n.
       retM (b64url_encode (n @ gcm_seal E k n msg))))"

definition decrypt :: "env \<Rightarrow> string \<Rightarrow> string \<Rightarrow> gerror + string" where
  "decrypt E s key =
     (case b64url_decode s of
        None \<Rightarrow> Inl (wrap_with [] ''base64: decode'' (Foreign ''illegal base64 data'' None))
      | Some raw \<Rightarrow>
          (case new_cipher key of
             Inl e \<Rightarrow> Inl e
           | Inr k \<Rightarrow>
               if length raw < nonce_size
               then Inl (New KindInvalidArgument (''aes: ciphertext too short (len='' @ itoa (int (length raw)) @
                       '', nonce_size='' @ itoa (int nonce_size) @ '')''))
               else (case gcm_open E k (take nonce_size raw) (drop nonce_size raw) of
                       None \<Rightarrow> Inl (wrap_with [] ''aes: open'' (Foreign ''cipher: message authentication failed'' None))
                     | Some p \<Rightarrow> Inr p)))"

lemma decrypt_encrypted:
  assumes "gcm_ok E" "rand_ok E" and e: "encrypt E p key w = (Inr ct, w')"
  shows "decrypt E ct key = Inr p \<and> ct \<noteq> []"
proof -
  obtain n w1 where n: "rand_bytes E nonce_size w = (Inr n, w1)" "ct = b64url_encode (n @ gcm_seal E key n p)" "new_cipher key = Inr key"
    using e by (auto simp: encrypt_def monad_simps new_cipher_def split: if_splits)
  then have "length n = nonce_size" using rand_bytes_Inr [OF assms(2)] by blast
  then show ?thesis using n(2,3) assms(1)
    by (auto simp: decrypt_def b64url_decode_encode gcm_ok_def b64url_encode_Nil_iff nonce_size_def)
qed

text \<open>\<open>nonce\<close> ignores a failure of the random source: the bytes then stay zero.\<close>

definition nonce :: "env \<Rightarrow> string W" where
  "nonce E = tryM (rand_bytes E 32) (\<lambda>_. retM (b64url_encode (replicate 32 (CHR 0x00)))) (\<lambda>b. retM (b64url_encode b))"

section \<open>Cookies\<close>

record auth_service =
  as_provider_name :: string
  as_enc_key :: string
  as_cookie_name :: string
  as_cookie_domain :: string
  as_same_site :: nat
  as_cookie_secure :: bool
  as_post_login_url :: string
  as_post_logout_url :: string
  as_session_ttl :: int

record cookie =
  ck_name :: string
  ck_value :: string
  ck_path :: string
  ck_domain :: string
  ck_max_age :: int
  ck_http_only :: bool
  ck_secure :: bool
  ck_same_site :: nat

definition setCookie :: "auth_service \<Rightarrow> string \<Rightarrow> string \<Rightarrow> int \<Rightarrow> cookie" where
  "setCookie A name val maxAge =
     \<lparr>ck_name = name, ck_value = val, ck_path = ''/'', ck_domain = as_cookie_domain A, ck_max_age = maxAge,
      ck_http_only = True, ck_secure = as_cookie_secure A, ck_same_site = as_same_site A\<rparr>"

section \<open>The cookie's payload\<close>

record session_data =
  sd_subject :: string
  sd_user_id :: string
  sd_provider :: string
  sd_is_admin :: bool
  sd_id_token :: string
  sd_name :: string
  sd_email :: string
  sd_expires_at :: time

definition session_marshal :: "env \<Rightarrow> session_data \<Rightarrow> string" where
  "session_marshal E d = json_print (JObj
     [(''sub'', JStr (sd_subject d)), (''uid'', JStr (sd_user_id d)), (''prv'', JStr (sd_provider d)),
      (''adm'', JBool (sd_is_admin d)), (''idt'', JStr (sd_id_token d)), (''nm'', JStr (sd_name d)),
      (''em'', JStr (sd_email d)), (''exp'', JStr (time_text E (sd_expires_at d)))])"

fun bool_field :: "string \<Rightarrow> bool \<Rightarrow> (string \<times> json) list \<Rightarrow> bool option" where
  "bool_field f acc [] = Some acc"
| "bool_field f acc ((k, v) # ms) =
     (if fold_name k = f then
        (case v of
           JBool b \<Rightarrow> bool_field f b ms
         | JNull \<Rightarrow> bool_field f acc ms
         | _ \<Rightarrow> None)
      else bool_field f acc ms)"

definition session_fields :: "env \<Rightarrow> (string \<times> json) list \<Rightarrow> session_data option" where
  "session_fields E ms =
     (case (str_field ''sub'' [] ms, str_field ''uid'' [] ms, str_field ''prv'' [] ms, bool_field ''adm'' False ms,
            str_field ''idt'' [] ms, str_field ''nm'' [] ms, str_field ''em'' [] ms, time_field E ''exp'' zero_time ms) of
        (Some s, Some u, Some p, Some a, Some i, Some n, Some m, Some t) \<Rightarrow>
          Some \<lparr>sd_subject = s, sd_user_id = u, sd_provider = p, sd_is_admin = a, sd_id_token = i, sd_name = n,
                sd_email = m, sd_expires_at = t\<rparr>
      | _ \<Rightarrow> None)"

definition session_unmarshal :: "env \<Rightarrow> string \<Rightarrow> session_data option" where
  "session_unmarshal E s =
     (case json_parse s of
        Some (JObj ms) \<Rightarrow> session_fields E ms
      | Some JNull \<Rightarrow> session_fields E []
      | _ \<Rightarrow> None)"

definition session_exact :: "env \<Rightarrow> session_data \<Rightarrow> bool" where
  "session_exact E d \<longleftrightarrow> time_codec E \<and> valid_utf8 (sd_subject d) \<and> valid_utf8 (sd_user_id d) \<and> valid_utf8 (sd_provider d) \<and>
     valid_utf8 (sd_id_token d) \<and> valid_utf8 (sd_name d) \<and> valid_utf8 (sd_email d) \<and> 0 \<le> sd_expires_at d"

lemma session_keys:
  "to_valid ''sub'' = ''sub''" "to_valid ''uid'' = ''uid''" "to_valid ''prv'' = ''prv''" "to_valid ''adm'' = ''adm''"
  "to_valid ''idt'' = ''idt''" "to_valid ''nm'' = ''nm''" "to_valid ''em'' = ''em''" "to_valid ''exp'' = ''exp''"
  by (auto intro!: valid_utf8_to_valid ascii_valid simp: byte_in_def)

lemma session_unmarshal_marshal:
  assumes "session_exact E d"
  shows "session_unmarshal E (session_marshal E d) = Some d"
proof -
  have "time_parse E (time_text E (sd_expires_at d)) = Some (sd_expires_at d)" "valid_utf8 (time_text E (sd_expires_at d))"
    using assms by (auto simp: session_exact_def time_codec_def ascii_valid)
  then show ?thesis using assms
    by (simp add: session_unmarshal_def session_marshal_def json_parse_print session_fields_def valid_utf8_to_valid session_keys
        byte_in_def session_exact_def)
qed

interpretation session_codec: codec "session_marshal E" "session_unmarshal E" "session_exact E" for E
  by unfold_locales (rule session_unmarshal_marshal)

text \<open>A zero expiry never expires.\<close>

definition session_IsExpired :: "env \<Rightarrow> session_data \<Rightarrow> bool W" where
  "session_IsExpired E d =
     (if sd_expires_at d = zero_time then retM False
      else bindM (time_Now E) (\<lambda>now. retM (sd_expires_at d < now)))"

text \<open>The lifetime of the cookie is that of the session in whole seconds, at least one.\<close>

definition writeSessionCookie :: "env \<Rightarrow> auth_service \<Rightarrow> session_data \<Rightarrow> cookie W" where
  "writeSessionCookie E A d =
     bindM (wrapM [] ''session: encrypt'' (encrypt E (session_marshal E d) (as_enc_key A))) (\<lambda>enc.
     bindM (time_Now E) (\<lambda>now.
       let maxAge = (sd_expires_at d - now) div 1000000000
       in retM (setCookie A (as_cookie_name A) enc (if maxAge < 1 then 1 else maxAge))))"

definition clearSessionCookie :: "auth_service \<Rightarrow> cookie" where
  "clearSessionCookie A = setCookie A (as_cookie_name A) [] (- 1)"

definition readSessionCookieFromValue :: "env \<Rightarrow> auth_service \<Rightarrow> string \<Rightarrow> session_data W" where
  "readSessionCookieFromValue E A val =
     bindM (liftM (decrypt E val (as_enc_key A))) (\<lambda>raw.
       (case session_unmarshal E raw of
          None \<Rightarrow> failM json_error
        | Some d \<Rightarrow>
            bindM (session_IsExpired E d) (\<lambda>expired.
              if expired then failM (New KindInvalidArgument ''session: expired'') else retM d)))"

text \<open>The cookies of a request, by name; the first of a name counts.\<close>

definition request_cookie :: "(string \<times> string) list \<Rightarrow> string \<Rightarrow> string option" where
  "request_cookie cs name = map_of cs name"

definition readSessionCookie :: "env \<Rightarrow> auth_service \<Rightarrow> (string \<times> string) list \<Rightarrow> session_data W" where
  "readSessionCookie E A cs =
     (case request_cookie cs (as_cookie_name A) of
        None \<Rightarrow> failM (Foreign ''http: named cookie not present'' None)
      | Some v \<Rightarrow> readSessionCookieFromValue E A v)"

section \<open>security.go\<close>

record session =
  ss_id :: string
  ss_user_id :: string
  ss_provider :: string
  ss_is_admin :: bool
  ss_created_at :: time
  ss_expires_at :: time

type_synonym ctx = "session option"

definition ContextWithSession :: "ctx \<Rightarrow> session \<Rightarrow> ctx" where
  "ContextWithSession c s = Some s"

definition SessionFromContext :: "ctx \<Rightarrow> session option" where
  "SessionFromContext c = c"

definition UserIDFromContext :: "ctx \<Rightarrow> string" where
  "UserIDFromContext c = (case SessionFromContext c of Some s \<Rightarrow> ss_user_id s | None \<Rightarrow> [])"

definition IsAdmin :: "ctx \<Rightarrow> bool" where
  "IsAdmin c = (case SessionFromContext c of Some s \<Rightarrow> ss_is_admin s | None \<Rightarrow> False)"

definition HandleCookieAuth :: "env \<Rightarrow> auth_service \<Rightarrow> ctx \<Rightarrow> string \<Rightarrow> ctx W" where
  "HandleCookieAuth E A c key =
     (if key = [] then failM (New KindUnauthenticated ''auth: no session cookie'')
      else
        tryM (readSessionCookieFromValue E A key)
          (\<lambda>_. failM (New KindUnauthenticated ''auth: invalid session cookie''))
          (\<lambda>sess.
            tryM (UserGetByProviderID E (as_provider_name A) (sd_subject sess))
              (\<lambda>_. failM (New KindUnauthenticated ''auth: session user not found''))
              (\<lambda>u. (case u of
                      None \<Rightarrow> failM (New KindUnauthenticated ''auth: session user not found'')
                    | Some u \<Rightarrow>
                        bindM (time_Now E) (\<lambda>t1. bindM (time_Now E) (\<lambda>t2.
                          retM (ContextWithSession c \<lparr>ss_id = sd_subject sess, ss_user_id = u_id u,
                            ss_provider = as_provider_name A, ss_is_admin = sd_is_admin sess,
                            ss_created_at = t1, ss_expires_at = t2 + as_session_ttl A\<rparr>)))))))"

lemma quiet_session [quiet_intros]:
  "quiet (encrypt E p key)" "quiet (nonce E)" "quiet (session_IsExpired E d)" "quiet (writeSessionCookie E A d)"
  "quiet (readSessionCookieFromValue E A v)" "quiet (readSessionCookie E A cs)" "quiet (HandleCookieAuth E A c key)"
  unfolding encrypt_def nonce_def session_IsExpired_def writeSessionCookie_def readSessionCookieFromValue_def
    readSessionCookie_def HandleCookieAuth_def Let_def
  by (intro quiet_intros)+

section \<open>Looking a subject up\<close>

text \<open>The row of a subject: the unique index on provider and provider id leaves at most one.\<close>

definition subject_row :: "db \<Rightarrow> string \<Rightarrow> string \<Rightarrow> ent_user option" where
  "subject_row d prov sub = find (\<lambda>r. user_key r = (prov, sub)) (t_users d)"

lemma only_subject:
  "distinct (map user_key rs) \<Longrightarrow>
   only (\<lambda>r. eu_provider r = prov \<and> eu_provider_id r = sub) rs = Inr (find (\<lambda>r. user_key r = (prov, sub)) rs)"
proof (induction rs)
  case Nil
  show ?case by (simp add: only_def)
next
  case (Cons x rs)
  show ?case
  proof (cases "user_key x = (prov, sub)")
    case True
    then have "\<forall>r\<in>set rs. \<not> (eu_provider r = prov \<and> eu_provider_id r = sub)"
      using Cons.prems by (force simp: user_key_def)
    then show ?thesis using True by (simp add: only_def filter_False user_key_def)
  next
    case False
    then show ?thesis using Cons by (auto simp: only_def user_key_def)
  qed
qed

lemma UserGetByProviderID_run:
  assumes "no_faults E" "users_ok (w_db w)"
  shows "UserGetByProviderID E prov sub w =
    (Inr (map_option user_from_ent (subject_row (w_db w) prov sub)), w\<lparr>w_tick := Suc (w_tick w)\<rparr>)"
  using only_subject [of "t_users (w_db w)" prov sub] assms
  by (simp add: UserGetByProviderID_def user_get_by_provider_id_def user_query_def wrapM_def seqM_def bindM_def io_no_faults
      users_ok_def subject_row_def)

lemma subject_row_unique:
  "users_ok d \<Longrightarrow> r \<in> set (t_users d) \<Longrightarrow> user_key r = (prov, sub) \<Longrightarrow> subject_row d prov sub = Some r"
  using find_distinct [of user_key "t_users d" r] by (simp add: users_ok_def subject_row_def)

lemma read_written:
  assumes "gcm_ok E" "rand_ok E" "session_exact E d" "writeSessionCookie E A d w = (Inr c, w')"
  shows "ck_value c \<noteq> []" "ck_name c = as_cookie_name A" "1 \<le> ck_max_age c"
    "readSessionCookieFromValue E A (ck_value c) v =
       bindM (session_IsExpired E d) (\<lambda>expired. if expired then failM (New KindInvalidArgument ''session: expired'') else retM d) v"
proof -
  obtain ct w1 where e: "encrypt E (session_marshal E d) (as_enc_key A) w = (Inr ct, w1)"
    and c: "ck_value c = ct" "ck_name c = as_cookie_name A" "1 \<le> ck_max_age c"
    using assms(4) by (auto simp: writeSessionCookie_def monad_simps Let_def setCookie_def split: if_splits)
  note dec = decrypt_encrypted [OF assms(1,2) e]
  show "ck_value c \<noteq> []" "ck_name c = as_cookie_name A" "1 \<le> ck_max_age c" using c dec by simp_all
  show "readSessionCookieFromValue E A (ck_value c) v =
       bindM (session_IsExpired E d) (\<lambda>expired. if expired then failM (New KindInvalidArgument ''session: expired'') else retM d) v"
    using c(1) dec session_unmarshal_marshal [OF assms(3)] by (simp add: readSessionCookieFromValue_def bindM_def)
qed

text \<open>A session that was written and has not expired is accepted for the user that holds its subject.\<close>

lemma written_session_accepted:
  assumes "gcm_ok E" "rand_ok E" "no_faults E" "session_exact E d" "0 < sd_expires_at d"
    and "writeSessionCookie E A d w = (Inr c, w')" and "users_ok (w_db v)"
    and "\<not> sd_expires_at d < clock E (w_tick v)" "subject_row (w_db v) (as_provider_name A) (sd_subject d) = Some r"
  shows "\<exists>s. HandleCookieAuth E A None (ck_value c) v = (Inr (Some s), v\<lparr>w_tick := Suc (Suc (Suc (Suc (w_tick v))))\<rparr>) \<and> ss_user_id s = eu_id r \<and>
    ss_is_admin s = sd_is_admin d \<and> ss_id s = sd_subject d \<and> ss_provider s = as_provider_name A"
proof -
  note R = read_written [OF assms(1,2,4,6)]
  let ?v = "v\<lparr>w_tick := Suc (w_tick v)\<rparr>"
  have "session_IsExpired E d v = (Inr False, ?v)"
    using assms(5,8) by (simp add: session_IsExpired_def time_Now_def draw_def bindM_def)
  then have "readSessionCookieFromValue E A (ck_value c) v = (Inr d, ?v)" using R(4) [of v] by (simp add: bindM_def)
  moreover have "UserGetByProviderID E (as_provider_name A) (sd_subject d) ?v = (Inr (Some (user_from_ent r)), ?v\<lparr>w_tick := Suc (w_tick ?v)\<rparr>)"
    using UserGetByProviderID_run [OF assms(3), of ?v] assms(7,9) by simp
  ultimately show ?thesis using R(1)
    by (simp add: HandleCookieAuth_def time_Now_def draw_def bindM_def user_from_ent_def ContextWithSession_def)
qed

section \<open>The properties\<close>

lemma itoa_loop_dec: "0 < n \<Longrightarrow> itoa_loop (int n) b = dec_nat n @ b"
proof (induction n arbitrary: b rule: less_induct)
  case (less n)
  have d: "int n div 10 = int (n div 10)" "nat (int n mod 10) = n mod 10" by (simp_all add: zdiv_int nat_mod_distrib)
  show ?case
  proof (cases "n < 10")
    case True
    then have "n div 10 = 0" "n mod 10 = n" by simp_all
    then show ?thesis using less.prems True d
      by (simp add: itoa_loop.simps [of "int n"] itoa_loop.simps [of 0] dec_nat.simps [of n])
  next
    case False
    then have "0 < n div 10" "n div 10 < n" by simp_all
    then show ?thesis using less.IH [of "n div 10" "digit_char (n mod 10) # b"] less.prems False d
      by (simp add: itoa_loop.simps [of "int n"] dec_nat.simps [of n])
  qed
qed

text \<open>
  The hand-written \<open>itoa\<close> is the decimal notation of every 64-bit integer but the smallest, of which
  it writes the sign alone.
\<close>

theorem itoa_decimal:
  assumes "- (2 ^ 63) \<le> i" "i < 2 ^ 63"
  shows "itoa i = (if i = - (2 ^ 63) then ''-'' else itoa_int i)"
proof -
  have z: "itoa_loop 0 [] = []" by (simp add: itoa_loop.simps)
  have dz: "dec_nat 0 = ''0''" by (simp add: dec_nat_digit digit_char_def char_of_eq_iff)
  consider "i = - (2 ^ 63)" | "- (2 ^ 63) < i" "i < 0" | "i = 0" | "0 < i" using assms(1) by linarith
  then show ?thesis
  proof cases
    case 1
    then have "itoa_loop (wrap64 (- i)) [] = []" by (simp add: wrap64_def itoa_loop.simps)
    then show ?thesis using 1 by (simp add: itoa_def)
  next
    case 2
    then have "wrap64 (- i) = int (nat (- i))" by (simp add: wrap64_def)
    then show ?thesis using 2 itoa_loop_dec [of "nat (- i)" "[]"] by (simp add: itoa_def itoa_int_def)
  next
    case 3
    then show ?thesis by (simp add: itoa_def itoa_int_def dz)
  next
    case 4
    then show ?thesis using itoa_loop_dec [of "nat i" "[]"] by (simp add: itoa_def itoa_int_def)
  qed
qed

text \<open>
  C25. A session cookie that was written names the session it was written for: presented in a later state it
  gives the user that holds the session's subject at that time, with the role and the subject it was written
  with, as long as it has not expired; afterwards it is refused, and so is it when no user holds the subject.
\<close>

theorem session_roundtrip:
  assumes "gcm_ok E" "rand_ok E" "no_faults E" "session_exact E d" "0 < sd_expires_at d"
    and "writeSessionCookie E A d w = (Inr c, w')" and "users_ok (w_db v)"
  shows "(case (sd_expires_at d < clock E (w_tick v), subject_row (w_db v) (as_provider_name A) (sd_subject d)) of
      (True, _) \<Rightarrow> fst (HandleCookieAuth E A None (ck_value c) v) = Inl (New KindUnauthenticated ''auth: invalid session cookie'')
    | (False, None) \<Rightarrow> fst (HandleCookieAuth E A None (ck_value c) v) = Inl (New KindUnauthenticated ''auth: session user not found'')
    | (False, Some r) \<Rightarrow> (\<exists>s. fst (HandleCookieAuth E A None (ck_value c) v) = Inr (Some s) \<and> ss_user_id s = eu_id r \<and>
        ss_is_admin s = sd_is_admin d \<and> ss_id s = sd_subject d \<and> ss_provider s = as_provider_name A))"
proof -
  note R = read_written [OF assms(1,2,4,6)]
  let ?v = "v\<lparr>w_tick := Suc (w_tick v)\<rparr>"
  have x: "session_IsExpired E d v = (Inr (sd_expires_at d < clock E (w_tick v)), ?v)"
    using assms(5) by (simp add: session_IsExpired_def time_Now_def draw_def bindM_def)
  have u: "UserGetByProviderID E (as_provider_name A) (sd_subject d) ?v =
     (Inr (map_option user_from_ent (subject_row (w_db v) (as_provider_name A) (sd_subject d))), ?v\<lparr>w_tick := Suc (w_tick ?v)\<rparr>)"
    using UserGetByProviderID_run [OF assms(3), of ?v] assms(7) by simp
  show ?thesis
  proof (cases "sd_expires_at d < clock E (w_tick v)")
    case True
    then have "readSessionCookieFromValue E A (ck_value c) v = (Inl (New KindInvalidArgument ''session: expired''), ?v)"
      using R(4) [of v] x by simp
    then show ?thesis using True R(1) by (simp add: HandleCookieAuth_def)
  next
    case False
    show ?thesis
    proof (cases "subject_row (w_db v) (as_provider_name A) (sd_subject d)")
      case None
      have "readSessionCookieFromValue E A (ck_value c) v = (Inr d, ?v)" using R(4) [of v] x False by simp
      then show ?thesis using False None R(1) u by (simp add: HandleCookieAuth_def)
    next
      case (Some r)
      then show ?thesis using written_session_accepted [OF assms False Some] False by auto
    qed
  qed
qed

theorem itoa_decimal_witness: "itoa (- 12) = ''-12''"
proof -
  have "itoa (- 12) = itoa_int (- 12)" using itoa_decimal [of "- 12"] by simp
  then show ?thesis by (simp add: itoa_int_def dec_nat_digit dec_nat_two digit_char_def char_of_eq_iff)
qed

definition demo_auth :: auth_service where
  "demo_auth = \<lparr>as_provider_name = ''keycloak'', as_enc_key = replicate 32 (CHR ''k''), as_cookie_name = ''mdrive_session'',
     as_cookie_domain = [], as_same_site = 2, as_cookie_secure = True, as_post_login_url = [], as_post_logout_url = [],
     as_session_ttl = 86400000000000\<rparr>"

definition demo_sess :: session_data where
  "demo_sess = \<lparr>sd_subject = ''s'', sd_user_id = ''u'', sd_provider = ''keycloak'', sd_is_admin = True, sd_id_token = [],
     sd_name = [], sd_email = [], sd_expires_at = 9\<rparr>"

definition demo_users :: world where
  "demo_users = world_of (empty_db\<lparr>t_users := [\<lparr>eu_id = ''u'', eu_public_id = ''u'', eu_name = ''n'', eu_email = None,
     eu_provider = ''keycloak'', eu_provider_id = ''s'', eu_create_time = 1, eu_update_time = 1\<rparr>]\<rparr>)"

theorem session_roundtrip_witness:
  "\<exists>c s. fst (writeSessionCookie demo demo_auth demo_sess demo_users) = Inr c \<and>
     fst (HandleCookieAuth demo demo_auth None (ck_value c) demo_users) = Inr (Some s) \<and> ss_user_id s = ''u'' \<and> ss_is_admin s"
proof -
  have "\<exists>c w'. writeSessionCookie demo demo_auth demo_sess demo_users = (Inr c, w')"
    by (simp add: writeSessionCookie_def encrypt_def new_cipher_def aes_key_ok_def demo_auth_def rand_bytes_def demo_def
        draw_def bindM_def wrapM_def time_Now_def Let_def)
  then obtain c w' where c: "writeSessionCookie demo demo_auth demo_sess demo_users = (Inr c, w')" by blast
  have "ascii (dec_nat n)" for n
    using dec_nat_digits [of n] by (auto simp: ascii_def list_all_iff is_digit_def byte_in_def)
  then have "time_codec demo" by (simp add: time_codec_def demo_def itoa_int_def parse_uint_dec)
  then have d: "session_exact demo demo_sess" "0 < sd_expires_at demo_sess"
    by (simp_all add: session_exact_def demo_sess_def ascii_valid byte_in_def)
  have "users_ok (w_db demo_users)" "subject_row (w_db demo_users) ''keycloak'' ''s'' \<noteq> None" "w_tick demo_users = 0"
    "eu_id (the (subject_row (w_db demo_users) ''keycloak'' ''s'')) = ''u''"
    by (simp_all add: users_ok_def demo_users_def world_of_def empty_db_def subject_row_def user_key_def)
  then show ?thesis using session_roundtrip [OF demo_gcm demo_no_faults d c, of demo_users] c
    by (auto simp: demo_auth_def demo_sess_def split: option.splits)
qed
end
