(* ===== verification/Handlers.thy ===== *)
theory Handlers
  imports Gc Perm Session
begin

text \<open>
  The HTTP handlers (internal/app/apiserver/handler): each checks the permission its operation needs with
  the authorizer, calls one service and translates the result. A request comes with the context its security
  handler built. Logging is left out; the generated request and response types are records with an option
  for each optional field. The upload service is taken to be wired with a path service.
\<close>

section \<open>handler.go\<close>

text \<open>
  The fields of \<open>Handler\<close> and what its services are built from: the cipher of the drive repository, the token
  registry and object store of the upload service, the recorder of vfs and the fuel of its recursion, and
  \<open>url.Parse\<close> as the error it gives for a text.
\<close>

record server =
  h_cipher :: cipher
  h_registry :: registry
  h_store :: object_store
  h_recorder :: "(garbage_ref list \<Rightarrow> unit W) option"
  h_fuel :: nat
  h_authorizer :: authorizer
  h_redirect_uri :: string
  h_default_storage :: storage_config
  h_presign_ttl :: int
  h_url_error :: "string \<Rightarrow> gerror option"
  h_health_db :: bool
  h_health_scan :: "((string \<Rightarrow> unit \<Rightarrow> (gerror option \<times> unit) W) \<Rightarrow> unit \<Rightarrow> (gerror option \<times> unit) W) option"
  h_health_authorizer :: "authorizer option"

definition perm_context :: "action \<Rightarrow> string \<Rightarrow> string" where
  "perm_context p d = '' (perm='' @ action_string p @ '', type='' @ ObjectTypeDrive @ '', id='' @ d @ '')''"

definition requirePerm :: "server \<Rightarrow> ctx \<Rightarrow> action \<Rightarrow> string \<Rightarrow> unit W" where
  "requirePerm H c p d =
     bindM (wrapM [KindUnavailable] (''permission: check'' @ perm_context p d)
              (au_Check (h_authorizer H) (UserIDFromContext c) p ObjectTypeDrive d)) (\<lambda>allowed.
       if \<not> allowed then failM (New KindPermissionDenied (''permission: denied'' @ perm_context p d)) else retM ())"

section \<open>fs.go\<close>

definition voidM :: "'a W \<Rightarrow> unit W" where
  "voidM m = bindM m (\<lambda>_. retM ())"

definition handle_Mkdir :: "env \<Rightarrow> server \<Rightarrow> ctx \<Rightarrow> string \<Rightarrow> string \<Rightarrow> unit W" where
  "handle_Mkdir E H c d path = seqM (requirePerm H c ActionEdit d) (voidM (Mkdir E d path))"

definition handle_Touch :: "env \<Rightarrow> server \<Rightarrow> ctx \<Rightarrow> string \<Rightarrow> string \<Rightarrow> unit W" where
  "handle_Touch E H c d path = seqM (requirePerm H c ActionEdit d) (voidM (Touch E d path))"

definition handle_Rm :: "env \<Rightarrow> server \<Rightarrow> ctx \<Rightarrow> string \<Rightarrow> string list \<Rightarrow> bool option \<Rightarrow> unit W" where
  "handle_Rm E H c d paths recursive =
     seqM (requirePerm H c ActionEdit d)
       (Rm E (h_fuel H) (h_recorder H) d paths (case recursive of Some b \<Rightarrow> b | None \<Rightarrow> False))"

definition handle_Mv :: "env \<Rightarrow> server \<Rightarrow> ctx \<Rightarrow> string \<Rightarrow> string list \<Rightarrow> string \<Rightarrow> unit W" where
  "handle_Mv E H c d sources destination =
     seqM (requirePerm H c ActionEdit d) (Mv E (h_recorder H) d sources d destination)"

definition resolveRead :: "env \<Rightarrow> server \<Rightarrow> ctx \<Rightarrow> string \<Rightarrow> string \<Rightarrow> (string \<times> string) W" where
  "resolveRead E H c d path =
     bindM (ResolveForPermission E d path) (\<lambda>(d', p').
       seqM (requirePerm H c ActionView d')
         (retM (d', if d' \<noteq> d then CHR ''/'' # p' else p')))"

record api_entry =
  ae_inode :: string
  ae_name :: string
  ae_kind :: string

definition handle_Ls :: "env \<Rightarrow> server \<Rightarrow> ctx \<Rightarrow> string \<Rightarrow> string \<Rightarrow> api_entry list W" where
  "handle_Ls E H c d path0 =
     (let path = (if path0 = [] then ''/'' else path0) in
      bindM (resolveRead E H c d path) (\<lambda>(d', p').
      bindM (Ls E d' p') (\<lambda>dc.
        retM (map (\<lambda>e. \<lparr>ae_inode = uuid_text E (de_ino e), ae_name = de_name e, ae_kind = node_kind_string (de_kind e)\<rparr>)
                (entries dc)))))"

definition handle_Cat :: "env \<Rightarrow> server \<Rightarrow> ctx \<Rightarrow> string \<Rightarrow> string \<Rightarrow> string W" where
  "handle_Cat E H c d path = bindM (resolveRead E H c d path) (\<lambda>(d', p'). Cat E d' p')"

definition handle_Write :: "env \<Rightarrow> server \<Rightarrow> ctx \<Rightarrow> string \<Rightarrow> string \<Rightarrow> string \<Rightarrow> unit W" where
  "handle_Write E H c d path content = seqM (requirePerm H c ActionEdit d) (Write E d path content)"

definition handle_WriteLarge ::
  "env \<Rightarrow> server \<Rightarrow> ctx \<Rightarrow> string \<Rightarrow> string \<Rightarrow> string \<Rightarrow> string \<Rightarrow> string option \<Rightarrow> string option \<Rightarrow> int \<Rightarrow> unit W" where
  "handle_WriteLarge E H c d path bucket key contentType checksum sz =
     (let obj = \<lparr>o_bucket = bucket, o_key = key, o_mime = (case contentType of Some t \<Rightarrow> t | None \<Rightarrow> []),
                 o_checksum = (case checksum of Some s \<Rightarrow> s | None \<Rightarrow> [])\<rparr>
      in seqM (requirePerm H c ActionEdit d) (WriteLarge E d path obj sz))"

definition handle_Symlink :: "env \<Rightarrow> server \<Rightarrow> ctx \<Rightarrow> string \<Rightarrow> string \<Rightarrow> string \<Rightarrow> unit W" where
  "handle_Symlink E H c d target linkPath = seqM (requirePerm H c ActionEdit d) (voidM (Symlink E d target linkPath))"

definition handle_Hardlink :: "env \<Rightarrow> server \<Rightarrow> ctx \<Rightarrow> string \<Rightarrow> string \<Rightarrow> string \<Rightarrow> unit W" where
  "handle_Hardlink E H c d srcPath linkPath = seqM (requirePerm H c ActionEdit d) (voidM (Hardlink E d srcPath linkPath))"

definition handle_Mount :: "env \<Rightarrow> server \<Rightarrow> ctx \<Rightarrow> string \<Rightarrow> string \<Rightarrow> string \<Rightarrow> unit W" where
  "handle_Mount E H c d mountPath srcDrive =
     seqM (requirePerm H c ActionEdit d) (seqM (requirePerm H c ActionView srcDrive) (Mount E d mountPath srcDrive))"

definition handle_Unmount :: "env \<Rightarrow> server \<Rightarrow> ctx \<Rightarrow> string \<Rightarrow> string \<Rightarrow> unit W" where
  "handle_Unmount E H c d mountPath = seqM (requirePerm H c ActionEdit d) (Unmount E d mountPath)"

definition handle_Realpath :: "env \<Rightarrow> server \<Rightarrow> ctx \<Rightarrow> string \<Rightarrow> string \<Rightarrow> (string \<times> string) W" where
  "handle_Realpath E H c d path = seqM (requirePerm H c ActionView d) (ResolveForPermission E d path)"

record node_stat =
  ns_type :: string
  ns_size :: int
  ns_nlink :: "32 word"
  ns_ino :: uuid
  ns_atime :: time
  ns_mtime :: time
  ns_ctime :: time
  ns_crtime :: time
  ns_flags :: string
  ns_revision :: string

definition statToAPI :: "node \<Rightarrow> node_stat" where
  "statToAPI n = \<lparr>ns_type = node_kind_string (n_kind n), ns_size = n_size n, ns_nlink = n_nlink n, ns_ino = n_id n,
     ns_atime = n_atime n, ns_mtime = n_mtime n, ns_ctime = n_ctime n, ns_crtime = n_crtime n,
     ns_flags = flags_string (n_flags n), ns_revision = n_rev n\<rparr>"

definition handle_Stat :: "env \<Rightarrow> server \<Rightarrow> ctx \<Rightarrow> string \<Rightarrow> string \<Rightarrow> node_stat W" where
  "handle_Stat E H c d path =
     bindM (resolveRead E H c d path) (\<lambda>(d', p'). bindM (Stat E d' p') (\<lambda>n. retM (statToAPI n)))"

definition handle_Lstat :: "env \<Rightarrow> server \<Rightarrow> ctx \<Rightarrow> string \<Rightarrow> string \<Rightarrow> node_stat W" where
  "handle_Lstat E H c d path =
     bindM (resolveRead E H c d path) (\<lambda>(d', p'). bindM (Lstat E d' p') (\<lambda>(_, n). retM (statToAPI n)))"

definition handle_Readlink :: "env \<Rightarrow> server \<Rightarrow> ctx \<Rightarrow> string \<Rightarrow> string \<Rightarrow> string W" where
  "handle_Readlink E H c d path =
     bindM (resolveRead E H c d path) (\<lambda>(d', p'). bindM (Lstat E d' p') (\<lambda>(_, n). liftM (readlink n)))"

section \<open>drive.go\<close>

record api_drive =
  ad_id :: string
  ad_public_id :: string
  ad_name :: string
  ad_description :: "string option"
  ad_owner_id :: string
  ad_root_node_id :: string
  ad_deleted_at :: "time option"
  ad_created_at :: time
  ad_updated_at :: time

definition driveToAPI :: "env \<Rightarrow> drive \<Rightarrow> api_drive" where
  "driveToAPI E d = \<lparr>ad_id = d_id d, ad_public_id = d_public_id d, ad_name = d_name d, ad_description = d_description d,
     ad_owner_id = d_owner_id d, ad_root_node_id = (case d_root_node_id d of Some i \<Rightarrow> uuid_text E i | None \<Rightarrow> []),
     ad_deleted_at = d_deleted_at d, ad_created_at = d_created_at d, ad_updated_at = d_updated_at d\<rparr>"

record api_storage =
  as_bucket :: string
  as_region :: string
  as_endpoint :: "string option"
  as_access_key :: "string option"
  as_secret_key :: "string option"
  as_use_path_style :: "bool option"

text \<open>The value of an unset optional string is the empty one.\<close>

definition opt_value :: "string option \<Rightarrow> string" where
  "opt_value x = (case x of Some s \<Rightarrow> s | None \<Rightarrow> [])"

definition storageConfigFromAPI :: "api_storage \<Rightarrow> storage_config" where
  "storageConfigFromAPI s = \<lparr>sc_bucket = as_bucket s,
     sc_endpoint = (if opt_value (as_endpoint s) \<noteq> [] then Some (opt_value (as_endpoint s)) else None),
     sc_region = as_region s, sc_access_key = opt_value (as_access_key s), sc_secret_key = opt_value (as_secret_key s),
     sc_use_path_style = (case as_use_path_style s of Some b \<Rightarrow> b | None \<Rightarrow> False)\<rparr>"

definition handle_CreateDrive ::
  "env \<Rightarrow> server \<Rightarrow> ctx \<Rightarrow> string \<Rightarrow> string option \<Rightarrow> api_storage option \<Rightarrow> api_drive W" where
  "handle_CreateDrive E H c name description storage =
     bindM (CreateDrive E (h_cipher H) (UserIDFromContext c) name (opt_value description)
              (case storage of Some s \<Rightarrow> storageConfigFromAPI s | None \<Rightarrow> h_default_storage H)) (\<lambda>(d, _).
       retM (driveToAPI E d))"

definition handle_GetDrive :: "env \<Rightarrow> server \<Rightarrow> ctx \<Rightarrow> string \<Rightarrow> api_drive W" where
  "handle_GetDrive E H c d =
     seqM (requirePerm H c ActionView d) (bindM (DriveGetByID E d) (\<lambda>x. retM (driveToAPI E x)))"

definition handle_UpdateDrive :: "env \<Rightarrow> server \<Rightarrow> ctx \<Rightarrow> string \<Rightarrow> string option \<Rightarrow> string option \<Rightarrow> api_drive W" where
  "handle_UpdateDrive E H c d name description =
     seqM (requirePerm H c ActionEdit d)
       (bindM (DriveUpdate E d (opt_value name) (opt_value description)) (\<lambda>x. retM (driveToAPI E x)))"

definition handle_DeleteDrive :: "env \<Rightarrow> server \<Rightarrow> ctx \<Rightarrow> string \<Rightarrow> unit W" where
  "handle_DeleteDrive E H c d = seqM (requirePerm H c ActionEdit d) (DriveDelete E d)"

definition not_admin :: gerror where
  "not_admin = New KindPermissionDenied ''permission: denied''"

definition handle_RestoreDrive :: "env \<Rightarrow> ctx \<Rightarrow> string \<Rightarrow> api_drive W" where
  "handle_RestoreDrive E c d =
     (if \<not> IsAdmin c then failM not_admin
      else bindM (DriveRestore E d) (\<lambda>x. retM (driveToAPI E x)))"

definition handle_ListDeletedDrives :: "env \<Rightarrow> ctx \<Rightarrow> api_drive list W" where
  "handle_ListDeletedDrives E c =
     (if \<not> IsAdmin c then failM not_admin
      else bindM (time_Now E) (\<lambda>now. bindM (ListDeletedForAdmin E True now 1000) (\<lambda>ds. retM (map (driveToAPI E) ds))))"

text \<open>The credentials stay behind.\<close>

definition handle_GetDriveStorage :: "env \<Rightarrow> server \<Rightarrow> ctx \<Rightarrow> string \<Rightarrow> api_storage W" where
  "handle_GetDriveStorage E H c d =
     seqM (requirePerm H c ActionView d)
       (bindM (DriveGetStorage E (h_cipher H) d) (\<lambda>s.
          retM \<lparr>as_bucket = s_bucket s, as_region = s_region s, as_endpoint = s_endpoint s,
                as_access_key = None, as_secret_key = None, as_use_path_style = Some (s_use_path_style s)\<rparr>))"

definition handle_ListDrives :: "env \<Rightarrow> ctx \<Rightarrow> api_drive list W" where
  "handle_ListDrives E c = bindM (ListByOwner E (UserIDFromContext c)) (\<lambda>ds. retM (map (driveToAPI E) ds))"

section \<open>upload.go\<close>

text \<open>The presigned URL is parsed to be put into the response.\<close>

definition parsed_url :: "server \<Rightarrow> presign_info \<Rightarrow> presign_info W" where
  "parsed_url H i =
     (case h_url_error H (pi_url i) of
        Some e \<Rightarrow> failM (wrap_with [] ''upload: parse presigned url'' e)
      | None \<Rightarrow> retM i)"

definition handle_InitiateUpload ::
  "env \<Rightarrow> server \<Rightarrow> ctx \<Rightarrow> string \<Rightarrow> string \<Rightarrow> string option \<Rightarrow> int option \<Rightarrow> presign_info W" where
  "handle_InitiateUpload E H c d path contentType contentLength =
     seqM (requirePerm H c ActionEdit d)
       (bindM (InitiateUpload E (h_cipher H) (h_registry H) (h_store H) (UserIDFromContext c) d path contentType contentLength
                 (h_presign_ttl H)) (parsed_url H))"

definition handle_CompleteUpload ::
  "env \<Rightarrow> server \<Rightarrow> ctx \<Rightarrow> string \<Rightarrow> string \<Rightarrow> int \<Rightarrow> string option \<Rightarrow> (string \<times> int \<times> time \<times> time) W" where
  "handle_CompleteUpload E H c d uploadID contentLength checksum =
     seqM (requirePerm H c ActionEdit d)
       (bindM (CompleteUpload E (h_registry H) (h_store H) (UserIDFromContext c) d uploadID contentLength checksum) (\<lambda>n.
          retM (uuid_text E (n_id n), n_size n, n_mtime n, n_atime n)))"

definition handle_PresignDownload :: "env \<Rightarrow> server \<Rightarrow> ctx \<Rightarrow> string \<Rightarrow> string \<Rightarrow> presign_info W" where
  "handle_PresignDownload E H c d path =
     seqM (requirePerm H c ActionView d)
       (bindM (PresignDownload E (h_store H) (UserIDFromContext c) d path (h_presign_ttl H)) (parsed_url H))"

section \<open>user.go, auth.go and health.go\<close>

record api_user =
  au_user_id :: string
  au_user_public_id :: string
  au_user_name :: string
  au_user_email :: "string option"
  au_user_created_at :: time
  au_user_updated_at :: time

definition userToAPI :: "user \<Rightarrow> api_user" where
  "userToAPI u = \<lparr>au_user_id = u_id u, au_user_public_id = u_public_id u, au_user_name = u_name u, au_user_email = u_email u,
     au_user_created_at = u_created_at u, au_user_updated_at = u_updated_at u\<rparr>"

definition handle_UpsertUser :: "env \<Rightarrow> ctx \<Rightarrow> string \<Rightarrow> string option \<Rightarrow> string \<Rightarrow> string \<Rightarrow> unit W" where
  "handle_UpsertUser E c name email provider providerID =
     voidM (UpsertFromOIDC E \<lparr>cc_name = name, cc_email = email, cc_provider = provider, cc_provider_id = providerID\<rparr>)"

definition handle_GetUser :: "env \<Rightarrow> ctx \<Rightarrow> api_user W" where
  "handle_GetUser E c = bindM (UserGetByID E (UserIDFromContext c)) (\<lambda>u. retM (userToAPI u))"

definition handle_AuthMe :: "env \<Rightarrow> ctx \<Rightarrow> api_user W" where
  "handle_AuthMe E c =
     (let uid = UserIDFromContext c in
      if uid = [] then failM (New KindUnauthenticated ''auth: not authenticated'')
      else bindM (wrapM [KindUnavailable] (''auth: user lookup failed (uid='' @ uid @ '')'') (UserGetByID E uid)) (\<lambda>u.
        retM (userToAPI u)))"

definition health_failed :: "string \<Rightarrow> gerror \<Rightarrow> gerror" where
  "health_failed what e = New KindUnavailable (''health: '' @ what @ '' failed (err='' @ error_text e @ '')'')"

definition health_db :: "env \<Rightarrow> server \<Rightarrow> unit W" where
  "health_db E H =
     (if h_health_db H then tryM (io E) (\<lambda>e. failM (health_failed ''database ping'' e)) retM else retM ())"

definition health_scan :: "server \<Rightarrow> unit W" where
  "health_scan H =
     (case h_health_scan H of
        None \<Rightarrow> retM ()
      | Some scan \<Rightarrow> bindM (scan (\<lambda>_ s. retM (None, s)) ()) (\<lambda>(err, _).
          (case err of Some e \<Rightarrow> failM (health_failed ''valkey scan'' e) | None \<Rightarrow> retM ())))"

definition health_check :: "server \<Rightarrow> unit W" where
  "health_check H =
     (case h_health_authorizer H of
        None \<Rightarrow> retM ()
      | Some A \<Rightarrow> tryM (au_Check A ''healthcheck'' ActionView ObjectTypeDrive ''_healthcheck'')
          (\<lambda>e. failM (health_failed ''openfga check'' e)) (\<lambda>_. retM ()))"

definition handle_Health :: "env \<Rightarrow> server \<Rightarrow> string W" where
  "handle_Health E H = seqM (health_db E H) (seqM (health_scan H) (seqM (health_check H) (retM ''ok'')))"

section \<open>Requests\<close>

text \<open>The operations of the API that change state, as data, and the handler each goes to.\<close>

datatype request =
    ReqMkdir string string
  | ReqTouch string string
  | ReqRm string "string list" "bool option"
  | ReqMv string "string list" string
  | ReqWrite string string string
  | ReqWriteLarge string string string string "string option" "string option" int
  | ReqSymlink string string string
  | ReqHardlink string string string
  | ReqMount string string string
  | ReqUnmount string string
  | ReqCreateDrive string "string option" "api_storage option"
  | ReqUpdateDrive string "string option" "string option"
  | ReqDeleteDrive string
  | ReqRestoreDrive string
  | ReqInitiateUpload string string "string option" "int option"
  | ReqCompleteUpload string string int "string option"
  | ReqUpsertUser string "string option" string string

fun serve :: "env \<Rightarrow> server \<Rightarrow> ctx \<Rightarrow> request \<Rightarrow> unit W" where
  "serve E H c (ReqMkdir d p) = handle_Mkdir E H c d p"
| "serve E H c (ReqTouch d p) = handle_Touch E H c d p"
| "serve E H c (ReqRm d ps r) = handle_Rm E H c d ps r"
| "serve E H c (ReqMv d ps q) = handle_Mv E H c d ps q"
| "serve E H c (ReqWrite d p x) = handle_Write E H c d p x"
| "serve E H c (ReqWriteLarge d p b k t s n) = handle_WriteLarge E H c d p b k t s n"
| "serve E H c (ReqSymlink d t p) = handle_Symlink E H c d t p"
| "serve E H c (ReqHardlink d s p) = handle_Hardlink E H c d s p"
| "serve E H c (ReqMount d p s) = handle_Mount E H c d p s"
| "serve E H c (ReqUnmount d p) = handle_Unmount E H c d p"
| "serve E H c (ReqCreateDrive n x s) = voidM (handle_CreateDrive E H c n x s)"
| "serve E H c (ReqUpdateDrive d n x) = voidM (handle_UpdateDrive E H c d n x)"
| "serve E H c (ReqDeleteDrive d) = handle_DeleteDrive E H c d"
| "serve E H c (ReqRestoreDrive d) = voidM (handle_RestoreDrive E c d)"
| "serve E H c (ReqInitiateUpload d p t n) = voidM (handle_InitiateUpload E H c d p t n)"
| "serve E H c (ReqCompleteUpload d i n s) = voidM (handle_CompleteUpload E H c d i n s)"
| "serve E H c (ReqUpsertUser n e p i) = handle_UpsertUser E c n e p i"

text \<open>The actions on drives a request is checked for.\<close>

fun guards :: "request \<Rightarrow> (action \<times> string) list" where
  "guards (ReqMkdir d p) = [(ActionEdit, d)]"
| "guards (ReqTouch d p) = [(ActionEdit, d)]"
| "guards (ReqRm d ps r) = [(ActionEdit, d)]"
| "guards (ReqMv d ps q) = [(ActionEdit, d)]"
| "guards (ReqWrite d p x) = [(ActionEdit, d)]"
| "guards (ReqWriteLarge d p b k t s n) = [(ActionEdit, d)]"
| "guards (ReqSymlink d t p) = [(ActionEdit, d)]"
| "guards (ReqHardlink d s p) = [(ActionEdit, d)]"
| "guards (ReqMount d p s) = [(ActionEdit, d), (ActionView, s)]"
| "guards (ReqUnmount d p) = [(ActionEdit, d)]"
| "guards (ReqUpdateDrive d n x) = [(ActionEdit, d)]"
| "guards (ReqDeleteDrive d) = [(ActionEdit, d)]"
| "guards (ReqInitiateUpload d p t n) = [(ActionEdit, d)]"
| "guards (ReqCompleteUpload d i n s) = [(ActionEdit, d)]"
| "guards (ReqCreateDrive n x s) = []"
| "guards (ReqRestoreDrive d) = []"
| "guards (ReqUpsertUser n e p i) = []"

section \<open>Permission\<close>

definition may :: "world \<Rightarrow> ctx \<Rightarrow> action \<Rightarrow> string \<Rightarrow> bool" where
  "may w c p d \<longleftrightarrow> fga_allows (w_fga w) (fga_user (UserIDFromContext c)) p (fga_object ObjectTypeDrive d)"

definition refused :: "world \<Rightarrow> world \<Rightarrow> gerror + 'a \<Rightarrow> bool" where
  "refused w w' r \<longleftrightarrow> same_store w' w \<and> (\<exists>e. r = Inl e \<and> KindOf_err e \<in> {KindPermissionDenied, KindUnavailable})"

lemma may_same_store: "same_store w' w \<Longrightarrow> may w' c p d = may w c p d"
  by (simp add: may_def same_store_def)

context authorization
begin

lemma requirePerm_quiet:
  assumes "h_authorizer H = A"
  shows "quiet (requirePerm H c p d)"
  unfolding requirePerm_def assms by (intro quiet_intros reads_quiet)

lemma requirePerm_cases:
  assumes "h_authorizer H = A"
  obtains (pass) w1 where "requirePerm H c p d w = (Inr (), w1)" "same_store w1 w" "may w c p d"
  | (stop) e w1 where "requirePerm H c p d w = (Inl e, w1)" "same_store w1 w" "KindOf_err e \<in> {KindPermissionDenied, KindUnavailable}"
proof -
  obtain q w1 where q: "requirePerm H c p d w = (q, w1)" by fastforce
  have s: "same_store w1 w" using quietD [OF requirePerm_quiet [OF assms] q] .
  show thesis
  proof (cases q)
    case (Inl e)
    then have "KindOf_err e \<in> {KindPermissionDenied, KindUnavailable}"
      using q by (auto simp: requirePerm_def monad_simps split: if_splits)
    then show thesis using stop q s Inl by blast
  next
    case (Inr u)
    then have "may w c p d"
      using q assms check_answers by (auto simp: requirePerm_def monad_simps may_def split: if_splits)
    then show thesis using pass q s Inr by simp
  qed
qed

lemma guarded_refused:
  assumes "h_authorizer H = A" "\<not> may w c p d" "seqM (requirePerm H c p d) m w = (r, w')"
  shows "refused w w' r"
  by (rule requirePerm_cases [OF assms(1), of c p d w]) (use assms in \<open>auto simp: refused_def\<close>)

lemma guarded_later:
  assumes "h_authorizer H = A" "seqM (requirePerm H c p d) m w = (r, w')"
    and "\<And>w1. same_store w1 w \<Longrightarrow> m w1 = (r, w') \<Longrightarrow> refused w1 w' r"
  shows "refused w w' r"
proof (rule requirePerm_cases [OF assms(1), of c p d w])
  fix w1 assume "requirePerm H c p d w = (Inr (), w1)" "same_store w1 w"
  then show ?thesis using assms(2) assms(3) [of w1] same_store_trans by (fastforce simp: refused_def)
next
  fix e w1 assume "requirePerm H c p d w = (Inl e, w1)" "same_store w1 w" "KindOf_err e \<in> {KindPermissionDenied, KindUnavailable}"
  then show ?thesis using assms(2) by (auto simp: refused_def)
qed

lemma resolveRead_may:
  assumes "h_authorizer H = A" "resolveRead E H c d p w = (Inr (d', p'), w')"
  shows "same_store w' w" "may w c ActionView d'"
    "\<exists>q w1. ResolveForPermission E d p w = (Inr (d', q), w1) \<and> p' = (if d' \<noteq> d then CHR ''/'' # q else q)"
proof -
  obtain x q w1 where r: "ResolveForPermission E d p w = (Inr (x, q), w1)"
    and g: "requirePerm H c ActionView x w1 = (Inr (), w')" "d' = x" "p' = (if x \<noteq> d then CHR ''/'' # q else q)"
    using assms(2) by (auto simp: resolveRead_def monad_simps split: if_splits)
  have "quiet (ResolveForPermission E d p)" by (rule quiet_vfs_reads)
  then have s1: "same_store w1 w" using r by (rule quietD)
  have "same_store w' w1 \<and> may w1 c ActionView x"
    using g(1) by (cases rule: requirePerm_cases [OF assms(1), of c ActionView x w1]) auto
  then show "same_store w' w" "may w c ActionView d'"
    using s1 same_store_trans may_same_store g(2) by blast+
  show "\<exists>q w1. ResolveForPermission E d p w = (Inr (d', q), w1) \<and> p' = (if d' \<noteq> d then CHR ''/'' # q else q)"
    using r g(2,3) by blast
qed

end

lemma voidM_seq: "voidM (seqM m k) = seqM m (voidM k)"
  by (rule ext) (auto simp: voidM_def seqM_def bindM_def split: prod.splits sum.splits)

lemma serve_refused:
  assumes A: "h_authorizer H = FGAChecker E" and g: "(a, d) \<in> set (guards q)" "\<not> may w c a d"
    and s: "serve E H c q w = (r, w')"
  shows "refused w w' r"
proof -
  have one: "refused w w' r" if "serve E H c q w = seqM (requirePerm H c a d) m w" for m
    using that s fga.guarded_refused [OF A g(2), of m r w'] by simp
  show ?thesis
  proof (cases q)
    case (ReqMount d1 p src)
    then have m: "seqM (requirePerm H c ActionEdit d1) (seqM (requirePerm H c ActionView src) (Mount E d1 p src)) w = (r, w')"
      using s by (simp add: handle_Mount_def)
    show ?thesis
    proof (cases "may w c ActionEdit d1")
      case True
      then have "\<not> may w c ActionView src" using g ReqMount by auto
      then show ?thesis
        using fga.guarded_later [OF A m] fga.guarded_refused [OF A] may_same_store by blast
    next
      case False
      then show ?thesis by (rule fga.guarded_refused [OF A _ m])
    qed
  qed (use g(1) in \<open>auto intro!: one simp: voidM_seq handle_Mkdir_def handle_Touch_def handle_Rm_def handle_Mv_def handle_Write_def
      handle_WriteLarge_def Let_def handle_Symlink_def handle_Hardlink_def handle_Unmount_def handle_UpdateDrive_def
      handle_DeleteDrive_def handle_InitiateUpload_def handle_CompleteUpload_def\<close>)
qed

text \<open>
  C1. A request that changes state is refused, with every store as it was, when its user lacks one of the
  permissions it needs: edit on the drive for every operation of the file service, the uploads, and the update and deletion
  of a drive, view on the source as well for a mount. The error's kind is PermissionDenied, or Unavailable when
  the check itself failed.
\<close>

theorem no_write_without_permission:
  assumes A: "h_authorizer H = FGAChecker E" and g: "(a, d) \<in> set (guards q)" "\<not> may w c a d"
    and s: "serve E H c q w = (r, w')"
  shows "refused w w' r"
  using serve_refused [OF assms] .

lemma requirePerm_passes:
  assumes f: "no_faults E" and A: "h_authorizer H = FGAChecker E" and m: "may w c p d"
  shows "\<exists>w'. requirePerm H c p d w = (Inr (), w') \<and> same_store w' w"
proof -
  have "\<exists>w'. requirePerm H c p d w = (Inr (), w')" using m
    by (simp add: requirePerm_def A FGAChecker_def fga_Check_def may_def seqM_def bindM_def wrapM_def io_no_faults [OF f] get_fga_def)
  then show ?thesis using quietD [OF fga.requirePerm_quiet [OF A]] by blast
qed

text \<open>
  C12. What a read is checked for. A file's content is served only with view on one drive: the source of the first
  mount on the path, or the requested drive when the path leads to no mount; and no store changes. Conversely, without faults
  that permission is needed, and it is enough for whatever the rest of the path leads to, through further mounts into other
  drives: neither the requested drive nor the drive the file is in is checked.
\<close>

theorem cat_permission:
  assumes A: "h_authorizer H = FGAChecker E" and w: "w_tx w = None"
  shows "(\<forall>s w'. handle_Cat E H c d p w = (Inr s, w') \<longrightarrow> same_store w' w \<and>
      (\<exists>d1 q d2 n ds. read_drive E (w_db w) d p d1 q \<and> may w c ActionView d1 \<and>
         crosses E (w_db w) True d1 (cleanPath q) d2 n ds \<and> is_file n \<and> read_file n = Inr s)) \<and>
    (no_faults E \<longrightarrow> drives_ok (w_db w) \<longrightarrow> (\<forall>d1 q. read_drive E (w_db w) d p d1 q \<longrightarrow>
      (\<not> may w c ActionView d1 \<longrightarrow> refused w (snd (handle_Cat E H c d p w)) (fst (handle_Cat E H c d p w))) \<and>
      (may w c ActionView d1 \<longrightarrow> (\<forall>d2 n ds s. crosses E (w_db w) True d1 (cleanPath q) d2 n ds \<longrightarrow> distinct (d1 # ds) \<longrightarrow>
        length ds < maxMountHops \<longrightarrow> is_file n \<longrightarrow> read_file n = Inr s \<longrightarrow> (\<exists>w'. handle_Cat E H c d p w = (Inr s, w'))))))"
proof (intro conjI allI impI)
  fix s w' assume h: "handle_Cat E H c d p w = (Inr s, w')"
  then obtain d1 q w1 where r: "resolveRead E H c d p w = (Inr (d1, q), w1)" and cat: "Cat E d1 q w1 = (Inr s, w')"
    by (auto simp: handle_Cat_def monad_simps)
  note R = fga.resolveRead_may [OF A r]
  have "quiet (Cat E d1 q)" by (rule quiet_vfs_reads)
  then have "same_store w' w1" using cat by (rule quietD)
  then show "same_store w' w" using R(1) by (rule same_store_trans)
  have rd: "read_drive E (w_db w) d p d1 q" using R(3) ResolveForPermission_Inr [OF w, of E d p d1] by fastforce
  obtain d2 n w2 where t: "Resolve E d1 q w1 = (Inr (d2, n), w2)" "is_file n" "read_file n = Inr s"
    using cat by (auto simp: Cat_def monad_simps split: if_splits)
  have w1: "w_tx w1 = None" "w_db w1 = w_db w" using R(1) w by (simp_all add: same_store_def)
  obtain ds where "crosses E (w_db w) True d1 (cleanPath q) d2 n ds" using Resolve_Inr [OF w1(1) t(1)] w1(2) by auto
  then show "\<exists>d1 q d2 n ds. read_drive E (w_db w) d p d1 q \<and> may w c ActionView d1 \<and>
      crosses E (w_db w) True d1 (cleanPath q) d2 n ds \<and> is_file n \<and> read_file n = Inr s" using rd R(2) t by blast
next
  fix d1 q assume a: "no_faults E" "drives_ok (w_db w)" and rd: "read_drive E (w_db w) d p d1 q"
  obtain q' w1 where r: "ResolveForPermission E d p w = (Inr (d1, q'), w1)" "q = (if d1 = d then q' else CHR ''/'' # q')"
    using ResolveForPermission_finds [OF a(1) w a(2) rd] by blast
  have s1: "same_store w1 w" by (rule quietD [OF quiet_vfs_reads(3) r(1)])
  show "refused w (snd (handle_Cat E H c d p w)) (fst (handle_Cat E H c d p w))" if "\<not> may w c ActionView d1"
  proof -
    have "\<not> may w1 c ActionView d1" using that may_same_store [OF s1] by simp
    then obtain e w2 where stop: "requirePerm H c ActionView d1 w1 = (Inl e, w2)" "same_store w2 w1"
      "KindOf_err e \<in> {KindPermissionDenied, KindUnavailable}"
      using fga.requirePerm_cases [OF A, of c ActionView d1 w1] by blast
    have "handle_Cat E H c d p w = (Inl e, w2)"
      using stop(1) r(1) by (simp add: handle_Cat_def resolveRead_def bindM_def seqM_def)
    then show ?thesis using stop(2,3) same_store_trans [OF _ s1] by (simp add: refused_def)
  qed
  show "\<exists>w'. handle_Cat E H c d p w = (Inr s, w')" if m: "may w c ActionView d1"
    and x: "crosses E (w_db w) True d1 (cleanPath q) d2 n ds" "distinct (d1 # ds)" "length ds < maxMountHops"
    and n: "is_file n" "read_file n = Inr s" for d2 n ds s
  proof -
    obtain w2 where p: "requirePerm H c ActionView d1 w1 = (Inr (), w2)" "same_store w2 w1"
      using requirePerm_passes [OF a(1) A] m may_same_store [OF s1] by blast
    have w2: "w_tx w2 = None" "w_db w2 = w_db w" using s1 p(2) w by (simp_all add: same_store_def)
    have "\<exists>w3. Resolve E d1 q w2 = (Inr (d2, n), w3)"
      unfolding Resolve_def resolveWithMounts_def
      by (rule mount_hops_complete [OF a(1) x(1) w2 a(2) _ _ x(3)]) (use x(2) in auto)
    then show ?thesis using r p(1) n by (auto simp: handle_Cat_def resolveRead_def Cat_def bindM_def seqM_def wrapM_def)
  qed
qed

text \<open>A third drive d3, mounted in d2, which is mounted in d1; the user u2 may view d2 and nothing else.\<close>

definition nested_root2 :: node where
  "nested_root2 = tree_dir 20 [\<lparr>de_ino = 22, de_name = ''m'', de_kind = NodeKindMount\<rparr>]"

definition nested_root3 :: node where
  "nested_root3 = tree_dir 30 [\<lparr>de_ino = 31, de_name = ''x'', de_kind = NodeKindFile\<rparr>]"

definition nested_db :: db where
  "nested_db = tree_db\<lparr>t_nodes := (t_nodes tree_db)(20 \<mapsto> row_insert nested_root2, 22 \<mapsto> row_insert (tree_mount 22 ''d3''),
     30 \<mapsto> row_insert nested_root3, 31 \<mapsto> row_insert (tree_file 31)),
     t_drives := [tree_drive ''d1'' 1, tree_drive ''d2'' 20, tree_drive ''d3'' 30]\<rparr>"

definition nested :: world where
  "nested = (world_of nested_db)\<lparr>w_fga := [(fga_user ''u2'', ''viewer'', fga_object ObjectTypeDrive ''d2'')]\<rparr>"

definition demo_session :: session where
  "demo_session = \<lparr>ss_id = ''s'', ss_user_id = ''u2'', ss_provider = ''oidc'', ss_is_admin = False, ss_created_at = 0, ss_expires_at = 100\<rparr>"

definition demo_server :: server where
  "demo_server = \<lparr>h_cipher = NoOp, h_registry = NewValkeyRegistry demo, h_store = s3_store demo demo_s3,
     h_recorder = Some (RecordGarbage demo), h_fuel = 10, h_authorizer = FGAChecker demo, h_redirect_uri = ''/'',
     h_default_storage = demo_cfg, h_presign_ttl = 900, h_url_error = (\<lambda>u. None), h_health_db = True,
     h_health_scan = None, h_health_authorizer = Some (FGAChecker demo)\<rparr>"

lemma demo_server_authorizer: "h_authorizer demo_server = FGAChecker demo"
  by (simp add: demo_server_def)

lemma nested_simps [simp]: "w_db nested = nested_db" "w_tx nested = None" "w_cache nested = Map.empty"
  "w_fga nested = [(fga_user ''u2'', ''viewer'', fga_object ObjectTypeDrive ''d2'')]"
  by (simp_all add: nested_def world_of_def)

lemma nested_may: "may nested (Some demo_session) p d \<longleftrightarrow> d = ''d2'' \<and> p = ActionView"
  by (simp add: may_def fga_allows_iff grants_def UserIDFromContext_def SessionFromContext_def demo_session_def)

lemma nested_at:
  "node_at nested_db 1 = Some tree_root" "node_at nested_db 6 = Some (tree_mount 6 ''d2'')"
  "node_at nested_db 20 = Some nested_root2" "node_at nested_db 22 = Some (tree_mount 22 ''d3'')"
  "node_at nested_db 30 = Some nested_root3" "node_at nested_db 31 = Some (tree_file 31)"
  by (simp_all add: nested_db_def node_at_def tree_db_def empty_db_def tree_root_def nested_root2_def nested_root3_def tree_dir_def
      tree_mount_def tree_file_def from_demo_node)

lemma nested_roots: "drive_root nested_db ''d1'' 1" "drive_root nested_db ''d2'' 20" "drive_root nested_db ''d3'' 30" "drives_ok nested_db"
  by (simp_all add: drive_root_def drive_row_def drives_ok_def nested_db_def tree_db_def empty_db_def tree_drive_def)

lemma nested_entries:
  "entry_at demo nested_db tree_root ''m'' (tree_mount 6 ''d2'')" "entry_at demo nested_db nested_root2 ''m'' (tree_mount 22 ''d3'')"
  "entry_at demo nested_db nested_root3 ''x'' (tree_file 31)"
  by (simp_all add: entry_at_lookup tree_root_def nested_root2_def nested_root3_def tree_lookup nested_at)

lemma nested_splits: "splitPath (cleanPath ''/m/m/x'') = [''m'', ''m'', ''x'']"
  by (simp add: splitPath_cleanPath clean_parts_def trim_space_def space_seqs_def has_prefix_def upt_rec)

lemma nested_resolves:
  "resolves demo nested_db 1 True ''/m/m/x'' [] \<lparr>wr_node = tree_mount 6 ''d2'', wr_remaining = ''m/x''\<rparr>"
  "resolves demo nested_db 20 True ''/m/x'' [] \<lparr>wr_node = tree_mount 22 ''d3'', wr_remaining = ''x''\<rparr>"
  "resolves demo nested_db 30 True ''/x'' [] \<lparr>wr_node = tree_file 31, wr_remaining = []\<rparr>"
proof -
  have d2: "valid_utf8 ''d3''" by (simp add: ascii_valid byte_in_def)
  show "resolves demo nested_db 1 True ''/m/m/x'' [] \<lparr>wr_node = tree_mount 6 ''d2'', wr_remaining = ''m/x''\<rparr>"
    using resolves_mount [OF nested_at(1) _ descends_here nested_entries(1), of "''/m/m/x''" "[''m'', ''x'']" True]
    by (simp add: nested_splits kind_tests joinParts_def)
  show "resolves demo nested_db 20 True ''/m/x'' [] \<lparr>wr_node = tree_mount 22 ''d3'', wr_remaining = ''x''\<rparr>"
    using resolves_mount [OF nested_at(3) _ descends_here nested_entries(2), of "''/m/x''" "[''x'']" True]
    by (simp add: tree_splits kind_tests joinParts_def)
  have "descends demo nested_db True nested_root3 [''x''] (tree_file 31)"
    by (intro descends_into [OF nested_entries(3)] descends_here) (simp_all add: kind_tests)
  then show "resolves demo nested_db 30 True ''/x'' [] \<lparr>wr_node = tree_file 31, wr_remaining = []\<rparr>"
    by (intro resolves_node [OF nested_at(5)]) (simp add: tree_splits)
qed

lemma nested_read: "read_drive demo nested_db ''d1'' ''/m/m/x'' ''d2'' ''/m/x''"
  unfolding read_drive_def
  by (intro exI [of _ "1::uuid"] exI [of _ "[]"] exI conjI, rule nested_roots, rule nested_resolves)
    (simp_all add: links_fit_def kind_tests tree_read_mount)

theorem cat_permission_witness:
  "\<not> may nested (Some demo_session) ActionView ''d1'' \<and> \<not> may nested (Some demo_session) ActionView ''d3'' \<and>
   (\<exists>w'. handle_Cat demo demo_server (Some demo_session) ''d1'' ''/m/m/x'' nested = (Inr ''hi'', w'))"
proof -
  have s: "cleanPath ''/m/x'' = ''/m/x''" using cleanPath_split [of "''/m/x''"] by (simp add: tree_splits joinParts_def)
  have d3: "valid_utf8 ''d3''" by (simp add: ascii_valid byte_in_def)
  have x: "crosses demo nested_db True ''d3'' ''/x'' ''d3'' (tree_file 31) []"
    using crosses_here [OF nested_roots(3) nested_resolves(3)] by (simp add: links_fit_def)
  have "crosses demo nested_db True ''d2'' (cleanPath ''/m/x'') ''d3'' (tree_file 31) [''d3'']"
    using crosses_mount [OF nested_roots(2) nested_resolves(2)] x by (simp add: links_fit_def s tree_read_mount d3)
  then have "\<exists>w'. handle_Cat demo demo_server (Some demo_session) ''d1'' ''/m/m/x'' nested = (Inr ''hi'', w')"
    using cat_permission [OF demo_server_authorizer, of nested "Some demo_session" "''d1''" "''/m/m/x''"] nested_roots(4)
      nested_read nested_may
    by (auto simp: maxMountHops_def kind_tests tree_read_file)
  then show ?thesis by (simp add: nested_may)
qed

theorem no_write_without_permission_witness:
  "\<exists>r w'. serve demo demo_server (Some demo_session) (ReqMkdir ''d2'' ''/y'') nested = (r, w') \<and> refused nested w' r"
  using no_write_without_permission [OF demo_server_authorizer, of ActionEdit "''d2''" "ReqMkdir ''d2'' ''/y''" nested "Some demo_session"]
  by (cases "serve demo demo_server (Some demo_session) (ReqMkdir ''d2'' ''/y'') nested") (simp add: nested_may)

end
