(* ===== verification/Login.thy ===== *)
theory Login
  imports Session
begin

text \<open>
  The login flow (internal/auth/auth.go, flow.go and claims.go): the OpenID Connect authorization code flow
  with its encrypted state cookie, the user a login finds or creates, and the logout. The OAuth and OIDC
  libraries are a parameter: what they return for a code, a token and a claim set. Logging is left out.
\<close>

section \<open>Requests and responses\<close>

text \<open>The parsed query (the first value of a name counts) and the cookies; \<open>http.Redirect\<close> is its status and target.\<close>

record http_request =
  hq_query :: "(string \<times> string) list"
  hq_cookies :: "(string \<times> string) list"

record http_response =
  hr_status :: nat
  hr_location :: "string option"
  hr_body :: string
  hr_cookies :: "cookie list"

definition query_get :: "http_request \<Rightarrow> string \<Rightarrow> string" where
  "query_get r k = (case map_of (hq_query r) k of Some v \<Rightarrow> v | None \<Rightarrow> [])"

definition http_redirect :: "cookie list \<Rightarrow> string \<Rightarrow> http_response" where
  "http_redirect cs target = \<lparr>hr_status = 302, hr_location = Some target, hr_body = [], hr_cookies = cs\<rparr>"

definition http_error :: "cookie list \<Rightarrow> string \<Rightarrow> nat \<Rightarrow> http_response" where
  "http_error cs msg code = \<lparr>hr_status = code, hr_location = None, hr_body = msg @ [CHR 0x0A], hr_cookies = cs\<rparr>"

text \<open>\<open>url.QueryEscape\<close>, and \<open>url.Values.Encode\<close> for pairs given in the order of their keys.\<close>

definition upper_hex :: "nat \<Rightarrow> char" where
  "upper_hex d = (if d < 10 then char_of (48 + d) else char_of (55 + d))"

definition query_escape :: "string \<Rightarrow> string" where
  "query_escape s = concat (map (\<lambda>c.
     if byte_in 97 122 c \<or> byte_in 65 90 c \<or> byte_in 48 57 c \<or> c \<in> {CHR ''-'', CHR ''_'', CHR ''.'', CHR ''~''} then [c]
     else if c = CHR '' '' then ''+''
     else [CHR ''%'', upper_hex (of_char c div 16), upper_hex (of_char c mod 16)]) s)"

definition values_encode :: "(string \<times> string) list \<Rightarrow> string" where
  "values_encode kvs = join_char CHR ''&'' (map (\<lambda>(k, v). query_escape k @ CHR ''='' # query_escape v) kvs)"

text \<open>The verb \<open>%q\<close>: runes outside ASCII are kept as printable.\<close>

definition quote_ascii :: "char \<Rightarrow> string" where
  "quote_ascii c =
     (if c = CHR 0x22 \<or> c = CHR 0x5C then [CHR 0x5C, c]
      else if c = CHR 0x07 then [CHR 0x5C, CHR ''a''] else if c = CHR 0x08 then [CHR 0x5C, CHR ''b'']
      else if c = CHR 0x0C then [CHR 0x5C, CHR ''f''] else if c = CHR 0x0A then [CHR 0x5C, CHR ''n'']
      else if c = CHR 0x0D then [CHR 0x5C, CHR ''r''] else if c = CHR 0x09 then [CHR 0x5C, CHR ''t'']
      else if c = CHR 0x0B then [CHR 0x5C, CHR ''v'']
      else if byte_in 0x20 0x7E c then [c]
      else [CHR 0x5C, CHR ''x'', hex_digit (of_char c div 16), hex_digit (of_char c mod 16)])"

function quote_runes :: "string \<Rightarrow> string" where
  "quote_runes [] = []"
| "quote_runes (a # s) =
     (let n = utf8_len (a # s) in
      if n \<le> 1 then quote_ascii a @ quote_runes s else take n (a # s) @ quote_runes (drop (n - 1) s))"
  by pat_completeness auto
termination
  by (relation "measure length") auto

definition fmt_q :: "string \<Rightarrow> string" where
  "fmt_q s = CHR 0x22 # quote_runes s @ [CHR 0x22]"

section \<open>The identity provider\<close>

text \<open>
  An ID token after verification: its subject, and the results of decoding its claims as name and email
  and as realm roles. A token response may carry a raw ID token. \<open>oi_userinfo\<close> gives the reply of the userinfo
  endpoint, whose claims again may fail to decode.
\<close>

record id_token =
  it_subject :: string
  it_claims :: "gerror + string \<times> string"
  it_roles :: "gerror + string list"

record oauth_token =
  ot_access :: string
  ot_id_token :: "string option"

record oidc =
  oi_client_id :: string
  oi_verifier :: "nat \<Rightarrow> string"
  oi_auth_url :: "string \<Rightarrow> string \<Rightarrow> string"
  oi_exchange :: "nat \<Rightarrow> string \<Rightarrow> string \<Rightarrow> gerror + oauth_token"
  oi_verify :: "nat \<Rightarrow> string \<Rightarrow> gerror + id_token"
  oi_userinfo :: "nat \<Rightarrow> oauth_token \<Rightarrow> gerror + (gerror + string \<times> string)"
  oi_end_session :: "gerror + string"

definition AdminRole :: string where
  "AdminRole = ''admin''"

definition isAdminRole :: "id_token \<Rightarrow> bool" where
  "isAdminRole t = (case it_roles t of Inl e \<Rightarrow> False | Inr rs \<Rightarrow> AdminRole \<in> set rs)"

section \<open>auth.go\<close>

record auth_config =
  ac_issuer :: string
  ac_provider :: string
  ac_encryption_key :: string
  ac_cookie_name :: string
  ac_cookie_domain :: string
  ac_cookie_same_site :: nat
  ac_cookie_secure :: bool
  ac_post_login_url :: string
  ac_post_logout_url :: string
  ac_session_ttl :: int
  ac_scopes :: "string list"

text \<open>\<open>http.SameSiteLaxMode\<close> is 2; 0 stands for an unset mode. The scopes go to the OAuth library with the service.\<close>

definition auth_New :: "env \<Rightarrow> auth_config \<Rightarrow> (auth_service \<times> string list) W" where
  "auth_New E cfg =
     seqM (wrapM [] (''auth: discover provider (issuer='' @ ac_issuer cfg @ '')'') (io E))
       (retM (\<lparr>as_provider_name = ac_provider cfg, as_enc_key = ac_encryption_key cfg,
               as_cookie_name = (if ac_cookie_name cfg = [] then ''mdrive_session'' else ac_cookie_name cfg),
               as_cookie_domain = ac_cookie_domain cfg,
               as_same_site = (if ac_cookie_same_site cfg = 0 then 2 else ac_cookie_same_site cfg),
               as_cookie_secure = ac_cookie_secure cfg, as_post_login_url = ac_post_login_url cfg,
               as_post_logout_url = ac_post_logout_url cfg, as_session_ttl = ac_session_ttl cfg\<rparr>,
              if ac_scopes cfg = [] then [''openid'', ''profile'', ''email''] else ac_scopes cfg))"

section \<open>flow.go\<close>

record state_data =
  st_state :: string
  st_verifier :: string

definition state_marshal :: "state_data \<Rightarrow> string" where
  "state_marshal d = json_print (JObj [(''s'', JStr (st_state d)), (''v'', JStr (st_verifier d))])"

definition state_fields :: "(string \<times> json) list \<Rightarrow> state_data option" where
  "state_fields ms =
     (case (str_field ''s'' [] ms, str_field ''v'' [] ms) of
        (Some s, Some v) \<Rightarrow> Some \<lparr>st_state = s, st_verifier = v\<rparr>
      | _ \<Rightarrow> None)"

definition state_unmarshal :: "string \<Rightarrow> state_data option" where
  "state_unmarshal s =
     (case json_parse s of
        Some (JObj ms) \<Rightarrow> state_fields ms
      | Some JNull \<Rightarrow> state_fields []
      | _ \<Rightarrow> None)"

definition errStateMissing :: gerror where "errStateMissing = New KindInvalidArgument ''auth: missing state cookie''"
definition errStateDecrypt :: gerror where "errStateDecrypt = New KindInvalidArgument ''auth: state cookie decrypt failed''"
definition errStateCorrupt :: gerror where "errStateCorrupt = New KindInvalidArgument ''auth: state cookie corrupt''"
definition errStateMismatch :: gerror where "errStateMismatch = New KindInvalidArgument ''auth: state mismatch''"

definition Authenticate :: "env \<Rightarrow> oidc \<Rightarrow> auth_service \<Rightarrow> http_response W" where
  "Authenticate E J A =
     bindM (draw (oi_verifier J)) (\<lambda>verifier.
     bindM (nonce E) (\<lambda>state.
       tryM (encrypt E (state_marshal \<lparr>st_state = state, st_verifier = verifier\<rparr>) (as_enc_key A))
         (\<lambda>_. retM (http_error [] ''auth: internal error'' 500))
         (\<lambda>enc. retM (http_redirect [setCookie A ''auth_state'' enc 600] (oi_auth_url J state verifier)))))"

definition statusForError :: "gerror \<Rightarrow> nat" where
  "statusForError e = kind_status (KindOf (Some e))"

definition writeError :: "cookie list \<Rightarrow> gerror \<Rightarrow> http_response" where
  "writeError cs e = \<lparr>hr_status = statusForError e, hr_location = None,
     hr_body = json_print (JObj [(''error'', JStr (error_text e))]) @ [CHR 0x0A], hr_cookies = cs\<rparr>"

text \<open>The cookies it sets, and its result.\<close>

definition consumeStateCookie ::
  "env \<Rightarrow> auth_service \<Rightarrow> http_request \<Rightarrow> string \<Rightarrow> cookie list \<times> (gerror + state_data)" where
  "consumeStateCookie E A r state =
     (case request_cookie (hq_cookies r) ''auth_state'' of
        None \<Rightarrow> ([], Inl (wrap_with [] ''auth: consume state cookie missing'' errStateMissing))
      | Some v \<Rightarrow>
          ([setCookie A ''auth_state'' [] (- 1)],
           case decrypt E v (as_enc_key A) of
             Inl _ \<Rightarrow> Inl (wrap_with [] ''auth: consume state cookie decrypt failed'' errStateDecrypt)
           | Inr raw \<Rightarrow>
               (case state_unmarshal raw of
                  None \<Rightarrow> Inl (wrap_with [] ''auth: consume state cookie corrupt'' errStateCorrupt)
                | Some sd \<Rightarrow>
                    if st_state sd = [] \<or> st_state sd \<noteq> state
                    then Inl (wrap_with [] (''auth: consume state cookie mismatch (have='' @ fmt_q (st_state sd) @ '' want='' @
                           fmt_q state @ '')'') errStateMismatch)
                    else Inr sd)))"

definition resolveIdentity :: "env \<Rightarrow> oidc \<Rightarrow> id_token \<Rightarrow> oauth_token \<Rightarrow> (string \<times> string) W" where
  "resolveIdentity E J t tok =
     bindM (wrapM [] ''auth: decode id_token claims'' (liftM (it_claims t))) (\<lambda>(name, email).
       if name \<noteq> [] \<and> email \<noteq> [] then retM (name, email)
       else
         bindM (draw (\<lambda>n. oi_userinfo J n tok)) (\<lambda>ui.
           (case ui of
              Inl e \<Rightarrow> if name \<noteq> [] \<or> email \<noteq> [] then retM (name, email) else failM (wrap_with [] ''auth: userinfo'' e)
            | Inr (Inl e) \<Rightarrow>
                if name \<noteq> [] \<or> email \<noteq> [] then retM (name, email)
                else failM (wrap_with [] ''auth: decode userinfo claims'' e)
            | Inr (Inr (n, m)) \<Rightarrow> retM (if name = [] then n else name, if email = [] then m else email))))"

text \<open>\<open>u, _ :=\<close>: an error counts as no user.\<close>

definition lookup_user :: "env \<Rightarrow> string \<Rightarrow> string \<Rightarrow> user option W" where
  "lookup_user E prov sub = tryM (UserGetByProviderID E prov sub) (\<lambda>_. retM None) retM"

definition findOrCreateUser :: "env \<Rightarrow> auth_service \<Rightarrow> string \<Rightarrow> string \<Rightarrow> string \<Rightarrow> user W" where
  "findOrCreateUser E A sub name email =
     bindM (lookup_user E (as_provider_name A) sub) (\<lambda>u.
       (case u of
          Some x \<Rightarrow> retM x
        | None \<Rightarrow>
            bindM (if as_provider_name A \<noteq> ''zitadel'' then lookup_user E ''zitadel'' sub else retM None) (\<lambda>u'.
              (case u' of
                 Some x \<Rightarrow> retM x
               | None \<Rightarrow>
                   UpsertFromOIDC E \<lparr>cc_name = (if name = [] then sub else name),
                     cc_email = (if email \<noteq> [] then Some email else None),
                     cc_provider = as_provider_name A, cc_provider_id = sub\<rparr>))))"

text \<open>
  The body of \<open>Callback\<close> up to the response: the cookies set so far, and the error or the redirection
  target with the session cookie.
\<close>

definition callback_login ::
  "env \<Rightarrow> oidc \<Rightarrow> auth_service \<Rightarrow> string \<Rightarrow> state_data \<Rightarrow> cookie W" where
  "callback_login E J A code sd =
     bindM (wrapM [] ''auth: token exchange failed'' (bindM (draw (\<lambda>n. oi_exchange J n code (st_verifier sd))) liftM)) (\<lambda>tok.
       (case ot_id_token tok of
          None \<Rightarrow> failM (New KindUnavailable ''auth: missing id_token'')
        | Some raw \<Rightarrow>
            bindM (wrapM [] ''auth: id_token verification failed'' (bindM (draw (\<lambda>n. oi_verify J n raw)) liftM)) (\<lambda>t.
            bindM (resolveIdentity E J t tok) (\<lambda>(name, email).
            bindM (findOrCreateUser E A (it_subject t) name email) (\<lambda>u.
            bindM (time_Now E) (\<lambda>now.
              writeSessionCookie E A \<lparr>sd_subject = it_subject t, sd_user_id = u_id u, sd_provider = as_provider_name A,
                sd_is_admin = isAdminRole t, sd_id_token = raw, sd_name = name, sd_email = email,
                sd_expires_at = now + as_session_ttl A\<rparr>))))))"

definition Callback :: "env \<Rightarrow> oidc \<Rightarrow> auth_service \<Rightarrow> http_request \<Rightarrow> http_response W" where
  "Callback E J A r =
     (let code = query_get r ''code''; state = query_get r ''state'' in
      if code = [] \<or> state = [] then retM (writeError [] (New KindInvalidArgument ''auth: missing code or state''))
      else
        (case consumeStateCookie E A r state of
           (cs, Inl e) \<Rightarrow> retM (writeError cs e)
         | (cs, Inr sd) \<Rightarrow>
             tryM (callback_login E J A code sd) (\<lambda>e. retM (writeError cs e))
               (\<lambda>c. retM (http_redirect (cs @ [c]) (if as_post_login_url A = [] then ''/'' else as_post_login_url A)))))"

definition Logout :: "env \<Rightarrow> oidc \<Rightarrow> auth_service \<Rightarrow> http_request \<Rightarrow> http_response W" where
  "Logout E J A r =
     bindM (tryM (readSessionCookie E A (hq_cookies r)) (\<lambda>_. retM None) (\<lambda>s. retM (Some s))) (\<lambda>sess.
       let cs = [clearSessionCookie A];
           target = (if as_post_logout_url A = [] then ''/'' else as_post_logout_url A)
       in (case oi_end_session J of
             Inl _ \<Rightarrow> retM (http_redirect cs target)
           | Inr ep \<Rightarrow>
               if ep = [] then retM (http_redirect cs target)
               else
                 let hint = (case sess of Some s \<Rightarrow> if sd_id_token s \<noteq> [] then [(''id_token_hint'', sd_id_token s)] else [] | None \<Rightarrow> [])
                 in retM (http_redirect cs (ep @ ''?'' @ values_encode
                      ([(''client_id'', oi_client_id J)] @ hint @ [(''post_logout_redirect_uri'', target)])))))"

section \<open>The state cookie\<close>

lemma state_unmarshal_marshal:
  assumes "valid_utf8 (st_state d)" "valid_utf8 (st_verifier d)"
  shows "state_unmarshal (state_marshal d) = Some d"
proof -
  have k: "to_valid ''s'' = ''s''" "to_valid ''v'' = ''v''" by (auto intro!: valid_utf8_to_valid ascii_valid simp: byte_in_def)
  show ?thesis using assms
    by (simp add: state_unmarshal_def state_marshal_def json_parse_print state_fields_def valid_utf8_to_valid k byte_in_def)
qed

interpretation state_codec: codec state_marshal state_unmarshal "\<lambda>d. valid_utf8 (st_state d) \<and> valid_utf8 (st_verifier d)"
  by unfold_locales (simp add: state_unmarshal_marshal)

lemma b64url_ascii: "ascii (b64url_encode s)"
proof -
  obtain ds where e: "b64_encode s = map b64_char ds @ b64_padding (length ds)" and d: "\<forall>i\<in>set ds. i < 64"
    using b64_encode_padded by blast
  have c: "byte_in 0 0x7F (url_char (b64_char i))" if "i < 64" for i
    using that by (auto simp: url_char_def b64_char_def byte_in_def)
  have p: "c = CHR ''=''" if "c \<in> set (b64_padding k)" for c k using that by (auto simp: b64_padding_def split: if_splits)
  have "byte_in 0 0x7F (url_char c)" if "c \<in> set (b64_encode s)" "c \<noteq> CHR ''=''" for c
    using that c d p by (auto simp: e)
  then show ?thesis by (simp add: ascii_def list_all_iff b64url_encode_def)
qed

lemma nonce_Inr: "nonce E w = (Inr n, w') \<Longrightarrow> rand_ok E \<Longrightarrow> valid_utf8 n \<and> n \<noteq> []"
  by (auto simp: nonce_def monad_simps b64url_encode_Nil_iff intro!: ascii_valid b64url_ascii dest!: rand_bytes_Inr)

lemma nonce_total: "\<exists>n w'. nonce E w = (Inr n, w')"
  by (cases "rand_bytes E 32 w"; cases "fst (rand_bytes E 32 w)") (auto simp: nonce_def)

lemma consume_Inr_iff:
  "snd (consumeStateCookie E A r st) = Inr sd \<longleftrightarrow>
    (\<exists>v raw. request_cookie (hq_cookies r) ''auth_state'' = Some v \<and> decrypt E v (as_enc_key A) = Inr raw \<and>
       state_unmarshal raw = Some sd \<and> st_state sd = st \<and> st \<noteq> [])"
  by (auto simp: consumeStateCookie_def split: option.splits sum.splits)

text \<open>
  The state cookie binds a login to its browser: the cookie \<open>Authenticate\<close> sets is accepted by the callback
  with the state of the redirection it belongs to, and with no other; it gives back the verifier.
\<close>

theorem login_state_bound:
  assumes "gcm_ok E" "rand_ok E" "\<forall>n. valid_utf8 (oi_verifier J n)"
    and a: "Authenticate E J A w = (Inr resp, w')" and "hr_status resp = 302"
  shows "\<exists>c state verifier. hr_cookies resp = [c] \<and> ck_name c = ''auth_state'' \<and> ck_http_only c \<and>
    hr_location resp = Some (oi_auth_url J state verifier) \<and>
    (\<forall>r st sd. request_cookie (hq_cookies r) ''auth_state'' = Some (ck_value c) \<longrightarrow>
       (snd (consumeStateCookie E A r st) = Inr sd \<longleftrightarrow> st = state \<and> sd = \<lparr>st_state = state, st_verifier = verifier\<rparr>))"
proof -
  obtain n w1 where n: "nonce E (w\<lparr>w_tick := Suc (w_tick w)\<rparr>) = (Inr n, w1)" using nonce_total by blast
  let ?sd = "\<lparr>st_state = n, st_verifier = oi_verifier J (w_tick w)\<rparr>"
  obtain ct w2 where e: "encrypt E (state_marshal ?sd) (as_enc_key A) w1 = (Inr ct, w2)"
    and r: "resp = http_redirect [setCookie A ''auth_state'' ct 600] (oi_auth_url J n (oi_verifier J (w_tick w)))"
    using a assms(5) n by (cases "encrypt E (state_marshal ?sd) (as_enc_key A) w1"; cases "fst (encrypt E (state_marshal ?sd) (as_enc_key A) w1)")
      (auto simp: Authenticate_def draw_def bindM_def http_error_def)
  have "decrypt E ct (as_enc_key A) = Inr (state_marshal ?sd)" using decrypt_encrypted [OF assms(1,2) e] by simp
  moreover have "state_unmarshal (state_marshal ?sd) = Some ?sd" "n \<noteq> []"
    using nonce_Inr [OF n assms(2)] assms(3) by (auto intro: state_unmarshal_marshal)
  ultimately have "\<forall>r st sd. request_cookie (hq_cookies r) ''auth_state'' = Some ct \<longrightarrow>
       (snd (consumeStateCookie E A r st) = Inr sd \<longleftrightarrow> st = n \<and> sd = ?sd)"
    by (auto simp: consume_Inr_iff)
  then show ?thesis using r by (auto simp: http_redirect_def setCookie_def)
qed

section \<open>The callback\<close>

lemma quiet_login_reads [quiet_intros]: "quiet (lookup_user E p s)" "quiet (resolveIdentity E J t tok)"
  unfolding lookup_user_def resolveIdentity_def by (intro quiet_intros)+

lemma quiet_oidc [quiet_intros]: "quiet (bindM (draw f) liftM)"
  by (intro quiet_intros)

lemma Callback_cases:
  assumes "Callback E J A r w = (Inr resp, w')"
  obtains (refused) "w' = w" "hr_status resp \<noteq> 302"
  | (failed) cs sd e where "consumeStateCookie E A r (query_get r ''state'') = (cs, Inr sd)" "query_get r ''code'' \<noteq> []"
      "callback_login E J A (query_get r ''code'') sd w = (Inl e, w')" "hr_status resp \<noteq> 302"
  | (success) cs sd c where "consumeStateCookie E A r (query_get r ''state'') = (cs, Inr sd)" "query_get r ''code'' \<noteq> []"
      "callback_login E J A (query_get r ''code'') sd w = (Inr c, w')" "hr_cookies resp = cs @ [c]" "hr_status resp = 302"
proof -
  have n: "hr_status (writeError cs e) \<noteq> 302" for cs e
    by (cases "KindOf (Some e)") (simp_all add: writeError_def statusForError_def)
  obtain cs x where x: "consumeStateCookie E A r (query_get r ''state'') = (cs, x)" by fastforce
  show thesis
  proof (cases "query_get r ''code'' = [] \<or> query_get r ''state'' = []")
    case True
    then show thesis using assms refused n by (auto simp: Callback_def Let_def)
  next
    case False
    show thesis
    proof (cases x)
      case (Inl e)
      then show thesis using assms False x refused n by (auto simp: Callback_def Let_def)
    next
      case (Inr sd)
      obtain q v where q: "callback_login E J A (query_get r ''code'') sd w = (q, v)" by fastforce
      then show thesis using assms False x Inr failed success n
        by (cases q) (auto simp: Callback_def Let_def http_redirect_def)
    qed
  qed
qed

lemma callback_login_Inr:
  assumes "callback_login E J A code sd w = (q, w')" "w_db w' \<noteq> w_db w \<or> q = Inr c"
  obtains tok raw t n1 n2 name email w1 where "oi_exchange J n1 code (st_verifier sd) = Inr tok" "ot_id_token tok = Some raw"
    "oi_verify J n2 raw = Inr t" "w_db w1 = w_db w" "w_tx w1 = w_tx w"
    "(bindM (findOrCreateUser E A (it_subject t) name email) (\<lambda>u. bindM (time_Now E) (\<lambda>now.
        writeSessionCookie E A \<lparr>sd_subject = it_subject t, sd_user_id = u_id u, sd_provider = as_provider_name A,
          sd_is_admin = isAdminRole t, sd_id_token = raw, sd_name = name, sd_email = email,
          sd_expires_at = now + as_session_ttl A\<rparr>))) w1 = (q, w')"
proof -
  let ?n1 = "w_tick w" and ?w1 = "w\<lparr>w_tick := Suc (w_tick w)\<rparr>"
  let ?n2 = "Suc (w_tick w)" and ?w2 = "w\<lparr>w_tick := Suc (Suc (w_tick w))\<rparr>"
  show thesis
  proof (cases "oi_exchange J ?n1 code (st_verifier sd)")
    case (Inl e)
    then show thesis using assms by (auto simp: callback_login_def wrapM_def bindM_def draw_def)
  next
    case tok: (Inr tok)
    show thesis
    proof (cases "ot_id_token tok")
      case None
      then show thesis using assms tok by (auto simp: callback_login_def wrapM_def bindM_def draw_def)
    next
      case raw: (Some raw)
      show thesis
      proof (cases "oi_verify J ?n2 raw")
        case (Inl e)
        then show thesis using assms tok raw by (auto simp: callback_login_def wrapM_def bindM_def draw_def)
      next
        case t: (Inr t)
        obtain i v where i: "resolveIdentity E J t tok ?w2 = (i, v)" by fastforce
        then have v: "w_db v = w_db w" "w_tx v = w_tx w" using quiet_db [OF quiet_login_reads(2) i] by simp_all
        show thesis
        proof (cases i)
          case (Inl e)
          then show thesis using assms tok raw t i v by (auto simp: callback_login_def wrapM_def bindM_def draw_def)
        next
          case (Inr ne)
          obtain name email where ne: "ne = (name, email)" by fastforce
          show thesis
            by (rule that [OF tok raw t v, of name email])
              (use assms(1) tok raw t i Inr ne in \<open>simp add: callback_login_def wrapM_def bindM_def draw_def\<close>)
        qed
      qed
    qed
  qed
qed

text \<open>
  C24. A callback changes the database or opens a session only for a code it received with the state of its own
  state cookie, exchanged with that cookie's verifier for a token whose ID token was verified.
\<close>

theorem callback_needs_state:
  assumes c: "Callback E J A r w = (Inr resp, w')" and "w_db w' \<noteq> w_db w \<or> hr_status resp = 302"
  shows "\<exists>v raw sd n1 n2 tok it t. request_cookie (hq_cookies r) ''auth_state'' = Some v \<and>
    decrypt E v (as_enc_key A) = Inr raw \<and> state_unmarshal raw = Some sd \<and>
    st_state sd = query_get r ''state'' \<and> st_state sd \<noteq> [] \<and> query_get r ''code'' \<noteq> [] \<and>
    oi_exchange J n1 (query_get r ''code'') (st_verifier sd) = Inr tok \<and> ot_id_token tok = Some it \<and> oi_verify J n2 it = Inr t"
proof -
  obtain cs sd q where s: "consumeStateCookie E A r (query_get r ''state'') = (cs, Inr sd)" "query_get r ''code'' \<noteq> []"
    and q: "callback_login E J A (query_get r ''code'') sd w = (q, w')" "w_db w' \<noteq> w_db w \<or> (\<exists>c. q = Inr c)"
    using c
  proof (cases rule: Callback_cases)
    case refused
    then show ?thesis using assms(2) by simp
  next
    case (failed cs sd e)
    then show ?thesis using assms(2) that by metis
  next
    case (success cs sd c)
    then show ?thesis using that by metis
  qed
  obtain c where h: "w_db w' \<noteq> w_db w \<or> q = Inr c" using q(2) by blast
  obtain tok it t n1 n2 where
    "oi_exchange J n1 (query_get r ''code'') (st_verifier sd) = Inr tok" "ot_id_token tok = Some it" "oi_verify J n2 it = Inr t"
    by (rule callback_login_Inr [OF q(1) h]) (rule that)
  moreover have "snd (consumeStateCookie E A r (query_get r ''state'')) = Inr sd" using s(1) by simp
  then obtain v raw where "request_cookie (hq_cookies r) ''auth_state'' = Some v" "decrypt E v (as_enc_key A) = Inr raw"
    "state_unmarshal raw = Some sd" "st_state sd = query_get r ''state''" "st_state sd \<noteq> []"
    unfolding consume_Inr_iff by auto
  ultimately show ?thesis using s(2) by blast
qed

section \<open>Users of the former provider\<close>

lemma session_subject:
  assumes "session_unmarshal E (session_marshal E d) = Some d'"
  shows "sd_subject d' = to_valid (sd_subject d)"
  using assms
  by (simp add: session_unmarshal_def session_marshal_def json_parse_print session_fields_def session_keys byte_in_def
      split: option.splits) (auto split: option.splits)

lemma lookup_user_run:
  "no_faults E \<Longrightarrow> users_ok (w_db w) \<Longrightarrow>
   lookup_user E prov sub w = (Inr (map_option user_from_ent (subject_row (w_db w) prov sub)), w\<lparr>w_tick := Suc (w_tick w)\<rparr>)"
  by (simp add: lookup_user_def UserGetByProviderID_run)

lemma unknown_subject_rejected:
  assumes ok: "gcm_ok E" "rand_ok E" "no_faults E" "users_ok (w_db v)"
    and c: "writeSessionCookie E A d w = (Inr c, w')"
    and n: "valid_utf8 (sd_subject d)" "subject_row (w_db v) (as_provider_name A) (sd_subject d) = None"
  shows "\<exists>m. fst (HandleCookieAuth E A None (ck_value c) v) = Inl (New KindUnauthenticated m)"
proof -
  obtain ct w1 where e: "encrypt E (session_marshal E d) (as_enc_key A) w = (Inr ct, w1)" and ct: "ck_value c = ct"
    using c by (auto simp: writeSessionCookie_def monad_simps Let_def setCookie_def split: if_splits)
  note dec = decrypt_encrypted [OF ok(1,2) e]
  obtain x v' where r: "readSessionCookieFromValue E A ct v = (x, v')" by fastforce
  show ?thesis
  proof (cases x)
    case (Inl y)
    then show ?thesis using r ct dec by (auto simp: HandleCookieAuth_def)
  next
    case (Inr d')
    then have "session_unmarshal E (session_marshal E d) = Some d'"
      using r dec by (auto simp: readSessionCookieFromValue_def monad_simps split: option.splits if_splits)
    then have "sd_subject d' = sd_subject d" using session_subject n(1) by (simp add: valid_utf8_to_valid)
    moreover have "w_db v' = w_db v" using quiet_db [OF quiet_session(5) r] by simp
    ultimately have "UserGetByProviderID E (as_provider_name A) (sd_subject d') v' = (Inr None, v'\<lparr>w_tick := Suc (w_tick v')\<rparr>)"
      using UserGetByProviderID_run [OF ok(3), of v'] ok(4) n(2) by simp
    then show ?thesis using r Inr ct dec by (auto simp: HandleCookieAuth_def)
  qed
qed

text \<open>
  C39. A user known only under the former provider "zitadel" can log in but never gets in: the callback finds
  the old account, creates no new one and sets a session cookie, yet every request with that cookie is refused,
  since the session is looked up under the configured provider alone.
\<close>

theorem legacy_user_locked_out:
  assumes ok: "gcm_ok E" "rand_ok E" "no_faults E" "users_ok (w_db w)"
    and p: "as_provider_name A \<noteq> ''zitadel''" "subject_row (w_db w) (as_provider_name A) sub = None"
      "subject_row (w_db w) ''zitadel'' sub = Some row"
    and sub: "\<forall>n raw t. oi_verify J n raw = Inr t \<longrightarrow> it_subject t = sub" "valid_utf8 sub"
    and c: "Callback E J A r w = (Inr resp, w')" "hr_status resp = 302"
  shows "w_db w' = w_db w \<and> (\<exists>c\<in>set (hr_cookies resp). ck_name c = as_cookie_name A \<and> ck_value c \<noteq> []) \<and>
    (\<forall>c\<in>set (hr_cookies resp). \<forall>v. w_db v = w_db w \<longrightarrow>
       (\<exists>m. fst (HandleCookieAuth E A None (ck_value c) v) = Inl (New KindUnauthenticated m)))"
  using c(1)
proof (cases rule: Callback_cases)
  case refused
  then show ?thesis using c(2) by simp
next
  case (failed cs sd e)
  then show ?thesis using c(2) by simp
next
  case (success cs sd ck)
  obtain t raw name email w1 where t: "it_subject t = sub" and w1: "w_db w1 = w_db w"
    and b: "(bindM (findOrCreateUser E A (it_subject t) name email) (\<lambda>u. bindM (time_Now E) (\<lambda>now.
        writeSessionCookie E A \<lparr>sd_subject = it_subject t, sd_user_id = u_id u, sd_provider = as_provider_name A,
          sd_is_admin = isAdminRole t, sd_id_token = raw, sd_name = name, sd_email = email,
          sd_expires_at = now + as_session_ttl A\<rparr>))) w1 = (Inr ck, w')"
    by (rule callback_login_Inr [OF success(3) disjI2 [OF refl]]) (use sub(1) that in blast)
  have u: "findOrCreateUser E A sub name email w1 = (Inr (user_from_ent row), w1\<lparr>w_tick := Suc (Suc (w_tick w1))\<rparr>)"
    using lookup_user_run [OF ok(3)] ok(4) p w1 by (simp add: findOrCreateUser_def bindM_def)
  obtain d w2 where s: "writeSessionCookie E A d w2 = (Inr ck, w')" "sd_subject d = sub" "w_db w2 = w_db w"
    using b u t w1 by (auto simp: bindM_def time_Now_def draw_def)
  have "w_db w' = w_db w" using quiet_db [OF quiet_session(4) s(1)] s(3) by simp
  moreover have "ck_name ck = as_cookie_name A \<and> ck_value ck \<noteq> []"
    using s(1) decrypt_encrypted [OF ok(1,2)] by (auto simp: writeSessionCookie_def monad_simps Let_def setCookie_def split: if_splits)
  moreover have "\<exists>m. fst (HandleCookieAuth E A None (ck_value ck) v) = Inl (New KindUnauthenticated m)" if "w_db v = w_db w" for v
    by (rule unknown_subject_rejected [OF ok(1-3) _ s(1)]) (use that ok(4) p(2) s(2) sub(2) in simp_all)
  moreover have "ck_value x = []" if "x \<in> set cs" for x
    using success(1) that by (auto simp: consumeStateCookie_def setCookie_def split: option.splits)
  ultimately show ?thesis using success(4) by (auto simp: HandleCookieAuth_def)
qed

section \<open>A login on concrete states\<close>

definition demo_oidc :: oidc where
  "demo_oidc = \<lparr>oi_client_id = ''c'', oi_verifier = (\<lambda>n. ''v''), oi_auth_url = (\<lambda>s v. s),
     oi_exchange = (\<lambda>n c v. Inr \<lparr>ot_access = c, ot_id_token = Some ''t''\<rparr>),
     oi_verify = (\<lambda>n t. Inr \<lparr>it_subject = ''s'', it_claims = Inr (''n'', ''e''), it_roles = Inr []\<rparr>),
     oi_userinfo = (\<lambda>n t. Inr (Inr ([], []))), oi_end_session = Inr []\<rparr>"

definition demo_callback :: http_request where
  "demo_callback = \<lparr>hq_query = [(''code'', ''k''), (''state'', ''s'')],
     hq_cookies = [(''auth_state'', b64url_encode (replicate 12 (CHR ''x'') @ state_marshal \<lparr>st_state = ''s'', st_verifier = ''v''\<rparr>))]\<rparr>"

definition legacy_row :: ent_user where
  "legacy_row = \<lparr>eu_id = ''u'', eu_public_id = ''u'', eu_name = ''n'', eu_email = None,
     eu_provider = ''zitadel'', eu_provider_id = ''s'', eu_create_time = 1, eu_update_time = 1\<rparr>"

definition legacy_users :: world where
  "legacy_users = world_of (empty_db\<lparr>t_users := [legacy_row]\<rparr>)"

lemma legacy_users_ok [simp]: "users_ok (w_db legacy_users)" "subject_row (w_db legacy_users) ''keycloak'' ''s'' = None"
  "subject_row (w_db legacy_users) ''zitadel'' ''s'' = Some legacy_row"
  by (simp_all add: users_ok_def legacy_users_def legacy_row_def world_of_def empty_db_def subject_row_def user_key_def)

lemma demo_auth_key [simp]: "new_cipher (as_enc_key demo_auth) = Inr (as_enc_key demo_auth)" "as_provider_name demo_auth = ''keycloak''"
  by (simp_all add: new_cipher_def aes_key_ok_def demo_auth_def)

lemma demo_callback_renamed:
  "\<exists>resp w'. Callback demo demo_oidc (demo_auth\<lparr>as_cookie_name := name\<rparr>) demo_callback legacy_users = (Inr resp, w') \<and> hr_status resp = 302"
proof -
  let ?A = "demo_auth\<lparr>as_cookie_name := name\<rparr>"
  let ?sd = "\<lparr>st_state = ''s'', st_verifier = ''v''\<rparr>"
  have "state_unmarshal (state_marshal ?sd) = Some ?sd" by (rule state_unmarshal_marshal) (simp_all add: ascii_valid byte_in_def)
  then have c: "snd (consumeStateCookie demo ?A demo_callback ''s'') = Inr ?sd"
    by (simp add: consume_Inr_iff demo_callback_def request_cookie_def decrypt_def b64url_decode_encode nonce_size_def demo_def)
  have t: "w_tick legacy_users = 0" by (simp add: legacy_users_def world_of_def)
  obtain w3 where f: "findOrCreateUser demo ?A ''s'' ''n'' ''e'' (legacy_users\<lparr>w_tick := Suc (Suc 0)\<rparr>) =
      (Inr (user_from_ent legacy_row), w3)"
    using lookup_user_run [OF demo_no_faults] by (simp add: findOrCreateUser_def bindM_def)
  have "\<exists>ck w'. writeSessionCookie demo ?A d w = (Inr ck, w')" for d w
    by (simp add: writeSessionCookie_def encrypt_def rand_bytes_def draw_def bindM_def wrapM_def time_Now_def Let_def)
      (simp add: demo_def)
  moreover have "\<exists>d v. callback_login demo demo_oidc ?A ''k'' ?sd legacy_users = writeSessionCookie demo ?A d v"
    using f t by (simp add: callback_login_def demo_oidc_def wrapM_def bindM_def draw_def resolveIdentity_def time_Now_def) blast
  ultimately have "\<exists>ck w'. callback_login demo demo_oidc ?A ''k'' ?sd legacy_users = (Inr ck, w')" by metis
  moreover have "query_get demo_callback ''code'' = ''k''" "query_get demo_callback ''state'' = ''s''"
    by (simp_all add: query_get_def demo_callback_def)
  ultimately show ?thesis using c
    by (cases "consumeStateCookie demo ?A demo_callback ''s''") (auto simp: Callback_def http_redirect_def)
qed

lemma demo_callback_runs: "\<exists>resp w'. Callback demo demo_oidc demo_auth demo_callback legacy_users = (Inr resp, w') \<and> hr_status resp = 302"
proof -
  have "demo_auth\<lparr>as_cookie_name := ''mdrive_session''\<rparr> = demo_auth" by (simp add: demo_auth_def)
  then show ?thesis using demo_callback_renamed [of "''mdrive_session''"] by simp
qed

theorem login_state_bound_witness:
  "\<exists>resp c st. fst (Authenticate demo demo_oidc demo_auth (world_of empty_db)) = Inr resp \<and> hr_cookies resp = [c] \<and>
     snd (consumeStateCookie demo demo_auth \<lparr>hq_query = [], hq_cookies = [(''auth_state'', ck_value c)]\<rparr> st) =
       Inr \<lparr>st_state = st, st_verifier = ''v''\<rparr>"
proof -
  have "\<exists>resp w'. Authenticate demo demo_oidc demo_auth (world_of empty_db) = (Inr resp, w') \<and> hr_status resp = 302"
    by (simp add: Authenticate_def nonce_def encrypt_def rand_bytes_def draw_def bindM_def wrapM_def tryM_def http_redirect_def)
      (simp add: demo_def)
  then obtain resp w' where a: "Authenticate demo demo_oidc demo_auth (world_of empty_db) = (Inr resp, w')" "hr_status resp = 302" by blast
  have v: "\<forall>n. valid_utf8 (oi_verifier demo_oidc n)" by (simp add: demo_oidc_def ascii_valid byte_in_def)
  obtain c st verifier where c: "hr_cookies resp = [c]" and h: "\<forall>r st' sd. request_cookie (hq_cookies r) ''auth_state'' = Some (ck_value c) \<longrightarrow>
       (snd (consumeStateCookie demo demo_auth r st') = Inr sd \<longleftrightarrow> st' = st \<and> sd = \<lparr>st_state = st, st_verifier = verifier\<rparr>)"
    and l: "hr_location resp = Some (oi_auth_url demo_oidc st verifier)"
    using login_state_bound [OF demo_gcm v a] by blast
  have "verifier = ''v''"
  proof -
    have "snd (consumeStateCookie demo demo_auth \<lparr>hq_query = [], hq_cookies = [(''auth_state'', ck_value c)]\<rparr> st) =
       Inr \<lparr>st_state = st, st_verifier = verifier\<rparr>" using h by (simp add: request_cookie_def)
    then obtain raw where "decrypt demo (ck_value c) (as_enc_key demo_auth) = Inr raw"
      "state_unmarshal raw = Some \<lparr>st_state = st, st_verifier = verifier\<rparr>"
      by (auto simp: consume_Inr_iff request_cookie_def)
    moreover obtain n ct w1 w2 where "nonce demo ((world_of empty_db)\<lparr>w_tick := 1\<rparr>) = (Inr n, w1)"
      and e: "encrypt demo (state_marshal \<lparr>st_state = n, st_verifier = ''v''\<rparr>) (as_enc_key demo_auth) w1 = (Inr ct, w2)" "ck_value c = ct"
      using a c nonce_total [of demo "(world_of empty_db)\<lparr>w_tick := 1\<rparr>"]
      by (auto simp: Authenticate_def draw_def demo_oidc_def world_of_def monad_simps http_error_def http_redirect_def setCookie_def)
    moreover have "decrypt demo ct (as_enc_key demo_auth) = Inr (state_marshal \<lparr>st_state = n, st_verifier = ''v''\<rparr>)"
      using decrypt_encrypted [OF demo_gcm e(1)] by simp
    moreover have "state_unmarshal (state_marshal \<lparr>st_state = n, st_verifier = ''v''\<rparr>) = Some \<lparr>st_state = n, st_verifier = ''v''\<rparr>"
      using nonce_Inr [OF calculation(3)] by (intro state_unmarshal_marshal) (simp_all add: ascii_valid byte_in_def)
    ultimately show ?thesis by simp
  qed
  then have "snd (consumeStateCookie demo demo_auth \<lparr>hq_query = [], hq_cookies = [(''auth_state'', ck_value c)]\<rparr> st) =
       Inr \<lparr>st_state = st, st_verifier = ''v''\<rparr>" using h by (simp add: request_cookie_def)
  then show ?thesis using a c by auto
qed

theorem callback_needs_state_witness:
  "\<exists>resp w' v raw. Callback demo demo_oidc demo_auth demo_callback legacy_users = (Inr resp, w') \<and>
     request_cookie (hq_cookies demo_callback) ''auth_state'' = Some v \<and> decrypt demo v (as_enc_key demo_auth) = Inr raw"
  using demo_callback_runs callback_needs_state [of demo demo_oidc demo_auth demo_callback legacy_users] by metis

theorem legacy_user_locked_out_witness:
  "\<exists>resp w' c m. Callback demo demo_oidc demo_auth demo_callback legacy_users = (Inr resp, w') \<and>
     c \<in> set (hr_cookies resp) \<and> ck_name c = ''mdrive_session'' \<and>
     fst (HandleCookieAuth demo demo_auth None (ck_value c) legacy_users) = Inl (New KindUnauthenticated m)"
proof -
  obtain resp w' where c: "Callback demo demo_oidc demo_auth demo_callback legacy_users = (Inr resp, w')" "hr_status resp = 302"
    using demo_callback_runs by blast
  have s: "\<forall>n raw t. oi_verify demo_oidc n raw = Inr t \<longrightarrow> it_subject t = ''s''" by (auto simp: demo_oidc_def)
  have n: "as_cookie_name demo_auth = ''mdrive_session''" by (simp add: demo_auth_def)
  have "as_provider_name demo_auth \<noteq> ''zitadel''" "subject_row (w_db legacy_users) (as_provider_name demo_auth) ''s'' = None"
    "valid_utf8 ''s''" by (simp_all add: ascii_valid byte_in_def)
  from legacy_user_locked_out [OF demo_gcm demo_no_faults legacy_users_ok(1) this(1,2) legacy_users_ok(3) s this(3) c]
  show ?thesis using c(1) n by fastforce
qed

end
