(* ===== verification/Utf8.thy ===== *)
theory Utf8
  imports SafeVfs Upload
begin

text \<open>
  Where the text of a path comes from. Valid UTF-8 can be cut at any byte that starts a sequence, so a
  valid path has valid components; and every string the JSON decoder returns is valid, so the path read back from
  an upload token always is. With that, \<open>utf8_path\<close>, which the invariant needs of a path, follows from
  \<open>valid_utf8\<close> of the text a client sends.
\<close>

section \<open>Cutting valid text\<close>

lemma utf8_len_continuation:
  "utf8_len s = n \<Longrightarrow> 0 < i \<Longrightarrow> i < n \<Longrightarrow> byte_in 0x80 0xBF (s ! i)"
  by (cases s; cases i; cases "i - 1"; cases "i - 2")
    (auto simp: utf8_len.simps byte_in_def nth_Cons' split: if_splits list.splits)

lemma valid_utf8_Cons:
  assumes "utf8_len (a # s) = n" "n \<noteq> 0"
  shows "valid_utf8 (a # s) \<longleftrightarrow> valid_utf8 (drop n (a # s))"
  using assms by (cases n) (simp_all add: valid_utf8.simps(2))

lemma utf8_len_append:
  assumes "utf8_len (a # s) = n" "n \<noteq> 0"
  shows "utf8_len (a # s @ y) = n" "drop n (a # s @ y) = drop n (a # s) @ y"
proof -
  have le: "n \<le> length (a # s)" using utf8_len_le [of "a # s"] assms(1) by simp
  have "a # s @ y = take n (a # s) @ (drop n (a # s) @ y)"
    by (metis append.assoc append_Cons append_take_drop_id)
  then show "utf8_len (a # s @ y) = n" using utf8_len_take [OF assms] by metis
  show "drop n (a # s @ y) = drop n (a # s) @ y" using le by (cases n) auto
qed

lemma valid_utf8_append: "valid_utf8 x \<Longrightarrow> valid_utf8 (x @ y) \<longleftrightarrow> valid_utf8 y"
proof (induction "length x" arbitrary: x rule: less_induct)
  case less
  show ?case
  proof (cases x)
    case (Cons a s)
    let ?n = "utf8_len (a # s)"
    have n: "?n \<noteq> 0" using less.prems Cons by (simp add: valid_utf8.simps(2) Let_def)
    have v: "valid_utf8 (drop ?n x)" using less.prems valid_utf8_Cons [OF refl n] Cons by simp
    have "valid_utf8 (x @ y) \<longleftrightarrow> valid_utf8 (drop ?n x @ y)"
      using valid_utf8_Cons [of a "s @ y", OF _ n] utf8_len_append [OF refl n, of y] Cons by simp
    also have "\<dots> \<longleftrightarrow> valid_utf8 y" using less.hyps [OF _ v] n Cons by simp
    finally show ?thesis .
  qed simp
qed

definition starts_fresh :: "string \<Rightarrow> bool" where
  "starts_fresh q \<longleftrightarrow> q = [] \<or> \<not> byte_in 0x80 0xBF (hd q)"

lemma valid_utf8_cut:
  "valid_utf8 (x @ q) \<Longrightarrow> starts_fresh q \<Longrightarrow> valid_utf8 x \<and> valid_utf8 q"
proof (induction "length x" arbitrary: x rule: less_induct)
  case less
  show ?case
  proof (cases x)
    case Nil
    then show ?thesis using less.prems by simp
  next
    case (Cons a s)
    let ?n = "utf8_len (a # s @ q)"
    have n: "?n \<noteq> 0" using less.prems(1) Cons by (simp add: valid_utf8.simps(2) Let_def)
    have le: "?n \<le> length x"
    proof (rule ccontr)
      assume "\<not> ?n \<le> length x"
      then have "byte_in 0x80 0xBF ((x @ q) ! length x)" "q \<noteq> []"
        using utf8_len_continuation [of "x @ q" ?n "length x"] utf8_len_le [of "x @ q"] Cons by auto
      then show False using less.prems(2) by (simp add: starts_fresh_def hd_conv_nth nth_append)
    qed
    have "take ?n (x @ q) = take ?n x" using le by simp
    then have "take ?n (a # s @ q) = take ?n x" using Cons by simp
    then have nx: "utf8_len x = ?n" using utf8_len_take [OF refl n, of "drop ?n x"] by (metis append_take_drop_id)
    have "drop ?n (x @ q) = drop ?n x @ q" using le by simp
    then have "valid_utf8 (drop ?n x @ q)"
      using less.prems(1) valid_utf8_Cons [of a "s @ q", OF refl n] Cons by simp
    moreover have "length (drop ?n x) < length x" using n Cons by simp
    ultimately have "valid_utf8 (drop ?n x) \<and> valid_utf8 q" using less.hyps less.prems(2) by blast
    then show ?thesis using nx n valid_utf8_Cons [of a s] Cons by simp
  qed
qed

section \<open>The components of a valid path\<close>

lemma slash_fresh [simp]: "starts_fresh (CHR ''/'' # s)"
  by (simp add: starts_fresh_def byte_in_def)

lemma join_char_valid: "valid_utf8 (join_char CHR ''/'' ps) \<Longrightarrow> list_all valid_utf8 ps"
proof (induction ps)
  case (Cons p ps)
  show ?case
  proof (cases ps)
    case Nil
    then show ?thesis using Cons.prems by simp
  next
    case c: (Cons q qs)
    have "valid_utf8 (p @ CHR ''/'' # join_char CHR ''/'' ps)" using Cons.prems c by simp
    from valid_utf8_cut [OF this slash_fresh] have v: "valid_utf8 p" "valid_utf8 (CHR ''/'' # join_char CHR ''/'' ps)" by simp_all
    have "valid_utf8 (join_char CHR ''/'' ps)"
      using v(2) valid_utf8_append [of "''/''" "join_char CHR ''/'' ps"] by (simp add: ascii_valid byte_in_def)
    then show ?thesis using v(1) Cons.IH by simp
  qed
qed simp

lemma split_char_valid: "valid_utf8 s \<Longrightarrow> list_all valid_utf8 (split_char CHR ''/'' s)"
  using join_char_valid [of "split_char CHR ''/'' s"] by (simp add: join_split_char)

lemma clean_parts_subset: "set (clean_parts True p) \<subseteq> set (split_char CHR ''/'' p)"
proof -
  have "set (foldl (clean_step True) st ps) \<subseteq> set st \<union> set ps" for st ps
  proof (induction ps arbitrary: st)
    case (Cons p ps)
    have "set (clean_step True st p) \<subseteq> set st \<union> {p}" by (auto split: list.splits)
    then show ?case using Cons [of "clean_step True st p"] by (auto simp del: clean_step.simps)
  qed simp
  from this [of "[]" "split_char CHR ''/'' p"] show ?thesis by (simp add: clean_parts_def)
qed

text \<open>Each sequence that is trimmed is a whole character.\<close>

lemma space_seqs_whole: "q \<in> set space_seqs \<Longrightarrow> valid_utf8 q \<and> starts_fresh q"
proof -
  have "list_all (\<lambda>q. valid_utf8 q \<and> starts_fresh q) space_seqs"
    by (simp add: space_seqs_def upt_rec valid_utf8.simps(2) utf8_len.simps byte_in_def starts_fresh_def Let_def)
  then show "q \<in> set space_seqs \<Longrightarrow> valid_utf8 q \<and> starts_fresh q" by (simp add: list_all_iff)
qed

lemma strip_front_valid: "valid_utf8 s \<Longrightarrow> valid_utf8 (strip_seqs space_seqs n s)"
proof (induction n arbitrary: s)
  case (Suc n)
  show ?case
  proof (cases "find (\<lambda>q. has_prefix s q) space_seqs")
    case None
    then show ?thesis using Suc.prems by simp
  next
    case (Some q)
    then obtain r where r: "q \<in> set space_seqs" "s = q @ r" by (auto simp: has_prefix_iff find_Some_iff)
    have "valid_utf8 r" using Suc.prems space_seqs_whole [OF r(1)] valid_utf8_append r(2) by blast
    then show ?thesis using Suc.IH Some r(2) by simp
  qed
qed simp

lemma strip_back_valid: "valid_utf8 (rev s) \<Longrightarrow> valid_utf8 (rev (strip_seqs (map rev space_seqs) n s))"
proof (induction n arbitrary: s)
  case (Suc n)
  show ?case
  proof (cases "find (\<lambda>q. has_prefix s q) (map rev space_seqs)")
    case None
    then show ?thesis using Suc.prems by simp
  next
    case (Some q)
    then have "q \<in> set (map rev space_seqs)" "has_prefix s q" by (auto simp: find_Some_iff)
    then obtain q' r where r: "q' \<in> set space_seqs" "q = rev q'" "s = q @ r" by (auto simp: has_prefix_iff)
    have "valid_utf8 (rev r)" using Suc.prems space_seqs_whole [OF r(1)] valid_utf8_cut [of "rev r" q'] r(2,3) by simp
    then show ?thesis using Suc.IH Some r(2,3) by simp
  qed
qed simp

lemma trim_space_valid: "valid_utf8 s \<Longrightarrow> valid_utf8 (trim_space s)"
  using strip_back_valid [of "rev (strip_seqs space_seqs (length s) s)"] strip_front_valid by (simp add: trim_space_def Let_def)

lemma valid_utf8_path: "valid_utf8 p \<Longrightarrow> utf8_path p"
proof -
  assume "valid_utf8 p"
  then have "valid_utf8 (''/'' @ trim_space p)"
    by (subst valid_utf8_append) (simp_all add: trim_space_valid ascii_valid byte_in_def)
  then have "list_all valid_utf8 (split_char CHR ''/'' (CHR ''/'' # trim_space p))" by (intro split_char_valid) simp
  then show ?thesis using clean_parts_subset [of "CHR ''/'' # trim_space p"]
    unfolding utf8_path_def splitPath_cleanPath list_all_iff by blast
qed

section \<open>What the JSON decoder returns\<close>

lemma rune_error_valid: "valid_utf8 rune_error"
  by (simp add: rune_error_def valid_utf8.simps(2) utf8_len.simps byte_in_def Let_def)

lemma byte_in_char_of [simp]: "byte_in a b (char_of n) \<longleftrightarrow> a \<le> n mod 256 \<and> n mod 256 \<le> b"
  by (simp add: byte_in_def)

lemma div_digits:
  fixes r :: nat
  shows "r div 4096 = r div 64 div 64" "r div 262144 = r div 4096 div 64"
  by (simp_all add: div_mult2_eq [symmetric])

lemma encode_rune_valid: "valid_utf8 (encode_rune r)"
proof -
  note enc = encode_rune_def valid_utf8.simps(2) utf8_len.simps Let_def char_of_eq_iff take_bit_eq_mod
  consider "r < 0x80" | "0x80 \<le> r" "r < 0x800" | "0x800 \<le> r" "r < 0x10000" "\<not> (0xD800 \<le> r \<and> r \<le> 0xDFFF)"
    | "0xD800 \<le> r \<and> r \<le> 0xDFFF \<or> 0x10FFFF < r" | "0x10000 \<le> r" "r \<le> 0x10FFFF" by linarith
  then show ?thesis
  proof cases
    case 3
    let ?a = "r div 4096" and ?b = "r div 64 mod 64"
    have r: "r div 64 = 64 * ?a + ?b" by (simp add: div_digits)
    have "32 \<le> r div 64" "r div 64 < 1024" "r div 64 < 864 \<or> 896 \<le> r div 64" using 3 by auto
    then have "?a = 0 \<longrightarrow> 32 \<le> ?b" "?a = 13 \<longrightarrow> ?b \<le> 31" "?a < 16" using r by linarith+
    then show ?thesis using 3 by (auto simp: enc)
  next
    case 5
    let ?a = "r div 262144" and ?b = "r div 4096 mod 64"
    have r: "r div 4096 = 64 * ?a + ?b" by (simp add: div_digits)
    have "16 \<le> r div 4096" "r div 4096 < 272" using 5 by auto
    then have "?a = 0 \<longrightarrow> 16 \<le> ?b" "?a = 4 \<longrightarrow> ?b \<le> 15" "?a < 5" using r by linarith+
    then show ?thesis using 5 by (auto simp: enc)
  qed (auto simp: enc rune_error_valid)
qed

lemma json_unq_valid: "json_unq s = Some (x, r) \<Longrightarrow> valid_utf8 x"
proof (induction "length s" arbitrary: s x r rule: less_induct)
  case less
  have app: "valid_utf8 y" if "map_fst_opt (\<lambda>x. p @ x) (json_unq t) = Some (y, q)" "valid_utf8 p" "length t < length s" for p t y q
    using that less.hyps [of t] valid_utf8_append by (cases "json_unq t") auto
  obtain a t where s: "s = a # t" using less.prems by (cases s) auto
  show ?case
  proof (cases "a = CHR 0x5C")
    case True
    then obtain e u where t: "t = e # u" using less.prems s by (cases t) (auto simp: json_unq.simps(2))
    show ?thesis
    proof (cases "e = CHR ''u''")
      case u: True
      then show ?thesis using less.prems s t True
        by (auto simp: json_unq.simps(2) split: option.splits intro: app [OF _ encode_rune_valid])
    next
      case False
      then obtain c where c: "esc_char e = Some c" "map_fst_opt ((#) c) (json_unq u) = Some (x, r)"
        using less.prems s t True by (auto simp: json_unq.simps(2) split: option.splits)
      have "valid_utf8 [c]" using c(1) by (intro ascii_valid) (auto simp: esc_char_def byte_in_def split: if_splits)
      then show ?thesis using app [of "[c]" u] c(2) s t by (simp add: map_fst_opt_single)
    qed
  next
    case False
    let ?n = "utf8_len (a # t)"
    have whole: "valid_utf8 (take ?n (a # t))" if nz: "?n \<noteq> 0"
    proof -
      have l: "?n \<le> length (a # t)" using utf8_len_le [of "a # t"] by simp
      have "utf8_len (take ?n (a # t)) = ?n" using utf8_len_take [OF refl nz, of "[]"] by simp
      moreover obtain m where m: "?n = Suc m" using nz by (cases ?n) auto
      ultimately show ?thesis using l by (simp add: valid_utf8.simps(2))
    qed
    then show ?thesis using less.prems s False
      by (auto simp: json_unq.simps(2) Let_def split: if_splits intro: app [OF _ rune_error_valid] app [OF _ whole])
  qed
qed

fun strings_valid :: "json \<Rightarrow> bool" where
  "strings_valid (JStr s) \<longleftrightarrow> valid_utf8 s"
| "strings_valid (JArr vs) \<longleftrightarrow> (\<forall>v\<in>set vs. strings_valid v)"
| "strings_valid (JObj ms) \<longleftrightarrow> (\<forall>m\<in>set ms. strings_valid (snd m))"
| "strings_valid _ \<longleftrightarrow> True"

lemma parse_strings_valid:
  "pvalue n s = Some (v, r) \<Longrightarrow> strings_valid v"
  "pelems n s = Some (vs, r) \<Longrightarrow> \<forall>v\<in>set vs. strings_valid v"
  "pmembers n s = Some (ms, r) \<Longrightarrow> \<forall>m\<in>set ms. strings_valid (snd m)"
proof (induction n s and n s and n s arbitrary: v r and vs r and ms r rule: pvalue_pelems_pmembers.induct)
  case (2 n s)
  then show ?case
    by (auto simp: pvalue.simps(2) map_fst_opt_def json_unq_valid split: list.splits if_splits option.splits prod.splits)
next
  case (4 n s)
  then show ?case
    by (auto simp: pelems.simps(2) map_fst_opt_def split: list.splits if_splits option.splits prod.splits)
next
  case (6 n s)
  then show ?case
    by (fastforce simp: pmembers.simps(2) map_fst_opt_def split: list.splits if_splits option.splits prod.splits)
qed (simp_all add: pvalue.simps(1) pelems.simps(1) pmembers.simps(1))

lemma json_parse_valid: "json_parse s = Some v \<Longrightarrow> strings_valid v"
  using parse_strings_valid(1) by (auto simp: json_parse_def split: option.splits if_splits prod.splits)

lemma str_field_valid:
  "str_field f acc ms = Some x \<Longrightarrow> valid_utf8 acc \<Longrightarrow> \<forall>m\<in>set ms. strings_valid (snd m) \<Longrightarrow> valid_utf8 x"
  by (induction f acc ms rule: str_field.induct) (auto split: if_splits json.splits)

text \<open>The path of a decoded token.\<close>

lemma DecodePresignMeta_path: "DecodePresignMeta E data = Inr m \<Longrightarrow> utf8_path (pm_path m)"
proof -
  assume "DecodePresignMeta E data = Inr m"
  then obtain ms where f: "meta_fields E ms = Some m" "\<forall>m\<in>set ms. strings_valid (snd m)"
    using json_parse_valid [of data] by (auto simp: DecodePresignMeta_def meta_unmarshal_def split: option.splits json.splits)
  then have "str_field ''path'' [] ms = Some (pm_path m)" by (auto simp: meta_fields_def split: option.splits)
  from str_field_valid [OF this _ f(2)] show ?thesis by (simp add: valid_utf8_path)
qed

lemma valkey_Get_path: "valkey_Get E k i w = (Inr m, w') \<Longrightarrow> utf8_path (pm_path m)"
  using DecodePresignMeta_path by (auto simp: valkey_Get_def monad_simps tryM_iff split: option.splits if_splits)

end
