(* ===== verification/Reach.thy ===== *)
theory Reach
  imports Handlers Login Utf8 SafeSvc
begin

text \<open>
  The invariant at the top: every request a handler serves, the login and the garbage collection jobs keep the stored
  state well formed.
\<close>

section \<open>Uploads keep the invariant\<close>

lemma safe_ResolveParentNodeID:
  "utf8_path p \<Longrightarrow> safe E (ResolveParentNodeID E d p) (\<lambda>q. valid_utf8 (snd q) \<and> snd q \<noteq> [])"
  unfolding ResolveParentNodeID_def
  by (rule safe_bindM [OF safe_GetRootNodeID] safe_seqM [OF safe_cache(3)] safe_bindM [OF safe_resolveParent] safe_cases safe_retM
      | assumption | (clarsimp; fail))+

lemma safe_complete_tx:
  assumes "utf8_path (pm_path meta)"
  shows "safe E (complete_tx E meta d len cs) (\<lambda>_. True)"
proof -
  have l: "safe E (Link E (Some parent) name (Some created)) (\<lambda>_. True)"
    if "node_ok E parent \<and> n_id parent = i" "node_ok E created" "valid_utf8 name" for parent created name i
    using that safe_Link safe_True by blast
  show ?thesis unfolding complete_tx_def Let_def
    by (rule safe_bindM [OF safe_wrapM [OF safe_ResolveParentNodeID [OF assms]]] safe_bindM [OF safe_wrapM [OF safe_GetByID]]
        safe_bindM [OF safe_creates(3)] safe_tryM [OF l] safe_tryM [OF safe_Delete_op] safe_cases safe_failM safe_retM
        | assumption | (clarsimp; fail))+
qed

text \<open>The registry and the store the server is wired with (app.go).\<close>

definition wired :: "env \<Rightarrow> s3_env \<Rightarrow> server \<Rightarrow> bool" where
  "wired E X H \<longleftrightarrow> h_registry H = NewValkeyRegistry E \<and> h_store H = s3_store E X \<and>
     h_recorder H = Some (RecordGarbage E) \<and> h_authorizer H = FGAChecker E"

lemma valkey_registry_keeps:
  "keeps db_of (rg_Put (NewValkeyRegistry E) m ttl)" "keeps db_of (rg_Get (NewValkeyRegistry E) i)"
  "keeps db_of (rg_Delete (NewValkeyRegistry E) i)"
  by (simp_all add: NewValkeyRegistry_def NewValkeyRegistryWithKeyer_def keeps_valkey_ops)

lemma safe_registry:
  "safe E (rg_Put (NewValkeyRegistry E) m ttl) (\<lambda>_. True)" "safe E (rg_Delete (NewValkeyRegistry E) i) (\<lambda>_. True)"
  "safe E (rg_Get (NewValkeyRegistry E) i) (\<lambda>m. utf8_path (pm_path m))"
proof -
  show "safe E (rg_Put (NewValkeyRegistry E) m ttl) (\<lambda>_. True)" "safe E (rg_Delete (NewValkeyRegistry E) i) (\<lambda>_. True)"
    by (rule safe_keeps valkey_registry_keeps)+
  have "safe E (rg_Get (NewValkeyRegistry E) i) (\<lambda>_. True)" by (rule safe_keeps valkey_registry_keeps)+
  then show "safe E (rg_Get (NewValkeyRegistry E) i) (\<lambda>m. utf8_path (pm_path m))"
    using valkey_Get_path by (fastforce simp: safe_def NewValkeyRegistry_def NewValkeyRegistryWithKeyer_def)
qed

lemma safe_store:
  "safe E (os_PresignPut (s3_store E X) b k x) (\<lambda>_. True)" "safe E (os_Exists (s3_store E X) b k) (\<lambda>_. True)"
  "safe E (os_Delete (s3_store E X) b k) (\<lambda>_. True)"
  by (rule safe_keeps s3.keeps_db)+

lemma safe_DriveGetStorage: "safe E (DriveGetStorage E c i) (\<lambda>_. True)"
  unfolding DriveGetStorage_def drepo_get_storage_def Let_def
  by (rule safe_keeps) (intro keeps_intros)

lemma safe_InitiateUpload:
  "safe E (InitiateUpload E c (NewValkeyRegistry E) (s3_store E X) u d p ct n x) (\<lambda>_. True)"
  unfolding InitiateUpload_def Let_def
  by (rule safe_bindM [OF safe_wrapM [OF safe_DriveGetStorage]] safe_cases safe_failM safe_draw_bind
      safe_seqM [OF safe_wrapM [OF safe_registry(1)]] safe_tryM [OF safe_store(1)] safe_tryM [OF safe_registry(2)] safe_retM TrueI)+

lemma safe_CompleteUpload:
  "safe E (CompleteUpload E (NewValkeyRegistry E) (s3_store E X) u d i n cs) (\<lambda>_. True)"
  unfolding CompleteUpload_def
  by (rule safe_bindM [OF safe_wrapM [OF safe_registry(3)]] safe_cases safe_failM safe_bindM [OF safe_wrapM [OF safe_store(2)]]
      safe_bindM [OF safe_with_tx [OF safe_complete_tx]] safe_seqM [OF safe_wrapM [OF safe_registry(2)]] safe_retM TrueI | assumption)+

section \<open>The jobs keep the invariant\<close>

lemma safe_DeleteTombstones: "safe E (DeleteTombstones E ids) (\<lambda>_. True)"
proof -
  have "db_ok E (d\<lparr>t_tombs := filter P (t_tombs d)\<rparr>)" if "db_ok E d" for d P
    using that by (intro db_ok_tombs [OF that]) (auto simp: db_ok_def tombs_ok_def distinct_map_filter list_all_filter)
  then show ?thesis unfolding DeleteTombstones_def
    by (intro safe_cases safe_retM TrueI safe_wrapM safe_seqM [OF safe_draws(5)] safe_get_committed_bind safe_put_committed)
qed

lemma safe_cleaner: "safe E (TombstoneCleaner_Run E X order) (\<lambda>_. True)"
proof -
  have q: "safe E (QueryTombstones E order k) (\<lambda>_. True)" for k
    unfolding QueryTombstones_def by (rule safe_keeps) (intro keeps_intros)
  have p: "safe E (processGroup E X g) (\<lambda>_. True)" for g
    unfolding processGroup_def s3_DeleteObjects_def
    by (rule safe_keeps) (intro keeps_intros FindStorageByBucket_keeps s3_NewClient_keeps)
  show ?thesis unfolding TombstoneCleaner_Run_def clean_group_def
    by (rule safe_bindM [OF safe_wrapM [OF q]] safe_foldM [where Q = "\<lambda>_. True"] safe_tryM [OF p]
        safe_tryM [OF safe_DeleteTombstones] safe_retM TrueI)+
qed

lemma safe_purger: "safe E (DrivePurger_Run E fmt retention) (\<lambda>_. True)"
proof -
  have l: "safe E (ListDeletedForAdmin E a t k) (\<lambda>_. True)" for a t k
    unfolding ListDeletedForAdmin_def FindDeleted_def by (rule safe_keeps) (intro keeps_intros)
  show ?thesis unfolding DrivePurger_Run_def purge_one_def Let_def
    by (rule safe_draw_bind safe_bindM [OF safe_wrapM [OF l]] safe_foldM [where Q = "\<lambda>_. True"] safe_tryM [OF safe_drive_ops(4)]
        safe_retM TrueI)+
qed


lemma safe_scan_page:
  assumes "\<And>k s. safe E (fn k s) (\<lambda>_. True)"
  shows "safe E (scan_page fn ks s) (\<lambda>_. True)"
proof (induction ks arbitrary: s)
  case Nil
  show ?case unfolding scan_page.simps by (rule safe_retM) simp
next
  case (Cons k ks)
  show ?case unfolding scan_page.simps by (rule safe_bindM [OF assms] safe_cases safe_retM TrueI Cons.IH)+
qed

lemma safe_scan_pages:
  assumes "\<And>k s. safe E (fn k s) (\<lambda>_. True)"
  shows "safe E (valkey_scan_pages E pages fn s) (\<lambda>_. True)"
proof (induction pages arbitrary: s)
  case Nil
  show ?case unfolding valkey_scan_pages.simps by (rule safe_retM) simp
next
  case (Cons p ps)
  show ?case unfolding valkey_scan_pages.simps
    by (rule safe_tryM [OF safe_draws(5)] safe_retM TrueI safe_bindM [OF safe_scan_page [OF assms]] safe_cases Cons.IH)+
qed

lemma safe_expire_one:
  "safe E (expire_one E (NewValkeyRegistry E) (Some (s3_store E X)) (Some (RecordGarbage E)) i c) (\<lambda>_. True)"
proof -
  have d: "safe E (upload_DeleteObject (s3_store E X) b k) (\<lambda>_. True)" for b k
    unfolding upload_DeleteObject_def by (rule safe_wrapM safe_store)+
  have o: "safe E (expire_object (Some (s3_store E X)) (Some (RecordGarbage E)) m) (\<lambda>_. True)" for m
    unfolding expire_object_def option.case
    by (rule safe_cases safe_retM TrueI safe_tryM [OF d] safe_tryM [OF safe_RecordGarbage])+
  have x: "safe E (IsExpired E m) (\<lambda>_. True)" for m
    unfolding IsExpired_def by (rule safe_draw_bind safe_retM TrueI)+
  show ?thesis unfolding expire_one_def
    by (rule safe_cases safe_tryM [OF safe_registry(3)] safe_tryM [OF safe_registry(2)] safe_retM TrueI
        safe_bindM [OF x] safe_bindM [OF o])+
qed

text \<open>The expirer as the program runs it.\<close>

definition expirer :: "env \<Rightarrow> s3_env \<Rightarrow> string list list \<Rightarrow> unit W" where
  "expirer E X pages = UploadExpirer_Run E (NewValkeyRegistry E) (Some (valkey_Scan E DefaultKey pages))
     (Some (s3_store E X)) (Some (RecordGarbage E))"

lemma safe_expirer: "safe E (expirer E X pages) (\<lambda>_. True)"
proof -
  have s: "safe E (valkey_Scan E DefaultKey pages fn c) (\<lambda>_. True)" if "\<And>k s. safe E (fn k s) (\<lambda>_. True)" for fn c
    unfolding valkey_Scan_def by (rule safe_cases safe_retM TrueI safe_scan_pages that)+
  show ?thesis unfolding expirer_def UploadExpirer_Run_def option.case
    by (rule safe_bindM [OF s] safe_expire_one safe_cases safe_failM safe_retM TrueI)+
qed

section \<open>The login keeps the invariant\<close>

lemma safe_draw: "safe E (bindM (draw g) f) Q" if "\<And>x. safe E (f x) Q"
  by (rule safe_bindM [OF safe_draws(1)]) (rule that)

lemma safe_findOrCreateUser: "safe E (findOrCreateUser E A sub name email) (\<lambda>_. True)"
proof -
  have l: "safe E (lookup_user E prov s) (\<lambda>_. True)" for prov s
    unfolding lookup_user_def UserGetByProviderID_def user_get_by_provider_id_def user_query_def
    by (rule safe_keeps) (intro keeps_intros)
  show ?thesis unfolding findOrCreateUser_def
    by (rule safe_bindM [OF l] safe_cases safe_retM TrueI l safe_UpsertFromOIDC safe_bindM)+
qed

lemma keeps_rand [keeps_intros]: "keeps db_of (rand_bytes E n)"
  by (auto simp: keeps_def rand_bytes_def db_of_def split: option.splits)

lemma safe_callback_login: "safe E (callback_login E J A code sd) (\<lambda>_. True)"
proof -
  have r: "safe E (resolveIdentity E J t tok) (\<lambda>_. True)" for t tok
    unfolding resolveIdentity_def
    by (rule safe_wrap_lift_bind safe_cases safe_retM TrueI safe_draw safe_failM)+
  have w: "safe E (writeSessionCookie E A d) (\<lambda>_. True)" for d
    unfolding writeSessionCookie_def encrypt_def Let_def
    by (rule safe_keeps) (intro keeps_intros)
  have x: "safe E (bindM (draw g) liftM) (\<lambda>_. True)" for g :: "nat \<Rightarrow> gerror + 'a"
    by (rule safe_draw safe_liftM TrueI)+
  show ?thesis unfolding callback_login_def
    by (rule safe_bindM [OF safe_wrapM [OF x]] safe_cases safe_failM safe_bindM [OF r] safe_bindM [OF safe_findOrCreateUser]
        safe_draw_bind w)+
qed

lemma safe_Callback: "safe E (Callback E J A rq) (\<lambda>_. True)"
  unfolding Callback_def Let_def
  by (rule safe_cases safe_retM TrueI safe_tryM [OF safe_callback_login])+

section \<open>The requests keep the invariant\<close>

text \<open>The paths a request creates entries at are valid UTF-8.\<close>

fun sends_utf8 :: "request \<Rightarrow> bool" where
  "sends_utf8 (ReqMkdir d p) \<longleftrightarrow> valid_utf8 p"
| "sends_utf8 (ReqTouch d p) \<longleftrightarrow> valid_utf8 p"
| "sends_utf8 (ReqMv d ps q) \<longleftrightarrow> valid_utf8 q \<and> list_all valid_utf8 ps"
| "sends_utf8 (ReqWrite d p x) \<longleftrightarrow> valid_utf8 p"
| "sends_utf8 (ReqWriteLarge d p b k t s n) \<longleftrightarrow> valid_utf8 p"
| "sends_utf8 (ReqSymlink d t p) \<longleftrightarrow> valid_utf8 p"
| "sends_utf8 (ReqHardlink d s p) \<longleftrightarrow> valid_utf8 p"
| "sends_utf8 (ReqMount d p s) \<longleftrightarrow> valid_utf8 p"
| "sends_utf8 _ \<longleftrightarrow> True"

lemma safe_voidM: "safe E m Q \<Longrightarrow> safe E (voidM m) (\<lambda>_. True)"
  unfolding voidM_def by (rule safe_bindM [of _ _ Q] safe_retM TrueI | assumption)+

lemma safe_perm: "h_authorizer H = FGAChecker E \<Longrightarrow> safe E (requirePerm H c a d) (\<lambda>_. True)"
  unfolding requirePerm_def FGAChecker_def fga_Check_def
  by (rule safe_keeps) (simp, intro keeps_intros)

lemma safe_guarded:
  "h_authorizer H = FGAChecker E \<Longrightarrow> safe E m Q \<Longrightarrow> safe E (seqM (requirePerm H c a d) m) Q"
  by (rule safe_seqM [OF safe_perm])


text \<open>The body behind the permission check of each request.\<close>

lemmas safe_bodies = safe_voidM [OF safe_Mkdir] safe_voidM [OF safe_Touch] safe_voidM [OF safe_Symlink] safe_voidM [OF safe_Hardlink]
  safe_Write safe_WriteLarge safe_Mount safe_Unmount safe_Rm safe_Mv safe_drive_ops(2)

lemma safe_serve:
  assumes w: "wired E X H" and u: "uuid_codec E" and q: "sends_utf8 q"
  shows "safe E (serve E H c q) (\<lambda>_. True)"
proof -
  have H: "h_authorizer H = FGAChecker E" "h_registry H = NewValkeyRegistry E" "h_store H = s3_store E X"
    "h_recorder H = Some (RecordGarbage E)" using w by (simp_all add: wired_def)
  note g = safe_guarded [OF H(1)]
  have url: "safe E (parsed_url H i) (\<lambda>_. True)" for i
    unfolding parsed_url_def by (rule safe_cases safe_failM safe_retM TrueI)+
  have r: "recorder_safe E (h_recorder H)" using recorder_safe_RecordGarbage(1) H(4) by simp
  show ?thesis
  proof (cases q)
    case (ReqMv d ps p)
    then have "\<forall>p\<in>set ps. utf8_path p" "utf8_path p" using q by (simp_all add: list_all_iff valid_utf8_path)
    then show ?thesis unfolding ReqMv serve.simps handle_Mv_def by (intro g safe_Mv u r)
  next
    case (ReqRm d ps rec)
    show ?thesis unfolding ReqRm serve.simps handle_Rm_def by (intro g safe_Rm r)
  next
    case (ReqCreateDrive n x s)
    show ?thesis unfolding ReqCreateDrive serve.simps handle_CreateDrive_def
      by (rule safe_voidM [of _ _ "\<lambda>_. True"] safe_bindM [OF safe_CreateDrive [OF u]] safe_cases safe_retM TrueI)+
  next
    case (ReqUpdateDrive d n x)
    show ?thesis unfolding ReqUpdateDrive serve.simps handle_UpdateDrive_def
      by (rule safe_voidM [of _ _ "\<lambda>_. True"] g safe_bindM [OF safe_drive_ops(1)] safe_retM TrueI)+
  next
    case (ReqRestoreDrive d)
    show ?thesis unfolding ReqRestoreDrive serve.simps handle_RestoreDrive_def
      by (rule safe_voidM [of _ _ "\<lambda>_. True"] safe_cases safe_failM safe_bindM [OF safe_drive_ops(3)] safe_retM TrueI)+
  next
    case (ReqInitiateUpload d p t n)
    show ?thesis unfolding ReqInitiateUpload serve.simps handle_InitiateUpload_def H(2,3)
      by (rule safe_voidM [of _ _ "\<lambda>_. True"] g safe_bindM [OF safe_InitiateUpload] url)+
  next
    case (ReqCompleteUpload d i n s)
    show ?thesis unfolding ReqCompleteUpload serve.simps handle_CompleteUpload_def H(2,3)
      by (rule safe_voidM [of _ _ "\<lambda>_. True"] g safe_bindM [OF safe_CompleteUpload] safe_retM TrueI)+
  next
    case (ReqUpsertUser n e p i)
    show ?thesis unfolding ReqUpsertUser serve.simps handle_UpsertUser_def
      by (rule safe_voidM [OF safe_UpsertFromOIDC])
  qed (use q in \<open>simp_all only: serve.simps sends_utf8.simps handle_Mkdir_def handle_Touch_def handle_Symlink_def handle_Hardlink_def
      handle_Write_def handle_WriteLarge_def Let_def handle_Mount_def handle_Unmount_def handle_DeleteDrive_def\<close>,
      (rule g safe_bodies u valid_utf8_path | assumption)+)
qed

end
