(* ===== verification/Http.thy ===== *)
theory Http
  imports Login
begin

text \<open>
  What stands between a connection and the handlers: the CSRF filter
  (internal/app/apiserver/middleware/csrf.go), the middlewares that turn errors and panics into API errors
  (error.go), the fallback \<open>Handler.NewError\<close>, and the security handler used without authentication. ogen's
  server, the router and CORS are third-party.
\<close>

section \<open>error.go\<close>

fun kindToCode :: "kind \<Rightarrow> string option" where
  "kindToCode KindCanceled = Some ''canceled''"
| "kindToCode KindInvalidArgument = Some ''invalid_argument''"
| "kindToCode KindDeadlineExceeded = Some ''deadline_exceeded''"
| "kindToCode KindNotFound = Some ''not_found''"
| "kindToCode KindAlreadyExists = Some ''already_exists''"
| "kindToCode KindPermissionDenied = Some ''permission_denied''"
| "kindToCode KindResourceExhausted = Some ''resource_exhausted''"
| "kindToCode KindFailedPrecondition = Some ''failed_precondition''"
| "kindToCode KindAborted = Some ''aborted''"
| "kindToCode KindOutOfRange = Some ''out_of_range''"
| "kindToCode KindUnimplemented = Some ''unimplemented''"
| "kindToCode KindInternal = Some ''internal''"
| "kindToCode KindUnavailable = Some ''unavailable''"
| "kindToCode KindDataLoss = Some ''data_loss''"
| "kindToCode KindUnauthenticated = Some ''unauthenticated''"
| "kindToCode KindRevisionConflict = Some ''revision_conflict''"
| "kindToCode KindUnknown = None"

text \<open>\<open>api.ErrorStatusCode\<close>, which is an error itself; its text prints the fields.\<close>

record error_status =
  es_status :: nat
  es_code :: string
  es_message :: string

definition error_status_text :: "error_status \<Rightarrow> string" where
  "error_status_text s = ''code '' @ dec_nat (es_status s) @ '': '' @ [CHR 0x7B] @ ''Code:'' @ es_code s @ '' Message:'' @
     es_message s @ [CHR 0x7D]"

definition KindToCode :: "gerror option \<Rightarrow> error_status option" where
  "KindToCode err =
     (case err of
        None \<Rightarrow> None
      | Some e \<Rightarrow>
          (let kind = KindOf (Some e);
               code = (case kindToCode kind of Some c \<Rightarrow> c | None \<Rightarrow> ''internal'');
               msg = (case as_errorx e of Some de \<Rightarrow> kind_string (err_kind de) @ '': '' @ error_text de | None \<Rightarrow> error_text e)
           in Some \<lparr>es_status = kind_status kind, es_code = code, es_message = msg\<rparr>))"

text \<open>
  The errors of a handler chain: one of the program, an \<open>ErrorStatusCode\<close>, or one wrapped with \<open>fmt.Errorf\<close>
  and \<open>%w\<close>. What \<open>KindToCode\<close> sees of an \<open>ErrorStatusCode\<close> is an error without a kind.
\<close>

datatype chain_error = AppError gerror | StatusError error_status | WrappedStatus error_status

fun chain_gerror :: "chain_error \<Rightarrow> gerror" where
  "chain_gerror (AppError e) = e"
| "chain_gerror (StatusError s) = Foreign (error_status_text s) None"
| "chain_gerror (WrappedStatus s) = Foreign (''apiserver: '' @ error_status_text s) (Some (Foreign (error_status_text s) None))"

text \<open>A call of the next handler returns a response and maybe an error, or panics.\<close>

datatype 'a outcome = Panicked | Returned 'a "chain_error option"

fun ErrorMiddleware :: "'a outcome \<Rightarrow> 'a outcome" where
  "ErrorMiddleware Panicked = Panicked"
| "ErrorMiddleware (Returned resp None) = Returned resp None"
| "ErrorMiddleware (Returned resp (Some err)) =
     (case KindToCode (Some (chain_gerror err)) of
        None \<Rightarrow> Returned resp None
      | Some esc \<Rightarrow> Returned resp (Some (WrappedStatus esc)))"

text \<open>\<open>zero\<close> is the zero value of the response.\<close>

fun PanicMiddleware :: "'a \<Rightarrow> 'a outcome \<Rightarrow> 'a outcome" where
  "PanicMiddleware zero Panicked =
     Returned zero (map_option StatusError (KindToCode (Some (New KindUnavailable ''internal panic''))))"
| "PanicMiddleware zero (Returned resp err) = Returned resp err"

text \<open>The chain \<open>NewServer\<close> builds, and the status code ogen finds in the chain of its error.\<close>

definition api_chain :: "'a \<Rightarrow> 'a outcome \<Rightarrow> 'a outcome" where
  "api_chain zero next = ErrorMiddleware (PanicMiddleware zero next)"

fun sent_status :: "'a outcome \<Rightarrow> error_status option" where
  "sent_status (Returned resp (Some (StatusError s))) = Some s"
| "sent_status (Returned resp (Some (WrappedStatus s))) = Some s"
| "sent_status _ = None"

section \<open>handler.go\<close>

text \<open>
  An error that bypasses the chain: its text and, when it contains a \<open>SecurityError\<close>, that one's code and the
  error inside.
\<close>

record fallback_error =
  fe_text :: string
  fe_security :: "(nat \<times> gerror option) option"

definition NewError :: "fallback_error \<Rightarrow> error_status option" where
  "NewError err =
     (case fe_security err of
        Some (code, inner) \<Rightarrow>
          (case inner of
             Some e \<Rightarrow>
               if as_errorx e \<noteq> None then KindToCode (Some e)
               else Some \<lparr>es_status = code, es_code = ''unauthenticated'', es_message = fe_text err\<rparr>
           | None \<Rightarrow> Some \<lparr>es_status = code, es_code = ''unauthenticated'', es_message = fe_text err\<rparr>)
      | None \<Rightarrow> Some \<lparr>es_status = 500, es_code = ''internal'', es_message = fe_text err\<rparr>)"

section \<open>security.go\<close>

definition AnonSecurity :: "ctx \<Rightarrow> ctx" where
  "AnonSecurity c = c"

section \<open>csrf.go\<close>

text \<open>
  \<open>url.Parse\<close>, as the scheme and the host it returns unless it fails, and \<open>strings.ToLower\<close> are parameters.
\<close>

record urls =
  url_Parse :: "string \<Rightarrow> (string \<times> string) option"
  to_lower :: "string \<Rightarrow> string"

definition safeMethods :: "string set" where
  "safeMethods = {''GET'', ''HEAD'', ''OPTIONS'', ''TRACE''}"

definition normalizeOrigin :: "urls \<Rightarrow> string \<Rightarrow> string" where
  "normalizeOrigin U raw =
     (if raw = [] then []
      else (case url_Parse U raw of
              None \<Rightarrow> []
            | Some (scheme, host) \<Rightarrow>
                if scheme = [] \<or> host = [] then [] else to_lower U scheme @ ''://'' @ to_lower U host))"

definition refererOrigin :: "urls \<Rightarrow> string \<Rightarrow> string" where
  "refererOrigin U referer =
     (if referer = [] then []
      else (case url_Parse U referer of
              None \<Rightarrow> []
            | Some (scheme, host) \<Rightarrow> if scheme = [] \<or> host = [] then [] else scheme @ ''://'' @ host))"

definition csrfReject :: "string \<Rightarrow> http_response" where
  "csrfReject reason = \<lparr>hr_status = 403, hr_location = None,
     hr_body = json_print (JObj [(''error'', JStr (''csrf: '' @ reason))]) @ [CHR 0x0A], hr_cookies = []\<rparr>"

text \<open>The request's method and its headers Origin and Referer; \<open>None\<close> hands the request on.\<close>

definition CSRFMiddleware :: "urls \<Rightarrow> string list \<Rightarrow> string \<Rightarrow> string \<Rightarrow> string \<Rightarrow> http_response option" where
  "CSRFMiddleware U allowedOrigins method originHeader refererHeader =
     (let allowed = set (map (normalizeOrigin U) allowedOrigins) in
      if method \<in> safeMethods then None
      else
        let origin = (if originHeader = [] then refererOrigin U refererHeader else originHeader) in
        if origin = [] then Some (csrfReject ''missing origin'')
        else if normalizeOrigin U origin \<notin> allowed then Some (csrfReject ''origin not allowed'')
        else None)"

section \<open>Properties\<close>

text \<open>
  The scheme and the host of a URL with both, in lower case.
\<close>

definition origin_of :: "urls \<Rightarrow> string \<Rightarrow> (string \<times> string) option" where
  "origin_of U raw =
     (if raw = [] then None
      else case url_Parse U raw of
        Some (s, h) \<Rightarrow> if s \<noteq> [] \<and> h \<noteq> [] then Some (to_lower U s, to_lower U h) else None
      | None \<Rightarrow> None)"

lemma normalizeOrigin_of: "normalizeOrigin U x = (case origin_of U x of None \<Rightarrow> [] | Some (s, h) \<Rightarrow> s @ ''://'' @ h)"
  by (auto simp: normalizeOrigin_def origin_of_def split: option.splits)

lemma normalizeOrigin_same:
  "normalizeOrigin U x = normalizeOrigin U y \<longleftrightarrow>
     (\<exists>s h s' h'. origin_of U x = Some (s, h) \<and> origin_of U y = Some (s', h') \<and> s @ ''://'' @ h = s' @ ''://'' @ h') \<or>
     (origin_of U x = None \<and> origin_of U y = None)"
  by (auto simp: normalizeOrigin_of split: option.splits)

text \<open>
  C36. The CSRF filter, for every list of allowed origins. A request that may change state names the
  origin of its Origin header, or else of its Referer. It passes exactly when that origin and an allowed
  one have a scheme and a host that, in lower case, are written the same, or when neither it nor some
  allowed entry has a scheme and a host. So an entry such as the asterisk lets no origin through that has both, and
  lets every origin through that has not; and without any origin the request is refused.
\<close>

theorem csrf_filter:
  assumes m: "verb \<notin> {''GET'', ''HEAD'', ''OPTIONS'', ''TRACE''}"
    and o: "(oh \<noteq> [] \<and> origin = oh) \<or>
      (oh = [] \<and> rh \<noteq> [] \<and> url_Parse U rh = Some (s0, h0) \<and> s0 \<noteq> [] \<and> h0 \<noteq> [] \<and> origin = s0 @ ''://'' @ h0)"
  shows "CSRFMiddleware U allowed verb oh rh =
      (if \<exists>a\<in>set allowed.
        (\<exists>s h s' h'. origin_of U origin = Some (s, h) \<and> origin_of U a = Some (s', h') \<and> s @ ''://'' @ h = s' @ ''://'' @ h') \<or>
        (origin_of U origin = None \<and> origin_of U a = None)
       then None else Some (csrfReject ''origin not allowed'')) \<and>
    (origin_of U rh' = None \<longrightarrow> CSRFMiddleware U allowed verb [] rh' = Some (csrfReject ''missing origin'')) \<and>
    (verb' \<in> {''GET'', ''HEAD'', ''OPTIONS'', ''TRACE''} \<longrightarrow> CSRFMiddleware U allowed verb' oh' rh' = None)"
proof -
  have m': "verb \<notin> safeMethods" using m by (simp add: safeMethods_def)
  have o': "origin = (if oh = [] then refererOrigin U rh else oh)" "origin \<noteq> []"
    using o by (auto simp: refererOrigin_def)
  have pass: "CSRFMiddleware U allowed verb oh rh =
      (if normalizeOrigin U origin \<in> normalizeOrigin U ` set allowed then None else Some (csrfReject ''origin not allowed''))"
    using m' o' by (simp add: CSRFMiddleware_def Let_def)
  have missing: "CSRFMiddleware U allowed verb [] rh' = Some (csrfReject ''missing origin'')" if "origin_of U rh' = None"
    using m' that by (auto simp: CSRFMiddleware_def refererOrigin_def origin_of_def split: option.splits if_splits)
  have safe: "CSRFMiddleware U allowed verb' oh' rh' = None" if "verb' \<in> {''GET'', ''HEAD'', ''OPTIONS'', ''TRACE''}"
    using that by (auto simp: CSRFMiddleware_def safeMethods_def)
  show ?thesis unfolding pass image_iff normalizeOrigin_same by (intro conjI impI refl missing safe)
qed

definition demo_urls :: urls where
  "demo_urls = \<lparr>url_Parse = (\<lambda>u. if u = ''https://a.b'' then Some (''https'', ''a.b'')
       else if u = ''https://c'' then Some (''https'', ''c'') else if u = ''*'' then Some ([], []) else None),
     to_lower = (\<lambda>s. s)\<rparr>"

theorem csrf_filter_witness:
  "CSRFMiddleware demo_urls [''https://a.b'', ''*''] ''POST'' ''https://a.b'' [] = None \<and>
   CSRFMiddleware demo_urls [''https://a.b'', ''*''] ''POST'' [] ''https://c'' = Some (csrfReject ''origin not allowed'') \<and>
   CSRFMiddleware demo_urls [''https://a.b'', ''*''] ''POST'' ''evil'' [] = None"
proof -
  have n: "origin_of demo_urls ''*'' = None" "origin_of demo_urls ''https://a.b'' = Some (''https'', ''a.b'')"
    "origin_of demo_urls ''https://c'' = Some (''https'', ''c'')" "origin_of demo_urls ''evil'' = None"
    "url_Parse demo_urls ''https://c'' = Some (''https'', ''c'')"
    by (simp_all add: origin_of_def demo_urls_def)
  note f = csrf_filter [where U = demo_urls and verb = "''POST''" and allowed = "[''https://a.b'', ''*'']"]
  show ?thesis using f [of "''https://a.b''" "''https://a.b''" "[]"] f [of "[]" "''https://c''" "''https://c''" "''https''" "''c''"]
      f [of "''evil''" "''evil''" "[]"] n by simp
qed

text \<open>
  The answers of the API, kind by kind: the statuses of the comments in internal/errorx/errorx.go and the codes
  of the document, which are the names of the kinds, except that the unknown is internal to a client.
\<close>

definition told :: "(kind \<times> nat \<times> string \<times> string) list" where
  "told =
    [(KindUnknown, 500, ''internal'', ''unknown''), (KindInternal, 500, ''internal'', ''internal''),
     (KindCanceled, 499, ''canceled'', ''canceled''), (KindInvalidArgument, 400, ''invalid_argument'', ''invalid_argument''),
     (KindDeadlineExceeded, 504, ''deadline_exceeded'', ''deadline_exceeded''), (KindNotFound, 404, ''not_found'', ''not_found''),
     (KindAlreadyExists, 409, ''already_exists'', ''already_exists''),
     (KindPermissionDenied, 403, ''permission_denied'', ''permission_denied''),
     (KindResourceExhausted, 429, ''resource_exhausted'', ''resource_exhausted''),
     (KindFailedPrecondition, 412, ''failed_precondition'', ''failed_precondition''),
     (KindAborted, 409, ''aborted'', ''aborted''), (KindOutOfRange, 400, ''out_of_range'', ''out_of_range''),
     (KindUnimplemented, 501, ''unimplemented'', ''unimplemented''), (KindUnavailable, 503, ''unavailable'', ''unavailable''),
     (KindDataLoss, 500, ''data_loss'', ''data_loss''), (KindUnauthenticated, 401, ''unauthenticated'', ''unauthenticated''),
     (KindRevisionConflict, 409, ''revision_conflict'', ''revision_conflict'')]"

lemma told_kind: "\<exists>status code name. (k, status, code, name) \<in> set told"
  by (cases k) (auto simp: told_def)

lemma told_answer:
  assumes "(k, status, code, name) \<in> set told"
  shows "kind_status k = status" "(case kindToCode k of Some c \<Rightarrow> c | None \<Rightarrow> ''internal'') = code" "kind_string k = name"
  using assms by (cases k; simp add: told_def)+

text \<open>An error in the contexts added on its way up, the last one first.\<close>

lemma contexts_error:
  "\<exists>m c. foldr (wrap_with []) ms (Errx k m0 c0) = Errx k m c \<and>
     error_text (Errx k m c) = foldr (\<lambda>m t. m @ '': '' @ t) ms (error_text (Errx k m0 c0))"
proof (induction ms)
  case (Cons m ms)
  then obtain m1 c where "foldr (wrap_with []) ms (Errx k m0 c0) = Errx k m1 c"
    "error_text (Errx k m1 c) = foldr (\<lambda>m t. m @ '': '' @ t) ms (error_text (Errx k m0 c0))" by blast
  then show ?case using wrap_with_eq [of "[]" m "Errx k m1 c"] by simp
qed simp

text \<open>
  C37. What a client is told. An error made with a kind, or given one by \<open>Wrap\<close>, is answered with the status
  and the code of that kind, whatever context is added on the way up, and the message is the kind's name
  with all the contexts; the same status and code when \<open>fmt.Errorf\<close> wraps it. An error of a driver, without a kind, is
  answered 500 and internal. A panic is answered 500 and internal, not with the 503 of the error
  \<open>PanicMiddleware\<close> makes, because \<open>ErrorMiddleware\<close> runs around it and finds no kind in that error.
\<close>

theorem error_answers:
  assumes k: "(k, status, code, name) \<in> set told" and e: "e = New k m \<or> e = wrap_with [k] m c"
  shows "sent_status (api_chain zero (Returned r (Some (AppError (foldr (wrap_with []) ms e))))) =
      Some \<lparr>es_status = status, es_code = code,
        es_message = name @ '': '' @ foldr (\<lambda>m t. m @ '': '' @ t) ms (error_text e)\<rparr> \<and>
    (\<exists>msg. sent_status (api_chain zero (Returned r (Some (AppError (Foreign t (Some (foldr (wrap_with []) ms e))))))) =
      Some \<lparr>es_status = status, es_code = code, es_message = msg\<rparr>) \<and>
    (\<exists>msg. sent_status (api_chain zero (Returned r (Some (AppError (foldr (wrap_with []) ms (Foreign t None)))))) =
      Some \<lparr>es_status = 500, es_code = ''internal'', es_message = msg\<rparr>) \<and>
    (\<exists>msg. sent_status (api_chain zero Panicked) = Some \<lparr>es_status = 500, es_code = ''internal'', es_message = msg\<rparr>) \<and>
    (\<exists>status' code' name'. (k', status', code', name') \<in> set told)"
proof -
  obtain c0 where "e = Errx k m c0" using e by (auto simp: New_def wrap_with_eq)
  then obtain m1 c1 where x: "foldr (wrap_with []) ms e = Errx k m1 c1"
    "error_text (Errx k m1 c1) = foldr (\<lambda>m t. m @ '': '' @ t) ms (error_text e)"
    using contexts_error [of ms k m c0] by blast
  have f: "KindOf_err (foldr (wrap_with []) ms (Foreign t None)) = KindUnknown" by (induction ms) simp_all
  show ?thesis unfolding x(1) using told_answer [OF k] x(2) f told_kind [of k']
    by (simp add: api_chain_def KindToCode_def KindOf_def Let_def)
qed

theorem error_answers_witness:
  "sent_status (api_chain () (Returned () (Some (AppError (wrap_with [] ''vfs: mkdir'' (New KindNotFound ''node'')))))) =
     Some \<lparr>es_status = 404, es_code = ''not_found'', es_message = ''not_found: vfs: mkdir: node''\<rparr>"
proof -
  have "(KindNotFound, 404, ''not_found'', ''not_found'') \<in> set told" by (simp add: told_def)
  from error_answers [OF this, of "New KindNotFound ''node''" "''node''" "New KindNotFound ''node''" "()" "()" "[''vfs: mkdir'']"]
  show ?thesis by (simp add: New_def)
qed

end
