(* ===== verification/Boot.thy ===== *)
theory Boot
  imports Reach Http
begin

text \<open>
  How the program starts: the configuration and its validation (internal/config/config.go), the wiring of the
  components (internal/app/app.go), the choices of \<open>NewServer\<close>, and the levels of internal/logx. Reading the
  configuration file with viper is third-party; the components themselves are those of the other theories.
\<close>

section \<open>config.go\<close>

record cookie_config =
  kc_name :: string
  kc_domain :: string
  kc_secure :: bool
  kc_same_site :: string

record database_config =
  dc_host :: string
  dc_port :: int
  dc_user :: string
  dc_password :: string
  dc_name :: string
  dc_sslmode :: string

record storage_settings =
  sg_region :: string
  sg_endpoint :: string
  sg_bucket :: string
  sg_access_key :: string
  sg_secret_key :: string
  sg_use_path_style :: bool
  sg_presign_ttl :: int

record auth_settings =
  at_provider :: string
  at_issuer :: string
  at_client_id :: string
  at_session_ttl :: int
  at_redirect_uri :: string
  at_post_login_url :: string
  at_post_logout_url :: string
  at_encryption_key :: string
  at_scopes :: "string list"

text \<open>The fields the program reads; \<open>cf_openfga\<close> has no timeout of its own.\<close>

record config =
  cf_env :: string
  cf_log_level :: string
  cf_cookie :: cookie_config
  cf_allowed_origins :: "string list"
  cf_database :: database_config
  cf_storage :: storage_settings
  cf_master_key :: string
  cf_valkey_addrs :: "string list"
  cf_valkey_db :: int
  cf_auth :: auth_settings
  cf_openfga :: fga_config

text \<open>The values of \<open>http.SameSite\<close>: Lax 2, Strict 3, None 4. \<open>lower\<close> is \<open>strings.ToLower\<close>.\<close>

definition SameSiteMode :: "(string \<Rightarrow> string) \<Rightarrow> cookie_config \<Rightarrow> nat" where
  "SameSiteMode lower c =
     (let s = lower (kc_same_site c) in
      if s = ''strict'' then 3 else if s = ''lax'' \<or> s = [] then 2 else if s = ''none'' then 4 else 2)"

definition DSN :: "database_config \<Rightarrow> string" where
  "DSN c = join_char CHR '' ''
     [''host='' @ dc_host c, ''port='' @ itoa_int (dc_port c), ''user='' @ dc_user c, ''password='' @ dc_password c,
      ''dbname='' @ dc_name c, ''sslmode='' @ dc_sslmode c]"

definition isValidAESKey :: "string \<Rightarrow> bool" where
  "isValidAESKey s \<longleftrightarrow> length s \<in> {16, 24, 32}"

definition errProductionMasterKeyRequired :: gerror where
  "errProductionMasterKeyRequired = Foreign ''config: crypto.master_key is required in production'' None"

definition errProductionOpenFGARequired :: gerror where
  "errProductionOpenFGARequired = Foreign ''config: openfga.api_url is required in production'' None"

definition errProductionEncryptionKeySize :: gerror where
  "errProductionEncryptionKeySize = Foreign ''config: auth.encryption_key must be 16, 24, or 32 bytes for AES-GCM'' None"

definition Validate :: "config \<Rightarrow> string \<Rightarrow> gerror option" where
  "Validate c env0 =
     (if env0 \<noteq> ''development'' then
        (if cf_master_key c = [] then Some errProductionMasterKeyRequired
         else if fc_api_url (cf_openfga c) = [] then Some errProductionOpenFGARequired
         else if fc_mode (cf_openfga c) = ''client_credentials'' \<and> fc_client_id (cf_openfga c) = []
         then Some (New KindInvalidArgument
                ''config: openfga.client_id is required in production when auth_mode=client_credentials'')
         else if at_encryption_key (cf_auth c) \<noteq> [] \<and> \<not> isValidAESKey (at_encryption_key (cf_auth c))
         then Some errProductionEncryptionKeySize
         else None)
      else None)"

section \<open>app.go\<close>

definition newInfra :: "env \<Rightarrow> (string \<Rightarrow> gerror option) \<Rightarrow> config \<Rightarrow> unit W" where
  "newInfra E sql_Open cfg =
     (case sql_Open (DSN (cf_database cfg)) of
        Some e \<Rightarrow> failM e
      | None \<Rightarrow>
          seqM (io E)
            (if cf_env cfg = ''development'' then tryM (io E) (\<lambda>_. retM ()) (\<lambda>_. retM ()) else retM ()))"

definition newCrypto :: "config \<Rightarrow> gerror + cipher" where
  "newCrypto cfg =
     (if cf_master_key cfg = [] then
        (if cf_env cfg = ''production''
         then Inl (New KindInvalidArgument
                ''crypto: master key required in production (set CRYPTO_MASTER_KEY or crypto.master_key)'')
         else Inr NoOp)
      else (case NewAESGCM (cf_master_key cfg) of
              Inl e \<Rightarrow> Inl (wrap_with [] ''crypto: initialize aesgcm'' e)
            | Inr c \<Rightarrow> Inr c))"

definition newPerm :: "env \<Rightarrow> fga_sdk \<Rightarrow> config \<Rightarrow> fga_client W" where
  "newPerm E K cfg =
     (if fc_api_url (cf_openfga cfg) = []
      then failM (New KindInvalidArgument ''openfga: api_url is required (set OPENFGA_APIURL or openfga.api_url)'')
      else wrapM [] (''openfga: initialize (api_url='' @ fc_api_url (cf_openfga cfg) @ '')'') (NewFGAChecker E K ((cf_openfga cfg)\<lparr>fc_timeout := 0\<rparr>)))"

definition newAuth :: "env \<Rightarrow> (string \<Rightarrow> string) \<Rightarrow> config \<Rightarrow> auth_service option W" where
  "newAuth E lower cfg =
     (let a = cf_auth cfg; k = cf_cookie cfg in
      if at_issuer a = [] \<or> at_client_id a = [] then retM None
      else if at_encryption_key a = []
      then failM (New KindInvalidArgument ''auth: encryption_key required when auth.issuer is set'')
      else bindM (auth_New E \<lparr>ac_issuer = at_issuer a, ac_provider = at_provider a, ac_encryption_key = at_encryption_key a,
             ac_cookie_name = kc_name k, ac_cookie_domain = kc_domain k, ac_cookie_same_site = SameSiteMode lower k,
             ac_cookie_secure = kc_secure k, ac_post_login_url = at_post_login_url a, ac_post_logout_url = at_post_logout_url a,
             ac_session_ttl = at_session_ttl a, ac_scopes = at_scopes a\<rparr>) (\<lambda>(s, scopes). retM (Some s)))"

definition newS3Client :: "env \<Rightarrow> storage_settings \<Rightarrow> s3_client W" where
  "newS3Client E cfg =
     (if sg_region cfg = [] then failM (New KindInvalidArgument ''storage: region is required (set storage.region)'')
      else wrapM [] (''s3: client (region='' @ sg_region cfg @ '')'')
        (s3_NewClient E \<lparr>s3c_region = sg_region cfg, s3c_endpoint = (if sg_endpoint cfg \<noteq> [] then Some (sg_endpoint cfg) else None),
           s3c_access_key = sg_access_key cfg, s3c_secret_key = sg_secret_key cfg, s3c_path_style = sg_use_path_style cfg\<rparr>))"

definition newUploadRegistry :: "env \<Rightarrow> config \<Rightarrow> registry W" where
  "newUploadRegistry E cfg =
     (case cf_valkey_addrs cfg of
        [] \<Rightarrow> retM (NewMemoryRegistry E)
      | a # _ \<Rightarrow>
          if a = [] then retM (NewMemoryRegistry E)
          else seqM (wrapM [] (''valkey: client (db='' @ itoa_int (cf_valkey_db cfg) @ '')'') (io E)) (retM (NewValkeyRegistry E)))"

text \<open>What \<open>New\<close> decides; the services are built from these and the database without further choices.\<close>

record app =
  a_config :: config
  a_cipher :: cipher
  a_registry :: registry
  a_s3 :: s3_client
  a_authorizer :: fga_client
  a_auth :: "auth_service option"

definition app_New :: "env \<Rightarrow> (string \<Rightarrow> gerror option) \<Rightarrow> (string \<Rightarrow> string) \<Rightarrow> fga_sdk \<Rightarrow> config \<Rightarrow> app W" where
  "app_New E sql_Open lower K cfg =
     (case Validate cfg (cf_env cfg) of
        Some e \<Rightarrow> failM e
      | None \<Rightarrow>
          seqM (newInfra E sql_Open cfg)
          (bindM (liftM (newCrypto cfg)) (\<lambda>c.
           bindM (newUploadRegistry E cfg) (\<lambda>r.
           bindM (newS3Client E (cf_storage cfg)) (\<lambda>s.
           bindM (newPerm E K cfg) (\<lambda>p.
           bindM (newAuth E lower cfg) (\<lambda>a.
             retM \<lparr>a_config = cfg, a_cipher = c, a_registry = r, a_s3 = s, a_authorizer = p, a_auth = a\<rparr>)))))))"

section \<open>server.go\<close>

text \<open>The storage of a drive created without one; the endpoint stays unset.\<close>

definition default_storage :: "config \<Rightarrow> storage_config" where
  "default_storage cfg =
     (let s = cf_storage cfg in
      \<lparr>sc_bucket = sg_bucket s, sc_endpoint = None, sc_region = sg_region s, sc_access_key = sg_access_key s,
       sc_secret_key = sg_secret_key s, sc_use_path_style = sg_use_path_style s\<rparr>)"

text \<open>The security handler: the session cookie's when there is an authenticator, otherwise none.\<close>

definition server_security :: "env \<Rightarrow> app \<Rightarrow> string \<Rightarrow> ctx \<Rightarrow> ctx W" where
  "server_security E a apiKey c =
     (case a_auth a of None \<Rightarrow> retM (AnonSecurity c) | Some s \<Rightarrow> HandleCookieAuth E s c apiKey)"

definition handler_of :: "env \<Rightarrow> s3_env \<Rightarrow> nat \<Rightarrow> (string \<Rightarrow> gerror option) \<Rightarrow> app \<Rightarrow> server" where
  "handler_of E X k url_error a =
     \<lparr>h_cipher = a_cipher a, h_registry = a_registry a, h_store = s3_store E X, h_recorder = Some (RecordGarbage E), h_fuel = k,
      h_authorizer = FGAChecker E, h_redirect_uri = at_redirect_uri (cf_auth (a_config a)),
      h_default_storage = default_storage (a_config a), h_presign_ttl = sg_presign_ttl (cf_storage (a_config a)),
      h_url_error = url_error, h_health_db = True, h_health_scan = None, h_health_authorizer = Some (FGAChecker E)\<rparr>"

section \<open>logx.go\<close>

text \<open>Levels of slog: Debug -4, Info 0, Warn 4, Error 8.\<close>

definition levelForStatus :: "nat \<Rightarrow> int" where
  "levelForStatus status = (if status \<ge> 500 then 8 else if status \<ge> 400 then 4 else 0)"

definition parseLevel :: "(string \<Rightarrow> string) \<Rightarrow> string \<Rightarrow> int" where
  "parseLevel lower s =
     (let l = lower s in if l = ''debug'' then - 4 else if l = ''warn'' then 4 else if l = ''error'' then 8 else 0)"

definition log_format :: "string \<Rightarrow> string \<Rightarrow> string" where
  "log_format format0 env0 = (if format0 = [] then (if env0 = ''production'' then ''json'' else ''text'') else format0)"

text \<open>The level of \<open>Error\<close>, and whether it adds the stack.\<close>

definition log_Error :: "gerror \<Rightarrow> int \<times> bool" where
  "log_Error e = (let level = levelForStatus (kind_status (KindOf (Some e))) in (level, level \<ge> 8))"


section \<open>What a started program guarantees\<close>

lemma hex_decode_length: "hex_decode s = Some k \<Longrightarrow> length s = 2 * length k"
  by (induction s arbitrary: k rule: hex_decode.induct) (auto split: option.splits)

text \<open>
  C35. A program that starts. Outside development it encrypts storage secrets with a 32-byte key. It authenticates with
  session cookies exactly when an issuer and a client id are configured, with an encryption key, which outside development
  has a size AES accepts. Without them it starts all the same, in production too, and then every request with a session cookie, whatever its value, runs
  with the context it came with, as the user with the empty id.
\<close>

theorem started_app:
  assumes n: "app_New E sql_Open lower K cfg w = (Inr a, w')"
  shows "(cf_env cfg \<noteq> ''development'' \<longrightarrow> (\<exists>key. a_cipher a = AESGCM key \<and> length key = 32)) \<and>
    (a_auth a = None \<longleftrightarrow> at_issuer (cf_auth cfg) = [] \<or> at_client_id (cf_auth cfg) = []) \<and>
    (\<forall>s. a_auth a = Some s \<longrightarrow> as_enc_key s = at_encryption_key (cf_auth cfg) \<and> as_enc_key s \<noteq> [] \<and>
       (cf_env cfg \<noteq> ''development'' \<longrightarrow> length (as_enc_key s) \<in> {16, 24, 32})) \<and>
    (a_auth a = None \<longrightarrow> (\<forall>key v. server_security E a key None v = (Inr None, v)) \<and> UserIDFromContext None = [])"
proof -
  have v: "Validate cfg (cf_env cfg) = None" using n by (auto simp: app_New_def split: option.splits)
  obtain w1 c w2 r w3 s w4 p w5 au where st: "newCrypto cfg = Inr c" "newAuth E lower cfg w5 = (Inr au, w')"
    "a = \<lparr>a_config = cfg, a_cipher = c, a_registry = r, a_s3 = s, a_authorizer = p, a_auth = au\<rparr>"
    using n v by (auto simp: app_New_def monad_simps)
  have cipher: "\<exists>key. c = AESGCM key \<and> length key = 32" if "cf_env cfg \<noteq> ''development''"
  proof -
    have "cf_master_key cfg \<noteq> []" using v that by (auto simp: Validate_def split: if_splits)
    then have "NewAESGCM (cf_master_key cfg) = Inr c" using st(1) by (auto simp: newCrypto_def split: sum.splits)
    then show ?thesis by (auto simp: NewAESGCM_def hex_decode_length split: if_splits option.splits)
  qed
  have none: "au = None \<longleftrightarrow> at_issuer (cf_auth cfg) = [] \<or> at_client_id (cf_auth cfg) = []"
    using st(2) by (auto simp: newAuth_def Let_def monad_simps split: if_splits)
  have key: "as_enc_key x = at_encryption_key (cf_auth cfg) \<and> as_enc_key x \<noteq> []" if "au = Some x" for x
    using st(2) that by (auto simp: newAuth_def Let_def auth_New_def monad_simps split: if_splits)
  have size: "isValidAESKey (at_encryption_key (cf_auth cfg))" if "cf_env cfg \<noteq> ''development''" "at_encryption_key (cf_auth cfg) \<noteq> []"
    using v that by (auto simp: Validate_def split: if_splits)
  show ?thesis using cipher none key size
    by (auto simp: st(3) isValidAESKey_def server_security_def AnonSecurity_def UserIDFromContext_def SessionFromContext_def)
qed

text \<open>A production configuration without an issuer.\<close>

definition demo_config :: config where
  "demo_config = \<lparr>cf_env = ''production'', cf_log_level = ''info'',
     cf_cookie = \<lparr>kc_name = ''c'', kc_domain = [], kc_secure = True, kc_same_site = ''lax''\<rparr>, cf_allowed_origins = [],
     cf_database = \<lparr>dc_host = ''h'', dc_port = 5432, dc_user = ''u'', dc_password = [], dc_name = ''n'', dc_sslmode = ''disable''\<rparr>,
     cf_storage = \<lparr>sg_region = ''r'', sg_endpoint = ''http://minio'', sg_bucket = ''b'', sg_access_key = ''a'', sg_secret_key = ''s'',
       sg_use_path_style = True, sg_presign_ttl = 900\<rparr>,
     cf_master_key = hex_encode (replicate 32 CHR ''k''), cf_valkey_addrs = [''v:6379''], cf_valkey_db = 0,
     cf_auth = \<lparr>at_provider = ''keycloak'', at_issuer = [], at_client_id = [], at_session_ttl = 1, at_redirect_uri = [],
       at_post_login_url = [], at_post_logout_url = [], at_encryption_key = [], at_scopes = []\<rparr>,
     cf_openfga = \<lparr>fc_mode = ''none'', fc_api_url = ''http://fga'', fc_store_id = ''s'', fc_model_id = ''m'', fc_api_token = [],
       fc_client_id = [], fc_client_secret = [], fc_token_issuer = [], fc_audience = [], fc_scopes = [], fc_timeout = 0\<rparr>\<rparr>"

lemma demo_config_fields:
  "cf_env demo_config = ''production''" "cf_valkey_addrs demo_config = [''v:6379'']" "sg_region (cf_storage demo_config) = ''r''"
  "at_issuer (cf_auth demo_config) = []" "at_encryption_key (cf_auth demo_config) = []" "cf_master_key demo_config \<noteq> []"
  "fc_mode (cf_openfga demo_config) = ''none''" "fc_api_url (cf_openfga demo_config) = ''http://fga''"
  "fc_store_id (cf_openfga demo_config) = ''s''" "fc_model_id (cf_openfga demo_config) = ''m''" "fc_api_token (cf_openfga demo_config) = []"
  "fc_client_id (cf_openfga demo_config) = []" "fc_client_secret (cf_openfga demo_config) = []"
  using hex_encode_length [of "replicate 32 CHR ''k''"] by (auto simp: demo_config_def)

theorem started_app_witness:
  "\<exists>a w'. app_New demo (\<lambda>_. None) (\<lambda>s. s) demo_sdk demo_config (world_of empty_db) = (Inr a, w') \<and>
     (\<exists>key. a_cipher a = AESGCM key) \<and> a_auth a = None \<and> (\<forall>key v. server_security demo a key None v = (Inr None, v))"
proof -
  have "newCrypto demo_config = Inr (AESGCM (replicate 32 CHR ''k''))" using hex_encode_length [of "replicate 32 CHR ''k''"]
    by (auto simp: newCrypto_def NewAESGCM_def demo_config_def hex_decode_encode)
  then obtain k where k: "newCrypto demo_config = Inr (AESGCM k)" by blast
  have "\<exists>a w'. app_New demo (\<lambda>_. None) (\<lambda>s. s) demo_sdk demo_config (world_of empty_db) = (Inr a, w')"
    by (simp add: app_New_def k demo_config_fields Validate_def newInfra_def newUploadRegistry_def newS3Client_def
      s3_NewClient_def newPerm_def NewFGAChecker_def buildCredentials_def demo_sdk_def newAuth_def Let_def seqM_def bindM_def wrapM_def io_def)
  then obtain a w' where a: "app_New demo (\<lambda>_. None) (\<lambda>s. s) demo_sdk demo_config (world_of empty_db) = (Inr a, w')" by blast
  show ?thesis using started_app [OF a] a by (auto simp: demo_config_fields)
qed

end
