(* ===== verification/Router.thy ===== *)
theory Router
  imports Prelude
begin

text \<open>
  The router of the generated API server (pkg/api/oas_router_gen.go): \<open>ServeHTTP\<close> is one nested switch over the bytes of
  the path. The switch is the data \<open>router\<close>, \<open>follow\<close> and \<open>enter\<close> run it, and the paths of api/openapi.yaml are the
  reference it is compared with.
\<close>

section \<open>Operations\<close>

datatype op_id =
    OpAuthCallback | OpAuthLogin | OpAuthLogout | OpAuthMe | OpHealth
  | OpListDeletedDrives | OpListDrives | OpCreateDrive | OpGetDrive | OpUpdateDrive | OpDeleteDrive | OpRestoreDrive
  | OpGetDriveStorage | OpRm | OpCat | OpHardlink | OpLs | OpLstat | OpMkdir | OpMount | OpMv | OpWriteLarge | OpReadlink
  | OpRealpath | OpStat | OpSymlink | OpTouch | OpUnmount | OpWrite | OpInitiateUpload | OpCompleteUpload | OpPresignDownload
  | OpGetUser | OpUpsertUser

text \<open>The switch over the method at a path's end: the methods it lists, in its order.\<close>

type_synonym methods = "(string \<times> op_id) list"

datatype routed = RouteTo op_id "string list" | NotAllowed string | NoRoute

definition method_switch :: "methods \<Rightarrow> string \<Rightarrow> string list \<Rightarrow> routed" where
  "method_switch ms m args =
     (case map_of ms m of Some op \<Rightarrow> RouteTo op args | None \<Rightarrow> NotAllowed (join_char CHR '','' (map fst ms)))"

section \<open>The nested switch\<close>

text \<open>
  One case of a switch over the first byte: the prefix, and what follows it. That is either the end of a path and a further
  switch, or a parameter up to the next slash and a further switch; \<open>End [] _\<close> is no end of a path.
\<close>

datatype rest = End methods cases | Param cases
and cases = Break | Case string rest cases

text \<open>A case that does not match breaks out of every switch: there is no second try.\<close>

fun follow :: "cases \<Rightarrow> string list \<Rightarrow> string \<Rightarrow> (methods \<times> string list) option"
and enter :: "rest \<Rightarrow> string list \<Rightarrow> string \<Rightarrow> (methods \<times> string list) option" where
  "follow Break args e = None"
| "follow (Case p r cs) args e =
     (if hd e = hd p then (if has_prefix e p then enter r args (drop (length p) e) else None) else follow cs args e)"
| "enter (End ms cs) args e =
     (if e = [] then (if ms = [] then None else Some (ms, args)) else follow cs args e)"
| "enter (Param cs) args e =
     (let arg = takeWhile (\<lambda>c. c \<noteq> CHR ''/'') e; e' = dropWhile (\<lambda>c. c \<noteq> CHR ''/'') e in
      if e' = [] then None else follow cs (args @ [arg]) e')"

definition auth_cases :: cases where
  "auth_cases =
     Case ''callback'' (End [(''GET'', OpAuthCallback)] Break)
    (Case ''log'' (End []
       (Case ''in'' (End [(''GET'', OpAuthLogin)] Break)
       (Case ''out'' (End [(''POST'', OpAuthLogout)] Break) Break)))
    (Case ''me'' (End [(''GET'', OpAuthMe)] Break) Break))"

definition fs_m_cases :: cases where
  "fs_m_cases =
     Case ''kdir'' (End [(''POST'', OpMkdir)] Break)
    (Case ''ount'' (End [(''POST'', OpMount)] Break)
    (Case ''v'' (End [(''POST'', OpMv)] Break) Break))"

definition fs_rea_cases :: cases where
  "fs_rea_cases =
     Case ''dlink'' (End [(''GET'', OpReadlink)] Break)
    (Case ''lpath'' (End [(''GET'', OpRealpath)] Break) Break)"

definition fs_s_cases :: cases where
  "fs_s_cases =
     Case ''tat'' (End [(''GET'', OpStat)] Break)
    (Case ''ymlink'' (End [(''POST'', OpSymlink)] Break) Break)"

definition fs_tail_cases :: cases where
  "fs_tail_cases =
     Case ''touch'' (End [(''POST'', OpTouch)] Break)
    (Case ''unmount'' (End [(''DELETE'', OpUnmount)] Break)
    (Case ''write'' (End [(''PUT'', OpWrite)] Break) Break))"

definition fs_cases :: cases where
  "fs_cases =
     Case ''cat'' (End [(''GET'', OpCat)] Break)
    (Case ''hardlink'' (End [(''POST'', OpHardlink)] Break)
    (Case ''ls'' (End [(''GET'', OpLs)] (Case ''tat'' (End [(''GET'', OpLstat)] Break) Break))
    (Case ''m'' (End [] fs_m_cases)
    (Case ''object'' (End [(''POST'', OpWriteLarge)] Break)
    (Case ''rea'' (End [] fs_rea_cases)
    (Case ''s'' (End [] fs_s_cases) fs_tail_cases))))))"

definition upload_cases :: cases where
  "upload_cases = Case ''/'' (Param (Case ''/complete'' (End [(''POST'', OpCompleteUpload)] Break) Break)) Break"

definition drive_r_cases :: cases where
  "drive_r_cases =
     Case ''estore'' (End [(''POST'', OpRestoreDrive)] Break)
    (Case ''oot'' (End [(''DELETE'', OpDeleteDrive), (''GET'', OpGetDrive), (''PUT'', OpUpdateDrive)] Break) Break)"

definition drive_cases :: cases where
  "drive_cases =
     Case ''downloads'' (End [(''GET'', OpPresignDownload)] Break)
    (Case ''fs'' (End [(''DELETE'', OpRm)] (Case ''/'' (End [] fs_cases) Break))
    (Case ''r'' (End [] drive_r_cases)
    (Case ''storage'' (End [(''GET'', OpGetDriveStorage)] Break)
    (Case ''uploads'' (End [(''POST'', OpInitiateUpload)] upload_cases) Break))))"

definition v1_cases :: cases where
  "v1_cases =
     Case ''admin/drives/deleted'' (End [(''GET'', OpListDeletedDrives)] Break)
    (Case ''drives'' (End [(''GET'', OpListDrives), (''POST'', OpCreateDrive)]
       (Case ''/'' (Param (Case ''/'' (End [] drive_cases) Break)) Break))
    (Case ''users'' (End [(''GET'', OpGetUser), (''POST'', OpUpsertUser)] Break) Break))"

definition router :: cases where
  "router =
     Case ''/'' (End []
       (Case ''auth/'' (End [] auth_cases)
       (Case ''health'' (End [(''GET'', OpHealth)] Break)
       (Case ''v1/'' (End [] v1_cases) Break)))) Break"

text \<open>The server is built without a prefix to cut.\<close>

definition ServeHTTP :: "string \<Rightarrow> string \<Rightarrow> routed" where
  "ServeHTTP m elem =
     (if elem = [] then NoRoute
      else (case follow router [] elem of None \<Rightarrow> NoRoute | Some (ms, args) \<Rightarrow> method_switch ms m args))"

section \<open>What a switch accepts\<close>

text \<open>The patterns that lead to the ends of a switch, as runs of bytes and holes.\<close>

datatype tok = Chars string | Hole

fun pat_match :: "tok list \<Rightarrow> string \<Rightarrow> string list option" where
  "pat_match [] e = (if e = [] then Some [] else None)"
| "pat_match (Chars p # ts) e = (if has_prefix e p then pat_match ts (drop (length p) e) else None)"
| "pat_match (Hole # ts) e =
     map_option (\<lambda>as. takeWhile (\<lambda>c. c \<noteq> CHR ''/'') e # as) (pat_match ts (dropWhile (\<lambda>c. c \<noteq> CHR ''/'') e))"

abbreviation after :: "tok \<Rightarrow> (tok list \<times> methods) list \<Rightarrow> (tok list \<times> methods) list" where
  "after t ps \<equiv> map (\<lambda>(ts, ms). (t # ts, ms)) ps"

fun patterns :: "cases \<Rightarrow> (tok list \<times> methods) list"
and rest_patterns :: "rest \<Rightarrow> (tok list \<times> methods) list" where
  "patterns Break = []"
| "patterns (Case p r cs) = after (Chars p) (rest_patterns r) @ patterns cs"
| "rest_patterns (End ms cs) = (if ms = [] then [] else [([], ms)]) @ patterns cs"
| "rest_patterns (Param cs) = after Hole (patterns cs)"

text \<open>The cases of one switch start with different bytes.\<close>

fun heads :: "cases \<Rightarrow> char set" where
  "heads Break = {}"
| "heads (Case p r cs) = insert (hd p) (heads cs)"

fun exclusive :: "cases \<Rightarrow> bool"
and rest_exclusive :: "rest \<Rightarrow> bool" where
  "exclusive Break = True"
| "exclusive (Case p r cs) \<longleftrightarrow> p \<noteq> [] \<and> hd p \<notin> heads cs \<and> rest_exclusive r \<and> exclusive cs"
| "rest_exclusive (End ms cs) = exclusive cs"
| "rest_exclusive (Param cs) = exclusive cs"

lemma in_after: "(ts, ms) \<in> set (after t ps) \<longleftrightarrow> (\<exists>ts'. ts = t # ts' \<and> (ts', ms) \<in> set ps)"
  by auto

lemma has_prefix_hd: "has_prefix e p \<Longrightarrow> p \<noteq> [] \<Longrightarrow> e \<noteq> [] \<and> hd e = hd p"
  by (cases e; cases p) (auto simp: has_prefix_def)

lemma pattern_head:
  "exclusive cs \<Longrightarrow> (ts, ms) \<in> set (patterns cs) \<Longrightarrow> pat_match ts e = Some as \<Longrightarrow> e \<noteq> [] \<and> hd e \<in> heads cs"
proof (induction cs rule: heads.induct)
  case (2 p r cs)
  show ?case
  proof (cases "(ts, ms) \<in> set (patterns cs)")
    case True
    then show ?thesis using 2 by simp
  next
    case False
    then obtain ts' where "ts = Chars p # ts'" using 2(3) by auto
    then show ?thesis using 2(2-) has_prefix_hd [of e p] by (auto split: if_splits)
  qed
qed simp

text \<open>An exclusive switch finds what matches one of its patterns, and no other pattern matches then.\<close>

lemma follow_iff:
  shows "exclusive cs \<Longrightarrow> e \<noteq> [] \<Longrightarrow> follow cs args e = Some (ms, out) \<longleftrightarrow>
      (\<exists>ts as. (ts, ms) \<in> set (patterns cs) \<and> pat_match ts e = Some as \<and> out = args @ as)"
    and "rest_exclusive r \<Longrightarrow> enter r args e = Some (ms, out) \<longleftrightarrow>
      (\<exists>ts as. (ts, ms) \<in> set (rest_patterns r) \<and> pat_match ts e = Some as \<and> out = args @ as)"
proof (induction cs args e and r args e arbitrary: and rule: follow_enter.induct)
  case (2 p r cs args e)
  have here: "(\<exists>ts as. (ts, ms) \<in> set (after (Chars p) (rest_patterns r)) \<and> pat_match ts e = Some as \<and> out = args @ as) \<longleftrightarrow>
      has_prefix e p \<and> (\<exists>ts as. (ts, ms) \<in> set (rest_patterns r) \<and> pat_match ts (drop (length p) e) = Some as \<and> out = args @ as)"
    by (force split: if_splits)
  show ?case
  proof (cases "hd e = hd p")
    case True
    then have "\<not> (\<exists>ts as. (ts, ms) \<in> set (patterns cs) \<and> pat_match ts e = Some as \<and> out = args @ as)"
      using pattern_head [of cs _ ms e] 2(3) by auto
    then have "(\<exists>ts as. (ts, ms) \<in> set (patterns (Case p r cs)) \<and> pat_match ts e = Some as \<and> out = args @ as) \<longleftrightarrow>
      (\<exists>ts as. (ts, ms) \<in> set (after (Chars p) (rest_patterns r)) \<and> pat_match ts e = Some as \<and> out = args @ as)"
      unfolding patterns.simps set_append by blast
    then show ?thesis using 2(1,3) True unfolding here by simp
  next
    case False
    then have "\<not> has_prefix e p" using has_prefix_hd [of e p] 2(3) by auto
    then have "(\<exists>ts as. (ts, ms) \<in> set (patterns (Case p r cs)) \<and> pat_match ts e = Some as \<and> out = args @ as) \<longleftrightarrow>
      (\<exists>ts as. (ts, ms) \<in> set (patterns cs) \<and> pat_match ts e = Some as \<and> out = args @ as)"
      using here unfolding patterns.simps set_append by blast
    then show ?thesis using 2(2-) False by simp
  qed
next
  case (3 leaf cs args e)
  show ?case
  proof (cases "e = []")
    case True
    have "\<not> (\<exists>ts as. (ts, ms) \<in> set (patterns cs) \<and> pat_match ts [] = Some as \<and> out = args @ as)"
      using pattern_head [of cs _ ms "[]"] 3(2) by auto
    then show ?thesis using True by auto
  next
    case False
    then show ?thesis using 3 by auto
  qed
next
  case (4 cs args e)
  let ?a = "takeWhile (\<lambda>c. c \<noteq> CHR ''/'') e" and ?e = "dropWhile (\<lambda>c. c \<noteq> CHR ''/'') e"
  have here: "(\<exists>ts as. (ts, ms) \<in> set (rest_patterns (Param cs)) \<and> pat_match ts e = Some as \<and> out = args @ as) \<longleftrightarrow>
      (\<exists>ts as. (ts, ms) \<in> set (patterns cs) \<and> pat_match ts ?e = Some as \<and> out = (args @ [?a]) @ as)"
    unfolding rest_patterns.simps in_after by fastforce
  show ?case
  proof (cases "?e = []")
    case True
    then have "\<not> (\<exists>ts as. (ts, ms) \<in> set (patterns cs) \<and> pat_match ts ?e = Some as \<and> out = (args @ [?a]) @ as)"
      using pattern_head [of cs _ ms ?e] 4(2) by auto
    then show ?thesis unfolding here enter.simps Let_def if_P [OF True] by blast
  next
    case False
    then have "follow cs (args @ [?a]) ?e = Some (ms, out) \<longleftrightarrow>
        (\<exists>ts as. (ts, ms) \<in> set (patterns cs) \<and> pat_match ts ?e = Some as \<and> out = (args @ [?a]) @ as)"
      using 4 by simp
    then show ?thesis unfolding here enter.simps Let_def if_not_P [OF False] .
  qed
qed simp


section \<open>The paths of the API's document\<close>

datatype seg = Lit string | Arg

definition drive_path :: "string list \<Rightarrow> seg list" where
  "drive_path ps = Lit ''v1'' # Lit ''drives'' # Arg # map Lit ps"

text \<open>The paths of api/openapi.yaml in its order, with their methods and operations.\<close>

definition openapi_paths :: "(seg list \<times> methods) list" where
  "openapi_paths =
    [([Lit ''health''], [(''GET'', OpHealth)]),
     ([Lit ''v1'', Lit ''drives''], [(''GET'', OpListDrives), (''POST'', OpCreateDrive)]),
     (drive_path [''root''], [(''DELETE'', OpDeleteDrive), (''GET'', OpGetDrive), (''PUT'', OpUpdateDrive)]),
     (drive_path [''restore''], [(''POST'', OpRestoreDrive)]),
     ([Lit ''v1'', Lit ''admin'', Lit ''drives'', Lit ''deleted''], [(''GET'', OpListDeletedDrives)]),
     (drive_path [''storage''], [(''GET'', OpGetDriveStorage)]),
     (drive_path [''fs'', ''mkdir''], [(''POST'', OpMkdir)]),
     (drive_path [''fs'', ''touch''], [(''POST'', OpTouch)]),
     (drive_path [''fs''], [(''DELETE'', OpRm)]),
     (drive_path [''fs'', ''mv''], [(''POST'', OpMv)]),
     (drive_path [''fs'', ''ls''], [(''GET'', OpLs)]),
     (drive_path [''fs'', ''cat''], [(''GET'', OpCat)]),
     (drive_path [''fs'', ''write''], [(''PUT'', OpWrite)]),
     (drive_path [''fs'', ''symlink''], [(''POST'', OpSymlink)]),
     (drive_path [''fs'', ''hardlink''], [(''POST'', OpHardlink)]),
     (drive_path [''fs'', ''mount''], [(''POST'', OpMount)]),
     (drive_path [''fs'', ''unmount''], [(''DELETE'', OpUnmount)]),
     (drive_path [''fs'', ''stat''], [(''GET'', OpStat)]),
     (drive_path [''fs'', ''lstat''], [(''GET'', OpLstat)]),
     (drive_path [''fs'', ''readlink''], [(''GET'', OpReadlink)]),
     (drive_path [''fs'', ''realpath''], [(''GET'', OpRealpath)]),
     (drive_path [''fs'', ''object''], [(''POST'', OpWriteLarge)]),
     (drive_path [''uploads''], [(''POST'', OpInitiateUpload)]),
     (drive_path [''uploads''] @ [Arg, Lit ''complete''], [(''POST'', OpCompleteUpload)]),
     (drive_path [''downloads''], [(''GET'', OpPresignDownload)]),
     ([Lit ''v1'', Lit ''users''], [(''GET'', OpGetUser), (''POST'', OpUpsertUser)]),
     ([Lit ''auth'', Lit ''login''], [(''GET'', OpAuthLogin)]),
     ([Lit ''auth'', Lit ''callback''], [(''GET'', OpAuthCallback)]),
     ([Lit ''auth'', Lit ''logout''], [(''POST'', OpAuthLogout)]),
     ([Lit ''auth'', Lit ''me''], [(''GET'', OpAuthMe)])]"

fun seg_match :: "seg list \<Rightarrow> string list \<Rightarrow> string list option" where
  "seg_match [] [] = Some []"
| "seg_match (Lit s # ps) (x # xs) = (if x = s then seg_match ps xs else None)"
| "seg_match (Arg # ps) (x # xs) = map_option (\<lambda>as. x # as) (seg_match ps xs)"
| "seg_match _ _ = None"

text \<open>The reference router: the first path of the document whose segments are those of the request's path.\<close>

definition path_match :: "seg list \<Rightarrow> string \<Rightarrow> string list option" where
  "path_match ps path =
     (case path of [] \<Rightarrow> None | c # t \<Rightarrow> if c = CHR ''/'' then seg_match ps (split_char CHR ''/'' t) else None)"

definition reference_route :: "string \<Rightarrow> string \<Rightarrow> routed" where
  "reference_route m path =
     (case find (\<lambda>(ps, ms). path_match ps path \<noteq> None) openapi_paths of
        None \<Rightarrow> NoRoute
      | Some (ps, ms) \<Rightarrow> method_switch ms m (the (path_match ps path)))"

section \<open>Patterns and paths\<close>

fun render :: "seg list \<Rightarrow> tok list" where
  "render [] = []"
| "render (Lit s # ps) = Chars ''/'' # Chars s # render ps"
| "render (Arg # ps) = Chars ''/'' # Hole # render ps"

text \<open>Runs of bytes joined.\<close>

fun joined :: "tok list \<Rightarrow> tok list" where
  "joined (Chars p # Chars q # ts) = joined (Chars (p @ q) # ts)"
| "joined (Chars p # ts) = Chars p # joined ts"
| "joined (Hole # ts) = Hole # joined ts"
| "joined [] = []"

lemma has_prefix_append: "has_prefix e (p @ q) \<longleftrightarrow> has_prefix e p \<and> has_prefix (drop (length p) e) q"
  by (auto simp: has_prefix_iff)

lemma match_joined: "pat_match (joined ts) e = pat_match ts e"
  by (induction ts arbitrary: e rule: joined.induct) (simp_all add: has_prefix_append add.commute)

lemma seg_match_Nil: "seg_match [] xs = (if xs = [] then Some [] else None)"
  by (cases xs) simp_all

lemma split_slash:
  "split_char c t = takeWhile (\<lambda>x. x \<noteq> c) t # (case dropWhile (\<lambda>x. x \<noteq> c) t of [] \<Rightarrow> [] | _ # r \<Rightarrow> split_char c r)"
  by (induction t) (auto split: list.splits)

lemma match_rendered:
  assumes "\<forall>s. Lit s \<in> set ps \<longrightarrow> CHR ''/'' \<notin> set s"
  shows "pat_match (render ps) e = (if ps = [] then (if e = [] then Some [] else None) else path_match ps e)"
  using assms
proof (induction ps arbitrary: e)
  case (Cons p ps)
  let ?tail = "\<lambda>r. pat_match (render ps) r"
  have IH: "?tail r = (case r of [] \<Rightarrow> seg_match ps [] | _ # r' \<Rightarrow> seg_match ps (split_char CHR ''/'' r'))"
    if "r = [] \<or> hd r = CHR ''/''" for r
    using that Cons by (cases r; cases ps) (auto simp: path_match_def seg_match_Nil split_char_nonempty)
  show ?case
  proof (cases "\<exists>t. e = CHR ''/'' # t")
    case True
    then obtain t where e: "e = CHR ''/'' # t" by blast
    let ?a = "takeWhile (\<lambda>c. c \<noteq> CHR ''/'') t" and ?r = "dropWhile (\<lambda>c. c \<noteq> CHR ''/'') t"
    have r: "?r = [] \<or> hd ?r = CHR ''/''" using hd_dropWhile [of "\<lambda>c. c \<noteq> CHR ''/''" t] by auto
    have tail: "seg_match ps (case ?r of [] \<Rightarrow> [] | _ # r \<Rightarrow> split_char CHR ''/'' r) = ?tail ?r"
      unfolding IH [OF r] by (cases ?r) (simp_all only: list.case)
    have path: "path_match (q # ps) e = seg_match (q # ps) (?a # (case ?r of [] \<Rightarrow> [] | _ # r \<Rightarrow> split_char CHR ''/'' r))" for q
      unfolding path_match_def e list.case split_slash [of _ t] by simp
    show ?thesis
    proof (cases p)
      case (Lit s)
      have m: "pat_match (render (Lit s # ps)) e = (if has_prefix t s then ?tail (drop (length s) t) else None)"
        by (simp add: e has_prefix_def)
      show ?thesis
      proof (cases "?a = s")
        case True
        then have "t = s @ ?r" using takeWhile_dropWhile_id [of "\<lambda>c. c \<noteq> CHR ''/''" t] by simp
        then have "has_prefix t s" "drop (length s) t = ?r" by (metis has_prefix_iff, metis append_eq_conv_conj)
        then show ?thesis unfolding Lit m path seg_match.simps tail if_P [OF True] by simp
      next
        case False
        have none: "?tail u = None" if "t = s @ u" for u
        proof -
          have "\<forall>c\<in>set s. c \<noteq> CHR ''/''" using Cons.prems Lit by auto
          then have "takeWhile (\<lambda>c. c \<noteq> CHR ''/'') (s @ u) = s @ takeWhile (\<lambda>c. c \<noteq> CHR ''/'') u"
            by (intro takeWhile_append2) blast
          then have "takeWhile (\<lambda>c. c \<noteq> CHR ''/'') u \<noteq> []" using False unfolding that by force
          then have "u \<noteq> [] \<and> hd u \<noteq> CHR ''/''" by (cases u) (auto split: if_splits)
          then show ?thesis by (cases ps rule: render.cases) (auto simp: has_prefix_def neq_Nil_conv)
        qed
        then have "has_prefix t s \<Longrightarrow> ?tail (drop (length s) t) = None" by (auto simp: has_prefix_iff)
        then show ?thesis unfolding Lit m path seg_match.simps if_not_P [OF False] by simp
      qed
    next
      case Arg
      have "pat_match (render (p # ps)) e = map_option (\<lambda>as. ?a # as) (?tail ?r)" by (simp add: Arg e has_prefix_def)
      then show ?thesis unfolding Arg path seg_match.simps tail by simp
    qed
  next
    case False
    then show ?thesis by (cases p; cases e) (auto simp: path_match_def has_prefix_def)
  qed
qed simp

lemmas router_defs = router_def auth_cases_def fs_m_cases_def fs_rea_cases_def fs_s_cases_def fs_tail_cases_def fs_cases_def
  upload_cases_def drive_r_cases_def drive_cases_def v1_cases_def

lemma router_patterns:
  "set (map (\<lambda>(ts, ms). (joined ts, ms)) (patterns router)) = set (map (\<lambda>(ps, ms). (joined (render ps), ms)) openapi_paths)"
  by (simp add: router_defs openapi_paths_def drive_path_def insert_commute)


lemma router_exclusive: "exclusive router"
  by (simp add: router_defs)

lemma openapi_lits: "(ps, ms) \<in> set openapi_paths \<Longrightarrow> ps \<noteq> [] \<and> (\<forall>s. Lit s \<in> set ps \<longrightarrow> CHR ''/'' \<notin> set s)"
  by (auto simp: openapi_paths_def drive_path_def)

text \<open>The switch finds a document's path exactly when that path matches.\<close>

lemma follow_router:
  "e \<noteq> [] \<Longrightarrow> follow router [] e = Some (ms, as) \<longleftrightarrow> (\<exists>ps. (ps, ms) \<in> set openapi_paths \<and> path_match ps e = Some as)"
proof -
  assume e: "e \<noteq> []"
  have "follow router [] e = Some (ms, as) \<longleftrightarrow> (\<exists>ts. (ts, ms) \<in> set (patterns router) \<and> pat_match (joined ts) e = Some as)"
    using follow_iff(1) [OF router_exclusive e, of "[]" ms as] by (auto simp: match_joined)
  also have "\<dots> \<longleftrightarrow> (\<exists>us. (us, ms) \<in> set (map (\<lambda>(ts, ms). (joined ts, ms)) (patterns router)) \<and> pat_match us e = Some as)"
    by auto
  also have "\<dots> \<longleftrightarrow> (\<exists>ps. (ps, ms) \<in> set openapi_paths \<and> pat_match (joined (render ps)) e = Some as)"
    unfolding router_patterns by auto
  also have "\<dots> \<longleftrightarrow> (\<exists>ps. (ps, ms) \<in> set openapi_paths \<and> path_match ps e = Some as)"
    using openapi_lits match_rendered by (fastforce simp: match_joined)
  finally show ?thesis .
qed

text \<open>
  C14. The generated switch is the API's document. For every method and every path it answers as the reference does, which looks
  for the path of the document that the request's path matches segment by segment: the same operation with the same
  arguments, the same allowed methods, or no route.
\<close>

theorem router_is_document: "ServeHTTP m path = reference_route m path"
proof (cases "path = []")
  case True
  have "find (\<lambda>(ps, ms). path_match ps [] \<noteq> None) openapi_paths = None" by (auto simp: find_None_iff path_match_def)
  then show ?thesis using True by (simp add: ServeHTTP_def reference_route_def)
next
  case False
  note f = follow_router [OF False]
  show ?thesis
  proof (cases "find (\<lambda>(ps, ms). path_match ps path \<noteq> None) openapi_paths")
    case None
    then have "\<nexists>ms as. follow router [] path = Some (ms, as)" unfolding f by (auto simp: find_None_iff)
    then have "follow router [] path = None" by (cases "follow router [] path") auto
    then show ?thesis using None by (simp add: ServeHTTP_def reference_route_def)
  next
    case (Some x)
    obtain ps ms as where x: "x = (ps, ms)" "(ps, ms) \<in> set openapi_paths" "path_match ps path = Some as"
      using find_Some_set [OF Some] by (cases x) auto
    then have "follow router [] path = Some (ms, as)" unfolding f by blast
    then show ?thesis using Some False x by (simp add: ServeHTTP_def reference_route_def)
  qed
qed

lemma router_examples:
  "ServeHTTP ''PUT'' ''/v1/drives/d1/fs/write'' = RouteTo OpWrite [''d1'']"
  "ServeHTTP ''POST'' ''/v1/drives/d/uploads/u/complete'' = RouteTo OpCompleteUpload [''d'', ''u'']"
  "ServeHTTP ''PATCH'' ''/v1/drives/d/root'' = NotAllowed ''DELETE,GET,PUT''"
  "ServeHTTP ''GET'' ''/v1/drives/d/fs/lstatx'' = NoRoute" "ServeHTTP ''DELETE'' ''/v1/drives//fs'' = RouteTo OpRm [[]]"
  by (simp_all add: ServeHTTP_def router_defs method_switch_def has_prefix_def)

section \<open>Methods\<close>

text \<open>The operations that change state are reached by no safe method.\<close>

definition changes_state :: "op_id \<Rightarrow> bool" where
  "changes_state op \<longleftrightarrow> op \<in> {OpCreateDrive, OpUpdateDrive, OpDeleteDrive, OpRestoreDrive, OpRm, OpHardlink, OpMkdir, OpMount, OpMv,
     OpWriteLarge, OpSymlink, OpTouch, OpUnmount, OpWrite, OpInitiateUpload, OpCompleteUpload, OpUpsertUser}"

lemma routed_method:
  assumes "ServeHTTP m path = RouteTo op args" "changes_state op"
  shows "m \<in> {''POST'', ''PUT'', ''DELETE''}"
proof -
  have "path \<noteq> []" using assms(1) by (auto simp: ServeHTTP_def)
  moreover obtain ms where "follow router [] path = Some (ms, args)" "map_of ms m = Some op"
    using assms(1) by (auto simp: ServeHTTP_def method_switch_def split: if_splits option.splits)
  ultimately obtain ps where "(ps, ms) \<in> set openapi_paths" "(m, op) \<in> set ms" using follow_router map_of_SomeD by metis
  moreover have "\<forall>(ps, ms)\<in>set openapi_paths. \<forall>(m, op)\<in>set ms. changes_state op \<longrightarrow> m \<in> {''POST'', ''PUT'', ''DELETE''}"
    by (simp add: openapi_paths_def changes_state_def)
  ultimately show ?thesis using assms(2) by fastforce
qed

end
