(* ===== verification/Api.thy ===== *)
theory Api
  imports Boot Router
begin

text \<open>
  The whole server: \<open>buildChain\<close> of internal/app/apiserver/server.go puts the CSRF filter before a mux that sends the login
  flow to internal/auth and everything else to the generated server (pkg/api), which routes the call, asks the security
  handler, decodes the parameters of the path and runs the handler in the middleware chain (oas_handlers_gen.go, the same code for
  every operation). What the decoders of queries and bodies give is a parameter here (\<open>Requests\<close> defines it), as is the normal form ogen gives an
  escaped path; CORS and the mux are third-party.
\<close>

section \<open>Operations\<close>

text \<open>The operations that only read, and the handler each goes to.\<close>

datatype query =
    QLs string string
  | QCat string string
  | QStat string string
  | QLstat string string
  | QReadlink string string
  | QRealpath string string
  | QGetDrive string
  | QGetDriveStorage string
  | QListDrives
  | QListDeletedDrives
  | QPresignDownload string string
  | QGetUser
  | QAuthMe

fun answer_query :: "env \<Rightarrow> server \<Rightarrow> ctx \<Rightarrow> query \<Rightarrow> unit W" where
  "answer_query E H c (QLs d p) = voidM (handle_Ls E H c d p)"
| "answer_query E H c (QCat d p) = voidM (handle_Cat E H c d p)"
| "answer_query E H c (QStat d p) = voidM (handle_Stat E H c d p)"
| "answer_query E H c (QLstat d p) = voidM (handle_Lstat E H c d p)"
| "answer_query E H c (QReadlink d p) = voidM (handle_Readlink E H c d p)"
| "answer_query E H c (QRealpath d p) = voidM (handle_Realpath E H c d p)"
| "answer_query E H c (QGetDrive d) = voidM (handle_GetDrive E H c d)"
| "answer_query E H c (QGetDriveStorage d) = voidM (handle_GetDriveStorage E H c d)"
| "answer_query E H c QListDrives = voidM (handle_ListDrives E c)"
| "answer_query E H c QListDeletedDrives = voidM (handle_ListDeletedDrives E c)"
| "answer_query E H c (QPresignDownload d p) = voidM (handle_PresignDownload E H c d p)"
| "answer_query E H c QGetUser = voidM (handle_GetUser E c)"
| "answer_query E H c QAuthMe = voidM (handle_AuthMe E c)"

text \<open>
  Health and the stubs of the login flow, which answer with a redirection to the redirect URI, have no
  security requirement.
\<close>

datatype operation = Change request | Query query | Health | AuthStub

section \<open>ogen's server\<close>

text \<open>What the client gets: a response, an error of the API, the answer to a request that does not decode, or one of the other handlers'.\<close>

datatype answer =
    Done
  | ErrorSent "error_status option"
  | Undecodable
  | NotFound
  | MethodNotAllowed string nat
  | Plain http_response
  | SpecSent

text \<open>The cookie's name is the one of the OpenAPI document. No cookie leaves the requirement unsatisfied.\<close>

definition securityCookieAuth :: "(string \<Rightarrow> ctx \<Rightarrow> ctx W) \<Rightarrow> (string \<times> string) list \<Rightarrow> ctx \<Rightarrow> ctx option W" where
  "securityCookieAuth sec cookies c =
     (case request_cookie cookies ''mdrive_session'' of
        None \<Rightarrow> retM None
      | Some v \<Rightarrow> bindM (sec v c) (\<lambda>c'. retM (Some c')))"

definition not_satisfied :: gerror where
  "not_satisfied = Foreign ''security requirement is not satisfied'' None"

text \<open>\<open>T\<close> is the text of a \<open>SecurityError\<close>, whose code is 401.\<close>

definition security_error :: "(gerror \<Rightarrow> string) \<Rightarrow> gerror \<Rightarrow> answer" where
  "security_error T e = ErrorSent (NewError \<lparr>fe_text = T e, fe_security = Some (401, Some e)\<rparr>)"

text \<open>How a handler's result is answered after the chain: an \<open>ErrorStatusCode\<close> in the error is sent, any other error goes to \<open>NewError\<close>.\<close>

fun chain_answer :: "unit outcome \<Rightarrow> answer" where
  "chain_answer (Returned x None) = Done"
| "chain_answer (Returned x (Some (StatusError s))) = ErrorSent (Some s)"
| "chain_answer (Returned x (Some (WrappedStatus s))) = ErrorSent (Some s)"
| "chain_answer (Returned x (Some (AppError e))) = ErrorSent (NewError \<lparr>fe_text = error_text e, fe_security = None\<rparr>)"
| "chain_answer Panicked = ErrorSent None"

definition handler_outcome :: "gerror + unit \<Rightarrow> unit outcome" where
  "handler_outcome r = Returned () (case r of Inl e \<Rightarrow> Some (AppError e) | Inr _ \<Rightarrow> None)"

text \<open>One operation: \<open>decoded\<close> is the handler with its decoded arguments, \<open>None\<close> when they do not decode.\<close>

definition ogen_operation ::
  "(gerror \<Rightarrow> string) \<Rightarrow> (string \<Rightarrow> ctx \<Rightarrow> ctx W) \<Rightarrow> bool \<Rightarrow> (string \<times> string) list \<Rightarrow> ctx \<Rightarrow> (ctx \<Rightarrow> unit W) option \<Rightarrow>
     world \<Rightarrow> answer \<times> world" where
  "ogen_operation T sec secured cookies c decoded w =
     (case (if secured then securityCookieAuth sec cookies c else retM (Some c)) w of
        (Inl e, w1) \<Rightarrow> (security_error T e, w1)
      | (Inr None, w1) \<Rightarrow> (security_error T not_satisfied, w1)
      | (Inr (Some c'), w1) \<Rightarrow>
          (case decoded of
             None \<Rightarrow> (Undecodable, w1)
           | Some h \<Rightarrow> (case h c' w1 of (r, w2) \<Rightarrow> (chain_answer (api_chain () (handler_outcome r)), w2))))"

section \<open>server.go\<close>

text \<open>A call: \<open>hc_content_type\<close> is the header, the length is -1 when unknown, and the body is \<open>None\<close> when reading it fails.\<close>

record http_call = http_request +
  hc_method :: string
  hc_path :: string
  hc_raw_path :: string
  hc_origin :: string
  hc_referer :: string
  hc_content_type :: "string option"
  hc_content_length :: int
  hc_body :: "string option"

fun operation_handler :: "env \<Rightarrow> server \<Rightarrow> operation \<Rightarrow> ctx \<Rightarrow> unit W" where
  "operation_handler E H (Change q) c = serve E H c q"
| "operation_handler E H (Query q) c = answer_query E H c q"
| "operation_handler E H Health c = voidM (handle_Health E H)"
| "operation_handler E H AuthStub c = retM ()"

section \<open>From a call to an operation\<close>

text \<open>The security requirement of the document: every operation but the login's and the health check needs the cookie.\<close>

definition secured :: "op_id \<Rightarrow> bool" where
  "secured op \<longleftrightarrow> op \<notin> {OpAuthLogin, OpAuthCallback, OpAuthLogout, OpHealth}"

text \<open>\<open>url.PathUnescape\<close>: \<open>None\<close> for a percent sign without two hexadecimal digits.\<close>

fun PathUnescape :: "string \<Rightarrow> string option" where
  "PathUnescape [] = Some []"
| "PathUnescape (c # s) =
     (if c \<noteq> CHR ''%'' then map_option (\<lambda>r. c # r) (PathUnescape s)
      else (case s of
              a # b # r \<Rightarrow>
                (case (hex_val a, hex_val b) of
                   (Some x, Some y) \<Rightarrow> map_option (\<lambda>t. char_of (16 * x + y :: nat) # t) (PathUnescape r)
                 | _ \<Rightarrow> None)
            | _ \<Rightarrow> None))"

text \<open>A parameter of the path must not be empty.\<close>

definition path_param :: "bool \<Rightarrow> string \<Rightarrow> string option" where
  "path_param escaped arg =
     (case (if escaped then PathUnescape arg else Some arg) of
        None \<Rightarrow> None
      | Some p \<Rightarrow> if p = [] then None else Some p)"

text \<open>
  The fields of the requests' queries and bodies; an operation reads its own. \<open>pl_target\<close> is the destination of a move, the target of
  a symbolic link and the source of a hard link, \<open>pl_paths\<close> the sources of a move, and \<open>pl_size\<close> the length an upload ends with.
\<close>

record payload =
  pl_path :: string
  pl_paths :: "string list"
  pl_recursive :: "bool option"
  pl_target :: string
  pl_content :: string
  pl_bucket :: string
  pl_key :: string
  pl_content_type :: "string option"
  pl_content_length :: "int option"
  pl_checksum :: "string option"
  pl_size :: int
  pl_source_drive :: string
  pl_name :: string
  pl_new_name :: "string option"
  pl_description :: "string option"
  pl_storage :: "api_storage option"
  pl_email :: "string option"
  pl_provider :: string
  pl_provider_id :: string

text \<open>The handler's call with its arguments; the router gives an operation as many arguments as its path has parameters.\<close>

fun operation_of :: "op_id \<Rightarrow> string list \<Rightarrow> payload \<Rightarrow> operation" where
  "operation_of OpMkdir args x = Change (ReqMkdir (args ! 0) (pl_path x))"
| "operation_of OpTouch args x = Change (ReqTouch (args ! 0) (pl_path x))"
| "operation_of OpRm args x = Change (ReqRm (args ! 0) (pl_paths x) (pl_recursive x))"
| "operation_of OpMv args x = Change (ReqMv (args ! 0) (pl_paths x) (pl_target x))"
| "operation_of OpWrite args x = Change (ReqWrite (args ! 0) (pl_path x) (pl_content x))"
| "operation_of OpWriteLarge args x = Change (ReqWriteLarge (args ! 0) (pl_path x) (pl_bucket x) (pl_key x) (pl_content_type x) (pl_checksum x) (pl_size x))"
| "operation_of OpSymlink args x = Change (ReqSymlink (args ! 0) (pl_target x) (pl_path x))"
| "operation_of OpHardlink args x = Change (ReqHardlink (args ! 0) (pl_target x) (pl_path x))"
| "operation_of OpMount args x = Change (ReqMount (args ! 0) (pl_path x) (pl_source_drive x))"
| "operation_of OpUnmount args x = Change (ReqUnmount (args ! 0) (pl_path x))"
| "operation_of OpCreateDrive args x = Change (ReqCreateDrive (pl_name x) (pl_description x) (pl_storage x))"
| "operation_of OpUpdateDrive args x = Change (ReqUpdateDrive (args ! 0) (pl_new_name x) (pl_description x))"
| "operation_of OpDeleteDrive args x = Change (ReqDeleteDrive (args ! 0))"
| "operation_of OpRestoreDrive args x = Change (ReqRestoreDrive (args ! 0))"
| "operation_of OpInitiateUpload args x = Change (ReqInitiateUpload (args ! 0) (pl_path x) (pl_content_type x) (pl_content_length x))"
| "operation_of OpCompleteUpload args x = Change (ReqCompleteUpload (args ! 0) (args ! 1) (pl_size x) (pl_checksum x))"
| "operation_of OpUpsertUser args x = Change (ReqUpsertUser (pl_name x) (pl_email x) (pl_provider x) (pl_provider_id x))"
| "operation_of OpLs args x = Query (QLs (args ! 0) (pl_path x))"
| "operation_of OpCat args x = Query (QCat (args ! 0) (pl_path x))"
| "operation_of OpStat args x = Query (QStat (args ! 0) (pl_path x))"
| "operation_of OpLstat args x = Query (QLstat (args ! 0) (pl_path x))"
| "operation_of OpReadlink args x = Query (QReadlink (args ! 0) (pl_path x))"
| "operation_of OpRealpath args x = Query (QRealpath (args ! 0) (pl_path x))"
| "operation_of OpPresignDownload args x = Query (QPresignDownload (args ! 0) (pl_path x))"
| "operation_of OpGetDrive args x = Query (QGetDrive (args ! 0))"
| "operation_of OpGetDriveStorage args x = Query (QGetDriveStorage (args ! 0))"
| "operation_of OpListDrives args x = Query QListDrives"
| "operation_of OpListDeletedDrives args x = Query QListDeletedDrives"
| "operation_of OpGetUser args x = Query QGetUser"
| "operation_of OpAuthMe args x = Query QAuthMe"
| "operation_of OpHealth args x = Health"
| "operation_of OpAuthLogin args x = AuthStub"
| "operation_of OpAuthCallback args x = AuthStub"
| "operation_of OpAuthLogout args x = AuthStub"

text \<open>\<open>D\<close> is what the decoders of the query and the body of an operation give for the call.\<close>

type_synonym decoders = "op_id \<Rightarrow> http_call \<Rightarrow> payload option"

definition decode_operation :: "decoders \<Rightarrow> http_call \<Rightarrow> bool \<Rightarrow> op_id \<Rightarrow> string list \<Rightarrow> operation option" where
  "decode_operation D rq escaped op args =
     (case those (map (path_param escaped) args) of
        None \<Rightarrow> None
      | Some ps \<Rightarrow> (case D op rq of None \<Rightarrow> None | Some x \<Rightarrow> Some (operation_of op ps x)))"

text \<open>The path that is routed: \<open>N\<close> is \<open>uri.NormalizeEscapedPath\<close>, asked when the URL has a raw path.\<close>

definition routed_path :: "(string \<Rightarrow> string option) \<Rightarrow> http_call \<Rightarrow> string \<times> bool" where
  "routed_path N rq =
     (if hc_raw_path rq = [] then (hc_path rq, False)
      else (case N (hc_raw_path rq) of None \<Rightarrow> (hc_path rq, False) | Some p \<Rightarrow> (p, CHR ''%'' \<in> set p)))"

definition notAllowed :: "string \<Rightarrow> string \<Rightarrow> answer" where
  "notAllowed m allowed = MethodNotAllowed allowed (if m = ''OPTIONS'' then 204 else 405)"

record library =
  lib_normalize :: "string \<Rightarrow> string option"
  lib_decoders :: decoders
  lib_security_text :: "gerror \<Rightarrow> string"

definition ogen_serve ::
  "library \<Rightarrow> (string \<Rightarrow> ctx \<Rightarrow> ctx W) \<Rightarrow> env \<Rightarrow> server \<Rightarrow> http_call \<Rightarrow> world \<Rightarrow> answer \<times> world" where
  "ogen_serve L sec E H rq w =
     (case routed_path (lib_normalize L) rq of (path, escaped) \<Rightarrow>
        (case ServeHTTP (hc_method rq) path of
           NoRoute \<Rightarrow> (NotFound, w)
         | NotAllowed ms \<Rightarrow> (notAllowed (hc_method rq) ms, w)
         | RouteTo op args \<Rightarrow>
             ogen_operation (lib_security_text L) sec (secured op) (hq_cookies rq) None
               (map_option (operation_handler E H) (decode_operation (lib_decoders L) rq escaped op args)) w))"

text \<open>What the flow of the login answers.\<close>

definition flow_answer :: "http_response W \<Rightarrow> world \<Rightarrow> answer \<times> world" where
  "flow_answer m w = (case m w of (r, w') \<Rightarrow> (case r of Inl _ \<Rightarrow> (ErrorSent None, w') | Inr p \<Rightarrow> (Plain p, w')))"

text \<open>
  The handler \<open>buildChain\<close> returns: \<open>U\<close>, \<open>J\<close> and \<open>L\<close> are the URL parser, the OIDC library and ogen's. The mux
  gets the path as it is after cleaning.
\<close>

definition finalHandler ::
  "urls \<Rightarrow> env \<Rightarrow> oidc \<Rightarrow> server \<Rightarrow> library \<Rightarrow> app \<Rightarrow> http_call \<Rightarrow> world \<Rightarrow> answer \<times> world" where
  "finalHandler U E J H L a rq w =
     (case CSRFMiddleware U (cf_allowed_origins (a_config a)) (hc_method rq) (hc_origin rq) (hc_referer rq) of
        Some p \<Rightarrow> (Plain p, w)
      | None \<Rightarrow>
          (case (a_auth a, hc_path rq) of
             (Some A, p) \<Rightarrow>
               if p = ''/auth/login'' then flow_answer (Authenticate E J A) w
               else if p = ''/auth/callback'' then flow_answer (Callback E J A (http_request.truncate rq)) w
               else if p = ''/auth/logout'' then flow_answer (Logout E J A (http_request.truncate rq)) w
               else if p = ''/openapi.json'' then (SpecSent, w)
               else ogen_serve L (\<lambda>v c. server_security E a v c) E H rq w
           | (None, p) \<Rightarrow>
               if p = ''/openapi.json'' then (SpecSent, w)
               else ogen_serve L (\<lambda>v c. server_security E a v c) E H rq w))"

section \<open>Reads change nothing\<close>

lemma quiet_reading_handlers:
  assumes H: "h_authorizer H = FGAChecker E"
  shows "quiet (handle_Ls E H c d p)" "quiet (handle_Cat E H c d p)" "quiet (handle_Stat E H c d p)" "quiet (handle_Lstat E H c d p)"
    "quiet (handle_Readlink E H c d p)" "quiet (handle_Realpath E H c d p)" "quiet (handle_GetDrive E H c d)"
    "quiet (handle_GetDriveStorage E H c d)" "quiet (handle_ListDrives E c)" "quiet (handle_ListDeletedDrives E c)"
    "quiet (handle_GetUser E c)" "quiet (handle_AuthMe E c)"
proof -
  note p = fga.requirePerm_quiet [OF H]
  have r: "quiet (resolveRead E H c d path)" for c d path
    unfolding resolveRead_def by (intro quiet_intros p)
  show "quiet (handle_Ls E H c d p)" "quiet (handle_Cat E H c d p)" "quiet (handle_Stat E H c d p)" "quiet (handle_Lstat E H c d p)"
    "quiet (handle_Readlink E H c d p)"
    unfolding handle_Ls_def handle_Cat_def handle_Stat_def handle_Lstat_def handle_Readlink_def
    by (intro quiet_intros r)+
  show "quiet (handle_Realpath E H c d p)" "quiet (handle_GetDrive E H c d)" "quiet (handle_GetDriveStorage E H c d)"
    unfolding handle_Realpath_def handle_GetDrive_def handle_GetDriveStorage_def
    by (intro quiet_intros p)+
  show "quiet (handle_ListDrives E c)" "quiet (handle_ListDeletedDrives E c)" "quiet (handle_GetUser E c)" "quiet (handle_AuthMe E c)"
    unfolding handle_ListDrives_def handle_ListDeletedDrives_def handle_GetUser_def handle_AuthMe_def ListByOwner_def ListDeletedForAdmin_def
    by (intro quiet_intros)+
qed

lemma quiet_handle_PresignDownload: "quiet (handle_PresignDownload E (handler_of E X k ue a) c d p)"
proof -
  have H: "h_authorizer (handler_of E X k ue a) = FGAChecker E" "h_store (handler_of E X k ue a) = s3_store E X" by (simp_all add: handler_of_def)
  show ?thesis
    unfolding handle_PresignDownload_def PresignDownload_def parsed_url_def H(2) s3_store_def s3_GetPresignedDownloadURL_def object_store.simps
    by (intro quiet_intros fga.requirePerm_quiet [OF H(1)])
qed

lemma quiet_answer_query: "quiet (answer_query E (handler_of E X k ue a) c q)"
proof -
  have H: "h_authorizer (handler_of E X k ue a) = FGAChecker E" by (simp add: handler_of_def)
  show ?thesis
    by (cases q; simp add: voidM_def) (intro quiet_intros quiet_reading_handlers [OF H] quiet_handle_PresignDownload)+
qed

lemma quiet_flow: "quiet (Authenticate E J A)" "quiet (Logout E J A rq)"
proof -
  show "quiet (Authenticate E J A)" unfolding Authenticate_def by (intro quiet_intros)
  show "quiet (Logout E J A rq)" unfolding Logout_def Let_def by (intro quiet_intros)
qed

lemma flow_same_store: "quiet m \<Longrightarrow> flow_answer m w = (ans, w') \<Longrightarrow> same_store w' w \<and> ans \<noteq> Done"
  by (auto simp: flow_answer_def dest!: quietD split: prod.splits sum.splits)

section \<open>What an operation needs\<close>

text \<open>\<open>v\<close> is the value of a session cookie that has not expired, of a user that exists, and \<open>s\<close> the session made from it.\<close>

definition signed_in :: "env \<Rightarrow> auth_service \<Rightarrow> world \<Rightarrow> string \<Rightarrow> session \<Rightarrow> bool" where
  "signed_in E A w v s \<longleftrightarrow>
     (\<exists>sess w1. readSessionCookieFromValue E A v w = (Inr sess, w1) \<and> ss_id s = sd_subject sess \<and> ss_is_admin s = sd_is_admin sess \<and>
        (\<exists>r\<in>set (t_users (w_db w)). user_key r = (as_provider_name A, sd_subject sess) \<and> ss_user_id s = eu_id r))"

lemma HandleCookieAuth_Inr:
  assumes "HandleCookieAuth E A c v w = (Inr c', w')"
  shows "\<exists>s. c' = Some s \<and> signed_in E A w v s" "same_store w' w"
proof -
  obtain sess w1 u w2 where r: "readSessionCookieFromValue E A v w = (Inr sess, w1)"
    and u: "UserGetByProviderID E (as_provider_name A) (sd_subject sess) w1 = (Inr (Some u), w2)"
    and c: "\<exists>s. c' = Some s \<and> ss_id s = sd_subject sess \<and> ss_user_id s = u_id u \<and> ss_is_admin s = sd_is_admin sess"
    using assms by (auto simp: HandleCookieAuth_def monad_simps tryM_def ContextWithSession_def split: if_splits prod.splits sum.splits option.splits)
  have "w_db w1 = w_db w" using quiet_db [OF quiet_session(5) r] by simp
  moreover obtain x where "user_query E ''user.repo.get_by_provider_id''
      (\<lambda>r. eu_provider r = as_provider_name A \<and> eu_provider_id r = sd_subject sess) w1 = (Inr (Some u), x)"
    using u by (auto simp: UserGetByProviderID_def user_get_by_provider_id_def monad_simps)
  from user_query_Inr [OF this] obtain ro where "only (\<lambda>r. eu_provider r = as_provider_name A \<and> eu_provider_id r = sd_subject sess)
      (t_users (w_db w1)) = Inr ro" "Some u = map_option user_from_ent ro" by blast
  then obtain r' where "only (\<lambda>r. eu_provider r = as_provider_name A \<and> eu_provider_id r = sd_subject sess)
      (t_users (w_db w1)) = Inr (Some r')" "u = user_from_ent r'" by (cases ro) auto
  ultimately have "\<exists>r\<in>set (t_users (w_db w)). user_key r = (as_provider_name A, sd_subject sess) \<and> u_id u = eu_id r"
    using only_Some by (fastforce simp: user_key_def)
  then show "\<exists>s. c' = Some s \<and> signed_in E A w v s" using r c by (fastforce simp: signed_in_def)
  show "same_store w' w" using quietD [OF quiet_session(7) assms] .
qed

text \<open>An error of a handler is answered as one.\<close>

lemma chain_answer_error: "chain_answer (api_chain () (handler_outcome (Inl e))) \<noteq> Done"
  by (simp add: api_chain_def handler_outcome_def KindToCode_def Let_def)

lemma ogen_operation_runs:
  assumes "ogen_operation T sec True cookies c decoded w = (ans, w')" "ans = Done \<or> \<not> same_store w' w"
    and sec: "\<And>v. quiet (sec v c)"
  obtains v c' w1 h r where "request_cookie cookies ''mdrive_session'' = Some v" "sec v c w = (Inr c', w1)" "decoded = Some h"
    "h c' w1 = (r, w')" "ans = chain_answer (api_chain () (handler_outcome r))"
proof -
  have q: "quiet (securityCookieAuth sec cookies c)" unfolding securityCookieAuth_def by (intro quiet_intros sec)
  obtain x w1 where x: "securityCookieAuth sec cookies c w = (x, w1)" by fastforce
  note s = quietD [OF q x]
  have ne: "security_error T e \<noteq> Done" for e by (simp add: security_error_def)
  obtain c' where c': "x = Inr (Some c')" using assms(1,2) x s ne by (auto simp: ogen_operation_def split: sum.splits option.splits)
  obtain v where v: "request_cookie cookies ''mdrive_session'' = Some v" "sec v c w = (Inr c', w1)"
    using x c' by (auto simp: securityCookieAuth_def monad_simps split: option.splits)
  obtain h where h: "decoded = Some h" using assms(1,2) x c' s by (auto simp: ogen_operation_def split: option.splits)
  obtain r w2 where r: "h c' w1 = (r, w2)" by fastforce
  then show thesis using that [OF v h, of r] assms(1) x c' h by (simp add: ogen_operation_def)
qed

lemma quiet_server_security: "quiet (server_security E a v c)"
  unfolding server_security_def by (intro quiet_intros)

lemma ogen_operation_quiet:
  assumes "ogen_operation T sec needed cookies c decoded w = (ans, w')" "\<And>v. quiet (sec v c)" "\<And>h c'. decoded = Some h \<Longrightarrow> quiet (h c')"
  shows "same_store w' w"
proof -
  let ?m = "if needed then securityCookieAuth sec cookies c else retM (Some c)"
  have q: "quiet ?m" unfolding securityCookieAuth_def by (intro quiet_intros assms(2))
  obtain x w1 where x: "?m w = (x, w1)" by fastforce
  note s = quietD [OF q x]
  show ?thesis
  proof (cases "\<exists>c' h. x = Inr (Some c') \<and> decoded = Some h")
    case True
    then obtain c' h where h: "x = Inr (Some c')" "decoded = Some h" by blast
    then have "h c' w1 = (fst (h c' w1), w')" using assms(1) x by (auto simp: ogen_operation_def split: prod.splits)
    then show ?thesis using quietD [OF assms(3) [OF h(2)]] s same_store_trans by blast
  next
    case False
    then have "w' = w1" using assms(1) x by (auto simp: ogen_operation_def split: sum.splits option.splits)
    then show ?thesis using s by simp
  qed
qed

text \<open>\<open>Routed q\<close>: the call is routed to the change \<open>q\<close>.\<close>

definition routed_to :: "library \<Rightarrow> http_call \<Rightarrow> operation \<Rightarrow> bool" where
  "routed_to L rq x \<longleftrightarrow> (\<exists>op args. ServeHTTP (hc_method rq) (fst (routed_path (lib_normalize L) rq)) = RouteTo op args \<and>
     decode_operation (lib_decoders L) rq (snd (routed_path (lib_normalize L) rq)) op args = Some x)"

lemma operation_of_change: "operation_of op args x = Change q \<Longrightarrow> changes_state op \<and> secured op"
  by (cases op) (simp_all add: changes_state_def secured_def)

lemma routed_change:
  assumes "routed_to L rq (Change q)"
  obtains op args where "ServeHTTP (hc_method rq) (fst (routed_path (lib_normalize L) rq)) = RouteTo op args"
    "decode_operation (lib_decoders L) rq (snd (routed_path (lib_normalize L) rq)) op args = Some (Change q)" "secured op"
    "hc_method rq \<notin> safeMethods"
proof -
  obtain op args where o: "ServeHTTP (hc_method rq) (fst (routed_path (lib_normalize L) rq)) = RouteTo op args"
    "decode_operation (lib_decoders L) rq (snd (routed_path (lib_normalize L) rq)) op args = Some (Change q)"
    using assms by (auto simp: routed_to_def)
  then obtain ps x where "operation_of op ps x = Change q" by (auto simp: decode_operation_def split: option.splits)
  note c = operation_of_change [OF this]
  then have "hc_method rq \<in> {''POST'', ''PUT'', ''DELETE''}" using routed_method [OF o(1)] by blast
  then show thesis using that [OF o] c by (auto simp: safeMethods_def)
qed

lemma ogen_serve_routed:
  assumes "ServeHTTP (hc_method rq) (fst (routed_path (lib_normalize L) rq)) = RouteTo op args"
  shows "ogen_serve L sec E H rq w = ogen_operation (lib_security_text L) sec (secured op) (hq_cookies rq) None
    (map_option (operation_handler E H) (decode_operation (lib_decoders L) rq (snd (routed_path (lib_normalize L) rq)) op args)) w"
  using assms by (simp add: ogen_serve_def split_beta)

text \<open>Only a change can be what the server did, and then it ran behind the filter and the security handler.\<close>

lemma finalHandler_change:
  assumes h: "finalHandler U E J (handler_of E X k ue a) L a rq w = (ans, w')"
    and p: "a_auth a = None \<or> hc_path rq \<noteq> ''/auth/callback''"
    and c: "\<not> same_store w' w \<or> ans = Done \<and> routed_to L rq (Change q0)"
  obtains q where "routed_to L rq (Change q)" "hc_method rq \<notin> safeMethods"
    "CSRFMiddleware U (cf_allowed_origins (a_config a)) (hc_method rq) (hc_origin rq) (hc_referer rq) = None"
    "ogen_operation (lib_security_text L) (\<lambda>v c. server_security E a v c) True (hq_cookies rq) None
       (Some (\<lambda>c. serve E (handler_of E X k ue a) c q)) w = (ans, w')"
proof -
  let ?H = "handler_of E X k ue a" and ?sec = "\<lambda>v c. server_security E a v c"
  have f: "CSRFMiddleware U (cf_allowed_origins (a_config a)) (hc_method rq) (hc_origin rq) (hc_referer rq) = None"
    using h c by (cases "CSRFMiddleware U (cf_allowed_origins (a_config a)) (hc_method rq) (hc_origin rq) (hc_referer rq)")
      (auto simp: finalHandler_def)
  have flow: False if "flow_answer m w = (ans, w')" "quiet m" for m using flow_same_store [OF that(2,1)] c by auto
  have nf: "flow_answer (Authenticate E J A) w \<noteq> (ans, w')" "flow_answer (Logout E J A r) w \<noteq> (ans, w')" for A r
    using flow quiet_flow by blast+
  have o: "ogen_serve L ?sec E ?H rq w = (ans, w')"
    using h f p c nf by (auto simp: finalHandler_def split: option.splits if_splits)
  have health: "quiet (voidM (handle_Health E ?H))"
    by (simp add: voidM_def handle_Health_def handler_of_def health_db_def health_scan_def health_check_def, intro quiet_intros fga.reads_quiet)
  have reads: "quiet (operation_handler E ?H x c')" if "\<And>q. x \<noteq> Change q" for x c'
    using that by (cases x) (auto intro: quiet_intros health quiet_answer_query)
  have "\<exists>q. routed_to L rq (Change q)"
  proof (rule ccontr)
    assume n: "\<nexists>q. routed_to L rq (Change q)"
    then have "same_store w' w"
    proof (cases "ServeHTTP (hc_method rq) (fst (routed_path (lib_normalize L) rq))")
      case (RouteTo op args)
      show ?thesis
        by (rule ogen_operation_quiet [OF o [unfolded ogen_serve_routed [OF RouteTo]] quiet_server_security])
          (use n RouteTo in \<open>auto simp: routed_to_def intro: reads\<close>)
    qed (use o in \<open>auto simp: ogen_serve_def split_beta\<close>)
    then show False using c n by blast
  qed
  then obtain q where q: "routed_to L rq (Change q)" by blast
  obtain op args where r: "ServeHTTP (hc_method rq) (fst (routed_path (lib_normalize L) rq)) = RouteTo op args"
    "decode_operation (lib_decoders L) rq (snd (routed_path (lib_normalize L) rq)) op args = Some (Change q)" "secured op"
    "hc_method rq \<notin> safeMethods" by (rule routed_change [OF q])
  have "operation_handler E ?H (Change q) = (\<lambda>c. serve E ?H c q)" by (rule ext) simp
  then show thesis using that [OF q r(4) f] o r(2,3) by (simp add: ogen_serve_routed [OF r(1)])
qed

text \<open>A login sets its own cookies only.\<close>

lemma Callback_cookies:
  assumes "Callback E J A r w = (Inr resp, w')"
  shows "ck_name ` set (hr_cookies resp) \<subseteq> {as_cookie_name A, ''auth_state''}"
proof -
  have s: "ck_name ` set (fst (consumeStateCookie E A r st)) \<subseteq> {''auth_state''}" for st
    by (auto simp: consumeStateCookie_def setCookie_def Let_def split: option.splits sum.splits if_splits)
  have c: "ck_name c = as_cookie_name A" if "callback_login E J A code sd w = (Inr c, w2)" for code sd c w2
    using that by (auto simp: callback_login_def writeSessionCookie_def setCookie_def Let_def monad_simps split: if_splits option.splits)
  have e: "hr_cookies (writeError cs x) = cs" "hr_cookies (http_redirect cs t) = cs" for cs x t
    by (simp_all add: writeError_def http_redirect_def)
  show ?thesis
    using assms s [of "query_get r ''state''"] c
    by (cases "consumeStateCookie E A r (query_get r ''state'')")
      (fastforce simp: Callback_def Let_def e tryM_def monad_simps split: sum.splits if_splits prod.splits)
qed

section \<open>Properties\<close>

text \<open>
  C2. What it takes to change anything. On a server with an authenticator, a call outside the login's callback that
  changes a store, or a change that is answered as done, was routed to a change by POST, PUT or DELETE, its
  client named an allowed origin and carried a session cookie of a user that exists and that had not expired, and that
  user had every permission the change needs.
\<close>

theorem changes_need_everything:
  assumes h: "finalHandler U E J (handler_of E X k ue a) L a rq w = (ans, w')" and A: "a_auth a = Some A"
    and p: "hc_path rq \<noteq> ''/auth/callback''" and c: "\<not> same_store w' w \<or> ans = Done \<and> routed_to L rq (Change q0)"
  shows "\<exists>q v s origin. routed_to L rq (Change q) \<and> hc_method rq \<notin> safeMethods \<and>
    origin = (if hc_origin rq = [] then refererOrigin U (hc_referer rq) else hc_origin rq) \<and> origin \<noteq> [] \<and>
    normalizeOrigin U origin \<in> normalizeOrigin U ` set (cf_allowed_origins (a_config a)) \<and>
    request_cookie (hq_cookies rq) ''mdrive_session'' = Some v \<and> signed_in E A w v s \<and>
    (\<forall>(x, d)\<in>set (guards q). may w (Some s) x d)"
proof -
  let ?H = "handler_of E X k ue a"
  obtain q where q: "routed_to L rq (Change q)" "hc_method rq \<notin> safeMethods"
    and f: "CSRFMiddleware U (cf_allowed_origins (a_config a)) (hc_method rq) (hc_origin rq) (hc_referer rq) = None"
    and o: "ogen_operation (lib_security_text L) (\<lambda>v c. server_security E a v c) True (hq_cookies rq) None
      (Some (\<lambda>c. serve E ?H c q)) w = (ans, w')"
    by (rule finalHandler_change [OF h disjI2 [OF p] c])
  obtain v c' w1 r where v: "request_cookie (hq_cookies rq) ''mdrive_session'' = Some v"
    and sec: "HandleCookieAuth E A None v w = (Inr c', w1)" and r: "serve E ?H c' q w1 = (r, w')"
    and ans: "ans = chain_answer (api_chain () (handler_outcome r))"
    by (rule ogen_operation_runs [OF o _ quiet_server_security]) (use c in \<open>auto simp: server_security_def A\<close>)
  obtain s where s: "c' = Some s" "signed_in E A w v s" using HandleCookieAuth_Inr(1) [OF sec] by blast
  have w1: "same_store w1 w" by (rule HandleCookieAuth_Inr(2) [OF sec])
  have H: "h_authorizer ?H = FGAChecker E" by (simp add: handler_of_def)
  have "may w (Some s) x d" if "(x, d) \<in> set (guards q)" for x d
  proof (rule ccontr)
    assume "\<not> may w (Some s) x d"
    then have "refused w1 w' r" using serve_refused [OF H that _ r] may_same_store [OF w1] s(1) by simp
    then show False using c ans chain_answer_error same_store_trans [OF _ w1] by (auto simp: refused_def)
  qed
  moreover have "(if hc_origin rq = [] then refererOrigin U (hc_referer rq) else hc_origin rq) \<noteq> []"
    "normalizeOrigin U (if hc_origin rq = [] then refererOrigin U (hc_referer rq) else hc_origin rq)
       \<in> normalizeOrigin U ` set (cf_allowed_origins (a_config a))"
    using f q(2) by (auto simp: CSRFMiddleware_def Let_def split: if_splits)
  ultimately show ?thesis using q v s(2) by blast
qed

text \<open>
  C40. The session cookie's name. It can be configured, but the API reads the name its document fixes: under any other
  name, a client that comes back with the cookies its login set is refused by every secured operation, as one that
  never logged in, and nothing changes.
\<close>

theorem renamed_cookie_refused:
  assumes A: "a_auth a = Some A" and n: "as_cookie_name A \<noteq> ''mdrive_session''" and l: "Callback E J A r w0 = (Inr resp, w1)"
    and k: "fst ` set (hq_cookies rq) \<subseteq> ck_name ` set (hr_cookies resp)"
    and f: "CSRFMiddleware U (cf_allowed_origins (a_config a)) (hc_method rq) (hc_origin rq) (hc_referer rq) = None"
    and o: "ServeHTTP (hc_method rq) (fst (routed_path (lib_normalize L) rq)) = RouteTo op args" "secured op"
    and p: "hc_path rq \<notin> {''/auth/login'', ''/auth/callback'', ''/auth/logout'', ''/openapi.json''}"
  shows "finalHandler U E J H L a rq w = (security_error (lib_security_text L) not_satisfied, w)"
proof -
  have "ck_name ` set (hr_cookies resp) \<subseteq> {as_cookie_name A, ''auth_state''}"
    by (rule Callback_cookies [OF l])
  moreover have "''mdrive_session'' \<notin> {as_cookie_name A, ''auth_state''}" using n by simp
  ultimately have "''mdrive_session'' \<notin> fst ` set (hq_cookies rq)" using k by blast
  then have "request_cookie (hq_cookies rq) ''mdrive_session'' = None"
    by (simp add: request_cookie_def map_of_eq_None_iff)
  then have "ogen_serve L sec E H rq w = (security_error (lib_security_text L) not_satisfied, w)" for sec
    using o(2) by (simp add: ogen_serve_routed [OF o(1)] ogen_operation_def securityCookieAuth_def)
  then show ?thesis using f p by (auto simp: finalHandler_def A)
qed

text \<open>A server with an authenticator, a drive of the user u, and the cookie of a session of u.\<close>

definition demo_app :: "auth_service \<Rightarrow> app" where
  "demo_app A = \<lparr>a_config = demo_config\<lparr>cf_allowed_origins := [''https://a.b'']\<rparr>, a_cipher = NoOp,
     a_registry = NewMemoryRegistry demo, a_s3 = \<lparr>s3l_region = ''r'', s3l_endpoint = None, s3l_credentials = None, s3l_path_style = True\<rparr>,
     a_authorizer = \<lparr>fl_store_id = ''s'', fl_model_id = ''m'', fl_credentials = None, fl_timeout = 1\<rparr>, a_auth = Some A\<rparr>"

definition demo_payload :: payload where
  "demo_payload = \<lparr>pl_path = ''/x'', pl_paths = [], pl_recursive = None, pl_target = [], pl_content = [], pl_bucket = [], pl_key = [],
     pl_content_type = None, pl_content_length = None, pl_checksum = None, pl_size = 0, pl_source_drive = [], pl_name = ''data'',
     pl_new_name = None, pl_description = None, pl_storage = None, pl_email = None, pl_provider = [], pl_provider_id = []\<rparr>"

definition demo_library :: library where
  "demo_library = \<lparr>lib_normalize = Some, lib_decoders = (\<lambda>_ _. Some demo_payload), lib_security_text = error_text\<rparr>"

definition demo_call :: "string \<Rightarrow> string \<Rightarrow> cookie list \<Rightarrow> http_call" where
  "demo_call method path cs = \<lparr>hq_query = [], hq_cookies = map (\<lambda>c. (ck_name c, ck_value c)) cs,
     hc_method = method, hc_path = path, hc_raw_path = [], hc_origin = ''https://a.b'', hc_referer = [],
     hc_content_type = None, hc_content_length = 0, hc_body = Some []\<rparr>"

definition demo_api :: world where
  "demo_api = demo_users\<lparr>w_db := (w_db demo_users)\<lparr>t_drives := [demo_drive_row]\<rparr>,
     w_fga := [(fga_user ''u'', ''owner'', fga_object ObjectTypeDrive ''d1'')]\<rparr>"

lemma demo_filter: "CSRFMiddleware demo_urls (cf_allowed_origins (a_config (demo_app A))) method ''https://a.b'' [] = None"
  by (simp add: CSRFMiddleware_def demo_app_def)

lemma demo_app_auth: "a_auth (demo_app A) = Some A"
  by (simp add: demo_app_def)

lemma demo_routes:
  "ServeHTTP ''GET'' ''/v1/users'' = RouteTo OpGetUser []" "ServeHTTP ''DELETE'' ''/v1/drives/d1/root'' = RouteTo OpDeleteDrive [''d1'']"
  by (simp_all add: ServeHTTP_def router_defs method_switch_def has_prefix_def)

theorem renamed_cookie_refused_witness:
  "\<exists>resp w1. Callback demo demo_oidc (demo_auth\<lparr>as_cookie_name := ''c''\<rparr>) demo_callback legacy_users = (Inr resp, w1) \<and> hr_status resp = 302 \<and>
     finalHandler demo_urls demo demo_oidc demo_server demo_library (demo_app (demo_auth\<lparr>as_cookie_name := ''c''\<rparr>))
       (demo_call ''GET'' ''/v1/users'' (hr_cookies resp)) w1 = (security_error error_text not_satisfied, w1)"
proof -
  obtain resp w1 where r: "Callback demo demo_oidc (demo_auth\<lparr>as_cookie_name := ''c''\<rparr>) demo_callback legacy_users = (Inr resp, w1)"
    "hr_status resp = 302" using demo_callback_renamed by blast
  then show ?thesis
    using renamed_cookie_refused [OF _ _ r(1), of "demo_app (demo_auth\<lparr>as_cookie_name := ''c''\<rparr>)"
        "demo_call ''GET'' ''/v1/users'' (hr_cookies resp)" demo_urls demo_library OpGetUser "[]"]
    by (force simp: demo_call_def demo_filter demo_app_auth routed_path_def demo_routes secured_def demo_library_def)
qed

lemma demo_cookie: "\<exists>c w'. writeSessionCookie demo demo_auth demo_sess demo_users = (Inr c, w')"
  by (simp add: writeSessionCookie_def encrypt_def rand_bytes_def draw_def bindM_def wrapM_def time_Now_def Let_def) (simp add: demo_def)

lemma demo_signed_in:
  assumes "writeSessionCookie demo demo_auth demo_sess demo_users = (Inr c, w')"
  shows "\<exists>s k. HandleCookieAuth demo demo_auth None (ck_value c) demo_api = (Inr (Some s), demo_api\<lparr>w_tick := k\<rparr>) \<and> ss_user_id s = ''u''"
proof -
  have "ascii (dec_nat n)" for n
    using dec_nat_digits [of n] by (auto simp: ascii_def list_all_iff is_digit_def byte_in_def)
  then have "time_codec demo" by (simp add: time_codec_def demo_def itoa_int_def parse_uint_dec)
  then have d: "session_exact demo demo_sess" by (simp add: session_exact_def demo_sess_def ascii_valid byte_in_def)
  have u: "users_ok (w_db demo_api)" "subject_row (w_db demo_api) ''keycloak'' ''s'' = Some (hd (t_users (w_db demo_api)))"
    "eu_id (hd (t_users (w_db demo_api))) = ''u''"
    by (simp_all add: users_ok_def demo_api_def demo_users_def world_of_def empty_db_def subject_row_def user_key_def)
  have "\<not> sd_expires_at demo_sess < clock demo (w_tick demo_api)"
    by (simp add: demo_sess_def demo_api_def demo_users_def world_of_def demo_def)
  moreover have "as_provider_name demo_auth = ''keycloak''" "sd_subject demo_sess = ''s''" "0 < sd_expires_at demo_sess"
    by (simp_all add: demo_auth_def demo_sess_def)
  ultimately show ?thesis
    using written_session_accepted [OF demo_gcm demo_no_faults d _ assms u(1)] u(2,3) by fastforce
qed

lemma demo_deletes: "\<exists>w'. DriveDelete demo ''d1'' (demo_api\<lparr>w_tick := k\<rparr>) = (Inr (), w')"
  by (simp add: DriveDelete_def drepo_soft_delete_def demo_api_def demo_users_def demo_drive_row_def drive_eval put_db_def put_client_def)

theorem changes_need_everything_witness:
  "\<exists>v s w'. finalHandler demo_urls demo demo_oidc (handler_of demo demo_s3 1 (\<lambda>_. None) (demo_app demo_auth)) demo_library (demo_app demo_auth)
       (demo_call ''DELETE'' ''/v1/drives/d1/root'' [setCookie demo_auth ''mdrive_session'' v 1]) demo_api = (Done, w') \<and>
     signed_in demo demo_auth demo_api v s \<and> may demo_api (Some s) ActionEdit ''d1''"
proof -
  let ?H = "handler_of demo demo_s3 1 (\<lambda>_. None) (demo_app demo_auth)"
  obtain c w' where c: "writeSessionCookie demo demo_auth demo_sess demo_users = (Inr c, w')" using demo_cookie by blast
  let ?rq = "demo_call ''DELETE'' ''/v1/drives/d1/root'' [setCookie demo_auth ''mdrive_session'' (ck_value c) 1]"
  obtain s k where s: "HandleCookieAuth demo demo_auth None (ck_value c) demo_api = (Inr (Some s), demo_api\<lparr>w_tick := k\<rparr>)"
    "ss_user_id s = ''u''" using demo_signed_in [OF c] by blast
  have "fga_editor (w_fga demo_api) (fga_user (UserIDFromContext (Some s))) (fga_object ObjectTypeDrive ''d1'')"
    using s(2) fga_allows_iff [of "w_fga demo_api" _ ActionEdit]
    by (simp add: grants_def demo_api_def UserIDFromContext_def SessionFromContext_def)
  then obtain j where "requirePerm ?H (Some s) ActionEdit ''d1'' (demo_api\<lparr>w_tick := k\<rparr>) = (Inr (), demo_api\<lparr>w_tick := j\<rparr>)"
    by (simp add: requirePerm_def handler_of_def FGAChecker_def fga_Check_def seqM_def bindM_def wrapM_def io_def get_fga_def)
  moreover obtain w1 where "DriveDelete demo ''d1'' (demo_api\<lparr>w_tick := j\<rparr>) = (Inr (), w1)" using demo_deletes by blast
  ultimately have "serve demo ?H (Some s) (ReqDeleteDrive ''d1'') (demo_api\<lparr>w_tick := k\<rparr>) = (Inr (), w1)"
    by (simp add: handle_DeleteDrive_def seqM_def bindM_def)
  moreover have r: "ServeHTTP (hc_method ?rq) (fst (routed_path (lib_normalize demo_library) ?rq)) = RouteTo OpDeleteDrive [''d1'']"
    "decode_operation (lib_decoders demo_library) ?rq (snd (routed_path (lib_normalize demo_library) ?rq)) OpDeleteDrive [''d1''] =
       Some (Change (ReqDeleteDrive ''d1''))"
    by (simp_all add: demo_call_def routed_path_def demo_routes decode_operation_def path_param_def demo_library_def)
  ultimately have f: "finalHandler demo_urls demo demo_oidc ?H demo_library (demo_app demo_auth) ?rq demo_api = (Done, w1)"
    using s demo_filter [of demo_auth "''DELETE''"] ogen_serve_routed [OF r(1), of _ demo ?H demo_api]
    by (simp add: finalHandler_def demo_call_def demo_app_auth ogen_operation_def securityCookieAuth_def secured_def
        request_cookie_def setCookie_def server_security_def bindM_def handler_outcome_def api_chain_def)
  have q: "routed_to demo_library ?rq (Change q) \<Longrightarrow> q = ReqDeleteDrive ''d1''" for q using r by (auto simp: routed_to_def)
  show ?thesis
    using changes_need_everything [OF f demo_app_auth, of "ReqDeleteDrive ''d1''"] f r q
    by (fastforce simp: demo_call_def request_cookie_def setCookie_def routed_to_def)
qed

end
