(* ===== verification/Program.thy ===== *)
theory Program
  imports Cli
begin

text \<open>
  The program as a whole: what it does from its start over calls of its HTTP server, runs of its jobs and
  changes of S3 and OpenFGA by others, in any order, and what holds of the tables then.
\<close>

section \<open>The steps\<close>

text \<open>A new context: no transaction, and a resolver starts with no cached node.\<close>

definition fresh_context :: "world \<Rightarrow> world" where
  "fresh_context w = w\<lparr>w_tx := None, w_cache := Map.empty\<rparr>"

text \<open>
  \<open>a\<close> is the started program, \<open>U\<close>, \<open>J\<close> and \<open>L\<close> the URL parser, the OIDC library and ogen's, \<open>X\<close> the S3 service, \<open>k\<close> the fuel of rm -r
  and \<open>ue\<close> the errors of \<open>url.Parse\<close>. Every call and every job has a context of its own.
\<close>

inductive runs :: "urls \<Rightarrow> env \<Rightarrow> oidc \<Rightarrow> s3_env \<Rightarrow> nat \<Rightarrow> (string \<Rightarrow> gerror option) \<Rightarrow> library \<Rightarrow> app \<Rightarrow> world \<Rightarrow> bool"
  for U :: urls and E :: env and J :: oidc and X :: s3_env and k :: nat and ue :: "string \<Rightarrow> gerror option" and L :: library
    and a :: app where
  at_start: "runs U E J X k ue L a (world_of empty_db)"
| on_call: "runs U E J X k ue L a w \<Longrightarrow> finalHandler U E J (handler_of E X k ue a) L a rq (fresh_context w) = (ans, w') \<Longrightarrow>
    runs U E J X k ue L a w'"
| on_job: "runs U E J X k ue L a w \<Longrightarrow> run_job E X order fmt pages a j (fresh_context w) = (r, w') \<Longrightarrow> runs U E J X k ue L a w'"
| objects_change: "runs U E J X k ue L a w \<Longrightarrow> runs U E J X k ue L a (w\<lparr>w_objs := os\<rparr>)"
| relations_change: "runs U E J X k ue L a w \<Longrightarrow> runs U E J X k ue L a (w\<lparr>w_fga := T\<rparr>)"

text \<open>Strings of a decoded JSON body or query are valid UTF-8.\<close>

definition utf8_decoders :: "decoders \<Rightarrow> bool" where
  "utf8_decoders D \<longleftrightarrow> (\<forall>op rq x. D op rq = Some x \<longrightarrow> valid_utf8 (pl_path x) \<and> valid_utf8 (pl_target x) \<and> list_all valid_utf8 (pl_paths x))"

lemma operation_of_utf8:
  assumes "operation_of op args x = Change q" "valid_utf8 (pl_path x)" "valid_utf8 (pl_target x)" "list_all valid_utf8 (pl_paths x)"
  shows "sends_utf8 q"
  using assms by (cases op) auto

lemma routed_utf8:
  assumes "utf8_decoders (lib_decoders L)" "routed_to L rq (Change q)"
  shows "sends_utf8 q"
proof -
  obtain op args where "decode_operation (lib_decoders L) rq (snd (routed_path (lib_normalize L) rq)) op args = Some (Change q)"
    using assms(2) by (auto simp: routed_to_def)
  then obtain ps x where x: "lib_decoders L op rq = Some x" "operation_of op ps x = Change q"
    by (auto simp: decode_operation_def split: option.splits)
  then show ?thesis using operation_of_utf8 [OF x(2)] assms(1) by (simp add: utf8_decoders_def)
qed

section \<open>Every step keeps the tables\<close>

lemma same_store_db_ok: "same_store w' w \<Longrightarrow> db_ok E (w_db w) \<Longrightarrow> db_ok E (w_db w')"
  by (simp add: same_store_def)

lemma safe_server_security: "safe E (server_security E a v c) (\<lambda>_. True)"
proof -
  have "keeps db_of (HandleCookieAuth E s c v)" for s
    unfolding HandleCookieAuth_def readSessionCookieFromValue_def session_IsExpired_def UserGetByProviderID_def
      user_get_by_provider_id_def user_query_def by (intro keeps_intros)
  then show ?thesis unfolding server_security_def
    by (intro safe_cases safe_retM TrueI safe_keeps)
qed

lemma finalHandler_db_ok:
  assumes u: "uuid_codec E" and d: "utf8_decoders (lib_decoders L)" and R: "a_registry a = NewValkeyRegistry E"
    and h: "finalHandler U E J (handler_of E X k ue a) L a rq w = (ans, w')" and w: "world_ok E w"
  shows "db_ok E (w_db w')"
proof (cases "same_store w' w")
  case True
  then show ?thesis using w same_store_db_ok by (auto simp: world_ok_def)
next
  case changed: False
  show ?thesis
  proof (cases "a_auth a = None \<or> hc_path rq \<noteq> ''/auth/callback''")
    case True
    obtain q where q: "routed_to L rq (Change q)"
      and o: "ogen_operation (lib_security_text L) (\<lambda>v c. server_security E a v c) True (hq_cookies rq) None
        (Some (\<lambda>c. serve E (handler_of E X k ue a) c q)) w = (ans, w')"
      by (rule finalHandler_change [OF h True disjI1 [OF changed]])
    obtain v c' w1 r where s: "server_security E a v None w = (Inr c', w1)" "serve E (handler_of E X k ue a) c' q w1 = (r, w')"
      by (rule ogen_operation_runs [OF o disjI2 [OF changed] quiet_server_security]) auto
    have "world_ok E w1" using safe_server_security s(1) w unfolding safe_def by blast
    moreover have "wired E X (handler_of E X k ue a)" by (simp add: wired_def handler_of_def R)
    ultimately have "world_ok E w'" using safe_serve [OF _ u routed_utf8 [OF d q]] s(2) unfolding safe_def by blast
    then show ?thesis by (simp add: world_ok_def)
  next
    case False
    then obtain A where A: "a_auth a = Some A" "hc_path rq = ''/auth/callback''" by auto
    have "CSRFMiddleware U (cf_allowed_origins (a_config a)) (hc_method rq) (hc_origin rq) (hc_referer rq) = None"
      using h changed by (cases "CSRFMiddleware U (cf_allowed_origins (a_config a)) (hc_method rq) (hc_origin rq) (hc_referer rq)")
        (auto simp: finalHandler_def)
    then have "flow_answer (Callback E J A (http_request.truncate rq)) w = (ans, w')" using h A by (simp add: finalHandler_def)
    then obtain p where "Callback E J A (http_request.truncate rq) w = (p, w')"
      by (auto simp: flow_answer_def split: prod.splits sum.splits)
    then have "world_ok E w'" using safe_Callback w unfolding safe_def by blast
    then show ?thesis by (simp add: world_ok_def)
  qed
qed

lemma safe_run_job:
  assumes "a_registry a = NewValkeyRegistry E"
  shows "safe E (run_job E X order fmt pages a j) (\<lambda>_. True)"
proof (cases j)
  case JobTombstones
  then show ?thesis using safe_cleaner by (simp add: run_job_def)
next
  case JobPurgeDrives
  then show ?thesis using safe_purger by (simp add: run_job_def)
next
  case JobExpireUploads
  have "safe E (UploadExpirer_Run E R None S g) (\<lambda>_. True)" for R S g
    unfolding UploadExpirer_Run_def option.case by (rule safe_retM) simp
  then show ?thesis using safe_expirer [of E X pages] JobExpireUploads by (simp add: run_job_def assms expirer_def)
qed

lemma world_ok_fresh: "db_ok E (w_db w) \<Longrightarrow> world_ok E (fresh_context w)"
  by (simp add: world_ok_def fresh_context_def client_def)

lemma runs_db_ok:
  assumes "uuid_codec E" "utf8_decoders (lib_decoders L)" "a_registry a = NewValkeyRegistry E" "runs U E J X k ue L a w"
  shows "db_ok E (w_db w)"
  using assms(4)
proof induction
  case at_start
  then show ?case using db_ok_empty by (simp add: world_of_def)
next
  case (on_call w rq ans w')
  then show ?case using finalHandler_db_ok [OF assms(1-3) on_call.hyps(2) world_ok_fresh] by blast
next
  case (on_job w order fmt pages j r w')
  then have "world_ok E w'" using safe_run_job [OF assms(3)] on_job.hyps(2) world_ok_fresh unfolding safe_def by blast
  then show ?case by (simp add: world_ok_def)
qed simp_all

lemma started_db_ok:
  assumes "uuid_codec E" "utf8_decoders (lib_decoders L)" "app_New E sql_Open lower K cfg w0 = (Inr a, w1)" "has_valkey cfg"
    and "runs U E J X k ue L a w"
  shows "db_ok E (w_db w)"
  by (rule runs_db_ok [OF assms(1,2) _ assms(5)]) (simp add: app_New_parts(2) [OF assms(3)] assms(4))

section \<open>What holds whatever happens\<close>

text \<open>
  C4. The tables. Start the program with Valkey on an empty database and let it serve any calls to its HTTP server, run any of
  its jobs, and S3 and OpenFGA change, in any order. The rows of the tables then fit their columns; drives have
  distinct ids and distinct public ids; each drive has at most one storage row, and a storage row belongs to a
  drive; users have distinct ids, public ids and provider identities; tombstones have distinct ids. The strings
  of decoded bodies and queries are valid UTF-8.
\<close>

theorem program_tables:
  assumes "uuid_codec E" "utf8_decoders (lib_decoders L)" "app_New E sql_Open lower K cfg w0 = (Inr a, w1)" "has_valkey cfg"
    and "runs U E J X k ue L a w"
  shows "distinct (map ed_id (t_drives (w_db w))) \<and> distinct (map ed_public_id (t_drives (w_db w))) \<and>
    distinct (map es_drive_id (t_storages (w_db w))) \<and> es_drive_id ` set (t_storages (w_db w)) \<subseteq> ed_id ` set (t_drives (w_db w)) \<and>
    distinct (map eu_id (t_users (w_db w))) \<and> distinct (map eu_public_id (t_users (w_db w))) \<and>
    distinct (map user_key (t_users (w_db w))) \<and> distinct (map et_id (t_tombs (w_db w))) \<and>
    list_all valid_drive_row (t_drives (w_db w)) \<and> list_all valid_storage_row (t_storages (w_db w)) \<and>
    list_all valid_user_row (t_users (w_db w)) \<and> list_all valid_tomb_row (t_tombs (w_db w))"
  using started_db_ok [OF assms] by (simp add: db_ok_def drive_tables_ok_def drives_ok_def user_table_ok_def users_ok_def tombs_ok_def)

text \<open>
  C3. The inodes. In every such state each stored inode has the id it is stored
  under, one of the five kinds, content of at most 4096 bytes and a revision of at most 26, and the
  content of a directory is a listing that decodes, with distinct names that are not empty.
\<close>

theorem program_nodes:
  assumes "uuid_codec E" "utf8_decoders (lib_decoders L)" "app_New E sql_Open lower K cfg w0 = (Inr a, w1)" "has_valkey cfg"
    and "runs U E J X k ue L a w" "t_nodes (w_db w) i = Some r"
  shows "en_id r = i \<and> en_kind r \<in> {''file'', ''directory'', ''symlink'', ''object'', ''mount''} \<and>
    length (case en_content r of None \<Rightarrow> [] | Some c \<Rightarrow> c) \<le> MaxContentSize \<and> length (en_revision r) \<le> 26 \<and>
    (is_dir (fromEnt r) \<longrightarrow> (\<exists>dc. read_dir E (fromEnt r) = Inr dc \<and> distinct (map de_name (entries dc)) \<and>
       (\<forall>e\<in>set (entries dc). de_name e \<noteq> [])))"
proof -
  have ok: "nodes_ok E (w_db w)" using started_db_ok [OF assms(1-5)] by (simp add: db_ok_def)
  have row: "en_id r = i" "valid_node_row r" using ok assms(6) by (auto simp: nodes_ok_def ids_ok_def)
  have "node_at (w_db w) i = Some (fromEnt r)" using assms(6) by (simp add: node_at_def)
  then have n: "node_ok E (fromEnt r)" using ok by (auto simp: nodes_ok_def)
  have "\<exists>dc. read_dir E (fromEnt r) = Inr dc \<and> distinct (map de_name (entries dc)) \<and> (\<forall>e\<in>set (entries dc). de_name e \<noteq> [])"
    if "is_dir (fromEnt r)"
    using n that holds_dir_read by (fastforce simp: node_ok_def dir_ok_def names_distinct_def)
  then show ?thesis using row by (simp add: valid_node_row_def MaxContentSize_def)
qed

section \<open>A run\<close>

text \<open>A started program, whose first user logs in and creates a drive, both through the server.\<close>

definition demo_run_config :: config where
  "demo_run_config = demo_config\<lparr>cf_allowed_origins := [''https://a.b''],
     cf_cookie := \<lparr>kc_name = ''mdrive_session'', kc_domain = [], kc_secure = True, kc_same_site = ''lax''\<rparr>,
     cf_auth := \<lparr>at_provider = ''keycloak'', at_issuer = ''https://i'', at_client_id = ''c'', at_session_ttl = 86400000000000, at_redirect_uri = [],
       at_post_login_url = [], at_post_logout_url = [], at_encryption_key = replicate 32 CHR ''k'', at_scopes = []\<rparr>\<rparr>"

lemma demo_run_started:
  "\<exists>a w1 key. app_New demo (\<lambda>_. None) (\<lambda>s. s) demo_sdk demo_run_config (world_of empty_db) = (Inr a, w1) \<and> a_auth a = Some demo_auth \<and>
     a_config a = demo_run_config \<and> a_cipher a = AESGCM key \<and> length key = 32"
proof -
  have "newCrypto demo_run_config = Inr (AESGCM (replicate 32 CHR ''k''))" using hex_encode_length [of "replicate 32 CHR ''k''"]
    by (auto simp: newCrypto_def NewAESGCM_def demo_run_config_def demo_config_def hex_decode_encode)
  moreover have "isValidAESKey (replicate 32 CHR ''k'')" by (simp add: isValidAESKey_def)
  moreover have "cf_master_key demo_config \<noteq> []" by (rule demo_config_fields)
  moreover have "newAuth demo (\<lambda>s. s) demo_run_config w = (Inr (Some demo_auth), w\<lparr>w_tick := Suc (w_tick w)\<rparr>)" for w
    by (simp add: newAuth_def auth_New_def demo_run_config_def SameSiteMode_def demo_auth_def seqM_def bindM_def wrapM_def io_no_faults)
  ultimately show ?thesis
    by (simp add: app_New_def demo_run_config_def demo_config_fields Validate_def newInfra_def newUploadRegistry_def newS3Client_def
      s3_NewClient_def newPerm_def NewFGAChecker_def buildCredentials_def demo_sdk_def Let_def seqM_def bindM_def wrapM_def io_no_faults)
qed

definition demo_user_row :: ent_user where
  "demo_user_row = \<lparr>eu_id = ''5'', eu_public_id = ''5'', eu_name = ''n'', eu_email = Some ''e'', eu_provider = ''keycloak'',
     eu_provider_id = ''s'', eu_create_time = 7, eu_update_time = 8\<rparr>"

definition demo_logged :: "nat \<Rightarrow> world" where
  "demo_logged t = (world_of (empty_db\<lparr>t_users := [demo_user_row]\<rparr>))\<lparr>w_tick := t\<rparr>"

lemma demo_logged_simps [simp]:
  "w_tick (demo_logged t) = t" "(demo_logged t)\<lparr>w_tick := n\<rparr> = demo_logged n" "fresh_context (demo_logged t) = demo_logged t"
  by (simp_all add: demo_logged_def fresh_context_def world_of_def)

lemma demo_first_user:
  "findOrCreateUser demo demo_auth ''s'' ''n'' ''e'' ((world_of empty_db)\<lparr>w_tick := Suc (Suc 0)\<rparr>) = (Inr (user_from_ent demo_user_row), demo_logged 9)"
  by (simp add: findOrCreateUser_def lookup_user_def UserGetByProviderID_def demo_auth_def UpsertFromOIDC_def user_get_by_provider_id_def
      user_query_def user_create_def only_def world_of_def empty_db_def bindM_def wrapM_def seqM_def io_no_faults Let_def user_from_ent_def
      valid_user_row_def dec_nat_digit digit_char_def demo_user_row_def demo_logged_def char_of_eq_iff)

lemma demo_state_consumed:
  "consumeStateCookie demo demo_auth demo_callback ''s'' = ([setCookie demo_auth ''auth_state'' [] (- 1)], Inr \<lparr>st_state = ''s'', st_verifier = ''v''\<rparr>)"
proof -
  let ?sd = "\<lparr>st_state = ''s'', st_verifier = ''v''\<rparr>"
  have "state_unmarshal (state_marshal ?sd) = Some ?sd" by (rule state_unmarshal_marshal) (simp_all add: ascii_valid byte_in_def)
  then show ?thesis
    by (simp add: consumeStateCookie_def demo_callback_def request_cookie_def decrypt_def b64url_decode_encode nonce_size_def demo_def)
qed

text \<open>The first login creates the user and sets the session cookie.\<close>

lemma demo_first_login:
  "\<exists>resp c d. Callback demo demo_oidc demo_auth demo_callback (world_of empty_db) = (Inr resp, demo_logged 12) \<and>
     map ck_name (hr_cookies resp) = [''auth_state'', ''mdrive_session''] \<and> c = hr_cookies resp ! 1 \<and>
     writeSessionCookie demo demo_auth d (demo_logged 10) = (Inr c, demo_logged 12) \<and> sd_subject d = ''s'' \<and> session_exact demo d \<and>
     1000 < sd_expires_at d"
proof -
  let ?d = "\<lparr>sd_subject = ''s'', sd_user_id = ''5'', sd_provider = ''keycloak'', sd_is_admin = False, sd_id_token = ''t'', sd_name = ''n'',
     sd_email = ''e'', sd_expires_at = 10 + as_session_ttl demo_auth\<rparr>"
  have d: "session_exact demo ?d"
  proof -
    have "ascii (dec_nat n)" for n
      using dec_nat_digits [of n] by (auto simp: ascii_def list_all_iff is_digit_def byte_in_def)
    then have "time_codec demo" by (simp add: time_codec_def demo_def itoa_int_def parse_uint_dec)
    then show ?thesis by (simp add: session_exact_def ascii_valid byte_in_def demo_auth_def)
  qed
  obtain c where c: "writeSessionCookie demo demo_auth ?d (demo_logged 10) = (Inr c, demo_logged 12)" "ck_name c = ''mdrive_session''"
    by (simp add: writeSessionCookie_def encrypt_def rand_bytes_def draw_def bindM_def wrapM_def time_Now_def Let_def setCookie_def)
      (simp add: demo_def demo_auth_def)
  have "callback_login demo demo_oidc demo_auth ''k'' \<lparr>st_state = ''s'', st_verifier = ''v''\<rparr> (world_of empty_db) = (Inr c, demo_logged 12)"
    using demo_first_user c(1)
    by (simp add: callback_login_def demo_oidc_def wrapM_def bindM_def draw_def resolveIdentity_def time_Now_def world_of_def isAdminRole_def
        user_from_ent_def demo_user_row_def)
  moreover have "query_get demo_callback ''code'' = ''k''" "query_get demo_callback ''state'' = ''s''"
    by (simp_all add: query_get_def demo_callback_def)
  ultimately have "Callback demo demo_oidc demo_auth demo_callback (world_of empty_db) =
      (Inr (http_redirect [setCookie demo_auth ''auth_state'' [] (- 1), c] (if as_post_login_url demo_auth = [] then ''/'' else as_post_login_url demo_auth)),
       demo_logged 12)"
    by (simp add: Callback_def demo_state_consumed)
  moreover have "sd_expires_at ?d > 1000" by (simp add: demo_auth_def)
  ultimately show ?thesis using c d by (force simp: http_redirect_def setCookie_def)
qed

lemma demo_session_accepted:
  assumes "writeSessionCookie demo demo_auth d (demo_logged 10) = (Inr c, demo_logged 12)" "sd_subject d = ''s''" "session_exact demo d"
    "1000 < sd_expires_at d"
  shows "\<exists>s. HandleCookieAuth demo demo_auth None (ck_value c) (demo_logged 12) = (Inr (Some s), demo_logged 16) \<and> ss_user_id s = ''5''"
proof -
  have u: "users_ok (w_db (demo_logged 12))" "subject_row (w_db (demo_logged 12)) ''keycloak'' ''s'' = Some demo_user_row" "eu_id demo_user_row = ''5''"
    by (simp_all add: users_ok_def demo_logged_def demo_user_row_def world_of_def empty_db_def subject_row_def user_key_def)
  then show ?thesis
    using written_session_accepted [OF demo_gcm demo_no_faults assms(3) _ assms(1) u(1), of demo_user_row] assms(2,4) by (auto simp: demo_auth_def)
qed

lemma gcm_demo: "gcm_seal demo k n p = p"
  by (simp add: demo_def)

lemma demo_rand_bytes: "rand_bytes demo n w = (Inr (replicate n CHR ''x''), w\<lparr>w_tick := Suc (w_tick w)\<rparr>)"
  by (simp add: rand_bytes_def draw_def bindM_def) (simp add: demo_def)

lemma demo_sealed:
  assumes "length key = 32"
  obtains x where "length x = 20" "\<And>w. Encrypt demo (AESGCM key) ''s'' w = (Inr x, w\<lparr>w_tick := Suc (w_tick w)\<rparr>)"
proof -
  have "replicate nonce_size CHR ''x'' @ ''s'' = ''xxxxxxxxxxxxs''" by (simp add: nonce_size_def numeral_eq_Suc)
  moreover have "length (b64_encode ''xxxxxxxxxxxxs'') = 20" by (simp add: b64_quad_def)
  ultimately show thesis
    by (intro that [of "b64_encode ''xxxxxxxxxxxxs''"])
      (simp_all add: Encrypt_def demo_rand_bytes bindM_def wrapM_def assms new_cipher_def aes_key_ok_def gcm_demo)
qed

lemma demo_creates:
  assumes "a_cipher a = AESGCM key" "length key = 32" "a_config a = demo_run_config" "ss_user_id s = ''5''"
  shows "\<exists>w i r. serve demo (handler_of demo demo_s3 1 ue a) (Some s) (ReqCreateDrive ''data'' None None) (demo_logged 16) = (Inr (), w) \<and>
      t_nodes (w_db w) i = Some r \<and> is_dir (fromEnt r)"
proof -
  obtain x where x: "length x = 20" "\<And>w. Encrypt demo (AESGCM key) ''s'' w = (Inr x, w\<lparr>w_tick := Suc (w_tick w)\<rparr>)"
    using demo_sealed [OF assms(2)] by blast
  show ?thesis
  by (simp add: x handle_CreateDrive_def voidM_def demo_logged_def demo_user_row_def UserIDFromContext_def
      SessionFromContext_def handler_of_def assms default_storage_def Let_def demo_run_config_def demo_config_def opt_value_def
      CreateDrive_def storageCfgValid_def user_exist_def user_get_by_id_def user_query_def
      CreateRootDirectory_def CreateDirectory_def create_def NewDirectory_def set_root_node_id_def create_drive_tx_def
      drepo_create_def insert_drive_def insert_storage_def drepo_update_def drive_eval put_db_def put_client_def
      valid_drive_row_def valid_storage_row_def encode_eval new_drive_def new_storage_def drive_set_def keep_none_def newNode_def node_write_def
      row_insert_def fromEnt_def parse_entKind kind_tests)
qed

lemma demo_first_runs:
  assumes "a_auth a = Some demo_auth" "Callback demo demo_oidc demo_auth demo_callback (world_of empty_db) = (Inr resp, w1)"
  shows "runs demo_urls demo demo_oidc demo_s3 1 ue demo_library a w1"
proof -
  let ?rq = "\<lparr>hq_query = hq_query demo_callback, hq_cookies = hq_cookies demo_callback, hc_method = ''GET'', hc_path = ''/auth/callback'',
    hc_raw_path = [], hc_origin = [], hc_referer = [], hc_content_type = None, hc_content_length = 0, hc_body = Some []\<rparr>"
  have t: "http_request.truncate ?rq = demo_callback" by (simp add: http_request.defs)
  have "fresh_context (world_of empty_db) = world_of empty_db" by (simp add: fresh_context_def world_of_def)
  then have "finalHandler demo_urls demo demo_oidc (handler_of demo demo_s3 1 ue a) demo_library a ?rq (fresh_context (world_of empty_db)) = (Plain resp, w1)"
    using assms t by (simp add: finalHandler_def CSRFMiddleware_def safeMethods_def flow_answer_def)
  then show ?thesis by (rule on_call [OF at_start])
qed

lemma demo_utf8: "utf8_decoders (lib_decoders demo_library)"
  by (simp add: utf8_decoders_def demo_library_def demo_payload_def ascii_valid byte_in_def)

lemma demo_run_valkey: "has_valkey demo_run_config"
  by (simp add: has_valkey_def demo_run_config_def demo_config_def)

theorem program_tables_witness:
  "\<exists>a w w1. app_New demo (\<lambda>_. None) (\<lambda>s. s) demo_sdk demo_run_config (world_of empty_db) = (Inr a, w1) \<and>
     runs demo_urls demo demo_oidc demo_s3 1 (\<lambda>_. None) demo_library a w \<and> t_users (w_db w) = [demo_user_row] \<and>
     list_all valid_user_row (t_users (w_db w))"
proof -
  obtain a w1 where a: "app_New demo (\<lambda>_. None) (\<lambda>s. s) demo_sdk demo_run_config (world_of empty_db) = (Inr a, w1)" "a_auth a = Some demo_auth"
    using demo_run_started by blast
  obtain resp where "Callback demo demo_oidc demo_auth demo_callback (world_of empty_db) = (Inr resp, demo_logged 12)"
    using demo_first_login by blast
  then have r: "runs demo_urls demo demo_oidc demo_s3 1 (\<lambda>_. None) demo_library a (demo_logged 12)" by (rule demo_first_runs [OF a(2)])
  moreover have "t_users (w_db (demo_logged 12)) = [demo_user_row]" by (simp add: demo_logged_def world_of_def)
  ultimately show ?thesis
    using program_tables [OF demo_uuid_codec demo_utf8 a(1) demo_run_valkey r] a(1) by blast
qed

theorem program_nodes_witness:
  "\<exists>a w w1 i r dc. app_New demo (\<lambda>_. None) (\<lambda>s. s) demo_sdk demo_run_config (world_of empty_db) = (Inr a, w1) \<and>
     runs demo_urls demo demo_oidc demo_s3 1 (\<lambda>_. None) demo_library a w \<and> t_nodes (w_db w) i = Some r \<and>
     is_dir (fromEnt r) \<and> read_dir demo (fromEnt r) = Inr dc"
proof -
  obtain a w1 key where a: "app_New demo (\<lambda>_. None) (\<lambda>s. s) demo_sdk demo_run_config (world_of empty_db) = (Inr a, w1)"
    "a_auth a = Some demo_auth" "a_cipher a = AESGCM key" "length key = 32" "a_config a = demo_run_config"
    using demo_run_started by blast
  obtain resp c d where l: "Callback demo demo_oidc demo_auth demo_callback (world_of empty_db) = (Inr resp, demo_logged 12)"
    "writeSessionCookie demo demo_auth d (demo_logged 10) = (Inr c, demo_logged 12)" "sd_subject d = ''s''" "session_exact demo d"
    "1000 < sd_expires_at d" using demo_first_login by blast
  obtain s where s: "HandleCookieAuth demo demo_auth None (ck_value c) (demo_logged 12) = (Inr (Some s), demo_logged 16)" "ss_user_id s = ''5''"
    using demo_session_accepted [OF l(2-5)] by blast
  let ?H = "handler_of demo demo_s3 1 (\<lambda>_. None) a" and ?rq = "demo_call ''POST'' ''/v1/drives'' [c]"
  obtain w i r where w: "serve demo ?H (Some s) (ReqCreateDrive ''data'' None None) (demo_logged 16) = (Inr (), w)"
    "t_nodes (w_db w) i = Some r" "is_dir (fromEnt r)" using demo_creates [OF a(3,4,5) s(2)] by blast
  have f: "CSRFMiddleware demo_urls (cf_allowed_origins (a_config a)) ''POST'' ''https://a.b'' [] = None"
    by (simp add: CSRFMiddleware_def a(5) demo_run_config_def)
  have n: "ck_name c = ''mdrive_session''"
    using read_written(2) [OF demo_gcm l(4,2)] by (simp add: demo_auth_def)
  have "ServeHTTP ''POST'' ''/v1/drives'' = RouteTo OpCreateDrive []"
    by (simp add: ServeHTTP_def router_defs method_switch_def has_prefix_def)
  then have o: "ServeHTTP (hc_method ?rq) (fst (routed_path (lib_normalize demo_library) ?rq)) = RouteTo OpCreateDrive []"
    "decode_operation (lib_decoders demo_library) ?rq (snd (routed_path (lib_normalize demo_library) ?rq)) OpCreateDrive [] =
       Some (Change (ReqCreateDrive ''data'' None None))"
    by (simp_all add: demo_call_def routed_path_def decode_operation_def demo_library_def demo_payload_def)
  have "finalHandler demo_urls demo demo_oidc ?H demo_library a ?rq (fresh_context (demo_logged 12)) = (Done, w)"
    using s(1) w(1) f o(2) n ogen_serve_routed [OF o(1), of _ demo ?H "demo_logged 12"]
    by (simp add: finalHandler_def demo_call_def a(2) ogen_operation_def securityCookieAuth_def secured_def
        request_cookie_def server_security_def bindM_def handler_outcome_def api_chain_def)
  then have runs: "runs demo_urls demo demo_oidc demo_s3 1 (\<lambda>_. None) demo_library a w"
    by (rule on_call [OF demo_first_runs [OF a(2) l(1)]])
  show ?thesis
    using program_nodes [OF demo_uuid_codec demo_utf8 a(1) demo_run_valkey runs w(2)] a(1) runs w(2,3) by blast
qed

end
