(* ===== verification/Codec.thy ===== *)
theory Codec
  imports Upload
begin

unbundle bit_operations_syntax

text \<open>
  The bodies of the API's requests (pkg/api/oas_json_gen.go): each type's \<open>Encode\<close> and \<open>Decode\<close>. The generated decoders have one shape,
  \<open>decode_object\<close>: a switch over the member's name, a bit for each required field it meets, and the fields whose bit is
  missing as the error. The library jx reads and writes the text; here is the value between the two. An int64 is
  a 64-bit word, an optional field an option.
\<close>

section \<open>Decoding an object\<close>

datatype decode_error = WrongType | InField string decode_error | FieldsRequired "string list"

text \<open>A field: its name, whether it is required, and how its value is read into the object.\<close>

type_synonym 's field = "string \<times> bool \<times> (json \<Rightarrow> 's \<Rightarrow> decode_error + 's)"

fun field_index :: "string \<Rightarrow> 's field list \<Rightarrow> nat \<Rightarrow> (nat \<times> bool \<times> (json \<Rightarrow> 's \<Rightarrow> decode_error + 's)) option" where
  "field_index k [] i = None"
| "field_index k ((name, f) # fs) i = (if k = name then Some (i, f) else field_index k fs (Suc i))"

text \<open>The members in their order: an unknown one is skipped, a repeated one is read again.\<close>

fun decode_members :: "'s field list \<Rightarrow> (string \<times> json) list \<Rightarrow> 's \<Rightarrow> 8 word \<Rightarrow> decode_error + 's \<times> 8 word" where
  "decode_members fs [] s seen = Inr (s, seen)"
| "decode_members fs ((k, v) # ms) s seen =
     (case field_index k fs 0 of
        None \<Rightarrow> decode_members fs ms s seen
      | Some (i, required, f) \<Rightarrow>
          (case f v s of
             Inl e \<Rightarrow> Inl (InField k e)
           | Inr s' \<Rightarrow> decode_members fs ms s' (if required then seen OR push_bit i 1 else seen)))"

definition OnesCount8 :: "8 word \<Rightarrow> nat" where
  "OnesCount8 w = length (filter (bit w) [0..<8])"

definition TrailingZeros8 :: "8 word \<Rightarrow> nat" where
  "TrailingZeros8 w = length (takeWhile (\<lambda>i. \<not> bit w i) [0..<8])"

text \<open>The loop over the bits that are missing: the lowest first, then cleared.\<close>

fun missed_fields :: "string list \<Rightarrow> nat \<Rightarrow> 8 word \<Rightarrow> string list" where
  "missed_fields names 0 result = []"
| "missed_fields names (Suc n) result =
     (let b = TrailingZeros8 result in
      (if b < length names then names ! b else itoa_nat b) # missed_fields names n (result AND NOT (push_bit b 1)))"

definition decode_object :: "'s field list \<Rightarrow> 8 word \<Rightarrow> 's \<Rightarrow> json \<Rightarrow> decode_error + 's" where
  "decode_object fs masked s v =
     (case v of
        JObj ms \<Rightarrow>
          (case decode_members fs ms s 0 of
             Inl e \<Rightarrow> Inl e
           | Inr (s', seen) \<Rightarrow>
               let result = (seen AND masked) XOR masked in
               if result \<noteq> 0 then Inl (FieldsRequired (missed_fields (map fst fs) (OnesCount8 result) result)) else Inr s')
      | _ \<Rightarrow> Inl WrongType)"

section \<open>Reading and writing fields\<close>

definition str_value :: "((string \<Rightarrow> string) \<Rightarrow> 's \<Rightarrow> 's) \<Rightarrow> json \<Rightarrow> 's \<Rightarrow> decode_error + 's" where
  "str_value upd v s = (case v of JStr x \<Rightarrow> Inr (upd (\<lambda>_. x) s) | _ \<Rightarrow> Inl WrongType)"

definition OptString_value :: "((string option \<Rightarrow> string option) \<Rightarrow> 's \<Rightarrow> 's) \<Rightarrow> json \<Rightarrow> 's \<Rightarrow> decode_error + 's" where
  "OptString_value upd v s = (case v of JStr x \<Rightarrow> Inr (upd (\<lambda>_. Some x) s) | _ \<Rightarrow> Inl WrongType)"

definition OptBool_value :: "((bool option \<Rightarrow> bool option) \<Rightarrow> 's \<Rightarrow> 's) \<Rightarrow> json \<Rightarrow> 's \<Rightarrow> decode_error + 's" where
  "OptBool_value upd v s = (case v of JBool x \<Rightarrow> Inr (upd (\<lambda>_. Some x) s) | _ \<Rightarrow> Inl WrongType)"

text \<open>jx reads an integer of 64 bits: no fraction, no exponent and no overflow.\<close>

definition read_int64 :: "json \<Rightarrow> 64 word option" where
  "read_int64 v = (case v of JNum l \<Rightarrow> map_option word_of_int (parse_int64 l) | _ \<Rightarrow> None)"

definition int64_value :: "((64 word \<Rightarrow> 64 word) \<Rightarrow> 's \<Rightarrow> 's) \<Rightarrow> json \<Rightarrow> 's \<Rightarrow> decode_error + 's" where
  "int64_value upd v s = (case read_int64 v of Some n \<Rightarrow> Inr (upd (\<lambda>_. n) s) | None \<Rightarrow> Inl WrongType)"

definition OptInt64_value :: "((64 word option \<Rightarrow> 64 word option) \<Rightarrow> 's \<Rightarrow> 's) \<Rightarrow> json \<Rightarrow> 's \<Rightarrow> decode_error + 's" where
  "OptInt64_value upd v s = (case read_int64 v of Some n \<Rightarrow> Inr (upd (\<lambda>_. Some n) s) | None \<Rightarrow> Inl WrongType)"

fun read_strings :: "json list \<Rightarrow> string list option" where
  "read_strings [] = Some []"
| "read_strings (JStr x # vs) = map_option (\<lambda>xs. x # xs) (read_strings vs)"
| "read_strings _ = None"

definition strs_value :: "((string list \<Rightarrow> string list) \<Rightarrow> 's \<Rightarrow> 's) \<Rightarrow> json \<Rightarrow> 's \<Rightarrow> decode_error + 's" where
  "strs_value upd v s =
     (case v of
        JArr vs \<Rightarrow> (case read_strings vs of Some xs \<Rightarrow> Inr (upd (\<lambda>_. xs) s) | None \<Rightarrow> Inl WrongType)
      | _ \<Rightarrow> Inl WrongType)"

definition int64_json :: "64 word \<Rightarrow> json" where
  "int64_json n = JNum (itoa_int (sint n))"

text \<open>The member of an optional field, written when it is set.\<close>

definition opt_member :: "string \<Rightarrow> ('a \<Rightarrow> json) \<Rightarrow> 'a option \<Rightarrow> (string \<times> json) list" where
  "opt_member k f x = (case x of None \<Rightarrow> [] | Some y \<Rightarrow> [(k, f y)])"

section \<open>Facts on the decoder\<close>

lemma read_int64_json [simp]: "read_int64 (int64_json n) = Some n"
proof -
  have b: "- (2 ^ 63) \<le> sint n" "sint n < 2 ^ 63" using sint_range_size [of n] by (simp_all add: word_size)
  have "parse_int64 (itoa_int (sint n)) = Some (sint n)"
  proof (cases "sint n < 0")
    case True
    then have "parse_uint (dec_nat (nat (- sint n))) = Some (nat (- sint n))" by (simp add: parse_uint_dec)
    then show ?thesis using True b by (simp add: itoa_int_def parse_int64_def)
  next
    case False
    then show ?thesis using b parse_int64_dec [of "nat (sint n)"] by (simp add: itoa_int_def)
  qed
  then show ?thesis by (simp add: read_int64_def int64_json_def)
qed

lemma read_strings_map [simp]: "read_strings (map JStr xs) = Some xs"
  by (induction xs) simp_all

lemmas value_defs = str_value_def OptString_value_def OptBool_value_def int64_value_def OptInt64_value_def strs_value_def

text \<open>The loop names the bits that are set, in their order.\<close>

lemma trailing_zeros:
  assumes "filter (bit w) [0..<8] = b # bs" shows "TrailingZeros8 w = b" "filter (bit (w AND NOT (push_bit b 1))) [0..<8] = bs"
proof -
  obtain us vs where s: "[0..<8] = us @ b # vs" "\<forall>u\<in>set us. \<not> bit w u" "bit w b" "bs = filter (bit w) vs"
    using assms by (auto simp: filter_eq_Cons_iff)
  have b: "b = length us" using arg_cong [OF s(1), of "\<lambda>xs. xs ! length us"] arg_cong [OF s(1), of length] by (simp add: nth_upt)
  have t: "takeWhile (\<lambda>i. \<not> bit w i) [0..<8] = us" unfolding s(1) using s(2,3) by (simp add: takeWhile_append2)
  show "TrailingZeros8 w = b" unfolding TrailingZeros8_def t b ..
  have d: "b \<notin> set us" "b \<notin> set vs" "b < 8" using arg_cong [OF s(1), of distinct] arg_cong [OF s(1), of set] by auto
  have c: "bit (w AND NOT (push_bit b 1)) i \<longleftrightarrow> bit w i \<and> i \<noteq> b" for i using d(3) bit_imp_le_length [of w i] by (auto simp: bit_simps)
  show "filter (bit (w AND NOT (push_bit b 1))) [0..<8] = bs" unfolding s(1,4) c using d(1,2) s(2) by (auto simp: filter_empty_conv intro!: filter_cong)
qed

lemma missed_fields_eq:
  "missed_fields names (OnesCount8 w) w = map (\<lambda>b. if b < length names then names ! b else itoa_nat b) (filter (bit w) [0..<8])"
proof -
  have "missed_fields names (length bs) w = map (\<lambda>b. if b < length names then names ! b else itoa_nat b) bs"
    if "filter (bit w) [0..<8] = bs" for bs
    using that
  proof (induction bs arbitrary: w)
    case (Cons b bs)
    show ?case using Cons.IH [OF trailing_zeros(2) [OF Cons.prems]] trailing_zeros(1) [OF Cons.prems] by simp
  qed simp
  then show ?thesis by (simp add: OnesCount8_def)
qed

section \<open>A reference decoder\<close>

text \<open>What the decoders promise: the members are read in their order and no required field is missing.\<close>

fun apply_members :: "'s field list \<Rightarrow> (string \<times> json) list \<Rightarrow> 's \<Rightarrow> decode_error + 's" where
  "apply_members fs [] s = Inr s"
| "apply_members fs ((k, v) # ms) s =
     (case map_of fs k of
        None \<Rightarrow> apply_members fs ms s
      | Some (_, f) \<Rightarrow> (case f v s of Inl e \<Rightarrow> Inl (InField k e) | Inr s' \<Rightarrow> apply_members fs ms s'))"

definition absent_fields :: "'s field list \<Rightarrow> (string \<times> json) list \<Rightarrow> string list" where
  "absent_fields fs ms = map fst (filter (\<lambda>(name, required, f). required \<and> name \<notin> fst ` set ms) fs)"

definition decode_reference :: "'s field list \<Rightarrow> 's \<Rightarrow> json \<Rightarrow> decode_error + 's" where
  "decode_reference fs s v =
     (case v of
        JObj ms \<Rightarrow>
          (case apply_members fs ms s of
             Inl e \<Rightarrow> Inl e
           | Inr s' \<Rightarrow> if absent_fields fs ms = [] then Inr s' else Inl (FieldsRequired (absent_fields fs ms)))
      | _ \<Rightarrow> Inl WrongType)"

text \<open>The table of a type fits its mask: at most eight fields with different names, and a bit for each required one.\<close>

definition table_ok :: "'s field list \<Rightarrow> 8 word \<Rightarrow> bool" where
  "table_ok fs masked \<longleftrightarrow> distinct (map fst fs) \<and> length fs \<le> 8 \<and>
     list_all (\<lambda>i. bit masked i \<longleftrightarrow> i < length fs \<and> fst (snd (fs ! i))) [0..<8]"

lemma field_index_Some:
  "field_index k fs n = Some (i, rf) \<Longrightarrow> n \<le> i \<and> i < n + length fs \<and> fs ! (i - n) = (k, rf) \<and> map_of fs k = Some rf"
proof (induction k fs n rule: field_index.induct)
  case (2 k name f fs n)
  then show ?case by (cases "k = name") (auto simp: nth_Cons' less_Suc_eq_le Suc_le_eq)
qed simp

lemma field_index_None: "field_index k fs n = None \<longleftrightarrow> k \<notin> fst ` set fs"
  by (induction k fs n rule: field_index.induct) auto

text \<open>The bits are those of the required fields that were met.\<close>

lemma decode_members_bits:
  assumes d: "distinct (map fst fs)" "length fs \<le> 8" and i: "i < length fs"
  shows "decode_members fs ms s seen = Inr (s', seen') \<Longrightarrow>
    bit seen' i \<longleftrightarrow> bit seen i \<or> fst (snd (fs ! i)) \<and> fst (fs ! i) \<in> fst ` set ms"
proof (induction ms arbitrary: s seen)
  case (Cons m ms)
  obtain k v where m: "m = (k, v)" by (cases m)
  show ?case
  proof (cases "field_index k fs 0")
    case None
    then have "fst (fs ! i) \<noteq> k" using i unfolding field_index_None by (metis image_eqI nth_mem)
    then show ?thesis using Cons None by (simp add: m)
  next
    case (Some x)
    obtain j r f where x: "x = (j, r, f)" by (cases x)
    obtain s1 where f: "f v s = Inr s1" using Cons.prems Some by (auto simp: m x split: sum.splits)
    have j: "j < length fs" "fs ! j = (k, r, f)" using field_index_Some [OF Some [unfolded x]] by simp_all
    let ?seen = "if r then seen OR push_bit j 1 else seen"
    have k: "fst (fs ! i) = k \<longleftrightarrow> i = j" using nth_eq_iff_index_eq [OF d(1), of i j] i j by simp
    have "decode_members fs ms s1 ?seen = Inr (s', seen')" using Cons.prems Some f by (simp add: m x)
    moreover have "bit ?seen i \<longleftrightarrow> bit seen i \<or> r \<and> i = j" using j(1) d(2) by (auto simp: bit_simps)
    moreover have "i = j \<Longrightarrow> fst (snd (fs ! i)) = r" using j(2) by simp
    ultimately show ?thesis using Cons.IH [of s1 ?seen] k by (auto simp: m)
  qed
qed simp

lemma decode_members_apply:
  "(case decode_members fs ms s seen of Inl e \<Rightarrow> Inl e | Inr (s', _) \<Rightarrow> Inr s') = apply_members fs ms s"
proof (induction ms arbitrary: s seen)
  case (Cons m ms)
  obtain k v where m: "m = (k, v)" by (cases m)
  show ?case
  proof (cases "field_index k fs 0")
    case None
    then have "map_of fs k = None" by (simp add: field_index_None map_of_eq_None_iff)
    then show ?thesis using Cons None by (simp add: m)
  next
    case (Some x)
    obtain i r f where x: "x = (i, r, f)" by (cases x)
    then have "map_of fs k = Some (r, f)" using field_index_Some Some by blast
    then show ?thesis using Cons Some by (cases "f v s") (simp_all add: m x)
  qed
qed simp

lemma filter_below:
  assumes "n \<le> k" shows "filter (\<lambda>i. i < n \<and> P i) [0..<k] = filter P [0..<n]"
proof -
  have "[0..<k] = [0..<n] @ [n..<k]" using assms upt_add_eq_append [of 0 n "k - n"] by simp
  then show ?thesis by (auto simp: filter_empty_conv intro!: filter_cong)
qed

lemma absent_bits:
  assumes t: "table_ok fs masked" and m: "decode_members fs ms s 0 = Inr (s', seen)"
  shows "map (\<lambda>b. if b < length (map fst fs) then map fst fs ! b else itoa_nat b) (filter (bit ((seen AND masked) XOR masked)) [0..<8]) =
    absent_fields fs ms"
proof -
  let ?P = "\<lambda>(name, required, f). required \<and> name \<notin> fst ` set ms"
  have l: "distinct (map fst fs)" "length fs \<le> 8" and k: "\<forall>i<8. bit masked i \<longleftrightarrow> i < length fs \<and> fst (snd (fs ! i))"
    using t by (auto simp: table_ok_def list_all_iff)
  have bit: "bit ((seen AND masked) XOR masked) i \<longleftrightarrow> i < length fs \<and> ?P (fs ! i)" if "i < 8" for i
  proof -
    obtain name r f where f: "fs ! i = (name, r, f)" by (cases "fs ! i") auto
    have "i < length fs \<Longrightarrow> bit seen i \<longleftrightarrow> r \<and> name \<in> fst ` set ms" using decode_members_bits [OF l _ m, of i] f by simp
    then show ?thesis using that k f by (auto simp only: bit_and_iff bit_xor_iff prod.case fst_conv snd_conv)
  qed
  have "filter (bit ((seen AND masked) XOR masked)) [0..<8] = filter (\<lambda>i. i < length fs \<and> ?P (fs ! i)) [0..<8]"
    by (rule filter_cong [OF refl]) (use bit in \<open>simp only: set_upt atLeastLessThan_iff\<close>)
  also have "\<dots> = filter (\<lambda>i. ?P (fs ! i)) [0..<length fs]" using filter_below [OF l(2)] .
  finally have f: "filter (bit ((seen AND masked) XOR masked)) [0..<8] = filter (\<lambda>i. ?P (fs ! i)) [0..<length fs]" .
  have "absent_fields fs ms = map fst (filter ?P (map ((!) fs) [0..<length fs]))" by (simp add: absent_fields_def map_nth)
  also have "\<dots> = map (\<lambda>i. fst (fs ! i)) (filter (\<lambda>i. ?P (fs ! i)) [0..<length fs])" by (simp add: filter_map comp_def)
  finally show ?thesis unfolding f by (simp only:) (intro map_cong refl, simp only: set_filter set_upt mem_Collect_eq atLeastLessThan_iff length_map if_True nth_map)
qed

lemma zero_no_bits: "w = 0 \<longleftrightarrow> filter (bit w) [0..<8] = []" for w :: "8 word"
  by (auto simp: filter_empty_conv bit_eq_iff dest: bit_imp_le_length)

text \<open>The generated decoder and the reference agree, on the object and on the error.\<close>

lemma decode_object_reference:
  assumes "table_ok fs masked" shows "decode_object fs masked s v = decode_reference fs s v"
proof (cases v)
  case (JObj ms)
  show ?thesis
  proof (cases "decode_members fs ms s 0")
    case (Inl e)
    then have "apply_members fs ms s = Inl e" using decode_members_apply [of fs ms s 0] by simp
    then show ?thesis using Inl by (simp add: JObj decode_object_def decode_reference_def)
  next
    case (Inr x)
    obtain s' seen where x: "x = (s', seen)" by (cases x)
    note m = Inr [unfolded x]
    have "apply_members fs ms s = Inr s'" using decode_members_apply [of fs ms s 0] m by simp
    moreover have "(seen AND masked) XOR masked = 0 \<longleftrightarrow> absent_fields fs ms = []"
      unfolding absent_bits [OF assms m, symmetric] zero_no_bits by simp
    ultimately show ?thesis using m absent_bits [OF assms m]
      by (simp add: JObj decode_object_def decode_reference_def Let_def missed_fields_eq)
  qed
qed (simp_all add: decode_object_def decode_reference_def)

end
