(* ===== verification/Bodies.thy ===== *)
theory Bodies
  imports Codec Handlers
begin

text \<open>
  The request types of the API (pkg/api/oas_schemas_gen.go) with their \<open>Encode\<close> and \<open>Decode\<close> (oas_json_gen.go). A type's table lists its
  fields in the order of \<open>jsonFieldsNameOf\<close>; the number \<open>Decode\<close> has is its mask of required fields. \<open>Decode\<close> reads into the object it is
  called on, which is the zero value but for the content of a large write, where a repeated member is merged.
\<close>

section \<open>Types\<close>

record ObjectContent =
  oc_Bucket :: string
  oc_Key :: string
  oc_ContentType :: "string option"
  oc_Checksum :: "string option"

definition zero_ObjectContent :: ObjectContent where
  "zero_ObjectContent = \<lparr>oc_Bucket = [], oc_Key = [], oc_ContentType = None, oc_Checksum = None\<rparr>"

definition Encode_ObjectContent :: "ObjectContent \<Rightarrow> json" where
  "Encode_ObjectContent x =
     JObj ([(''bucket'', JStr (oc_Bucket x)), (''key'', JStr (oc_Key x))] @ opt_member ''contentType'' JStr (oc_ContentType x) @
       opt_member ''checksum'' JStr (oc_Checksum x))"

definition ObjectContent_fields :: "ObjectContent field list" where
  "ObjectContent_fields =
    [(''bucket'', True, str_value oc_Bucket_update),
     (''key'', True, str_value oc_Key_update),
     (''contentType'', False, OptString_value oc_ContentType_update),
     (''checksum'', False, OptString_value oc_Checksum_update)]"

definition Decode_ObjectContent :: "ObjectContent \<Rightarrow> json \<Rightarrow> decode_error + ObjectContent" where
  "Decode_ObjectContent s v = decode_object ObjectContent_fields 3 s v"

definition zero_StorageConfig :: api_storage where
  "zero_StorageConfig = \<lparr>as_bucket = [], as_region = [], as_endpoint = None, as_access_key = None, as_secret_key = None, as_use_path_style = None\<rparr>"

definition Encode_StorageConfig :: "api_storage \<Rightarrow> json" where
  "Encode_StorageConfig x =
     JObj ([(''bucket'', JStr (as_bucket x))] @ opt_member ''endpoint'' JStr (as_endpoint x) @ [(''region'', JStr (as_region x))] @
       opt_member ''accessKey'' JStr (as_access_key x) @ opt_member ''secretKey'' JStr (as_secret_key x) @
       opt_member ''usePathStyle'' JBool (as_use_path_style x))"

definition StorageConfig_fields :: "api_storage field list" where
  "StorageConfig_fields =
    [(''bucket'', True, str_value as_bucket_update),
     (''endpoint'', False, OptString_value as_endpoint_update),
     (''region'', True, str_value as_region_update),
     (''accessKey'', False, OptString_value as_access_key_update),
     (''secretKey'', False, OptString_value as_secret_key_update),
     (''usePathStyle'', False, OptBool_value as_use_path_style_update)]"

definition Decode_StorageConfig :: "api_storage \<Rightarrow> json \<Rightarrow> decode_error + api_storage" where
  "Decode_StorageConfig s v = decode_object StorageConfig_fields 5 s v"

record MkdirReq =
  mkdir_Path :: string

definition zero_MkdirReq :: MkdirReq where
  "zero_MkdirReq = \<lparr>mkdir_Path = []\<rparr>"

definition Encode_MkdirReq :: "MkdirReq \<Rightarrow> json" where
  "Encode_MkdirReq x = JObj ([(''path'', JStr (mkdir_Path x))])"

definition MkdirReq_fields :: "MkdirReq field list" where
  "MkdirReq_fields =
    [(''path'', True, str_value mkdir_Path_update)]"

definition Decode_MkdirReq :: "MkdirReq \<Rightarrow> json \<Rightarrow> decode_error + MkdirReq" where
  "Decode_MkdirReq s v = decode_object MkdirReq_fields 1 s v"

record TouchReq =
  touch_Path :: string

definition zero_TouchReq :: TouchReq where
  "zero_TouchReq = \<lparr>touch_Path = []\<rparr>"

definition Encode_TouchReq :: "TouchReq \<Rightarrow> json" where
  "Encode_TouchReq x = JObj ([(''path'', JStr (touch_Path x))])"

definition TouchReq_fields :: "TouchReq field list" where
  "TouchReq_fields =
    [(''path'', True, str_value touch_Path_update)]"

definition Decode_TouchReq :: "TouchReq \<Rightarrow> json \<Rightarrow> decode_error + TouchReq" where
  "Decode_TouchReq s v = decode_object TouchReq_fields 1 s v"

record RmReq =
  rm_Paths :: "string list"
  rm_Recursive :: "bool option"

definition zero_RmReq :: RmReq where
  "zero_RmReq = \<lparr>rm_Paths = [], rm_Recursive = None\<rparr>"

definition Encode_RmReq :: "RmReq \<Rightarrow> json" where
  "Encode_RmReq x = JObj ([(''paths'', JArr (map JStr (rm_Paths x)))] @ opt_member ''recursive'' JBool (rm_Recursive x))"

definition RmReq_fields :: "RmReq field list" where
  "RmReq_fields =
    [(''paths'', True, strs_value rm_Paths_update),
     (''recursive'', False, OptBool_value rm_Recursive_update)]"

definition Decode_RmReq :: "RmReq \<Rightarrow> json \<Rightarrow> decode_error + RmReq" where
  "Decode_RmReq s v = decode_object RmReq_fields 1 s v"

record MvReq =
  mv_Sources :: "string list"
  mv_Destination :: string

definition zero_MvReq :: MvReq where
  "zero_MvReq = \<lparr>mv_Sources = [], mv_Destination = []\<rparr>"

definition Encode_MvReq :: "MvReq \<Rightarrow> json" where
  "Encode_MvReq x = JObj ([(''sources'', JArr (map JStr (mv_Sources x))), (''destination'', JStr (mv_Destination x))])"

definition MvReq_fields :: "MvReq field list" where
  "MvReq_fields =
    [(''sources'', True, strs_value mv_Sources_update),
     (''destination'', True, str_value mv_Destination_update)]"

definition Decode_MvReq :: "MvReq \<Rightarrow> json \<Rightarrow> decode_error + MvReq" where
  "Decode_MvReq s v = decode_object MvReq_fields 3 s v"

record WriteReq =
  write_Path :: string
  write_Content :: string

definition zero_WriteReq :: WriteReq where
  "zero_WriteReq = \<lparr>write_Path = [], write_Content = []\<rparr>"

definition Encode_WriteReq :: "WriteReq \<Rightarrow> json" where
  "Encode_WriteReq x = JObj ([(''path'', JStr (write_Path x)), (''content'', JStr (write_Content x))])"

definition WriteReq_fields :: "WriteReq field list" where
  "WriteReq_fields =
    [(''path'', True, str_value write_Path_update),
     (''content'', True, str_value write_Content_update)]"

definition Decode_WriteReq :: "WriteReq \<Rightarrow> json \<Rightarrow> decode_error + WriteReq" where
  "Decode_WriteReq s v = decode_object WriteReq_fields 3 s v"

record WriteLargeReq =
  large_Path :: string
  large_Size :: "64 word"
  large_Object :: ObjectContent

definition zero_WriteLargeReq :: WriteLargeReq where
  "zero_WriteLargeReq = \<lparr>large_Path = [], large_Size = 0, large_Object = zero_ObjectContent\<rparr>"

definition Encode_WriteLargeReq :: "WriteLargeReq \<Rightarrow> json" where
  "Encode_WriteLargeReq x =
     JObj (
       [(''path'', JStr (large_Path x)), (''size'', int64_json (large_Size x)), (''object'', Encode_ObjectContent (large_Object x))])"

definition WriteLargeReq_fields :: "WriteLargeReq field list" where
  "WriteLargeReq_fields =
    [(''path'', True, str_value large_Path_update),
     (''size'', True, int64_value large_Size_update),
     (''object'', True, (\<lambda>v s. map_sum id (\<lambda>x. large_Object_update (\<lambda>_. x) s) (Decode_ObjectContent (large_Object s) v)))]"

definition Decode_WriteLargeReq :: "WriteLargeReq \<Rightarrow> json \<Rightarrow> decode_error + WriteLargeReq" where
  "Decode_WriteLargeReq s v = decode_object WriteLargeReq_fields 7 s v"

record SymlinkReq =
  symlink_Target :: string
  symlink_LinkPath :: string

definition zero_SymlinkReq :: SymlinkReq where
  "zero_SymlinkReq = \<lparr>symlink_Target = [], symlink_LinkPath = []\<rparr>"

definition Encode_SymlinkReq :: "SymlinkReq \<Rightarrow> json" where
  "Encode_SymlinkReq x = JObj ([(''target'', JStr (symlink_Target x)), (''linkPath'', JStr (symlink_LinkPath x))])"

definition SymlinkReq_fields :: "SymlinkReq field list" where
  "SymlinkReq_fields =
    [(''target'', True, str_value symlink_Target_update),
     (''linkPath'', True, str_value symlink_LinkPath_update)]"

definition Decode_SymlinkReq :: "SymlinkReq \<Rightarrow> json \<Rightarrow> decode_error + SymlinkReq" where
  "Decode_SymlinkReq s v = decode_object SymlinkReq_fields 3 s v"

record HardlinkReq =
  hardlink_SrcPath :: string
  hardlink_LinkPath :: string

definition zero_HardlinkReq :: HardlinkReq where
  "zero_HardlinkReq = \<lparr>hardlink_SrcPath = [], hardlink_LinkPath = []\<rparr>"

definition Encode_HardlinkReq :: "HardlinkReq \<Rightarrow> json" where
  "Encode_HardlinkReq x = JObj ([(''srcPath'', JStr (hardlink_SrcPath x)), (''linkPath'', JStr (hardlink_LinkPath x))])"

definition HardlinkReq_fields :: "HardlinkReq field list" where
  "HardlinkReq_fields =
    [(''srcPath'', True, str_value hardlink_SrcPath_update),
     (''linkPath'', True, str_value hardlink_LinkPath_update)]"

definition Decode_HardlinkReq :: "HardlinkReq \<Rightarrow> json \<Rightarrow> decode_error + HardlinkReq" where
  "Decode_HardlinkReq s v = decode_object HardlinkReq_fields 3 s v"

record MountReq =
  mount_MountPath :: string
  mount_SourceDriveID :: string

definition zero_MountReq :: MountReq where
  "zero_MountReq = \<lparr>mount_MountPath = [], mount_SourceDriveID = []\<rparr>"

definition Encode_MountReq :: "MountReq \<Rightarrow> json" where
  "Encode_MountReq x = JObj ([(''mountPath'', JStr (mount_MountPath x)), (''sourceDriveID'', JStr (mount_SourceDriveID x))])"

definition MountReq_fields :: "MountReq field list" where
  "MountReq_fields =
    [(''mountPath'', True, str_value mount_MountPath_update),
     (''sourceDriveID'', True, str_value mount_SourceDriveID_update)]"

definition Decode_MountReq :: "MountReq \<Rightarrow> json \<Rightarrow> decode_error + MountReq" where
  "Decode_MountReq s v = decode_object MountReq_fields 3 s v"

record DriveCreate =
  create_Name :: string
  create_Description :: "string option"
  create_Storage :: "api_storage option"

definition zero_DriveCreate :: DriveCreate where
  "zero_DriveCreate = \<lparr>create_Name = [], create_Description = None, create_Storage = None\<rparr>"

definition Encode_DriveCreate :: "DriveCreate \<Rightarrow> json" where
  "Encode_DriveCreate x =
     JObj ([(''name'', JStr (create_Name x))] @ opt_member ''description'' JStr (create_Description x) @
       opt_member ''storage'' Encode_StorageConfig (create_Storage x))"

definition DriveCreate_fields :: "DriveCreate field list" where
  "DriveCreate_fields =
    [(''name'', True, str_value create_Name_update),
     (''description'', False, OptString_value create_Description_update),
     (''storage'', False, (\<lambda>v s. map_sum id (\<lambda>x. create_Storage_update (\<lambda>_. Some x) s) (Decode_StorageConfig zero_StorageConfig v)))]"

definition Decode_DriveCreate :: "DriveCreate \<Rightarrow> json \<Rightarrow> decode_error + DriveCreate" where
  "Decode_DriveCreate s v = decode_object DriveCreate_fields 1 s v"

record DriveUpdateReq =
  update_Name :: "string option"
  update_Description :: "string option"

definition zero_DriveUpdate :: DriveUpdateReq where
  "zero_DriveUpdate = \<lparr>update_Name = None, update_Description = None\<rparr>"

definition Encode_DriveUpdate :: "DriveUpdateReq \<Rightarrow> json" where
  "Encode_DriveUpdate x = JObj (opt_member ''name'' JStr (update_Name x) @ opt_member ''description'' JStr (update_Description x))"

definition DriveUpdate_fields :: "DriveUpdateReq field list" where
  "DriveUpdate_fields =
    [(''name'', False, OptString_value update_Name_update),
     (''description'', False, OptString_value update_Description_update)]"

definition Decode_DriveUpdate :: "DriveUpdateReq \<Rightarrow> json \<Rightarrow> decode_error + DriveUpdateReq" where
  "Decode_DriveUpdate s v = decode_object DriveUpdate_fields 0 s v"

record PresignRequest =
  presign_Path :: string
  presign_ContentType :: "string option"
  presign_ContentLength :: "64 word option"

definition zero_PresignRequest :: PresignRequest where
  "zero_PresignRequest = \<lparr>presign_Path = [], presign_ContentType = None, presign_ContentLength = None\<rparr>"

definition Encode_PresignRequest :: "PresignRequest \<Rightarrow> json" where
  "Encode_PresignRequest x =
     JObj ([(''path'', JStr (presign_Path x))] @ opt_member ''contentType'' JStr (presign_ContentType x) @
       opt_member ''contentLength'' int64_json (presign_ContentLength x))"

definition PresignRequest_fields :: "PresignRequest field list" where
  "PresignRequest_fields =
    [(''path'', True, str_value presign_Path_update),
     (''contentType'', False, OptString_value presign_ContentType_update),
     (''contentLength'', False, OptInt64_value presign_ContentLength_update)]"

definition Decode_PresignRequest :: "PresignRequest \<Rightarrow> json \<Rightarrow> decode_error + PresignRequest" where
  "Decode_PresignRequest s v = decode_object PresignRequest_fields 1 s v"

record UploadCompleteRequest =
  complete_ContentLength :: "64 word"
  complete_Checksum :: "string option"

definition zero_UploadCompleteRequest :: UploadCompleteRequest where
  "zero_UploadCompleteRequest = \<lparr>complete_ContentLength = 0, complete_Checksum = None\<rparr>"

definition Encode_UploadCompleteRequest :: "UploadCompleteRequest \<Rightarrow> json" where
  "Encode_UploadCompleteRequest x =
     JObj ([(''contentLength'', int64_json (complete_ContentLength x))] @ opt_member ''checksum'' JStr (complete_Checksum x))"

definition UploadCompleteRequest_fields :: "UploadCompleteRequest field list" where
  "UploadCompleteRequest_fields =
    [(''contentLength'', True, int64_value complete_ContentLength_update),
     (''checksum'', False, OptString_value complete_Checksum_update)]"

definition Decode_UploadCompleteRequest :: "UploadCompleteRequest \<Rightarrow> json \<Rightarrow> decode_error + UploadCompleteRequest" where
  "Decode_UploadCompleteRequest s v = decode_object UploadCompleteRequest_fields 1 s v"

record UpsertUserReq =
  upsert_Name :: string
  upsert_Email :: "string option"
  upsert_Provider :: string
  upsert_ProviderID :: string

definition zero_UpsertUserReq :: UpsertUserReq where
  "zero_UpsertUserReq = \<lparr>upsert_Name = [], upsert_Email = None, upsert_Provider = [], upsert_ProviderID = []\<rparr>"

definition Encode_UpsertUserReq :: "UpsertUserReq \<Rightarrow> json" where
  "Encode_UpsertUserReq x =
     JObj ([(''name'', JStr (upsert_Name x))] @ opt_member ''email'' JStr (upsert_Email x) @
       [(''provider'', JStr (upsert_Provider x)), (''providerID'', JStr (upsert_ProviderID x))])"

definition UpsertUserReq_fields :: "UpsertUserReq field list" where
  "UpsertUserReq_fields =
    [(''name'', True, str_value upsert_Name_update),
     (''email'', False, OptString_value upsert_Email_update),
     (''provider'', True, str_value upsert_Provider_update),
     (''providerID'', True, str_value upsert_ProviderID_update)]"

definition Decode_UpsertUserReq :: "UpsertUserReq \<Rightarrow> json \<Rightarrow> decode_error + UpsertUserReq" where
  "Decode_UpsertUserReq s v = decode_object UpsertUserReq_fields 13 s v"


section \<open>Round trips\<close>

named_theorems body_defs \<open>definitions of the request types\<close>

declare zero_MkdirReq_def [body_defs] Encode_MkdirReq_def [body_defs] MkdirReq_fields_def [body_defs]
declare zero_TouchReq_def [body_defs] Encode_TouchReq_def [body_defs] TouchReq_fields_def [body_defs]
declare zero_RmReq_def [body_defs] Encode_RmReq_def [body_defs] RmReq_fields_def [body_defs]
declare zero_MvReq_def [body_defs] Encode_MvReq_def [body_defs] MvReq_fields_def [body_defs]
declare zero_WriteReq_def [body_defs] Encode_WriteReq_def [body_defs] WriteReq_fields_def [body_defs]
declare zero_WriteLargeReq_def [body_defs] Encode_WriteLargeReq_def [body_defs] WriteLargeReq_fields_def [body_defs]
declare zero_SymlinkReq_def [body_defs] Encode_SymlinkReq_def [body_defs] SymlinkReq_fields_def [body_defs]
declare zero_HardlinkReq_def [body_defs] Encode_HardlinkReq_def [body_defs] HardlinkReq_fields_def [body_defs]
declare zero_MountReq_def [body_defs] Encode_MountReq_def [body_defs] MountReq_fields_def [body_defs]
declare zero_DriveCreate_def [body_defs] Encode_DriveCreate_def [body_defs] DriveCreate_fields_def [body_defs]
declare zero_DriveUpdate_def [body_defs] Encode_DriveUpdate_def [body_defs] DriveUpdate_fields_def [body_defs]
declare zero_PresignRequest_def [body_defs] Encode_PresignRequest_def [body_defs] PresignRequest_fields_def [body_defs]
declare zero_UploadCompleteRequest_def [body_defs] Encode_UploadCompleteRequest_def [body_defs] UploadCompleteRequest_fields_def [body_defs]
declare zero_UpsertUserReq_def [body_defs] Encode_UpsertUserReq_def [body_defs] UpsertUserReq_fields_def [body_defs]

lemma upto_8: "[0..<8] = [0, 1, 2, 3, 4, 5, 6, 7]"
  by (simp add: upt_rec)

lemma tables_ok:
  "table_ok ObjectContent_fields 3"
  "table_ok StorageConfig_fields 5"
  "table_ok MkdirReq_fields 1"
  "table_ok TouchReq_fields 1"
  "table_ok RmReq_fields 1"
  "table_ok MvReq_fields 3"
  "table_ok WriteReq_fields 3"
  "table_ok WriteLargeReq_fields 7"
  "table_ok SymlinkReq_fields 3"
  "table_ok HardlinkReq_fields 3"
  "table_ok MountReq_fields 3"
  "table_ok DriveCreate_fields 1"
  "table_ok DriveUpdate_fields 0"
  "table_ok PresignRequest_fields 1"
  "table_ok UploadCompleteRequest_fields 1"
  "table_ok UpsertUserReq_fields 13"
  by (simp_all add: table_ok_def body_defs ObjectContent_fields_def StorageConfig_fields_def upto_8)

lemmas reference = tables_ok [THEN decode_object_reference]

lemma ObjectContent_roundtrip [simp]: "Decode_ObjectContent zero_ObjectContent (Encode_ObjectContent x) = Inr x"
  by (cases x) (simp add: Decode_ObjectContent_def decode_object_def zero_ObjectContent_def Encode_ObjectContent_def ObjectContent_fields_def value_defs opt_member_def split: option.splits)

lemma StorageConfig_roundtrip [simp]: "Decode_StorageConfig zero_StorageConfig (Encode_StorageConfig x) = Inr x"
  by (cases x) (simp add: Decode_StorageConfig_def decode_object_def zero_StorageConfig_def Encode_StorageConfig_def StorageConfig_fields_def value_defs opt_member_def split: option.splits)

lemma MkdirReq_roundtrip [simp]: "Decode_MkdirReq zero_MkdirReq (Encode_MkdirReq x) = Inr x"
  by (cases x) (simp add: Decode_MkdirReq_def decode_object_def body_defs value_defs opt_member_def split: option.splits)

lemma TouchReq_roundtrip [simp]: "Decode_TouchReq zero_TouchReq (Encode_TouchReq x) = Inr x"
  by (cases x) (simp add: Decode_TouchReq_def decode_object_def body_defs value_defs opt_member_def split: option.splits)

lemma RmReq_roundtrip [simp]: "Decode_RmReq zero_RmReq (Encode_RmReq x) = Inr x"
  by (cases x) (simp add: Decode_RmReq_def decode_object_def body_defs value_defs opt_member_def split: option.splits)

lemma MvReq_roundtrip [simp]: "Decode_MvReq zero_MvReq (Encode_MvReq x) = Inr x"
  by (cases x) (simp add: Decode_MvReq_def decode_object_def body_defs value_defs opt_member_def split: option.splits)

lemma WriteReq_roundtrip [simp]: "Decode_WriteReq zero_WriteReq (Encode_WriteReq x) = Inr x"
  by (cases x) (simp add: Decode_WriteReq_def decode_object_def body_defs value_defs opt_member_def split: option.splits)

lemma WriteLargeReq_roundtrip [simp]: "Decode_WriteLargeReq zero_WriteLargeReq (Encode_WriteLargeReq x) = Inr x"
  by (cases x) (simp add: Decode_WriteLargeReq_def decode_object_def body_defs value_defs opt_member_def split: option.splits)

lemma SymlinkReq_roundtrip [simp]: "Decode_SymlinkReq zero_SymlinkReq (Encode_SymlinkReq x) = Inr x"
  by (cases x) (simp add: Decode_SymlinkReq_def decode_object_def body_defs value_defs opt_member_def split: option.splits)

lemma HardlinkReq_roundtrip [simp]: "Decode_HardlinkReq zero_HardlinkReq (Encode_HardlinkReq x) = Inr x"
  by (cases x) (simp add: Decode_HardlinkReq_def decode_object_def body_defs value_defs opt_member_def split: option.splits)

lemma MountReq_roundtrip [simp]: "Decode_MountReq zero_MountReq (Encode_MountReq x) = Inr x"
  by (cases x) (simp add: Decode_MountReq_def decode_object_def body_defs value_defs opt_member_def split: option.splits)

lemma DriveCreate_roundtrip [simp]: "Decode_DriveCreate zero_DriveCreate (Encode_DriveCreate x) = Inr x"
  by (cases x) (simp add: Decode_DriveCreate_def decode_object_def body_defs value_defs opt_member_def split: option.splits)

lemma DriveUpdate_roundtrip [simp]: "Decode_DriveUpdate zero_DriveUpdate (Encode_DriveUpdate x) = Inr x"
  by (cases x) (simp add: Decode_DriveUpdate_def decode_object_def body_defs value_defs opt_member_def split: option.splits)

lemma PresignRequest_roundtrip [simp]: "Decode_PresignRequest zero_PresignRequest (Encode_PresignRequest x) = Inr x"
  by (cases x) (simp add: Decode_PresignRequest_def decode_object_def body_defs value_defs opt_member_def split: option.splits)

lemma UploadCompleteRequest_roundtrip [simp]: "Decode_UploadCompleteRequest zero_UploadCompleteRequest (Encode_UploadCompleteRequest x) = Inr x"
  by (cases x) (simp add: Decode_UploadCompleteRequest_def decode_object_def body_defs value_defs opt_member_def split: option.splits)

lemma UpsertUserReq_roundtrip [simp]: "Decode_UpsertUserReq zero_UpsertUserReq (Encode_UpsertUserReq x) = Inr x"
  by (cases x) (simp add: Decode_UpsertUserReq_def decode_object_def body_defs value_defs opt_member_def split: option.splits)

lemmas decode_defs = Decode_ObjectContent_def Decode_StorageConfig_def Decode_MkdirReq_def Decode_TouchReq_def
  Decode_RmReq_def Decode_MvReq_def Decode_WriteReq_def Decode_WriteLargeReq_def Decode_SymlinkReq_def
  Decode_HardlinkReq_def Decode_MountReq_def Decode_DriveCreate_def Decode_DriveUpdate_def Decode_PresignRequest_def
  Decode_UploadCompleteRequest_def Decode_UpsertUserReq_def

text \<open>
  C16. The generated decoders of request bodies are the reference decoder over their tables of fields. With bits and a loop over the trailing
  zeros of what is missing they accept exactly the objects whose known members have values of their types, in whatever order and
  however often, and which have all required fields; otherwise the error is the first wrong member's, or names the missing
  fields, each once and in the order of the table.
\<close>

theorem decoders_are_reference:
  "Decode_ObjectContent s0 v = decode_reference ObjectContent_fields s0 v \<and>
   Decode_StorageConfig s1 v = decode_reference StorageConfig_fields s1 v \<and>
   Decode_MkdirReq s2 v = decode_reference MkdirReq_fields s2 v \<and>
   Decode_TouchReq s3 v = decode_reference TouchReq_fields s3 v \<and>
   Decode_RmReq s4 v = decode_reference RmReq_fields s4 v \<and>
   Decode_MvReq s5 v = decode_reference MvReq_fields s5 v \<and>
   Decode_WriteReq s6 v = decode_reference WriteReq_fields s6 v \<and>
   Decode_WriteLargeReq s7 v = decode_reference WriteLargeReq_fields s7 v \<and>
   Decode_SymlinkReq s8 v = decode_reference SymlinkReq_fields s8 v \<and>
   Decode_HardlinkReq s9 v = decode_reference HardlinkReq_fields s9 v \<and>
   Decode_MountReq s10 v = decode_reference MountReq_fields s10 v \<and>
   Decode_DriveCreate s11 v = decode_reference DriveCreate_fields s11 v \<and>
   Decode_DriveUpdate s12 v = decode_reference DriveUpdate_fields s12 v \<and>
   Decode_PresignRequest s13 v = decode_reference PresignRequest_fields s13 v \<and>
   Decode_UploadCompleteRequest s14 v = decode_reference UploadCompleteRequest_fields s14 v \<and>
   Decode_UpsertUserReq s15 v = decode_reference UpsertUserReq_fields s15 v"
  by (simp add: decode_defs reference)

lemma decoder_examples:
  "Decode_UpsertUserReq zero_UpsertUserReq (JObj [(''provider'', JStr ''p''), (''x'', JNull)]) = Inl (FieldsRequired [''name'', ''providerID''])"
  "Decode_MkdirReq zero_MkdirReq (JObj [(''path'', JStr ''/a''), (''path'', JStr ''/b'')]) = Inr \<lparr>mkdir_Path = ''/b''\<rparr>"
  "Decode_RmReq zero_RmReq (JObj [(''paths'', JArr [JNull])]) = Inl (InField ''paths'' WrongType)"
  by (simp_all add: decode_defs decode_object_def body_defs value_defs missed_fields_eq upto_8)

end
