(* ===== verification/Requests.thy ===== *)
theory Requests
  imports Bodies Api
begin

text \<open>
  What the server makes of a call's query and body (pkg/api/oas_parameters_gen.go, oas_request_decoders_gen.go): the decoders that
  \<open>Api\<close> takes as a parameter. jx, \<open>mime.ParseMediaType\<close> and ogen's reader of query parameters are parameters in their turn.
\<close>

section \<open>Bodies\<close>

text \<open>\<open>dl_json\<close> reads a text that is one JSON value, \<open>dl_media\<close> the type of a Content-Type header, \<open>dl_query\<close> a parameter of the query.\<close>

record decoder_lib =
  dl_json :: "string \<Rightarrow> json option"
  dl_media :: "string \<Rightarrow> string option"
  dl_query :: "(string \<times> string) list \<Rightarrow> string \<Rightarrow> string option"

datatype request_error = MediaTypeError | BodyUnread | BodyNotJson | BodyRefused decode_error | ContentTypeRefused string

text \<open>
  The body every request decoder shares: no body is an unset request, which is not refused. The validation of the slices of rm and mv
  refuses a nil slice only, which \<open>Decode\<close> never leaves.
\<close>

definition decode_request :: "decoder_lib \<Rightarrow> (json \<Rightarrow> decode_error + 'a) \<Rightarrow> http_call \<Rightarrow> request_error + 'a option" where
  "decode_request P dec rq =
     (if hc_content_type rq = None \<and> hc_content_length rq = 0 then Inr None
      else
        (case dl_media P (case hc_content_type rq of Some t \<Rightarrow> t | None \<Rightarrow> []) of
           None \<Rightarrow> Inl MediaTypeError
         | Some ct \<Rightarrow>
             if ct = ''application/json'' then
               if hc_content_length rq = 0 then Inr None
               else
                 (case hc_body rq of
                    None \<Rightarrow> Inl BodyUnread
                  | Some buf \<Rightarrow>
                      if buf = [] then Inr None
                      else
                        (case dl_json P buf of
                           None \<Rightarrow> Inl BodyNotJson
                         | Some v \<Rightarrow> (case dec v of Inl e \<Rightarrow> Inl (BodyRefused e) | Inr x \<Rightarrow> Inr (Some x))))
             else Inl (ContentTypeRefused ct)))"

type_synonym 'a request_decoder = "decoder_lib \<Rightarrow> http_call \<Rightarrow> request_error + 'a option"

definition decodeMkdirRequest :: "MkdirReq request_decoder" where
  "decodeMkdirRequest P = decode_request P (Decode_MkdirReq zero_MkdirReq)"

definition decodeTouchRequest :: "TouchReq request_decoder" where
  "decodeTouchRequest P = decode_request P (Decode_TouchReq zero_TouchReq)"

definition decodeRmRequest :: "RmReq request_decoder" where
  "decodeRmRequest P = decode_request P (Decode_RmReq zero_RmReq)"

definition decodeMvRequest :: "MvReq request_decoder" where
  "decodeMvRequest P = decode_request P (Decode_MvReq zero_MvReq)"

definition decodeWriteRequest :: "WriteReq request_decoder" where
  "decodeWriteRequest P = decode_request P (Decode_WriteReq zero_WriteReq)"

definition decodeWriteLargeRequest :: "WriteLargeReq request_decoder" where
  "decodeWriteLargeRequest P = decode_request P (Decode_WriteLargeReq zero_WriteLargeReq)"

definition decodeSymlinkRequest :: "SymlinkReq request_decoder" where
  "decodeSymlinkRequest P = decode_request P (Decode_SymlinkReq zero_SymlinkReq)"

definition decodeHardlinkRequest :: "HardlinkReq request_decoder" where
  "decodeHardlinkRequest P = decode_request P (Decode_HardlinkReq zero_HardlinkReq)"

definition decodeMountRequest :: "MountReq request_decoder" where
  "decodeMountRequest P = decode_request P (Decode_MountReq zero_MountReq)"

definition decodeCreateDriveRequest :: "DriveCreate request_decoder" where
  "decodeCreateDriveRequest P = decode_request P (Decode_DriveCreate zero_DriveCreate)"

definition decodeUpdateDriveRequest :: "DriveUpdateReq request_decoder" where
  "decodeUpdateDriveRequest P = decode_request P (Decode_DriveUpdate zero_DriveUpdate)"

definition decodeInitiateUploadRequest :: "PresignRequest request_decoder" where
  "decodeInitiateUploadRequest P = decode_request P (Decode_PresignRequest zero_PresignRequest)"

definition decodeCompleteUploadRequest :: "UploadCompleteRequest request_decoder" where
  "decodeCompleteUploadRequest P = decode_request P (Decode_UploadCompleteRequest zero_UploadCompleteRequest)"

definition decodeUpsertUserRequest :: "UpsertUserReq request_decoder" where
  "decodeUpsertUserRequest P = decode_request P (Decode_UpsertUserReq zero_UpsertUserReq)"

section \<open>What the handlers read\<close>

text \<open>The fields a handler reads of its request; it reads the zero value of a request that is not set.\<close>

definition no_payload :: payload where
  "no_payload = \<lparr>pl_path = [], pl_paths = [], pl_recursive = None, pl_target = [], pl_content = [], pl_bucket = [], pl_key = [],
     pl_content_type = None, pl_content_length = None, pl_checksum = None, pl_size = 0, pl_source_drive = [], pl_name = [],
     pl_new_name = None, pl_description = None, pl_storage = None, pl_email = None, pl_provider = [], pl_provider_id = []\<rparr>"

definition MkdirReq_payload :: "MkdirReq \<Rightarrow> payload" where
  "MkdirReq_payload x = no_payload\<lparr>pl_path := mkdir_Path x\<rparr>"

definition TouchReq_payload :: "TouchReq \<Rightarrow> payload" where
  "TouchReq_payload x = no_payload\<lparr>pl_path := touch_Path x\<rparr>"

definition RmReq_payload :: "RmReq \<Rightarrow> payload" where
  "RmReq_payload x = no_payload\<lparr>pl_paths := rm_Paths x, pl_recursive := rm_Recursive x\<rparr>"

definition MvReq_payload :: "MvReq \<Rightarrow> payload" where
  "MvReq_payload x = no_payload\<lparr>pl_paths := mv_Sources x, pl_target := mv_Destination x\<rparr>"

definition WriteReq_payload :: "WriteReq \<Rightarrow> payload" where
  "WriteReq_payload x = no_payload\<lparr>pl_path := write_Path x, pl_content := write_Content x\<rparr>"

definition WriteLargeReq_payload :: "WriteLargeReq \<Rightarrow> payload" where
  "WriteLargeReq_payload x = no_payload\<lparr>pl_path := large_Path x, pl_size := sint (large_Size x), pl_bucket := oc_Bucket (large_Object x),
     pl_key := oc_Key (large_Object x), pl_content_type := oc_ContentType (large_Object x), pl_checksum := oc_Checksum (large_Object x)\<rparr>"

definition SymlinkReq_payload :: "SymlinkReq \<Rightarrow> payload" where
  "SymlinkReq_payload x = no_payload\<lparr>pl_target := symlink_Target x, pl_path := symlink_LinkPath x\<rparr>"

definition HardlinkReq_payload :: "HardlinkReq \<Rightarrow> payload" where
  "HardlinkReq_payload x = no_payload\<lparr>pl_target := hardlink_SrcPath x, pl_path := hardlink_LinkPath x\<rparr>"

definition MountReq_payload :: "MountReq \<Rightarrow> payload" where
  "MountReq_payload x = no_payload\<lparr>pl_path := mount_MountPath x, pl_source_drive := mount_SourceDriveID x\<rparr>"

definition DriveCreate_payload :: "DriveCreate \<Rightarrow> payload" where
  "DriveCreate_payload x = no_payload\<lparr>pl_name := create_Name x, pl_description := create_Description x, pl_storage := create_Storage x\<rparr>"

definition DriveUpdate_payload :: "DriveUpdateReq \<Rightarrow> payload" where
  "DriveUpdate_payload x = no_payload\<lparr>pl_new_name := update_Name x, pl_description := update_Description x\<rparr>"

definition PresignRequest_payload :: "PresignRequest \<Rightarrow> payload" where
  "PresignRequest_payload x = no_payload\<lparr>pl_path := presign_Path x, pl_content_type := presign_ContentType x,
     pl_content_length := map_option sint (presign_ContentLength x)\<rparr>"

definition UploadCompleteRequest_payload :: "UploadCompleteRequest \<Rightarrow> payload" where
  "UploadCompleteRequest_payload x = no_payload\<lparr>pl_size := sint (complete_ContentLength x), pl_checksum := complete_Checksum x\<rparr>"

definition UpsertUserReq_payload :: "UpsertUserReq \<Rightarrow> payload" where
  "UpsertUserReq_payload x = no_payload\<lparr>pl_name := upsert_Name x, pl_email := upsert_Email x, pl_provider := upsert_Provider x, pl_provider_id := upsert_ProviderID x\<rparr>"

definition opt_payload :: "('a \<Rightarrow> payload) \<Rightarrow> 'a option \<Rightarrow> payload" where
  "opt_payload f r = (case r of None \<Rightarrow> no_payload | Some x \<Rightarrow> f x)"

definition read_body :: "('a \<Rightarrow> payload) \<Rightarrow> request_error + 'a option \<Rightarrow> payload option" where
  "read_body f r = (case r of Inl _ \<Rightarrow> None | Inr x \<Rightarrow> Some (opt_payload f x))"

text \<open>A parameter of the query is required, also that of ls: its default is overwritten or the call is refused.\<close>

definition read_path :: "decoder_lib \<Rightarrow> string \<Rightarrow> http_call \<Rightarrow> payload option" where
  "read_path P name rq = map_option (\<lambda>v. no_payload\<lparr>pl_path := v\<rparr>) (dl_query P (hq_query rq) name)"

fun api_decoders :: "decoder_lib \<Rightarrow> decoders" where
  "api_decoders P OpMkdir rq = read_body MkdirReq_payload (decodeMkdirRequest P rq)"
| "api_decoders P OpTouch rq = read_body TouchReq_payload (decodeTouchRequest P rq)"
| "api_decoders P OpRm rq = read_body RmReq_payload (decodeRmRequest P rq)"
| "api_decoders P OpMv rq = read_body MvReq_payload (decodeMvRequest P rq)"
| "api_decoders P OpWrite rq = read_body WriteReq_payload (decodeWriteRequest P rq)"
| "api_decoders P OpWriteLarge rq = read_body WriteLargeReq_payload (decodeWriteLargeRequest P rq)"
| "api_decoders P OpSymlink rq = read_body SymlinkReq_payload (decodeSymlinkRequest P rq)"
| "api_decoders P OpHardlink rq = read_body HardlinkReq_payload (decodeHardlinkRequest P rq)"
| "api_decoders P OpMount rq = read_body MountReq_payload (decodeMountRequest P rq)"
| "api_decoders P OpCreateDrive rq = read_body DriveCreate_payload (decodeCreateDriveRequest P rq)"
| "api_decoders P OpUpdateDrive rq = read_body DriveUpdate_payload (decodeUpdateDriveRequest P rq)"
| "api_decoders P OpInitiateUpload rq = read_body PresignRequest_payload (decodeInitiateUploadRequest P rq)"
| "api_decoders P OpCompleteUpload rq = read_body UploadCompleteRequest_payload (decodeCompleteUploadRequest P rq)"
| "api_decoders P OpUpsertUser rq = read_body UpsertUserReq_payload (decodeUpsertUserRequest P rq)"
| "api_decoders P OpLs rq = read_path P ''path'' rq"
| "api_decoders P OpCat rq = read_path P ''path'' rq"
| "api_decoders P OpStat rq = read_path P ''path'' rq"
| "api_decoders P OpLstat rq = read_path P ''path'' rq"
| "api_decoders P OpReadlink rq = read_path P ''path'' rq"
| "api_decoders P OpRealpath rq = read_path P ''path'' rq"
| "api_decoders P OpPresignDownload rq = read_path P ''path'' rq"
| "api_decoders P OpUnmount rq = read_path P ''mountPath'' rq"
| "api_decoders P OpAuthCallback rq =
     (if dl_query P (hq_query rq) ''code'' = None \<or> dl_query P (hq_query rq) ''state'' = None then None else Some no_payload)"
| "api_decoders P OpAuthLogin rq = Some no_payload"
| "api_decoders P OpAuthLogout rq = Some no_payload"
| "api_decoders P OpAuthMe rq = Some no_payload"
| "api_decoders P OpHealth rq = Some no_payload"
| "api_decoders P OpListDeletedDrives rq = Some no_payload"
| "api_decoders P OpListDrives rq = Some no_payload"
| "api_decoders P OpGetDrive rq = Some no_payload"
| "api_decoders P OpDeleteDrive rq = Some no_payload"
| "api_decoders P OpRestoreDrive rq = Some no_payload"
| "api_decoders P OpGetDriveStorage rq = Some no_payload"
| "api_decoders P OpGetUser rq = Some no_payload"

section \<open>What a client's body decodes to\<close>

text \<open>The headers and the body of a call whose request has the JSON value \<open>j\<close>, written by \<open>wr\<close>; none when it is not set.\<close>

definition carries :: "(json \<Rightarrow> string) \<Rightarrow> http_call \<Rightarrow> json option \<Rightarrow> bool" where
  "carries wr rq j \<longleftrightarrow>
     hc_content_type rq = map_option (\<lambda>_. ''application/json'') j \<and>
     hc_body rq = Some (case j of None \<Rightarrow> [] | Some v \<Rightarrow> wr v) \<and>
     hc_content_length rq = (case j of None \<Rightarrow> 0 | Some v \<Rightarrow> int (length (wr v)))"

text \<open>The reader of JSON undoes the writer on this value, and its text is not empty.\<close>

definition reads_back :: "(json \<Rightarrow> string) \<Rightarrow> decoder_lib \<Rightarrow> json option \<Rightarrow> bool" where
  "reads_back wr P j \<longleftrightarrow>
     dl_media P ''application/json'' = Some ''application/json'' \<and>
     (case j of None \<Rightarrow> True | Some v \<Rightarrow> wr v \<noteq> [] \<and> dl_json P (wr v) = Some v)"

locale request_codec =
  fixes enc :: "'a \<Rightarrow> json"
    and dec :: "json \<Rightarrow> decode_error + 'a"
  assumes dec_enc: "dec (enc x) = Inr x"
begin

lemma decode_sent:
  assumes "carries wr rq (map_option enc x)" "reads_back wr P (map_option enc x)"
  shows "decode_request P dec rq = Inr x"
  using assms by (cases x) (auto simp: decode_request_def carries_def reads_back_def dec_enc)

lemma read_sent:
  assumes "carries wr rq (map_option enc x)" "reads_back wr P (map_option enc x)"
  shows "read_body f (decode_request P dec rq) = Some (opt_payload f x)"
  by (simp add: read_body_def decode_sent [OF assms])

end

interpretation mkdirReq: request_codec Encode_MkdirReq "Decode_MkdirReq zero_MkdirReq"
  by unfold_locales simp
interpretation touchReq: request_codec Encode_TouchReq "Decode_TouchReq zero_TouchReq"
  by unfold_locales simp
interpretation rmReq: request_codec Encode_RmReq "Decode_RmReq zero_RmReq"
  by unfold_locales simp
interpretation mvReq: request_codec Encode_MvReq "Decode_MvReq zero_MvReq"
  by unfold_locales simp
interpretation writeReq: request_codec Encode_WriteReq "Decode_WriteReq zero_WriteReq"
  by unfold_locales simp
interpretation writeLargeReq: request_codec Encode_WriteLargeReq "Decode_WriteLargeReq zero_WriteLargeReq"
  by unfold_locales simp
interpretation symlinkReq: request_codec Encode_SymlinkReq "Decode_SymlinkReq zero_SymlinkReq"
  by unfold_locales simp
interpretation hardlinkReq: request_codec Encode_HardlinkReq "Decode_HardlinkReq zero_HardlinkReq"
  by unfold_locales simp
interpretation mountReq: request_codec Encode_MountReq "Decode_MountReq zero_MountReq"
  by unfold_locales simp
interpretation driveCreate: request_codec Encode_DriveCreate "Decode_DriveCreate zero_DriveCreate"
  by unfold_locales simp
interpretation driveUpdate: request_codec Encode_DriveUpdate "Decode_DriveUpdate zero_DriveUpdate"
  by unfold_locales simp
interpretation presignRequest: request_codec Encode_PresignRequest "Decode_PresignRequest zero_PresignRequest"
  by unfold_locales simp
interpretation uploadCompleteRequest: request_codec Encode_UploadCompleteRequest "Decode_UploadCompleteRequest zero_UploadCompleteRequest"
  by unfold_locales simp
interpretation upsertUserReq: request_codec Encode_UpsertUserReq "Decode_UpsertUserReq zero_UpsertUserReq"
  by unfold_locales simp

lemmas request_defs = decodeMkdirRequest_def decodeTouchRequest_def decodeRmRequest_def decodeMvRequest_def
  decodeWriteRequest_def decodeWriteLargeRequest_def decodeSymlinkRequest_def decodeHardlinkRequest_def decodeMountRequest_def
  decodeCreateDriveRequest_def decodeUpdateDriveRequest_def decodeInitiateUploadRequest_def decodeCompleteUploadRequest_def
  decodeUpsertUserRequest_def

lemmas sent_bodies = mkdirReq.read_sent touchReq.read_sent rmReq.read_sent mvReq.read_sent writeReq.read_sent
  writeLargeReq.read_sent symlinkReq.read_sent hardlinkReq.read_sent mountReq.read_sent driveCreate.read_sent
  driveUpdate.read_sent presignRequest.read_sent uploadCompleteRequest.read_sent upsertUserReq.read_sent

end
