(* ===== verification/Client.thy ===== *)
theory Client
  imports Requests Cli
begin

text \<open>
  The generated client (pkg/api/oas_client_gen.go, oas_request_encoders_gen.go): each operation builds the path, the query, the body and
  the cookie of a call. \<open>arrives\<close> is the way of such a call through net/http to the generated server. Tracing and metrics are left
  out; of ogen's library, the path encoder and the addition of path parts to the server's URL are parameters; what the client makes
  of the answer is left out.
\<close>

section \<open>A call\<close>

datatype security_answer = APIKey string | SkipSecurity | SecurityFailed gerror

text \<open>
  \<open>cl_url\<close> gives the escaped path of the server's URL with the parts added, \<open>cl_encode\<close> encodes a parameter of the path and
  \<open>cl_request_error\<close> is the error of making a request.
\<close>

record api_client =
  cl_url :: "string list \<Rightarrow> string"
  cl_encode :: "string \<Rightarrow> gerror + string"
  cl_request_error :: "string \<Rightarrow> string \<Rightarrow> gerror option"
  cl_json :: "json \<Rightarrow> string"
  cl_security :: "op_id \<Rightarrow> security_answer"

record wire =
  wr_method :: string
  wr_path :: string
  wr_query :: "(string \<times> string) list"
  wr_cookies :: "(string \<times> string) list"
  wr_content_type :: "string option"
  wr_body :: string

text \<open>\<open>Wrap\<close> of go-faster/errors.\<close>

definition faster_Wrap :: "string \<Rightarrow> gerror \<Rightarrow> gerror" where
  "faster_Wrap m e = Foreign (m @ '': '' @ error_text e) (Some e)"

datatype part = Fixed string | Encoded string

fun path_parts :: "api_client \<Rightarrow> part list \<Rightarrow> gerror + string list" where
  "path_parts C [] = Inr []"
| "path_parts C (Fixed s # ps) = (case path_parts C ps of Inl e \<Rightarrow> Inl e | Inr r \<Rightarrow> Inr (s # r))"
| "path_parts C (Encoded a # ps) =
     (case cl_encode C a of
        Inl e \<Rightarrow> Inl (faster_Wrap ''encode path'' e)
      | Inr s \<Rightarrow> (case path_parts C ps of Inl e \<Rightarrow> Inl e | Inr r \<Rightarrow> Inr (s # r)))"

text \<open>\<open>AddCookie\<close> drops the bytes a cookie's value cannot have.\<close>

definition validCookieValueByte :: "char \<Rightarrow> bool" where
  "validCookieValueByte c \<longleftrightarrow> byte_in 32 126 c \<and> c \<notin> {CHR 0x22, CHR '';'', CHR 0x5C}"

definition client_securityCookieAuth :: "api_client \<Rightarrow> op_id \<Rightarrow> wire \<Rightarrow> gerror + wire" where
  "client_securityCookieAuth C op r =
     (case cl_security C op of
        APIKey k \<Rightarrow> Inr (r\<lparr>wr_cookies := wr_cookies r @ [(''mdrive_session'', filter validCookieValueByte k)]\<rparr>)
      | SkipSecurity \<Rightarrow> Inl not_satisfied
      | SecurityFailed e \<Rightarrow> Inl (faster_Wrap ''security \"CookieAuth\"'' (faster_Wrap ''security source \"CookieAuth\"'' e)))"

text \<open>The request encoders: no body for a request that is not set.\<close>

definition with_body :: "api_client \<Rightarrow> json option \<Rightarrow> wire \<Rightarrow> wire" where
  "with_body C j r =
     (case j of None \<Rightarrow> r | Some v \<Rightarrow> r\<lparr>wr_content_type := Some ''application/json'', wr_body := cl_json C v\<rparr>)"

text \<open>The stages all operations share, up to the sending.\<close>

definition send :: "api_client \<Rightarrow> op_id \<Rightarrow> string \<Rightarrow> part list \<Rightarrow> (string \<times> string) list \<Rightarrow> json option \<Rightarrow> bool \<Rightarrow> gerror + wire" where
  "send C op method ps query body sec =
     (case path_parts C ps of
        Inl e \<Rightarrow> Inl e
      | Inr parts \<Rightarrow>
          (case cl_request_error C method (cl_url C parts) of
             Some e \<Rightarrow> Inl (faster_Wrap ''create request'' e)
           | None \<Rightarrow>
               let r = with_body C body \<lparr>wr_method = method, wr_path = cl_url C parts, wr_query = query, wr_cookies = [],
                                         wr_content_type = None, wr_body = []\<rparr> in
               if sec then client_securityCookieAuth C op r else Inr r))"

section \<open>The operations\<close>

definition sendAuthCallback :: "api_client \<Rightarrow> string \<Rightarrow> string \<Rightarrow> gerror + wire" where
  "sendAuthCallback C code state =
     send C OpAuthCallback ''GET'' [Fixed ''/auth/callback''] [(''code'', code), (''state'', state)] None False"

definition sendAuthLogin :: "api_client \<Rightarrow> gerror + wire" where
  "sendAuthLogin C =
     send C OpAuthLogin ''GET'' [Fixed ''/auth/login''] [] None False"

definition sendAuthLogout :: "api_client \<Rightarrow> gerror + wire" where
  "sendAuthLogout C =
     send C OpAuthLogout ''POST'' [Fixed ''/auth/logout''] [] None False"

definition sendAuthMe :: "api_client \<Rightarrow> gerror + wire" where
  "sendAuthMe C =
     send C OpAuthMe ''GET'' [Fixed ''/auth/me''] [] None True"

definition sendCat :: "api_client \<Rightarrow> string \<Rightarrow> string \<Rightarrow> gerror + wire" where
  "sendCat C driveID path =
     send C OpCat ''GET'' [Fixed ''/v1/drives/'', Encoded driveID, Fixed ''/fs/cat''] [(''path'', path)] None True"

definition sendCompleteUpload :: "api_client \<Rightarrow> UploadCompleteRequest option \<Rightarrow> string \<Rightarrow> string \<Rightarrow> gerror + wire" where
  "sendCompleteUpload C request driveID uploadId =
     send C OpCompleteUpload ''POST'' [Fixed ''/v1/drives/'', Encoded driveID, Fixed ''/uploads/'', Encoded uploadId, Fixed ''/complete''] [] (map_option Encode_UploadCompleteRequest request) True"

definition sendCreateDrive :: "api_client \<Rightarrow> DriveCreate option \<Rightarrow> gerror + wire" where
  "sendCreateDrive C request =
     send C OpCreateDrive ''POST'' [Fixed ''/v1/drives''] [] (map_option Encode_DriveCreate request) True"

definition sendDeleteDrive :: "api_client \<Rightarrow> string \<Rightarrow> gerror + wire" where
  "sendDeleteDrive C driveID =
     send C OpDeleteDrive ''DELETE'' [Fixed ''/v1/drives/'', Encoded driveID, Fixed ''/root''] [] None True"

definition sendGetDrive :: "api_client \<Rightarrow> string \<Rightarrow> gerror + wire" where
  "sendGetDrive C driveID =
     send C OpGetDrive ''GET'' [Fixed ''/v1/drives/'', Encoded driveID, Fixed ''/root''] [] None True"

definition sendGetDriveStorage :: "api_client \<Rightarrow> string \<Rightarrow> gerror + wire" where
  "sendGetDriveStorage C driveID =
     send C OpGetDriveStorage ''GET'' [Fixed ''/v1/drives/'', Encoded driveID, Fixed ''/storage''] [] None True"

definition sendGetUser :: "api_client \<Rightarrow> gerror + wire" where
  "sendGetUser C =
     send C OpGetUser ''GET'' [Fixed ''/v1/users''] [] None True"

definition sendHardlink :: "api_client \<Rightarrow> HardlinkReq option \<Rightarrow> string \<Rightarrow> gerror + wire" where
  "sendHardlink C request driveID =
     send C OpHardlink ''POST'' [Fixed ''/v1/drives/'', Encoded driveID, Fixed ''/fs/hardlink''] [] (map_option Encode_HardlinkReq request) True"

definition sendHealth :: "api_client \<Rightarrow> gerror + wire" where
  "sendHealth C =
     send C OpHealth ''GET'' [Fixed ''/health''] [] None False"

definition sendInitiateUpload :: "api_client \<Rightarrow> PresignRequest option \<Rightarrow> string \<Rightarrow> gerror + wire" where
  "sendInitiateUpload C request driveID =
     send C OpInitiateUpload ''POST'' [Fixed ''/v1/drives/'', Encoded driveID, Fixed ''/uploads''] [] (map_option Encode_PresignRequest request) True"

definition sendListDeletedDrives :: "api_client \<Rightarrow> gerror + wire" where
  "sendListDeletedDrives C =
     send C OpListDeletedDrives ''GET'' [Fixed ''/v1/admin/drives/deleted''] [] None True"

definition sendListDrives :: "api_client \<Rightarrow> gerror + wire" where
  "sendListDrives C =
     send C OpListDrives ''GET'' [Fixed ''/v1/drives''] [] None True"

definition sendLs :: "api_client \<Rightarrow> string \<Rightarrow> string \<Rightarrow> gerror + wire" where
  "sendLs C driveID path =
     send C OpLs ''GET'' [Fixed ''/v1/drives/'', Encoded driveID, Fixed ''/fs/ls''] [(''path'', path)] None True"

definition sendLstat :: "api_client \<Rightarrow> string \<Rightarrow> string \<Rightarrow> gerror + wire" where
  "sendLstat C driveID path =
     send C OpLstat ''GET'' [Fixed ''/v1/drives/'', Encoded driveID, Fixed ''/fs/lstat''] [(''path'', path)] None True"

definition sendMkdir :: "api_client \<Rightarrow> MkdirReq option \<Rightarrow> string \<Rightarrow> gerror + wire" where
  "sendMkdir C request driveID =
     send C OpMkdir ''POST'' [Fixed ''/v1/drives/'', Encoded driveID, Fixed ''/fs/mkdir''] [] (map_option Encode_MkdirReq request) True"

definition sendMount :: "api_client \<Rightarrow> MountReq option \<Rightarrow> string \<Rightarrow> gerror + wire" where
  "sendMount C request driveID =
     send C OpMount ''POST'' [Fixed ''/v1/drives/'', Encoded driveID, Fixed ''/fs/mount''] [] (map_option Encode_MountReq request) True"

definition sendMv :: "api_client \<Rightarrow> MvReq option \<Rightarrow> string \<Rightarrow> gerror + wire" where
  "sendMv C request driveID =
     send C OpMv ''POST'' [Fixed ''/v1/drives/'', Encoded driveID, Fixed ''/fs/mv''] [] (map_option Encode_MvReq request) True"

definition sendPresignDownload :: "api_client \<Rightarrow> string \<Rightarrow> string \<Rightarrow> gerror + wire" where
  "sendPresignDownload C driveID path =
     send C OpPresignDownload ''GET'' [Fixed ''/v1/drives/'', Encoded driveID, Fixed ''/downloads''] [(''path'', path)] None True"

definition sendReadlink :: "api_client \<Rightarrow> string \<Rightarrow> string \<Rightarrow> gerror + wire" where
  "sendReadlink C driveID path =
     send C OpReadlink ''GET'' [Fixed ''/v1/drives/'', Encoded driveID, Fixed ''/fs/readlink''] [(''path'', path)] None True"

definition sendRealpath :: "api_client \<Rightarrow> string \<Rightarrow> string \<Rightarrow> gerror + wire" where
  "sendRealpath C driveID path =
     send C OpRealpath ''GET'' [Fixed ''/v1/drives/'', Encoded driveID, Fixed ''/fs/realpath''] [(''path'', path)] None True"

definition sendRestoreDrive :: "api_client \<Rightarrow> string \<Rightarrow> gerror + wire" where
  "sendRestoreDrive C driveID =
     send C OpRestoreDrive ''POST'' [Fixed ''/v1/drives/'', Encoded driveID, Fixed ''/restore''] [] None True"

definition sendRm :: "api_client \<Rightarrow> RmReq option \<Rightarrow> string \<Rightarrow> gerror + wire" where
  "sendRm C request driveID =
     send C OpRm ''DELETE'' [Fixed ''/v1/drives/'', Encoded driveID, Fixed ''/fs''] [] (map_option Encode_RmReq request) True"

definition sendStat :: "api_client \<Rightarrow> string \<Rightarrow> string \<Rightarrow> gerror + wire" where
  "sendStat C driveID path =
     send C OpStat ''GET'' [Fixed ''/v1/drives/'', Encoded driveID, Fixed ''/fs/stat''] [(''path'', path)] None True"

definition sendSymlink :: "api_client \<Rightarrow> SymlinkReq option \<Rightarrow> string \<Rightarrow> gerror + wire" where
  "sendSymlink C request driveID =
     send C OpSymlink ''POST'' [Fixed ''/v1/drives/'', Encoded driveID, Fixed ''/fs/symlink''] [] (map_option Encode_SymlinkReq request) True"

definition sendTouch :: "api_client \<Rightarrow> TouchReq option \<Rightarrow> string \<Rightarrow> gerror + wire" where
  "sendTouch C request driveID =
     send C OpTouch ''POST'' [Fixed ''/v1/drives/'', Encoded driveID, Fixed ''/fs/touch''] [] (map_option Encode_TouchReq request) True"

definition sendUnmount :: "api_client \<Rightarrow> string \<Rightarrow> string \<Rightarrow> gerror + wire" where
  "sendUnmount C driveID mountPath =
     send C OpUnmount ''DELETE'' [Fixed ''/v1/drives/'', Encoded driveID, Fixed ''/fs/unmount''] [(''mountPath'', mountPath)] None True"

definition sendUpdateDrive :: "api_client \<Rightarrow> DriveUpdateReq option \<Rightarrow> string \<Rightarrow> gerror + wire" where
  "sendUpdateDrive C request driveID =
     send C OpUpdateDrive ''PUT'' [Fixed ''/v1/drives/'', Encoded driveID, Fixed ''/root''] [] (map_option Encode_DriveUpdate request) True"

definition sendUpsertUser :: "api_client \<Rightarrow> UpsertUserReq option \<Rightarrow> gerror + wire" where
  "sendUpsertUser C request =
     send C OpUpsertUser ''POST'' [Fixed ''/v1/users''] [] (map_option Encode_UpsertUserReq request) True"

definition sendWrite :: "api_client \<Rightarrow> WriteReq option \<Rightarrow> string \<Rightarrow> gerror + wire" where
  "sendWrite C request driveID =
     send C OpWrite ''PUT'' [Fixed ''/v1/drives/'', Encoded driveID, Fixed ''/fs/write''] [] (map_option Encode_WriteReq request) True"

definition sendWriteLarge :: "api_client \<Rightarrow> WriteLargeReq option \<Rightarrow> string \<Rightarrow> gerror + wire" where
  "sendWriteLarge C request driveID =
     send C OpWriteLarge ''POST'' [Fixed ''/v1/drives/'', Encoded driveID, Fixed ''/fs/object''] [] (map_option Encode_WriteLargeReq request) True"

datatype client_call =
    CallAuthCallback string string | CallAuthLogin | CallAuthLogout | CallAuthMe | CallCat string string
  | CallCompleteUpload "UploadCompleteRequest option" string string | CallCreateDrive "DriveCreate option"
  | CallDeleteDrive string | CallGetDrive string | CallGetDriveStorage string | CallGetUser
  | CallHardlink "HardlinkReq option" string | CallHealth | CallInitiateUpload "PresignRequest option" string
  | CallListDeletedDrives | CallListDrives | CallLs string string | CallLstat string string | CallMkdir "MkdirReq option" string
  | CallMount "MountReq option" string | CallMv "MvReq option" string | CallPresignDownload string string
  | CallReadlink string string | CallRealpath string string | CallRestoreDrive string | CallRm "RmReq option" string
  | CallStat string string | CallSymlink "SymlinkReq option" string | CallTouch "TouchReq option" string
  | CallUnmount string string | CallUpdateDrive "DriveUpdateReq option" string | CallUpsertUser "UpsertUserReq option"
  | CallWrite "WriteReq option" string | CallWriteLarge "WriteLargeReq option" string

fun client_send :: "api_client \<Rightarrow> client_call \<Rightarrow> gerror + wire" where
  "client_send C (CallAuthCallback code state) = sendAuthCallback C code state"
| "client_send C (CallAuthLogin) = sendAuthLogin C"
| "client_send C (CallAuthLogout) = sendAuthLogout C"
| "client_send C (CallAuthMe) = sendAuthMe C"
| "client_send C (CallCat driveID path) = sendCat C driveID path"
| "client_send C (CallCompleteUpload request driveID uploadId) = sendCompleteUpload C request driveID uploadId"
| "client_send C (CallCreateDrive request) = sendCreateDrive C request"
| "client_send C (CallDeleteDrive driveID) = sendDeleteDrive C driveID"
| "client_send C (CallGetDrive driveID) = sendGetDrive C driveID"
| "client_send C (CallGetDriveStorage driveID) = sendGetDriveStorage C driveID"
| "client_send C (CallGetUser) = sendGetUser C"
| "client_send C (CallHardlink request driveID) = sendHardlink C request driveID"
| "client_send C (CallHealth) = sendHealth C"
| "client_send C (CallInitiateUpload request driveID) = sendInitiateUpload C request driveID"
| "client_send C (CallListDeletedDrives) = sendListDeletedDrives C"
| "client_send C (CallListDrives) = sendListDrives C"
| "client_send C (CallLs driveID path) = sendLs C driveID path"
| "client_send C (CallLstat driveID path) = sendLstat C driveID path"
| "client_send C (CallMkdir request driveID) = sendMkdir C request driveID"
| "client_send C (CallMount request driveID) = sendMount C request driveID"
| "client_send C (CallMv request driveID) = sendMv C request driveID"
| "client_send C (CallPresignDownload driveID path) = sendPresignDownload C driveID path"
| "client_send C (CallReadlink driveID path) = sendReadlink C driveID path"
| "client_send C (CallRealpath driveID path) = sendRealpath C driveID path"
| "client_send C (CallRestoreDrive driveID) = sendRestoreDrive C driveID"
| "client_send C (CallRm request driveID) = sendRm C request driveID"
| "client_send C (CallStat driveID path) = sendStat C driveID path"
| "client_send C (CallSymlink request driveID) = sendSymlink C request driveID"
| "client_send C (CallTouch request driveID) = sendTouch C request driveID"
| "client_send C (CallUnmount driveID mountPath) = sendUnmount C driveID mountPath"
| "client_send C (CallUpdateDrive request driveID) = sendUpdateDrive C request driveID"
| "client_send C (CallUpsertUser request) = sendUpsertUser C request"
| "client_send C (CallWrite request driveID) = sendWrite C request driveID"
| "client_send C (CallWriteLarge request driveID) = sendWriteLarge C request driveID"

text \<open>What the caller means: the operation, the parameters of its path and the fields of its query or body.\<close>

fun called :: "client_call \<Rightarrow> op_id \<times> string list \<times> payload" where
  "called (CallAuthCallback code state) = (OpAuthCallback, [], no_payload)"
| "called (CallAuthLogin) = (OpAuthLogin, [], no_payload)"
| "called (CallAuthLogout) = (OpAuthLogout, [], no_payload)"
| "called (CallAuthMe) = (OpAuthMe, [], no_payload)"
| "called (CallCat driveID path) = (OpCat, [driveID], (no_payload\<lparr>pl_path := path\<rparr>))"
| "called (CallCompleteUpload request driveID uploadId) = (OpCompleteUpload, [driveID, uploadId], (opt_payload UploadCompleteRequest_payload request))"
| "called (CallCreateDrive request) = (OpCreateDrive, [], (opt_payload DriveCreate_payload request))"
| "called (CallDeleteDrive driveID) = (OpDeleteDrive, [driveID], no_payload)"
| "called (CallGetDrive driveID) = (OpGetDrive, [driveID], no_payload)"
| "called (CallGetDriveStorage driveID) = (OpGetDriveStorage, [driveID], no_payload)"
| "called (CallGetUser) = (OpGetUser, [], no_payload)"
| "called (CallHardlink request driveID) = (OpHardlink, [driveID], (opt_payload HardlinkReq_payload request))"
| "called (CallHealth) = (OpHealth, [], no_payload)"
| "called (CallInitiateUpload request driveID) = (OpInitiateUpload, [driveID], (opt_payload PresignRequest_payload request))"
| "called (CallListDeletedDrives) = (OpListDeletedDrives, [], no_payload)"
| "called (CallListDrives) = (OpListDrives, [], no_payload)"
| "called (CallLs driveID path) = (OpLs, [driveID], (no_payload\<lparr>pl_path := path\<rparr>))"
| "called (CallLstat driveID path) = (OpLstat, [driveID], (no_payload\<lparr>pl_path := path\<rparr>))"
| "called (CallMkdir request driveID) = (OpMkdir, [driveID], (opt_payload MkdirReq_payload request))"
| "called (CallMount request driveID) = (OpMount, [driveID], (opt_payload MountReq_payload request))"
| "called (CallMv request driveID) = (OpMv, [driveID], (opt_payload MvReq_payload request))"
| "called (CallPresignDownload driveID path) = (OpPresignDownload, [driveID], (no_payload\<lparr>pl_path := path\<rparr>))"
| "called (CallReadlink driveID path) = (OpReadlink, [driveID], (no_payload\<lparr>pl_path := path\<rparr>))"
| "called (CallRealpath driveID path) = (OpRealpath, [driveID], (no_payload\<lparr>pl_path := path\<rparr>))"
| "called (CallRestoreDrive driveID) = (OpRestoreDrive, [driveID], no_payload)"
| "called (CallRm request driveID) = (OpRm, [driveID], (opt_payload RmReq_payload request))"
| "called (CallStat driveID path) = (OpStat, [driveID], (no_payload\<lparr>pl_path := path\<rparr>))"
| "called (CallSymlink request driveID) = (OpSymlink, [driveID], (opt_payload SymlinkReq_payload request))"
| "called (CallTouch request driveID) = (OpTouch, [driveID], (opt_payload TouchReq_payload request))"
| "called (CallUnmount driveID mountPath) = (OpUnmount, [driveID], (no_payload\<lparr>pl_path := mountPath\<rparr>))"
| "called (CallUpdateDrive request driveID) = (OpUpdateDrive, [driveID], (opt_payload DriveUpdate_payload request))"
| "called (CallUpsertUser request) = (OpUpsertUser, [], (opt_payload UpsertUserReq_payload request))"
| "called (CallWrite request driveID) = (OpWrite, [driveID], (opt_payload WriteReq_payload request))"
| "called (CallWriteLarge request driveID) = (OpWriteLarge, [driveID], (opt_payload WriteLargeReq_payload request))"

section \<open>From the client to the server\<close>

text \<open>
  net/http sends the escaped path; \<open>url.ParseRequestURI\<close> unescapes it and keeps it as the raw path when it is not the default escaping of
  the result. \<open>None\<close> is a path that does not unescape.
\<close>

definition arrives :: "wire \<Rightarrow> http_call option" where
  "arrives r =
     map_option (\<lambda>p. \<lparr>hq_query = wr_query r, hq_cookies = wr_cookies r, hc_method = wr_method r, hc_path = p,
         hc_raw_path = (if url_escape InPath p = wr_path r then [] else wr_path r), hc_origin = [], hc_referer = [],
         hc_content_type = wr_content_type r, hc_content_length = int (length (wr_body r)), hc_body = Some (wr_body r)\<rparr>)
       (PathUnescape (wr_path r))"

section \<open>Escaped paths\<close>

lemma PathUnescape_append:
  "PathUnescape xs = Some a \<Longrightarrow> PathUnescape (xs @ ys) = map_option (\<lambda>b. a @ b) (PathUnescape ys)"
proof (induction xs arbitrary: a rule: PathUnescape.induct)
  case (2 c s)
  show ?case
  proof (cases "c = CHR ''%''")
    case False
    then obtain a' where "PathUnescape s = Some a'" "a = c # a'" using 2(3) by auto
    then show ?thesis using 2(1) False by (simp add: option.map_comp comp_def)
  next
    case True
    then obtain u v r x y a' where s: "s = u # v # r" "hex_val u = Some x" "hex_val v = Some y"
      "PathUnescape r = Some a'" "a = char_of (16 * x + y :: nat) # a'"
      using 2(3) by (auto split: list.splits option.splits)
    then show ?thesis using 2(2) [OF _ s(1)] True by (simp add: option.map_comp comp_def)
  qed
qed (cases "PathUnescape ys"; simp)

lemma PathUnescape_plain: "CHR ''%'' \<notin> set s \<Longrightarrow> PathUnescape s = Some s"
  by (induction s) auto

lemma count_slash_escape: "length (filter ((=) CHR ''/'') (url_escape InPath s)) = length (filter ((=) CHR ''/'') s)"
proof -
  have "upper_hex d \<noteq> CHR ''/''" if "d < 16" for d using that by (auto simp: upper_hex_def char_of_eq_iff take_bit_eq_mod)
  then have hex: "CHR ''/'' \<noteq> upper_hex d" if "d < 16" for d using that by metis
  have "CHR ''/'' \<noteq> upper_hex (of_char c div 16)" "CHR ''/'' \<noteq> upper_hex (of_char c mod 16)" for c
    by (rule hex, intro less_mult_imp_div_less, simp, rule hex, simp)
  then have p: "filter ((=) CHR ''/'') (percent c) = []" for c by (simp add: percent_def)
  show ?thesis by (induction s) (auto simp: url_escape_def p shouldEscape_def)
qed

lemma join_char_Cons: "ps \<noteq> [] \<Longrightarrow> join_char c (p # ps) = p @ c # join_char c ps"
  by (cases ps) simp_all

fun fill :: "seg list \<Rightarrow> string list \<Rightarrow> string" where
  "fill [] args = []"
| "fill (Lit s # ps) args = CHR ''/'' # s @ fill ps args"
| "fill (Arg # ps) args = CHR ''/'' # hd args @ fill ps (tl args)"

fun segments :: "seg list \<Rightarrow> string list \<Rightarrow> string list" where
  "segments [] args = []"
| "segments (Lit s # ps) args = s # segments ps args"
| "segments (Arg # ps) args = hd args # segments ps (tl args)"

definition params :: "seg list \<Rightarrow> nat" where
  "params ps = length (filter ((=) Arg) ps)"

lemma params_simps [simp]: "params [] = 0" "params (Lit s # ps) = params ps" "params (Arg # ps) = Suc (params ps)"
  by (simp_all add: params_def)

definition plain_path :: "seg list \<Rightarrow> bool" where
  "plain_path ps \<longleftrightarrow> (\<forall>s. Lit s \<in> set ps \<longrightarrow> CHR ''/'' \<notin> set s \<and> CHR ''%'' \<notin> set s)"

lemma segments_nonempty: "ps \<noteq> [] \<Longrightarrow> segments ps args \<noteq> []"
  by (cases ps rule: render.cases) auto

lemma fill_join: "ps \<noteq> [] \<Longrightarrow> fill ps args = CHR ''/'' # join_char CHR ''/'' (segments ps args)"
proof (induction ps args rule: fill.induct)
  case (2 s ps args)
  then show ?case by (cases "ps = []") (simp_all add: segments_nonempty join_char_Cons)
next
  case (3 ps args)
  then show ?case by (cases "ps = []") (simp_all add: segments_nonempty join_char_Cons)
qed simp

lemma segments_no_slash:
  assumes "plain_path ps" "length args = params ps" "\<forall>a\<in>set args. CHR ''/'' \<notin> set a"
  shows "\<forall>s\<in>set (segments ps args). CHR ''/'' \<notin> set s"
  using assms
proof (induction ps args rule: segments.induct)
  case (3 ps args)
  then show ?case by (cases args) (simp_all add: plain_path_def)
qed (simp_all add: plain_path_def)

lemma split_fill:
  assumes "ps \<noteq> []" "plain_path ps" "length args = params ps" "\<forall>a\<in>set args. CHR ''/'' \<notin> set a"
  shows "split_char CHR ''/'' (fill ps args) = [] # segments ps args"
  using segments_no_slash [OF assms(2-)] segments_nonempty [OF assms(1)] by (simp add: fill_join [OF assms(1)] split_join_char)

lemma seg_match_segments: "length args = params ps \<Longrightarrow> seg_match ps (segments ps args) = Some args"
proof (induction ps args rule: segments.induct)
  case (3 ps args)
  then show ?case by (cases args) simp_all
qed simp_all

lemma match_fill:
  assumes "ps \<noteq> []" "plain_path ps" "length args = params ps" "\<forall>a\<in>set args. CHR ''/'' \<notin> set a"
  shows "path_match ps (fill ps args) = Some args"
  using split_fill [OF assms] seg_match_segments [OF assms(3)] by (simp add: path_match_def fill_join [OF assms(1)])

lemma unescape_fill:
  assumes "plain_path ps" "list_all2 (\<lambda>e a. PathUnescape e = Some a) es as" "length es = params ps"
  shows "PathUnescape (fill ps es) = Some (fill ps as)"
  using assms
proof (induction ps es arbitrary: as rule: fill.induct)
  case (2 s ps es)
  then show ?case by (simp add: plain_path_def PathUnescape_append [OF PathUnescape_plain])
next
  case (3 ps es)
  then show ?case by (cases es) (auto simp: plain_path_def PathUnescape_append list_all2_Cons1)
qed simp

lemma count_fill:
  assumes "plain_path ps" "length args = params ps"
  shows "length (filter ((=) CHR ''/'') (fill ps args)) = length ps + length (filter ((=) CHR ''/'') (concat args))"
  using assms
proof (induction ps args rule: fill.induct)
  case (2 s ps es)
  have "filter ((=) CHR ''/'') s = []" using 2(2) by (auto simp: plain_path_def filter_empty_conv)
  then show ?case using 2 by (simp add: plain_path_def)
next
  case (3 ps es)
  then show ?case by (cases es) (auto simp: plain_path_def)
qed simp

text \<open>
  What is relied on of ogen's library. A path parameter's encoding has no delimiter and unescapes to the parameter; the parts are put
  one after the other; the normal form of an escaped path has the segments of the path, up to escapes.
\<close>

definition encodes_parameters :: "(string \<Rightarrow> gerror + string) \<Rightarrow> bool" where
  "encodes_parameters enc \<longleftrightarrow> (\<forall>a e. enc a = Inr e \<longrightarrow> PathUnescape e = Some a \<and> set e \<inter> set ''/?#'' = {})"

definition same_segment :: "string \<Rightarrow> string \<Rightarrow> bool" where
  "same_segment s s' \<longleftrightarrow> PathUnescape s' = PathUnescape s \<and> (CHR ''%'' \<notin> set s \<longrightarrow> s' = s)"

definition keeps_segments :: "(string \<Rightarrow> string option) \<Rightarrow> bool" where
  "keeps_segments N \<longleftrightarrow>
     (\<forall>p. PathUnescape p \<noteq> None \<longrightarrow>
        (\<exists>q. N p = Some q \<and> list_all2 same_segment (split_char CHR ''/'' p) (split_char CHR ''/'' q)))"

text \<open>The segments of a normal form are those of the path with other parameters.\<close>

lemma segments_normal:
  assumes "plain_path ps" "length es = params ps" "list_all2 same_segment (segments ps es) ss"
  shows "\<exists>es'. ss = segments ps es' \<and> length es' = params ps \<and> list_all2 same_segment es es'"
  using assms
proof (induction ps es arbitrary: ss rule: segments.induct)
  case (1 args)
  then show ?case by (intro exI [of _ "[]"]) simp
next
  case (2 s ps args)
  obtain s' ss' where s: "ss = s' # ss'" "same_segment s s'" "list_all2 same_segment (segments ps args) ss'"
    using 2(4) by (auto simp: list_all2_Cons1)
  then have ss: "ss = s # ss'" "list_all2 same_segment (segments ps args) ss'" using 2(2) by (auto simp: plain_path_def same_segment_def)
  then obtain es' where "ss' = segments ps es'" "length es' = params ps" "list_all2 same_segment args es'"
    using 2(1) [OF _ _ ss(2)] 2(2,3) by (auto simp: plain_path_def)
  then show ?case using ss(1) by (intro exI [of _ es']) simp
next
  case (3 ps args)
  obtain a args' where a: "args = a # args'" using 3(3) by (cases args) auto
  obtain a' ss' where ss: "ss = a' # ss'" "same_segment a a'" "list_all2 same_segment (segments ps args') ss'"
    using 3(4) by (auto simp: a list_all2_Cons1)
  then obtain es' where "ss' = segments ps es'" "length es' = params ps" "list_all2 same_segment args' es'"
    using 3(1) [of ss'] 3(2,3) by (auto simp: a plain_path_def)
  then show ?case using ss(1,2) a by (intro exI [of _ "a' # es'"]) simp
qed

lemma normal_fill:
  assumes N: "keeps_segments N" and ps: "ps \<noteq> []" "plain_path ps" "length es = params ps" "\<forall>e\<in>set es. CHR ''/'' \<notin> set e"
    and u: "PathUnescape (fill ps es) \<noteq> None"
  shows "\<exists>es'. N (fill ps es) = Some (fill ps es') \<and> length es' = params ps \<and> (\<forall>e\<in>set es'. CHR ''/'' \<notin> set e) \<and> list_all2 same_segment es es'"
proof -
  obtain q where q: "N (fill ps es) = Some q" "list_all2 same_segment ([] # segments ps es) (split_char CHR ''/'' q)"
    using N u split_fill [OF ps] unfolding keeps_segments_def by metis
  then obtain ss where ss: "split_char CHR ''/'' q = [] # ss" "list_all2 same_segment (segments ps es) ss"
    by (auto simp: list_all2_Cons1 same_segment_def)
  obtain es' where es: "ss = segments ps es'" "length es' = params ps" "list_all2 same_segment es es'"
    using segments_normal [OF ps(2,3) ss(2)] by blast
  have "q = fill ps es'"
    using join_split_char [of "CHR ''/''" q] ss(1) es(1) ps(1) by (simp add: fill_join join_char_Cons segments_nonempty)
  moreover have "\<forall>s\<in>set ss. CHR ''/'' \<notin> set s" using split_char_no_sep [of _ "CHR ''/''" q] ss(1) by auto
  moreover have "set es' \<subseteq> set (segments ps es')" using es(2)
    by (induction ps es' rule: segments.induct) (auto simp: length_Suc_conv)
  ultimately show ?thesis using q(1) es by blast
qed

lemma fill_no_percent:
  assumes "length es = params ps" "CHR ''%'' \<notin> set (fill ps es)" "e \<in> set es"
  shows "CHR ''%'' \<notin> set e"
  using assms by (induction ps es rule: fill.induct) (auto simp: length_Suc_conv)

text \<open>However a path arrives, its parameters are the ones that were encoded.\<close>

lemma routed_args:
  assumes N: "keeps_segments N" and ps: "ps \<noteq> []" "plain_path ps" "length es = params ps"
    and es: "list_all2 (\<lambda>e a. PathUnescape e = Some a \<and> CHR ''/'' \<notin> set e \<and> a \<noteq> []) es as"
    and rq: "hc_path rq = fill ps as" "hc_raw_path rq = (if url_escape InPath (fill ps as) = fill ps es then [] else fill ps es)"
  shows "\<exists>es' esc. routed_path N rq = (fill ps es', esc) \<and> length es' = params ps \<and> (\<forall>e\<in>set es'. CHR ''/'' \<notin> set e) \<and>
    map (path_param esc) es' = map Some as"
proof -
  have la: "length as = params ps" and no: "\<forall>e\<in>set es. CHR ''/'' \<notin> set e"
    and un: "list_all2 (\<lambda>e a. PathUnescape e = Some a) es as"
    using es ps(3) by (auto simp: list_all2_conv_all_nth in_set_conv_nth)
  have a: "\<forall>a\<in>set as. a \<noteq> []" using es by (auto simp: list_all2_conv_all_nth in_set_conv_nth)
  have u: "PathUnescape (fill ps es) = Some (fill ps as)" by (rule unescape_fill [OF ps(2) un ps(3)])
  have ne: "fill ps es \<noteq> []" using fill_join [OF ps(1)] by simp
  show ?thesis
  proof (cases "url_escape InPath (fill ps as) = fill ps es")
    case True
    have "filter ((=) CHR ''/'') (concat es) = []" using no by (auto simp: filter_empty_conv)
    then have "filter ((=) CHR ''/'') (concat as) = []"
      using count_slash_escape [of "fill ps as"] count_fill [OF ps(2)] la ps(3) unfolding True by simp
    then have "\<forall>a\<in>set as. CHR ''/'' \<notin> set a" by (auto simp: filter_empty_conv)
    moreover have "routed_path N rq = (fill ps as, False)" using True rq by (simp add: routed_path_def)
    moreover have "map (path_param False) as = map Some as" using a by (simp add: path_param_def)
    ultimately show ?thesis using la by blast
  next
    case False
    obtain es' where n: "N (fill ps es) = Some (fill ps es')" "length es' = params ps" "\<forall>e\<in>set es'. CHR ''/'' \<notin> set e"
      "list_all2 same_segment es es'" using normal_fill [OF N ps no] u by auto
    have s: "list_all2 (\<lambda>e a. PathUnescape e = Some a) es' as"
      using n(4) un by (auto simp: list_all2_conv_all_nth same_segment_def)
    let ?esc = "CHR ''%'' \<in> set (fill ps es')"
    have "path_param ?esc e = Some a" if "(e, a) \<in> set (zip es' as)" for e a
    proof -
      have "PathUnescape e = Some a" "e \<in> set es'" "a \<noteq> []"
        using that s a by (auto simp: list_all2_iff dest: set_zip_leftD set_zip_rightD)
      then show ?thesis using fill_no_percent [OF n(2)] PathUnescape_plain [of e] by (auto simp: path_param_def)
    qed
    then have "map (path_param ?esc) es' = map Some as"
      using n(2) la by (auto simp: list_eq_iff_nth_eq set_zip)
    moreover have "routed_path N rq = (fill ps es', ?esc)" using False rq ne n(1) by (simp add: routed_path_def)
    ultimately show ?thesis using n(2,3) by blast
  qed
qed

section \<open>The operations' paths\<close>

definition document_path :: "op_id \<Rightarrow> string \<Rightarrow> seg list \<Rightarrow> bool" where
  "document_path op m ps \<longleftrightarrow> list_ex (\<lambda>(qs, ms). qs = ps \<and> map_of ms m = Some op) openapi_paths"

lemma document_path_plain: "document_path op m ps \<Longrightarrow> ps \<noteq> [] \<and> plain_path ps"
  by (auto simp: document_path_def list_ex_iff openapi_paths_def drive_path_def plain_path_def)

lemma document_path_served:
  assumes d: "document_path op m ps" and "length as = params ps" "\<forall>a\<in>set as. CHR ''/'' \<notin> set a"
  shows "ServeHTTP m (fill ps as) = RouteTo op as"
proof -
  note ps = document_path_plain [OF d, THEN conjunct1] document_path_plain [OF d, THEN conjunct2]
  obtain ms where ms: "(ps, ms) \<in> set openapi_paths" "map_of ms m = Some op" using d by (auto simp: document_path_def list_ex_iff)
  have e: "fill ps as \<noteq> []" using fill_join [OF ps(1)] by simp
  have "follow router [] (fill ps as) = Some (ms, as)"
    unfolding follow_router [OF e] using ms(1) match_fill [OF ps assms(2,3)] by blast
  then show ?thesis using e ms(2) by (simp add: ServeHTTP_def method_switch_def)
qed

text \<open>The path of the document an operation has.\<close>

definition op_path :: "op_id \<Rightarrow> seg list" where
  "op_path op = (case find (\<lambda>(ps, ms). op \<in> snd ` set ms) openapi_paths of Some (ps, _) \<Rightarrow> ps | None \<Rightarrow> [])"

fun parts_text :: "part list \<Rightarrow> string list \<Rightarrow> string" where
  "parts_text [] es = []"
| "parts_text (Fixed s # ps) es = s @ parts_text ps es"
| "parts_text (Encoded a # ps) es = hd es @ parts_text ps (tl es)"

fun encoded_args :: "part list \<Rightarrow> string list" where
  "encoded_args [] = []"
| "encoded_args (Fixed s # ps) = encoded_args ps"
| "encoded_args (Encoded a # ps) = a # encoded_args ps"

lemma path_parts_text:
  assumes "encodes_parameters (cl_encode C)" "path_parts C ps = Inr parts"
  shows "\<exists>es. concat parts = parts_text ps es \<and>
    list_all2 (\<lambda>e a. PathUnescape e = Some a \<and> CHR ''/'' \<notin> set e) es (encoded_args ps)"
  using assms(2)
proof (induction ps arbitrary: parts rule: encoded_args.induct)
  case 1
  then show ?case by (intro exI [of _ "[]"]) simp
next
  case (2 s ps)
  then obtain r where "path_parts C ps = Inr r" "parts = s # r" by (auto split: sum.splits)
  then show ?case using 2(1) by auto
next
  case (3 a ps)
  then obtain e r where r: "cl_encode C a = Inr e" "path_parts C ps = Inr r" "parts = e # r" by (auto split: sum.splits)
  obtain es where "concat r = parts_text ps es"
    "list_all2 (\<lambda>e a. PathUnescape e = Some a \<and> CHR ''/'' \<notin> set e) es (encoded_args ps)" using 3(1) [OF r(2)] by blast
  moreover have "PathUnescape e = Some a" "CHR ''/'' \<notin> set e" using assms(1) r(1) by (auto simp: encodes_parameters_def)
  ultimately show ?case using r(3) by (intro exI [of _ "e # es"]) simp
qed

lemma send_Inr:
  assumes "send C op m ps q j sec = Inr r"
  shows "\<exists>parts. path_parts C ps = Inr parts \<and> wr_path r = cl_url C parts \<and> wr_method r = m \<and> wr_query r = q \<and>
    wr_content_type r = map_option (\<lambda>_. ''application/json'') j \<and> wr_body r = (case j of None \<Rightarrow> [] | Some v \<Rightarrow> cl_json C v) \<and>
    wr_cookies r = (case cl_security C op of APIKey k \<Rightarrow> if sec then [(''mdrive_session'', filter validCookieValueByte k)] else [] | _ \<Rightarrow> [])"
  using assms
  by (cases j; cases sec; cases "cl_security C op")
    (auto simp: send_def with_body_def client_securityCookieAuth_def Let_def split: sum.splits option.splits)

text \<open>The query of a call is read by name.\<close>

definition reads_query :: "decoder_lib \<Rightarrow> bool" where
  "reads_query P \<longleftrightarrow> (\<forall>q k v. distinct (map fst q) \<longrightarrow> map_of q k = Some v \<longrightarrow> dl_query P q k = Some v)"

text \<open>What a call sends: the path of its operation, the fields that decode to what the caller means, and the cookie where the document asks for it.\<close>

definition well_sent :: "api_client \<Rightarrow> client_call \<Rightarrow> json option \<Rightarrow> bool" where
  "well_sent C call j \<longleftrightarrow>
     (\<exists>m ps q. let (op, args, x) = called call in
        client_send C call = send C op m ps q j (secured op) \<and> document_path op m (op_path op) \<and> encoded_args ps = args \<and>
        length args = params (op_path op) \<and> (\<forall>es. length es = length args \<longrightarrow> parts_text ps es = fill (op_path op) es) \<and>
        (\<forall>P rq. hq_query rq = q \<longrightarrow> carries (cl_json C) rq j \<longrightarrow> reads_back (cl_json C) P j \<longrightarrow> reads_query P \<longrightarrow>
           api_decoders P op rq = Some x))"

lemmas send_defs = sendAuthCallback_def sendAuthLogin_def sendAuthLogout_def sendAuthMe_def sendCat_def sendCompleteUpload_def
  sendCreateDrive_def sendDeleteDrive_def sendGetDrive_def sendGetDriveStorage_def sendGetUser_def sendHardlink_def
  sendHealth_def sendInitiateUpload_def sendListDeletedDrives_def sendListDrives_def sendLs_def sendLstat_def sendMkdir_def
  sendMount_def sendMv_def sendPresignDownload_def sendReadlink_def sendRealpath_def sendRestoreDrive_def sendRm_def
  sendStat_def sendSymlink_def sendTouch_def sendUnmount_def sendUpdateDrive_def sendUpsertUser_def sendWrite_def
  sendWriteLarge_def

fun request_json :: "client_call \<Rightarrow> json option" where
  "request_json (CallCompleteUpload request driveID uploadId) = map_option Encode_UploadCompleteRequest request"
| "request_json (CallCreateDrive request) = map_option Encode_DriveCreate request"
| "request_json (CallHardlink request driveID) = map_option Encode_HardlinkReq request"
| "request_json (CallInitiateUpload request driveID) = map_option Encode_PresignRequest request"
| "request_json (CallMkdir request driveID) = map_option Encode_MkdirReq request"
| "request_json (CallMount request driveID) = map_option Encode_MountReq request"
| "request_json (CallMv request driveID) = map_option Encode_MvReq request"
| "request_json (CallRm request driveID) = map_option Encode_RmReq request"
| "request_json (CallSymlink request driveID) = map_option Encode_SymlinkReq request"
| "request_json (CallTouch request driveID) = map_option Encode_TouchReq request"
| "request_json (CallUpdateDrive request driveID) = map_option Encode_DriveUpdate request"
| "request_json (CallUpsertUser request) = map_option Encode_UpsertUserReq request"
| "request_json (CallWrite request driveID) = map_option Encode_WriteReq request"
| "request_json (CallWriteLarge request driveID) = map_option Encode_WriteLargeReq request"
| "request_json _ = None"

lemmas op_path_defs = op_path_def document_path_def openapi_paths_def drive_path_def

lemma well_sent_rule:
  assumes "called call = (op, args, x)" "client_send C call = send C op m ps q j sec" "sec = secured op"
    "document_path op m (op_path op)" "encoded_args ps = args" "length args = params (op_path op)"
    "\<And>es. length es = length args \<Longrightarrow> parts_text ps es = fill (op_path op) es"
    "\<And>P rq. hq_query rq = q \<Longrightarrow> carries (cl_json C) rq j \<Longrightarrow> reads_back (cl_json C) P j \<Longrightarrow> reads_query P \<Longrightarrow> api_decoders P op rq = Some x"
  shows "well_sent C call j"
  unfolding well_sent_def Let_def assms(1) prod.case
  by (rule exI [of _ m], rule exI [of _ ps], rule exI [of _ q], intro conjI allI impI)
    (use assms(2-) in \<open>simp_all only:\<close>)

lemma op_paths:
  "op_path OpAuthCallback = [Lit ''auth'', Lit ''callback'']" "document_path OpAuthCallback ''GET'' (op_path OpAuthCallback)"
  "op_path OpAuthLogin = [Lit ''auth'', Lit ''login'']" "document_path OpAuthLogin ''GET'' (op_path OpAuthLogin)"
  "op_path OpAuthLogout = [Lit ''auth'', Lit ''logout'']" "document_path OpAuthLogout ''POST'' (op_path OpAuthLogout)"
  "op_path OpAuthMe = [Lit ''auth'', Lit ''me'']" "document_path OpAuthMe ''GET'' (op_path OpAuthMe)"
  "op_path OpCat = [Lit ''v1'', Lit ''drives'', Arg, Lit ''fs'', Lit ''cat'']" "document_path OpCat ''GET'' (op_path OpCat)"
  "op_path OpCompleteUpload = [Lit ''v1'', Lit ''drives'', Arg, Lit ''uploads'', Arg, Lit ''complete'']" "document_path OpCompleteUpload ''POST'' (op_path OpCompleteUpload)"
  "op_path OpCreateDrive = [Lit ''v1'', Lit ''drives'']" "document_path OpCreateDrive ''POST'' (op_path OpCreateDrive)"
  "op_path OpDeleteDrive = [Lit ''v1'', Lit ''drives'', Arg, Lit ''root'']" "document_path OpDeleteDrive ''DELETE'' (op_path OpDeleteDrive)"
  "op_path OpGetDrive = [Lit ''v1'', Lit ''drives'', Arg, Lit ''root'']" "document_path OpGetDrive ''GET'' (op_path OpGetDrive)"
  "op_path OpGetDriveStorage = [Lit ''v1'', Lit ''drives'', Arg, Lit ''storage'']" "document_path OpGetDriveStorage ''GET'' (op_path OpGetDriveStorage)"
  "op_path OpGetUser = [Lit ''v1'', Lit ''users'']" "document_path OpGetUser ''GET'' (op_path OpGetUser)"
  "op_path OpHardlink = [Lit ''v1'', Lit ''drives'', Arg, Lit ''fs'', Lit ''hardlink'']" "document_path OpHardlink ''POST'' (op_path OpHardlink)"
  "op_path OpHealth = [Lit ''health'']" "document_path OpHealth ''GET'' (op_path OpHealth)"
  "op_path OpInitiateUpload = [Lit ''v1'', Lit ''drives'', Arg, Lit ''uploads'']" "document_path OpInitiateUpload ''POST'' (op_path OpInitiateUpload)"
  "op_path OpListDeletedDrives = [Lit ''v1'', Lit ''admin'', Lit ''drives'', Lit ''deleted'']" "document_path OpListDeletedDrives ''GET'' (op_path OpListDeletedDrives)"
  "op_path OpListDrives = [Lit ''v1'', Lit ''drives'']" "document_path OpListDrives ''GET'' (op_path OpListDrives)"
  "op_path OpLs = [Lit ''v1'', Lit ''drives'', Arg, Lit ''fs'', Lit ''ls'']" "document_path OpLs ''GET'' (op_path OpLs)"
  "op_path OpLstat = [Lit ''v1'', Lit ''drives'', Arg, Lit ''fs'', Lit ''lstat'']" "document_path OpLstat ''GET'' (op_path OpLstat)"
  "op_path OpMkdir = [Lit ''v1'', Lit ''drives'', Arg, Lit ''fs'', Lit ''mkdir'']" "document_path OpMkdir ''POST'' (op_path OpMkdir)"
  "op_path OpMount = [Lit ''v1'', Lit ''drives'', Arg, Lit ''fs'', Lit ''mount'']" "document_path OpMount ''POST'' (op_path OpMount)"
  "op_path OpMv = [Lit ''v1'', Lit ''drives'', Arg, Lit ''fs'', Lit ''mv'']" "document_path OpMv ''POST'' (op_path OpMv)"
  "op_path OpPresignDownload = [Lit ''v1'', Lit ''drives'', Arg, Lit ''downloads'']" "document_path OpPresignDownload ''GET'' (op_path OpPresignDownload)"
  "op_path OpReadlink = [Lit ''v1'', Lit ''drives'', Arg, Lit ''fs'', Lit ''readlink'']" "document_path OpReadlink ''GET'' (op_path OpReadlink)"
  "op_path OpRealpath = [Lit ''v1'', Lit ''drives'', Arg, Lit ''fs'', Lit ''realpath'']" "document_path OpRealpath ''GET'' (op_path OpRealpath)"
  "op_path OpRestoreDrive = [Lit ''v1'', Lit ''drives'', Arg, Lit ''restore'']" "document_path OpRestoreDrive ''POST'' (op_path OpRestoreDrive)"
  "op_path OpRm = [Lit ''v1'', Lit ''drives'', Arg, Lit ''fs'']" "document_path OpRm ''DELETE'' (op_path OpRm)"
  "op_path OpStat = [Lit ''v1'', Lit ''drives'', Arg, Lit ''fs'', Lit ''stat'']" "document_path OpStat ''GET'' (op_path OpStat)"
  "op_path OpSymlink = [Lit ''v1'', Lit ''drives'', Arg, Lit ''fs'', Lit ''symlink'']" "document_path OpSymlink ''POST'' (op_path OpSymlink)"
  "op_path OpTouch = [Lit ''v1'', Lit ''drives'', Arg, Lit ''fs'', Lit ''touch'']" "document_path OpTouch ''POST'' (op_path OpTouch)"
  "op_path OpUnmount = [Lit ''v1'', Lit ''drives'', Arg, Lit ''fs'', Lit ''unmount'']" "document_path OpUnmount ''DELETE'' (op_path OpUnmount)"
  "op_path OpUpdateDrive = [Lit ''v1'', Lit ''drives'', Arg, Lit ''root'']" "document_path OpUpdateDrive ''PUT'' (op_path OpUpdateDrive)"
  "op_path OpUpsertUser = [Lit ''v1'', Lit ''users'']" "document_path OpUpsertUser ''POST'' (op_path OpUpsertUser)"
  "op_path OpWrite = [Lit ''v1'', Lit ''drives'', Arg, Lit ''fs'', Lit ''write'']" "document_path OpWrite ''PUT'' (op_path OpWrite)"
  "op_path OpWriteLarge = [Lit ''v1'', Lit ''drives'', Arg, Lit ''fs'', Lit ''object'']" "document_path OpWriteLarge ''POST'' (op_path OpWriteLarge)"
  by (simp_all add: op_path_defs)

lemma reads_query_by_name: "reads_query P \<Longrightarrow> distinct (map fst q) \<Longrightarrow> k \<in> fst ` set q \<Longrightarrow> dl_query P q k = map_of q k"
  unfolding reads_query_def by (metis map_of_eq_None_iff option.exhaust)

lemma calls_well_sent: "well_sent C call (request_json call)"
  by (cases call; hypsubst; simp only: request_json.simps; rule well_sent_rule, rule called.simps,
      (simp only: client_send.simps send_defs; rule refl)?, simp add: secured_def, rule op_paths, simp, simp add: op_paths,
      auto simp: op_paths length_Suc_conv read_path_def reads_query_by_name,
      (simp only: request_defs; erule (1) sent_bodies)?)

section \<open>A call is served as it was meant\<close>

definition call_library :: "library \<Rightarrow> decoder_lib \<Rightarrow> bool" where
  "call_library L P \<longleftrightarrow> keeps_segments (lib_normalize L) \<and> lib_decoders L = api_decoders P \<and> reads_query P"

text \<open>The client of a server without a path of its own; \<open>encodes_parameters\<close> is what ogen's encoder does.\<close>

definition call_client :: "api_client \<Rightarrow> bool" where
  "call_client C \<longleftrightarrow> encodes_parameters (cl_encode C) \<and> (\<forall>ps. cl_url C ps = concat ps)"

lemma those_map_Some: "those (map Some xs) = Some xs"
  by (induction xs) simp_all

lemma sent_path:
  assumes C: "call_client C" and s: "client_send C call = Inr r" and c: "called call = (op, args, x)" and ne: "[] \<notin> set args"
  shows "\<exists>es. wr_path r = fill (op_path op) es \<and> length es = params (op_path op) \<and> document_path op (wr_method r) (op_path op) \<and>
    list_all2 (\<lambda>e a. PathUnescape e = Some a \<and> CHR ''/'' \<notin> set e \<and> a \<noteq> []) es args \<and>
    (\<forall>P rq. hq_query rq = wr_query r \<longrightarrow> carries (cl_json C) rq (request_json call) \<longrightarrow> reads_back (cl_json C) P (request_json call) \<longrightarrow>
       reads_query P \<longrightarrow> api_decoders P op rq = Some x)"
proof -
  obtain m ps q where w: "client_send C call = send C op m ps q (request_json call) (secured op)" "document_path op m (op_path op)"
    "encoded_args ps = args" "length args = params (op_path op)"
    "\<forall>es. length es = length args \<longrightarrow> parts_text ps es = fill (op_path op) es"
    "\<forall>P rq. hq_query rq = q \<longrightarrow> carries (cl_json C) rq (request_json call) \<longrightarrow> reads_back (cl_json C) P (request_json call) \<longrightarrow>
       reads_query P \<longrightarrow> api_decoders P op rq = Some x"
    using calls_well_sent [of C call] unfolding well_sent_def c Let_def prod.case by blast
  obtain parts where r: "path_parts C ps = Inr parts" "wr_path r = cl_url C parts" "wr_method r = m" "wr_query r = q"
    using send_Inr [of C op m ps q "request_json call" "secured op" r] s w(1) by auto
  obtain es where es: "concat parts = parts_text ps es" "list_all2 (\<lambda>e a. PathUnescape e = Some a \<and> CHR ''/'' \<notin> set e) es args"
    using path_parts_text [OF _ r(1)] C w(3) by (auto simp: call_client_def)
  have l: "length es = length args" using es(2) by (rule list_all2_lengthD)
  have "list_all2 (\<lambda>e a. PathUnescape e = Some a \<and> CHR ''/'' \<notin> set e \<and> a \<noteq> []) es args"
    using es(2) ne by (auto simp: list_all2_conv_all_nth in_set_conv_nth)
  then show ?thesis using C r es(1) l w by (intro exI [of _ es]) (simp add: call_client_def)
qed

lemma arrives_path:
  assumes "wr_path r = fill ps es" "plain_path ps" "list_all2 (\<lambda>e a. PathUnescape e = Some a) es as" "length es = params ps"
  shows "\<exists>rq. arrives r = Some rq \<and> hc_path rq = fill ps as \<and>
    hc_raw_path rq = (if url_escape InPath (fill ps as) = fill ps es then [] else fill ps es) \<and> hc_method rq = wr_method r \<and>
    hq_query rq = wr_query r \<and> hq_cookies rq = wr_cookies r \<and> hc_content_type rq = wr_content_type r \<and>
    hc_body rq = Some (wr_body r) \<and> hc_content_length rq = int (length (wr_body r))"
  using unescape_fill [OF assms(2-4)] by (simp add: arrives_def assms(1))

lemma sent_carries:
  assumes s: "client_send C call = Inr r" and rq: "hc_content_type rq = wr_content_type r" "hc_body rq = Some (wr_body r)"
    "hc_content_length rq = int (length (wr_body r))"
  shows "carries (cl_json C) rq (request_json call)"
proof -
  obtain op args x where c: "called call = (op, args, x)" by (cases "called call")
  obtain m ps q where "client_send C call = send C op m ps q (request_json call) (secured op)"
    using calls_well_sent [of C call] unfolding well_sent_def c Let_def prod.case by blast
  then have "wr_content_type r = map_option (\<lambda>_. ''application/json'') (request_json call)"
    "wr_body r = (case request_json call of None \<Rightarrow> [] | Some v \<Rightarrow> cl_json C v)"
    using send_Inr s by metis+
  then show ?thesis using rq by (cases "request_json call") (simp_all add: carries_def)
qed

text \<open>
  C15. A call of the generated client is served as the operation its caller means. For each of its 34 operations, whatever bytes the
  parameters of its path have (slashes and percent signs too, but not none), the call passes net/http and the generated router to
  that operation, whose handler is called with these parameters and with the fields of the caller's query or body, or their zero
  values when the body is not set; the session cookie is the only one it brings. This relies on what ogen's library, jx and the
  parser of media types are documented to do.
\<close>

theorem client_call_served:
  assumes C: "call_client C" and L: "call_library L P" and j: "reads_back (cl_json C) P (request_json call)"
    and s: "client_send C call = Inr r" and c: "called call = (op, args, x)" and ne: "[] \<notin> set args"
  shows "\<exists>rq. arrives r = Some rq \<and>
    (\<forall>sec E H w. ogen_serve L sec E H rq w =
       ogen_operation (lib_security_text L) sec (secured op) (wr_cookies r) None (Some (operation_handler E H (operation_of op args x))) w)"
proof -
  obtain es where es: "wr_path r = fill (op_path op) es" "length es = params (op_path op)" "document_path op (wr_method r) (op_path op)"
    "list_all2 (\<lambda>e a. PathUnescape e = Some a \<and> CHR ''/'' \<notin> set e \<and> a \<noteq> []) es args"
    "\<forall>P rq. hq_query rq = wr_query r \<longrightarrow> carries (cl_json C) rq (request_json call) \<longrightarrow> reads_back (cl_json C) P (request_json call) \<longrightarrow>
       reads_query P \<longrightarrow> api_decoders P op rq = Some x"
    using sent_path [OF C s c ne] by blast
  have N: "keeps_segments (lib_normalize L)" using L by (simp add: call_library_def)
  have pl: "op_path op \<noteq> []" "plain_path (op_path op)" using document_path_plain [OF es(3)] by simp_all
  have un: "list_all2 (\<lambda>e a. PathUnescape e = Some a) es args" using es(4) by (rule list_all2_mono) simp
  obtain rq where rq: "arrives r = Some rq" "hc_path rq = fill (op_path op) args"
    "hc_raw_path rq = (if url_escape InPath (fill (op_path op) args) = fill (op_path op) es then [] else fill (op_path op) es)"
    "hc_method rq = wr_method r" "hq_query rq = wr_query r" "hq_cookies rq = wr_cookies r"
    "hc_content_type rq = wr_content_type r" "hc_body rq = Some (wr_body r)" "hc_content_length rq = int (length (wr_body r))"
    using arrives_path [OF es(1) pl(2) un es(2)] by blast
  obtain es' esc where a: "routed_path (lib_normalize L) rq = (fill (op_path op) es', esc)" "length es' = params (op_path op)"
    "\<forall>e\<in>set es'. CHR ''/'' \<notin> set e" "map (path_param esc) es' = map Some args"
    using routed_args [OF N pl es(2,4) rq(2,3)] by blast
  have "api_decoders P op rq = Some x"
    using es(5) rq(5) sent_carries [OF s rq(7-9)] j L by (auto simp: call_library_def)
  then have "decode_operation (lib_decoders L) rq esc op es' = Some (operation_of op args x)"
    using L by (simp add: decode_operation_def a(4) those_map_Some call_library_def)
  then have "ogen_serve L sec E H rq w =
      ogen_operation (lib_security_text L) sec (secured op) (wr_cookies r) None (Some (operation_handler E H (operation_of op args x))) w" for sec E H w
    using a(1) document_path_served [OF es(3) a(2,3)] rq(4,6) by (simp add: ogen_serve_def)
  then show ?thesis using rq(1) by blast
qed

section \<open>A concrete call\<close>

text \<open>An encoder that escapes every byte, and JSON as \<open>GoJson\<close> has it.\<close>

definition demo_client :: api_client where
  "demo_client = \<lparr>cl_url = concat, cl_encode = (\<lambda>a. Inr (concat (map percent a))), cl_request_error = (\<lambda>_ _. None),
     cl_json = json_print, cl_security = (\<lambda>_. APIKey ''k'')\<rparr>"

definition demo_readers :: decoder_lib where
  "demo_readers = \<lparr>dl_json = json_parse, dl_media = Some, dl_query = map_of\<rparr>"

definition demo_server :: library where
  "demo_server = \<lparr>lib_normalize = Some, lib_decoders = api_decoders demo_readers, lib_security_text = error_text\<rparr>"

lemma hex_val_upper_hex: "d < 16 \<Longrightarrow> hex_val (upper_hex d) = Some d"
  by (auto simp: hex_val_def upper_hex_def byte_in_def)

lemma unescape_percent: "PathUnescape (concat (map percent a)) = Some a"
proof (induction a)
  case (Cons c a)
  have "(of_char c :: nat) div 16 < 16" "(of_char c :: nat) mod 16 < 16" by (intro less_mult_imp_div_less, simp) simp
  then show ?case using Cons by (simp add: percent_def hex_val_upper_hex)
qed simp

lemma percent_clean: "set (concat (map percent a)) \<inter> set ''/?#'' = {}"
proof -
  have hex: "upper_hex d \<notin> set ''/?#''" if "d < 16" for d
    using that by (auto simp: upper_hex_def char_of_eq_iff take_bit_eq_mod)
  have "upper_hex (of_char c div 16) \<notin> set ''/?#''" "upper_hex (of_char c mod 16) \<notin> set ''/?#''" for c
    by (rule hex, intro less_mult_imp_div_less, simp, rule hex, simp)
  then show ?thesis by (induction a) (simp_all add: percent_def)
qed

lemma demo_client_ok: "call_client demo_client"
  using percent_clean by (auto simp: call_client_def demo_client_def encodes_parameters_def unescape_percent)

lemma demo_server_ok: "call_library demo_server demo_readers"
  by (auto simp: call_library_def demo_server_def demo_readers_def keeps_segments_def same_segment_def reads_query_def list.rel_refl)

theorem client_call_served_witness:
  "\<exists>r rq. client_send demo_client (CallMkdir (Some \<lparr>mkdir_Path = ''/x''\<rparr>) ''a/b'') = Inr r \<and> arrives r = Some rq \<and>
    (\<forall>sec E H w. ogen_serve demo_server sec E H rq w =
       ogen_operation error_text sec True [(''mdrive_session'', ''k'')] None (Some (operation_handler E H (Change (ReqMkdir ''a/b'' ''/x'')))) w)"
proof -
  let ?call = "CallMkdir (Some \<lparr>mkdir_Path = ''/x''\<rparr>) ''a/b''"
  let ?v = "JObj [(''path'', JStr ''/x'')]"
  have j: "request_json ?call = Some ?v" by (simp add: body_defs)
  have "json_parse (json_print ?v) = Some ?v"
    by (subst json_parse_print) (simp_all add: valid_utf8_to_valid ascii_valid byte_in_def)
  then have b: "reads_back (cl_json demo_client) demo_readers (request_json ?call)"
    unfolding j by (simp add: reads_back_def demo_client_def demo_readers_def json_print.simps)
  obtain r where r: "client_send demo_client ?call = Inr r" "wr_cookies r = [(''mdrive_session'', ''k'')]"
    by (simp add: sendMkdir_def send_def with_body_def client_securityCookieAuth_def demo_client_def validCookieValueByte_def byte_in_def)
  have c: "called ?call = (OpMkdir, [''a/b''], no_payload\<lparr>pl_path := ''/x''\<rparr>)" by (simp add: opt_payload_def MkdirReq_payload_def)
  show ?thesis using client_call_served [OF demo_client_ok demo_server_ok b r(1) c] r
    by (auto simp: secured_def demo_server_def no_payload_def)
qed

end
