(* ===== verification/Spec2Isabelle.thy ===== *)
theory Spec2Isabelle
  imports RmMany Program Client
begin

text \<open>
  A verification library of mdrive, a file system over S3 behind an HTTP API (Go, \<open>src/internal\<close>).

  \<^bold>\<open>The program.\<close> A drive has a row, a storage configuration and a root directory. Inodes (\<open>core/node\<close>) are
  rows with a kind (file, directory, symlink, object, mount), a link count, a revision and inline content of at most 4096
  bytes; a directory's content is the JSON list of its entries. The file service (\<open>vfs\<close>) resolves paths through
  directories, symbolic links and mounts of other drives and changes the tree with the operations of \<open>core/node\<close>. Large
  files are S3 objects, uploaded with a token (\<open>upload\<close>); objects to delete become tombstones, and three jobs
  (\<open>app/gc\<close>) delete them, purge deleted drives and expire tokens. Requests come with a session cookie (\<open>auth\<close>),
  pass the CSRF filter and the handlers (\<open>app/apiserver\<close>), which ask OpenFGA (\<open>permission\<close>) before they act.

  \<^bold>\<open>The model.\<close> Operations are functions of a state-and-error monad over one record, \<open>world\<close> (theory
  \<open>World\<close>): the committed tables, the open transaction's tables, the resolver's cache, the Valkey keys, the S3
  objects, the OpenFGA tuples and a counter of draws. Errors are the values of \<open>errorx\<close> in the left summand; every
  call to a database, S3, Valkey or OpenFGA can fail through the environment \<open>env\<close>, which also gives identifiers,
  random bytes, the clock and AES-GCM. \<open>with_tx\<close> is \<open>entx.TxManager\<close>: a nested call joins, an error rolls back.
  The instants of inodes are rounded to the microsecond when they are stored, as their columns do; those of drives, users
  and tombstones are kept as given, and no property returns one. As in the code, statements go to the transaction of the context except the \<open>Get\<close> of inodes, which reads the
  committed tables. Node pointers a function updates in place are returned updated. One request runs at a time.

  \<^bold>\<open>Theories, in the order of the code.\<close>
  \<^item> \<open>Prelude\<close>: the monad, its laws and the collections of rules; lists, maps and words.
  \<^item> \<open>Errorx\<close> (errorx), \<open>GoJson\<close> (encoding/json and UTF-8 as the program uses them), \<open>Crypto\<close> (crypto).
  \<^item> \<open>NodeTypes\<close>, \<open>Inode\<close>, \<open>NodeRepo\<close>, \<open>NodeOp\<close> (core/node): data and codecs, methods of a node, the
    repository with its revision guard, the operations with their transactions; \<open>DirSize\<close>: how many entries fit.
  \<^item> \<open>UserSvc\<close> (core/user), \<open>DriveSvc\<close> (core/drive).
  \<^item> \<open>GoPath\<close>, \<open>Resolver\<close>, \<open>VfsRead\<close>, \<open>Vfs\<close>, \<open>VfsSpec\<close> (vfs): paths, resolution, the reading operations,
    the writing ones, what they achieve; \<open>RmTerm\<close>, \<open>RmMany\<close>: the recursion of rm -r and its revisions.
  \<^item> \<open>Upload\<close>, \<open>UploadSvc\<close> (upload, upload/s3), \<open>Tombs\<close>, \<open>Gc\<close> (app/gc), \<open>Perm\<close> (permission).
  \<^item> \<open>Session\<close>, \<open>Login\<close> (auth), \<open>Handlers\<close>, \<open>Http\<close> (app/apiserver), \<open>Boot\<close> (config, app, logx).
  \<^item> \<open>Router\<close>, \<open>Api\<close> (\<open>src/pkg/api\<close>, generated): the switch that routes a path, with the paths of the API's document as its
    reference; security, decoding and answer of an operation; and \<open>buildChain\<close> of apiserver/server.go, the whole server.
  \<^item> \<open>Codec\<close>, \<open>Bodies\<close>, \<open>Requests\<close>, \<open>Client\<close> (\<open>src/pkg/api\<close>, generated): the decoder of JSON objects all types share, the types of the
    request bodies, the server's decoders of queries and bodies, and the client with the way of its calls to the server.
  \<^item> \<open>Cli\<close> (cli): the commands gc and migrate; \<open>Program\<close>: the runs of the whole program.
  \<^item> \<open>Safe\<close>, \<open>SafeOps\<close>, \<open>SafeVfs\<close>, \<open>SafeSvc\<close>, \<open>Utf8\<close>, \<open>Reach\<close>: the invariant of the stored state.
  \<^item> \<open>Demo\<close>, \<open>DemoTree\<close>: an environment and two drives on which the properties are evaluated.

  \<^bold>\<open>What is shown.\<close>
  \<^item> Directories refine finite maps from names to references, with distinct names, and each node operation commits
    exactly its change or nothing; of two writers of one version the second fails.
  \<^item> \<open>leads\<close> (a list of names, from an inode of a drive), \<open>resolves\<close> (a path) and \<open>crosses\<close> (a path over
    drives) are inductive definitions of what a path means, over the lexical reading \<open>path_names\<close> and apart from
    the code's own path functions; the resolver computes them, within its bounds of 40 links and 32 mounts. The file service's operations are described through them, and they are atomic.
  \<^item> \<open>safe\<close> says an operation keeps the tables well formed and returns a well-formed result; it is proved for every
    operation of every service, so each state of the step relation \<open>runs\<close> (calls to the started server, jobs, changes of
    S3 and OpenFGA by others) has well-formed tables and inodes.
  \<^item> Requests that change state need the permissions the handlers ask for; what reading a path needs. Through the whole
    server, a change needs an allowed origin, a live session and these permissions. The router is the document's.
  \<^item> The decoders of request bodies are a reference decoder, each type is read back from what it writes, and a call of the
    generated client is served as the operation its caller means, with its arguments.
  \<^item> Sessions, login state, uploads, tombstones, purging, CSRF, error answers and the start of the program.

  \<^bold>\<open>Bounds and fuel.\<close> The resolver's recursion carries the code's own budgets, so it terminates as a function. Only
  rm -r recurses without a bound in the code; the model's fuel argument is enough when it exceeds the number of inodes
  (\<open>RmTerm.Rm_terminates\<close>), the result then does not depend on it. JSON decoding recurses on its input.

  \<^bold>\<open>Interfaces.\<close> Locales state what one component relies on: a codec with its inverse, the transaction manager, the
  garbage recorder, the token registry and others; each is interpreted on the model of the code that provides it.

  \<^bold>\<open>Not modelled.\<close> Concurrent requests, beyond the revision guard between two clients; the generated code of ent
  (its tables and validators are modelled); of ogen's, the responses with their codecs and
  the telemetry (jx, its path encoder and its reader of queries are parameters); viper, cobra, the HTTP server, mux and CORS; logging, except the
  choice of levels; atlas and the SQL it runs. AES-GCM, SHA and random sources, \<open>net/url\<close> beyond its escaping, \<open>strings.ToLower\<close>, time formats, the AWS
  SDK, Valkey, OpenFGA and the OIDC library are parameters with the documented behaviour the code relies on. The upload
  service is modelled with a path service, which \<open>app.New\<close> leaves nil. S3 objects are keys without bodies. OpenFGA's
  check of the form of tuples, and net/http's dropping of a cookie whose name is no token, have no branch.
\<close>

end
